(* ===== verification/Prelude.thy ===== *)
theory Prelude
  imports Main
    "HOL-Library.AList"
    "HOL-Library.Char_ord"
    "HOL-Library.List_Lexorder"
    "HOL-Library.Sublist"
begin

text \<open>
  The vocabulary the components share: Python dictionaries as insertion-ordered
  association lists, the parts of Python's \<open>str\<close> and \<open>int\<close> the scripts use, and the
  two interfaces every component is an instance of (a dictionary, and a machine whose
  reachable states keep an invariant).

  A \<open>string\<close> stands for the UTF-8 bytes of a Python \<open>str\<close>. White space, letter case and
  digits are those of ASCII: text outside ASCII is carried through unchanged.
\<close>

named_theorems dict_simps
named_theorems str_simps

section \<open>Characters of a text\<close>

text \<open>
  A slice of a Python text counts characters, not bytes: a continuation byte belongs to the
  character before it.
\<close>

definition is_ascii :: "char \<Rightarrow> bool" where
  "is_ascii c = (of_char c < (128::nat))"

definition continues :: "char \<Rightarrow> bool" where
  "continues c = (128 \<le> (of_char c :: nat) \<and> of_char c < (192::nat))"

text \<open>\<open>s[:n]\<close>\<close>

fun take_chars :: "nat \<Rightarrow> string \<Rightarrow> string" where
  "take_chars n [] = []"
| "take_chars n (c # cs) =
     (if continues c then c # take_chars n cs
      else case n of 0 \<Rightarrow> [] | Suc m \<Rightarrow> c # take_chars m cs)"

fun take_back :: "nat \<Rightarrow> string \<Rightarrow> string" where
  "take_back n [] = []"
| "take_back 0 (c # cs) = []"
| "take_back (Suc n) (c # cs) = c # take_back (if continues c then Suc n else n) cs"

text \<open>\<open>len(s)\<close>\<close>

definition length_chars :: "string \<Rightarrow> nat" where
  "length_chars s = length (filter (\<lambda>c. \<not> continues c) s)"

text \<open>\<open>s[max(0, len(s) - n):]\<close>\<close>

definition last_chars :: "nat \<Rightarrow> string \<Rightarrow> string" where
  "last_chars n s = rev (take_back n (rev s))"

lemma ascii_starts [simp]: "is_ascii c \<Longrightarrow> \<not> continues c"
  by (simp add: is_ascii_def continues_def)

lemma length_chars_Nil [simp]: "length_chars [] = 0"
  by (simp add: length_chars_def)

lemma take_chars_prefix [simp]: "prefix (take_chars n s) s"
  by (induction n s rule: take_chars.induct) (auto split: nat.splits)

lemma take_chars_ascii: "list_all is_ascii s \<Longrightarrow> take_chars n s = take n s"
  by (induction n s rule: take_chars.induct) (auto split: nat.splits)

lemma take_back_ascii: "list_all is_ascii s \<Longrightarrow> take_back n s = take n s"
  by (induction n s rule: take_back.induct) auto

lemma last_chars_ascii: "list_all is_ascii s \<Longrightarrow> last_chars n s = drop (length s - n) s"
  by (simp add: last_chars_def take_back_ascii rev_take)

section \<open>Dictionaries\<close>

type_synonym ('k, 'v) dict = "('k \<times> 'v) list"

definition dict_get :: "('k, 'v) dict \<Rightarrow> 'k \<Rightarrow> 'v option" where
  "dict_get d k = map_of d k"

text \<open>\<open>d[k] = v\<close>: an existing key keeps its place, a new one goes to the end.\<close>

definition dict_set :: "'k \<Rightarrow> 'v \<Rightarrow> ('k, 'v) dict \<Rightarrow> ('k, 'v) dict" where
  "dict_set k v d = AList.update k v d"

definition dict_pop :: "'k \<Rightarrow> ('k, 'v) dict \<Rightarrow> ('k, 'v) dict" where
  "dict_pop k d = AList.delete k d"

definition dict_keys :: "('k, 'v) dict \<Rightarrow> 'k list" where
  "dict_keys d = map fst d"

definition dict_wf :: "('k, 'v) dict \<Rightarrow> bool" where
  "dict_wf d = distinct (map fst d)"

locale dictionary =
  fixes get :: "'d \<Rightarrow> 'k \<Rightarrow> 'v option"
    and put :: "'k \<Rightarrow> 'v \<Rightarrow> 'd \<Rightarrow> 'd"
    and pop :: "'k \<Rightarrow> 'd \<Rightarrow> 'd"
    and keys :: "'d \<Rightarrow> 'k list"
    and wf :: "'d \<Rightarrow> bool"
  assumes get_put: "get (put k v d) k' = (if k' = k then Some v else get d k')"
    and get_pop: "get (pop k d) k' = (if k' = k then None else get d k')"
    and keys_get: "k \<in> set (keys d) \<longleftrightarrow> get d k \<noteq> None"
    and keys_put: "keys (put k v d) = (if get d k = None then keys d @ [k] else keys d)"
    and wf_keys: "wf d \<longleftrightarrow> distinct (keys d)"
    and wf_pop: "wf d \<Longrightarrow> wf (pop k d)"
begin

lemma wf_put: "wf d \<Longrightarrow> wf (put k v d)"
  using keys_get by (auto simp: wf_keys keys_put)

lemma set_keys_put: "set (keys (put k v d)) = insert k (set (keys d))"
  using keys_get by (auto simp: keys_put)

lemma put_put_commute: "k \<noteq> l \<Longrightarrow> get (put k v (put l w d)) = get (put l w (put k v d))"
  by (auto simp: get_put)

lemma put_frame: "k' \<noteq> k \<Longrightarrow> get (put k v d) k' = get d k'"
  by (simp add: get_put)

end

interpretation alist: dictionary dict_get dict_set dict_pop dict_keys dict_wf
proof unfold_locales
  show "dict_get (dict_set k v d) k' = (if k' = k then Some v else dict_get d k')"
    for k k' :: 'a and v :: 'b and d
    by (simp add: dict_get_def dict_set_def update_conv)
  show "dict_get (dict_pop k d) k' = (if k' = k then None else dict_get d k')"
    for k k' :: 'a and d :: "('a, 'b) dict"
    by (simp add: dict_get_def dict_pop_def delete_conv)
  show "k \<in> set (dict_keys d) \<longleftrightarrow> dict_get d k \<noteq> None" for k :: 'a and d :: "('a, 'b) dict"
    by (auto simp: dict_keys_def dict_get_def map_of_eq_None_iff)
  show "dict_keys (dict_set k v d)
      = (if dict_get d k = None then dict_keys d @ [k] else dict_keys d)"
    for k :: 'a and v :: 'b and d
    by (auto simp: dict_keys_def dict_set_def dict_get_def update_keys map_of_eq_None_iff)
  show "dict_wf d \<longleftrightarrow> distinct (dict_keys d)" for d :: "('a, 'b) dict"
    by (simp add: dict_wf_def dict_keys_def)
  show "dict_wf d \<Longrightarrow> dict_wf (dict_pop k d)" for d :: "('a, 'b) dict" and k
    by (simp add: dict_wf_def dict_pop_def distinct_delete)
qed

lemmas alist_laws [dict_simps] =
  alist.get_put alist.get_pop alist.keys_put alist.wf_put alist.wf_pop alist.set_keys_put

lemma dict_get_mem: "dict_get d k = Some v \<Longrightarrow> (k, v) \<in> set d"
  by (simp add: dict_get_def map_of_SomeD)

lemma dict_mem_get: "dict_wf d \<Longrightarrow> (k, v) \<in> set d \<Longrightarrow> dict_get d k = Some v"
  by (simp add: dict_get_def dict_wf_def)

lemma dict_get_iff_mem: "dict_wf d \<Longrightarrow> dict_get d k = Some v \<longleftrightarrow> (k, v) \<in> set d"
  using dict_get_mem dict_mem_get by fast

lemma dict_get_Nil [simp]: "dict_get [] k = None"
  by (simp add: dict_get_def)

lemma dict_get_Cons [simp]:
  "dict_get ((k, v) # d) k' = (if k' = k then Some v else dict_get d k')"
  by (simp add: dict_get_def)

lemma dict_wf_Nil [simp]: "dict_wf []"
  by (simp add: dict_wf_def)

lemma set_dict_set:
  "dict_wf d \<Longrightarrow> set (dict_set k v d) = insert (k, v) {p \<in> set d. fst p \<noteq> k}"
proof (intro set_eqI iffI)
  fix p assume wf: "dict_wf d"
  { assume "p \<in> set (dict_set k v d)"
    then have "dict_get (dict_set k v d) (fst p) = Some (snd p)"
      using wf by (simp add: dict_get_iff_mem alist.wf_put)
    with wf show "p \<in> insert (k, v) {p \<in> set d. fst p \<noteq> k}"
      by (cases p) (auto simp: alist.get_put dict_get_iff_mem split: if_splits) }
  { assume "p \<in> insert (k, v) {p \<in> set d. fst p \<noteq> k}"
    with wf have "dict_get (dict_set k v d) (fst p) = Some (snd p)"
      by (auto simp: alist.get_put dict_get_iff_mem)
    with wf show "p \<in> set (dict_set k v d)"
      by (simp add: dict_get_iff_mem alist.wf_put) }
qed

lemma set_map_filter: "y \<in> set (List.map_filter f xs) \<longleftrightarrow> (\<exists>x \<in> set xs. f x = Some y)"
  by (induction xs) (auto simp: map_filter_simps split: option.splits)

section \<open>Python strings\<close>

definition is_space :: "char \<Rightarrow> bool" where
  "is_space c = (let n = of_char c :: nat in 9 \<le> n \<and> n \<le> 13 \<or> 28 \<le> n \<and> n \<le> 32)"

definition is_digit :: "char \<Rightarrow> bool" where
  "is_digit c = (let n = of_char c :: nat in 48 \<le> n \<and> n \<le> 57)"

definition is_lower :: "char \<Rightarrow> bool" where
  "is_lower c = (let n = of_char c :: nat in 97 \<le> n \<and> n \<le> 122)"

definition is_upper :: "char \<Rightarrow> bool" where
  "is_upper c = (let n = of_char c :: nat in 65 \<le> n \<and> n \<le> 90)"

definition is_word_char :: "char \<Rightarrow> bool" where
  "is_word_char c = (is_lower c \<or> is_upper c \<or> is_digit c \<or> c = CHR ''_'')"

definition lstrip :: "string \<Rightarrow> string" where
  "lstrip s = dropWhile is_space s"

definition rstrip :: "string \<Rightarrow> string" where
  "rstrip s = rev (dropWhile is_space (rev s))"

definition strip :: "string \<Rightarrow> string" where
  "strip s = rstrip (lstrip s)"

definition to_lower :: "string \<Rightarrow> string" where
  "to_lower s = map (\<lambda>c. if is_upper c then char_of (of_char c + 32 :: nat) else c) s"

text \<open>\<open>re.sub(r"\<backslash>s+", " ", s)\<close>: every run of white space becomes one blank.\<close>

lemma length_dropWhile_Suc [termination_simp]: "length (dropWhile P xs) < Suc (length xs)"
  by (simp add: le_imp_less_Suc length_dropWhile_le)

fun squeeze :: "string \<Rightarrow> string" where
  "squeeze [] = []"
| "squeeze (c # cs) =
     (if is_space c then CHR '' '' # squeeze (dropWhile is_space cs) else c # squeeze cs)"

fun join :: "string \<Rightarrow> string list \<Rightarrow> string" where
  "join sep [] = []"
| "join sep [x] = x"
| "join sep (x # y # ys) = x @ sep @ join sep (y # ys)"

text \<open>\<open>s.split(sep, 1)\<close> on a one-character separator: the part before the first one, and
  the part after it when there is one.\<close>

definition split_once :: "char \<Rightarrow> string \<Rightarrow> string \<times> string option" where
  "split_once sep s =
     (case dropWhile (\<lambda>c. c \<noteq> sep) s of
        [] \<Rightarrow> (s, None)
      | _ # rest \<Rightarrow> (takeWhile (\<lambda>c. c \<noteq> sep) s, Some rest))"

fun split_on :: "char \<Rightarrow> string \<Rightarrow> string list" where
  "split_on sep [] = [[]]"
| "split_on sep (c # cs) =
     (if c = sep then [] # split_on sep cs
      else case split_on sep cs of [] \<Rightarrow> [[c]] | w # ws \<Rightarrow> (c # w) # ws)"

text \<open>\<open>s.split()\<close>: the maximal runs of characters that are not white space.\<close>

fun py_words_aux :: "string \<Rightarrow> string \<Rightarrow> string list" where
  "py_words_aux w [] = (if w = [] then [] else [rev w])"
| "py_words_aux w (c # cs) =
     (if is_space c then (if w = [] then py_words_aux [] cs else rev w # py_words_aux [] cs)
      else py_words_aux (c # w) cs)"

definition py_words :: "string \<Rightarrow> string list" where
  "py_words s = py_words_aux [] s"

text \<open>\<open>s.splitlines()\<close>: line boundaries are \<open>LF\<close>, \<open>CR\<close>, \<open>CR LF\<close>, \<open>VT\<close>, \<open>FF\<close> and the
  separators 28 to 30; a final boundary does not open another line.\<close>

definition is_linebreak :: "char \<Rightarrow> bool" where
  "is_linebreak c = (let n = of_char c :: nat in 10 \<le> n \<and> n \<le> 13 \<or> 28 \<le> n \<and> n \<le> 30)"

fun skip_lf :: "char \<Rightarrow> string \<Rightarrow> string" where
  "skip_lf c (d # ds) = (if of_char c = (13::nat) \<and> of_char d = (10::nat) then ds else d # ds)"
| "skip_lf c [] = []"

lemma length_skip_lf [termination_simp]: "length (skip_lf c cs) < Suc (length cs)"
  by (cases cs) auto

fun splitlines_aux :: "string \<Rightarrow> string \<Rightarrow> string list" where
  "splitlines_aux w [] = (if w = [] then [] else [rev w])"
| "splitlines_aux w (c # cs) =
     (if is_linebreak c then rev w # splitlines_aux [] (skip_lf c cs)
      else splitlines_aux (c # w) cs)"

definition splitlines :: "string \<Rightarrow> string list" where
  "splitlines s = splitlines_aux [] s"

text \<open>Reading in text mode turns every \<open>CR LF\<close> and lone \<open>CR\<close> into \<open>LF\<close>.\<close>

fun universal_newlines :: "string \<Rightarrow> string" where
  "universal_newlines [] = []"
| "universal_newlines (c # cs) =
     (if c = CHR 0x0D then CHR 0x0A # universal_newlines (skip_lf c cs) else c # universal_newlines cs)"

definition startswith :: "string \<Rightarrow> string \<Rightarrow> bool" where
  "startswith s p = prefix p s"

definition contains_str :: "string \<Rightarrow> string \<Rightarrow> bool" where
  "contains_str s p = list_ex (\<lambda>t. prefix p t) (suffixes s)"

lemma contains_str_code [code]:
  "contains_str [] p = (p = [])"
  "contains_str (c # cs) p = (prefix p (c # cs) \<or> contains_str cs p)"
  by (auto simp: contains_str_def)

lemma contains_Cons: "contains_str (x # xs) p \<longleftrightarrow> prefix p (x # xs) \<or> contains_str xs p"
  by (auto simp: contains_str_def)

lemma contains_Nil: "contains_str [] p \<longleftrightarrow> p = []"
  by (simp add: contains_str_def)

lemma contains_sublist: "contains_str s p \<longleftrightarrow> sublist p s"
  by (induction s) (auto simp: contains_Nil contains_Cons sublist_Cons_right)

text \<open>A configuration value without the quotes around it.\<close>

definition unquote :: "string \<Rightarrow> string" where
  "unquote v =
     (if 2 \<le> length v \<and> hd v = last v \<and> hd v \<in> {char_of (34::nat), char_of (39::nat)}
      then butlast (tl v) else v)"

section \<open>Decimal numerals\<close>

fun show_nat :: "nat \<Rightarrow> string" where
  "show_nat n = (if n < 10 then [char_of (48 + n)] else show_nat (n div 10) @ [char_of (48 + n mod 10)])"

declare show_nat.simps [simp del]

definition show_int :: "int \<Rightarrow> string" where
  "show_int i = (if i < 0 then CHR ''-'' # show_nat (nat (- i)) else show_nat (nat i))"

text \<open>The format specification \<open>0wd\<close>: zeros on the left up to width \<open>w\<close>.\<close>

definition zfill :: "nat \<Rightarrow> nat \<Rightarrow> string" where
  "zfill w n = replicate (w - length (show_nat n)) CHR ''0'' @ show_nat n"

definition digit_val :: "char \<Rightarrow> nat" where
  "digit_val c = of_char c - 48"

definition read_digits :: "string \<Rightarrow> nat" where
  "read_digits s = foldl (\<lambda>n c. 10 * n + digit_val c) 0 s"

text \<open>\<open>re.fullmatch(r"\<backslash>d+", s)\<close>.\<close>

definition all_digits :: "string \<Rightarrow> bool" where
  "all_digits s = (s \<noteq> [] \<and> list_all is_digit s)"

text \<open>In a pattern that ends in \<open>$\<close>, \<open>re.match\<close> also accepts one final line feed.\<close>

definition chop_newline :: "string \<Rightarrow> string" where
  "chop_newline s = (if s \<noteq> [] \<and> last s = char_of (10::nat) then butlast s else s)"

text \<open>\<open>int(s)\<close>: white space around, one sign, digits with single underscores between them.\<close>

fun digits_us :: "bool \<Rightarrow> string \<Rightarrow> bool" where
  "digits_us after_digit [] = after_digit"
| "digits_us after_digit (c # cs) =
     (if is_digit c then digits_us True cs
      else c = CHR ''_'' \<and> after_digit \<and> cs \<noteq> [] \<and> digits_us False cs)"

definition py_int :: "string \<Rightarrow> int option" where
  "py_int s =
     (let t = strip s;
          (neg, body) = (case t of [] \<Rightarrow> (False, t)
            | c # cs \<Rightarrow> if c = CHR ''-'' then (True, cs) else if c = CHR ''+'' then (False, cs) else (False, t))
      in if body \<noteq> [] \<and> digits_us False body
         then Some ((if neg then -1 else 1) * int (read_digits (filter (\<lambda>c. c \<noteq> CHR ''_'') body)))
         else None)"

text \<open>Printing and reading a numeral are inverse, also with leading zeros.\<close>

lemma digit_char:
  "n < 10 \<Longrightarrow> digit_val (char_of (48 + n)) = n"
  "n < 10 \<Longrightarrow> is_digit (char_of (48 + n))"
  by (simp_all add: digit_val_def is_digit_def)

lemma read_digits_snoc: "read_digits (s @ [c]) = 10 * read_digits s + digit_val c"
  by (simp add: read_digits_def)

lemma all_digits_snoc: "all_digits s \<Longrightarrow> is_digit c \<Longrightarrow> all_digits (s @ [c])"
  by (simp add: all_digits_def)

lemma show_nat_ok: "all_digits (show_nat n) \<and> read_digits (show_nat n) = n"
proof (induction n rule: show_nat.induct)
  case (1 n)
  show ?case
  proof (cases "n < 10")
    case True
    then show ?thesis
      by (simp add: show_nat.simps [of n] all_digits_def digit_char read_digits_def)
  next
    case False
    with 1 have ih: "all_digits (show_nat (n div 10))" "read_digits (show_nat (n div 10)) = n div 10"
      by auto
    have d: "n mod 10 < 10" by simp
    have e: "show_nat n = show_nat (n div 10) @ [char_of (48 + n mod 10)]"
      using False by (simp add: show_nat.simps [of n])
    show ?thesis
      unfolding e using ih digit_char [OF d] by (simp add: read_digits_snoc all_digits_snoc)
  qed
qed

lemma read_digits_zeros: "read_digits (replicate k CHR ''0'' @ s) = read_digits s"
  by (induction k) (simp_all add: read_digits_def digit_val_def)

lemma zfill_ok: "all_digits (zfill w n)" "read_digits (zfill w n) = n"
  using show_nat_ok [of n]
  by (auto simp: zfill_def read_digits_zeros all_digits_def list_all_iff is_digit_def)

lemma all_digits_no_newline: "all_digits s \<Longrightarrow> chop_newline s = s"
proof -
  assume a: "all_digits s"
  then have "is_digit (last s)" by (auto simp: all_digits_def list_all_iff)
  then have "last s \<noteq> char_of (10::nat)" by (auto simp: is_digit_def)
  then show ?thesis by (simp add: chop_newline_def)
qed

section \<open>Sums\<close>

text \<open>The errors and the results of a list of checks, each in order.\<close>

definition lefts :: "('a + 'b) list \<Rightarrow> 'a list" where
  "lefts rs = List.map_filter (\<lambda>r. case r of Inl x \<Rightarrow> Some x | Inr _ \<Rightarrow> None) rs"

definition rights :: "('a + 'b) list \<Rightarrow> 'b list" where
  "rights rs = List.map_filter (\<lambda>r. case r of Inl _ \<Rightarrow> None | Inr x \<Rightarrow> Some x) rs"

lemma lefts_length: "lefts rs = [] \<Longrightarrow> length (rights rs) = length rs"
  by (induction rs) (auto simp: lefts_def rights_def map_filter_simps split: sum.splits)

lemma mem_rights: "x \<in> set (rights rs) \<longleftrightarrow> Inr x \<in> set rs"
  by (induction rs) (auto simp: lefts_def rights_def map_filter_simps split: sum.splits)

lemma lefts_empty: "lefts xs = [] \<longleftrightarrow> (\<forall>x \<in> set xs. \<forall>m. x \<noteq> Inl m)"
  by (induction xs) (auto simp: lefts_def map_filter_simps split: sum.splits)

section \<open>Laws of the string operations\<close>

lemma is_space_blank [simp]: "is_space CHR '' ''"
  by (simp add: is_space_def)

lemma squeeze_eq_Nil [simp]: "squeeze s = [] \<longleftrightarrow> s = []"
  by (cases s) auto

lemma set_squeeze: "c \<in> set (squeeze s) \<Longrightarrow> is_space c \<Longrightarrow> c = CHR '' ''"
  by (induction s rule: squeeze.induct) (auto split: if_splits)

lemma set_strip_subset: "set (strip s) \<subseteq> set s"
  unfolding strip_def rstrip_def lstrip_def by (auto dest!: set_dropWhileD)

lemma dropWhile_rev_hd: "dropWhile P (rev xs) \<noteq> [] \<Longrightarrow> xs \<noteq> [] \<Longrightarrow>
    hd (rev (dropWhile P (rev xs))) = hd xs"
proof -
  assume ne: "dropWhile P (rev xs) \<noteq> []" "xs \<noteq> []"
  obtain ys where "xs = rev (dropWhile P (rev xs)) @ ys"
    by (metis rev_append rev_rev_ident takeWhile_dropWhile_id)
  with ne show ?thesis by (metis hd_append2 rev_is_Nil_conv)
qed

lemma strip_ends:
  assumes "strip s \<noteq> []"
  shows "\<not> is_space (hd (strip s))" "\<not> is_space (last (strip s))"
proof -
  let ?l = "dropWhile is_space s"
  from assms have r: "dropWhile is_space (rev ?l) \<noteq> []"
    by (simp add: strip_def rstrip_def lstrip_def)
  then have l: "?l \<noteq> []" by (metis dropWhile.simps(1) rev.simps(1))
  from hd_dropWhile [OF r] show "\<not> is_space (last (strip s))"
    by (simp add: strip_def rstrip_def lstrip_def last_rev)
  from hd_dropWhile [OF l] dropWhile_rev_hd [OF r l] show "\<not> is_space (hd (strip s))"
    by (simp add: strip_def rstrip_def lstrip_def)
qed

lemma strip_id:
  assumes "s = [] \<or> \<not> is_space (hd s) \<and> \<not> is_space (last s)"
  shows "strip s = s"
proof (cases "s = []")
  case False
  with assms have "\<not> is_space (hd s)" "\<not> is_space (hd (rev s))" by (simp_all add: hd_rev)
  moreover from this(1) False have "lstrip s = s" by (cases s) (simp_all add: lstrip_def)
  ultimately show ?thesis using False unfolding strip_def rstrip_def by (cases "rev s") auto
qed (simp add: strip_def rstrip_def lstrip_def)

section \<open>Machines and their reachable states\<close>

text \<open>
  A component is a set of initial states and a step relation. What every step keeps
  holds in every reachable state, and what every step only moves upwards in a preorder
  never falls along a run.
\<close>

inductive reachable_from :: "('s \<Rightarrow> bool) \<Rightarrow> ('s \<Rightarrow> 's \<Rightarrow> bool) \<Rightarrow> 's \<Rightarrow> bool"
  for start :: "'s \<Rightarrow> bool" and step :: "'s \<Rightarrow> 's \<Rightarrow> bool" where
  reach_start: "start s \<Longrightarrow> reachable_from start step s"
| reach_step: "reachable_from start step s \<Longrightarrow> step s t \<Longrightarrow> reachable_from start step t"

locale invariant_machine =
  fixes start :: "'s \<Rightarrow> bool"
    and step :: "'s \<Rightarrow> 's \<Rightarrow> bool"
    and inv :: "'s \<Rightarrow> bool"
  assumes start_inv: "start s \<Longrightarrow> inv s"
    and step_inv: "inv s \<Longrightarrow> step s t \<Longrightarrow> inv t"
begin

lemma reachable_inv: "reachable_from start step s \<Longrightarrow> inv s"
  by (induction rule: reachable_from.induct) (auto intro: start_inv step_inv)

lemma run_inv: "step\<^sup>*\<^sup>* s t \<Longrightarrow> inv s \<Longrightarrow> inv t"
  by (induction rule: rtranclp_induct) (auto intro: step_inv)

end

locale monotone_machine = invariant_machine start step inv
  for start :: "'s \<Rightarrow> bool" and step :: "'s \<Rightarrow> 's \<Rightarrow> bool" and inv :: "'s \<Rightarrow> bool" +
  fixes above :: "'s \<Rightarrow> 's \<Rightarrow> bool"
  assumes above_refl: "inv s \<Longrightarrow> above s s"
    and above_trans: "above s t \<Longrightarrow> above t u \<Longrightarrow> above s u"
    and step_above: "inv s \<Longrightarrow> step s t \<Longrightarrow> above s t"
begin

lemma run_above: "step\<^sup>*\<^sup>* s t \<Longrightarrow> inv s \<Longrightarrow> above s t"
proof (induction rule: rtranclp_induct)
  case base
  then show ?case by (rule above_refl)
next
  case (step t u)
  then have "inv t" by (auto intro: run_inv)
  with step show ?case by (auto intro: above_trans step_above)
qed

end

end
