(* ===== verification/Cycle.thy ===== *)
theory Cycle
  imports Prelude
begin

text \<open>
  The cycle check of the decision maps: the three-colour depth-first search of
  \<^verbatim>\<open>_detect_cycle\<close> in \<^verbatim>\<open>wayfind_runner.py\<close>. A graph is a dictionary from a node to its
  blockers. The recursive \<^verbatim>\<open>visit\<close> shares its colour table with every call, so the model
  passes the table along; recursion takes fuel, and \<open>detect_cycle_correct\<close> shows that the
  fuel given, one unit more than the number of nodes, is always enough.
\<close>

datatype color = White | Gray | Black

type_synonym 'n graph = "('n, 'n list) dict"
type_synonym 'n colors = "'n \<rightharpoonup> color"

definition blockers :: "'n graph \<Rightarrow> 'n \<Rightarrow> 'n list" where
  "blockers g n = (case dict_get g n of None \<Rightarrow> [] | Some bs \<Rightarrow> bs)"

definition paint :: "'n \<Rightarrow> color \<Rightarrow> 'n colors \<Rightarrow> 'n colors" where
  "paint n col c = c(n \<mapsto> col)"

fun visit :: "nat \<Rightarrow> 'n graph \<Rightarrow> 'n \<Rightarrow> 'n colors \<Rightarrow> (bool \<times> 'n colors) option"
and visit_each :: "nat \<Rightarrow> 'n graph \<Rightarrow> 'n list \<Rightarrow> 'n colors \<Rightarrow> (bool \<times> 'n colors) option" where
  "visit 0 g n c = None"
| "visit (Suc f) g n c =
     (case visit_each f g (blockers g n) ((paint n Gray c)) of
        None \<Rightarrow> None
      | Some (True, c') \<Rightarrow> Some (True, c')
      | Some (False, c') \<Rightarrow> Some (False, (paint n Black c')))"
| "visit_each f g [] c = Some (False, c)"
| "visit_each f g (x # xs) c =
     (case c x of
        None \<Rightarrow> visit_each f g xs c
      | Some Gray \<Rightarrow> Some (True, c)
      | Some White \<Rightarrow>
          (case visit f g x c of
             None \<Rightarrow> None
           | Some (True, c') \<Rightarrow> Some (True, c')
           | Some (False, c') \<Rightarrow> visit_each f g xs c')
      | Some Black \<Rightarrow> visit_each f g xs c)"

text \<open>The \<^verbatim>\<open>any(...)\<close> over the nodes: it stops at the first node whose visit finds a cycle.\<close>

fun visit_all :: "nat \<Rightarrow> 'n graph \<Rightarrow> 'n list \<Rightarrow> 'n colors \<Rightarrow> bool option" where
  "visit_all f g [] c = Some False"
| "visit_all f g (n # ns) c =
     (if c n = Some White then
        (case visit f g n c of
           None \<Rightarrow> None
         | Some (True, c') \<Rightarrow> Some True
         | Some (False, c') \<Rightarrow> visit_all f g ns c')
      else visit_all f g ns c)"

definition init_colors :: "'n graph \<Rightarrow> 'n colors" where
  "init_colors g = (\<lambda>n. if n \<in> set (dict_keys g) then Some White else None)"

definition detect_cycle :: "'n graph \<Rightarrow> bool option" where
  "detect_cycle g = visit_all (Suc (length g)) g (dict_keys g) (init_colors g)"

section \<open>What it decides\<close>

text \<open>The edges the search follows: from a node to those of its blockers that are nodes.\<close>

definition edges :: "'n graph \<Rightarrow> ('n \<times> 'n) set" where
  "edges g = {(n, b). n \<in> set (dict_keys g) \<and> b \<in> set (dict_keys g) \<and> b \<in> set (blockers g n)}"

definition whites :: "'n colors \<Rightarrow> 'n set" where
  "whites c = {n. c n = Some White}"

definition grays :: "'n colors \<Rightarrow> 'n set" where
  "grays c = {n. c n = Some Gray}"

definition blacks :: "'n colors \<Rightarrow> 'n set" where
  "blacks c = {n. c n = Some Black}"

text \<open>Finished nodes are closed under the edges and carry no cycle.\<close>

definition black_ok :: "'n graph \<Rightarrow> 'n colors \<Rightarrow> bool" where
  "black_ok g c \<longleftrightarrow> dom c = set (dict_keys g)
     \<and> edges g `` blacks c \<subseteq> blacks c \<and> acyclic (edges g \<inter> blacks c \<times> blacks c)"

lemma acyclic_add_source:
  assumes ac: "acyclic (E \<inter> B \<times> B)" and closed: "E `` B \<subseteq> B"
    and succ: "E `` {n} \<subseteq> B" and n: "n \<notin> B"
  shows "acyclic (E \<inter> insert n B \<times> insert n B)"
proof (rule acyclicI, rule allI, rule notI)
  fix x
  let ?F = "E \<inter> insert n B \<times> insert n B"
  assume cyc: "(x, x) \<in> ?F\<^sup>+"
  have stays: "(y, z) \<in> ?F\<^sup>+ \<Longrightarrow> z \<in> B \<and> (y \<in> B \<longrightarrow> (y, z) \<in> (E \<inter> B \<times> B)\<^sup>+)" for y z
  proof (induction rule: trancl_induct)
    case (base z)
    with succ closed show ?case by auto
  next
    case (step z w)
    then have "z \<in> B" "(z, w) \<in> E" by auto
    with closed have "w \<in> B" by auto
    with step show ?case by (auto intro: trancl_into_trancl)
  qed
  from stays [OF cyc] ac show False by (auto simp: acyclic_def)
qed

text \<open>
  One specification for both functions: the search returns what the graph says, keeps the
  finished part correct, and leaves the set of nodes being visited as it found it.
\<close>

definition sound_result :: "'n graph \<Rightarrow> 'n colors \<Rightarrow> bool \<times> 'n colors \<Rightarrow> bool" where
  "sound_result g c r \<longleftrightarrow>
     (if fst r then \<not> acyclic (edges g)
      else black_ok g (snd r) \<and> grays (snd r) = grays c \<and> blacks c \<subseteq> blacks (snd r)
        \<and> whites (snd r) \<subseteq> whites c)"

lemma color_sets_upd:
  "grays ((paint n Gray c)) = insert n (grays c)"
  "whites ((paint n Gray c)) = whites c - {n}"
  "c n \<noteq> Some Black \<Longrightarrow> blacks ((paint n Gray c)) = blacks c"
  "blacks ((paint n Black c)) = insert n (blacks c)"
  "grays ((paint n Black c)) = grays c - {n}"
  "whites ((paint n Black c)) = whites c - {n}"
  by (auto simp: paint_def grays_def whites_def blacks_def)

lemma paint_same [simp]: "paint n col c n = Some col"
  by (simp add: paint_def)

lemma dom_paint [simp]: "dom (paint n col c) = insert n (dom c)"
  by (simp add: paint_def)

lemma black_ok_gray: "black_ok g c \<Longrightarrow> c n = Some White \<Longrightarrow> black_ok g ((paint n Gray c))"
  by (auto simp: black_ok_def color_sets_upd)

lemma black_ok_finish:
  assumes ok: "black_ok g c" and n: "c n = Some Gray"
    and succ: "set (blockers g n) \<inter> dom c \<subseteq> blacks c"
  shows "black_ok g ((paint n Black c))"
proof -
  have nb: "n \<notin> blacks c" using n by (simp add: blacks_def)
  have dom: "dom c = set (dict_keys g)" using ok by (simp add: black_ok_def)
  have s: "edges g `` {n} \<subseteq> blacks c" using succ dom by (auto simp: edges_def)
  have "acyclic (edges g \<inter> insert n (blacks c) \<times> insert n (blacks c))"
    using ok s nb by (intro acyclic_add_source) (auto simp: black_ok_def)
  moreover have "edges g `` insert n (blacks c) \<subseteq> insert n (blacks c)"
    using ok s by (auto simp: black_ok_def)
  moreover have "dom ((paint n Black c)) = set (dict_keys g)" using dom n by auto
  ultimately show ?thesis by (simp add: black_ok_def color_sets_upd)
qed

text \<open>Every node being visited reaches the node the search stands on.\<close>

definition on_path :: "'n graph \<Rightarrow> 'n colors \<Rightarrow> 'n \<Rightarrow> bool" where
  "on_path g c n \<longleftrightarrow> (\<forall>y\<in>grays c. (y, n) \<in> (edges g)\<^sup>*)"

lemma gray_successor_cycle:
  assumes "on_path g c n" "x \<in> grays c" "(n, x) \<in> edges g"
  shows "\<not> acyclic (edges g)"
proof -
  have "(n, x) \<in> (edges g)\<^sup>+" "(x, n) \<in> (edges g)\<^sup>*"
    using assms by (auto simp: on_path_def)
  then have "(n, n) \<in> (edges g)\<^sup>+" by (rule trancl_rtrancl_trancl)
  then show ?thesis by (auto simp: acyclic_def)
qed

lemma on_path_gray:
  "on_path g c n \<Longrightarrow> on_path g ((paint n Gray c)) n"
  by (auto simp: on_path_def color_sets_upd)

lemma on_path_edge:
  assumes "on_path g c n" "(n, x) \<in> edges g"
  shows "on_path g c x"
  using assms unfolding on_path_def by (meson rtrancl.rtrancl_into_rtrancl)

lemma on_path_same: "grays c' = grays c \<Longrightarrow> on_path g c n \<Longrightarrow> on_path g c' n"
  by (simp add: on_path_def)

lemma sound_trans: "sound_result g c (False, d) \<Longrightarrow> sound_result g d r \<Longrightarrow> sound_result g c r"
  unfolding sound_result_def by (simp split: if_splits) blast

lemma sound_dom: "sound_result g c (False, d) \<Longrightarrow> black_ok g c \<Longrightarrow> dom d = dom c"
  by (simp add: sound_result_def black_ok_def)

lemma sound_finish:
  assumes ok: "black_ok g c" and n: "c n = Some White"
    and s: "sound_result g ((paint n Gray c)) (False, d)"
    and succ: "set (blockers g n) \<inter> dom c \<subseteq> blacks d"
  shows "sound_result g c (False, (paint n Black d)) \<and> n \<in> blacks ((paint n Black d))"
proof -
  from s n have dok: "black_ok g d" and gr: "grays d = insert n (grays c)"
    and bl: "blacks c \<subseteq> blacks d" and wh: "whites d \<subseteq> whites c"
    by (auto simp: sound_result_def color_sets_upd)
  have "d n = Some Gray" using gr by (auto simp: grays_def)
  moreover have "dom d = dom c" using ok dok by (simp add: black_ok_def)
  ultimately have "black_ok g ((paint n Black d))"
    using succ by (intro black_ok_finish [OF dok]) auto
  moreover have "n \<notin> grays c" using n by (simp add: grays_def)
  ultimately show ?thesis
    using gr bl wh by (auto simp: sound_result_def color_sets_upd)
qed

lemma visit_sound:
  "visit f g n c = Some r \<Longrightarrow> black_ok g c \<Longrightarrow> c n = Some White \<Longrightarrow> on_path g c n
     \<Longrightarrow> sound_result g c r \<and> (\<not> fst r \<longrightarrow> n \<in> blacks (snd r))"
  "visit_each f g xs c = Some r \<Longrightarrow> black_ok g c \<Longrightarrow> c n = Some Gray \<Longrightarrow> on_path g c n
     \<Longrightarrow> set xs \<inter> dom c \<subseteq> edges g `` {n}
     \<Longrightarrow> sound_result g c r \<and> (\<not> fst r \<longrightarrow> set xs \<inter> dom c \<subseteq> blacks (snd r))"
proof (induction f g n c and f g xs c arbitrary: r and r n rule: visit_visit_each.induct)
  case (2 f g n c)
  let ?c = "paint n Gray c"
  from "2.prems"(1) obtain b d where r': "visit_each f g (blockers g n) ?c = Some (b, d)"
    by (auto split: option.splits)
  have dom: "dom c = set (dict_keys g)" "n \<in> dom c" "dom ?c = dom c"
    using "2.prems"(2,3) by (auto simp: black_ok_def)
  have gn: "?c n = Some Gray" by simp
  have "set (blockers g n) \<inter> dom ?c \<subseteq> edges g `` {n}"
    using dom by (auto simp: edges_def)
  from "2.IH" [OF r' black_ok_gray [OF "2.prems"(2,3)] gn on_path_gray [OF "2.prems"(4)] this]
  have s: "sound_result g ?c (b, d)" and bk: "\<not> b \<Longrightarrow> set (blockers g n) \<inter> dom c \<subseteq> blacks d"
    unfolding dom(3) by simp_all
  show ?case
  proof (cases b)
    case True
    with "2.prems"(1) r' s show ?thesis by (auto simp: sound_result_def)
  next
    case False
    with "2.prems"(1) r' have r: "r = (False, (paint n Black d))" by simp
    from False s have "sound_result g ?c (False, d)" by simp
    with False bk sound_finish [OF "2.prems"(2,3)] show ?thesis unfolding r fst_conv snd_conv by blast
  qed
next
  case (4 f g x xs c)
  show ?case
  proof (cases "c x")
    case None
    then have "x \<notin> dom c" by auto
    with 4 None show ?thesis by auto
  next
    case (Some col)
    with "4.prems"(5) have e: "(n, x) \<in> edges g" by auto
    show ?thesis
    proof (cases col)
      case Gray
      then show ?thesis
        using Some "4.prems"(1) gray_successor_cycle [OF "4.prems"(4) _ e]
        by (auto simp: sound_result_def grays_def)
    next
      case Black
      with Some "4.prems" have "sound_result g c r \<and> (\<not> fst r \<longrightarrow> set xs \<inter> dom c \<subseteq> blacks (snd r))"
        by (intro "4.IH"(4)) auto
      with Some Black show ?thesis by (auto simp: sound_result_def blacks_def)
    next
      case White
      with Some "4.prems"(1) obtain b d where v: "visit f g x c = Some (b, d)"
        by (auto split: option.splits)
      have xw: "c x = Some White" using Some White by simp
      have sv: "sound_result g c (b, d)" "\<not> b \<Longrightarrow> x \<in> blacks d"
        using "4.IH"(2) [OF Some White v "4.prems"(2) xw on_path_edge [OF "4.prems"(4) e]]
        by simp_all
      show ?thesis
      proof (cases b)
        case True
        with xw v "4.prems"(1) sv show ?thesis by (auto simp: sound_result_def)
      next
        case False
        with sv have s: "sound_result g c (False, d)" and xb: "x \<in> blacks d" by simp_all
        from s have ok: "black_ok g d" and gr: "grays d = grays c" by (auto simp: sound_result_def)
        have dn: "d n = Some Gray" using gr "4.prems"(3) by (auto simp: grays_def)
        have r: "visit_each f g xs d = Some r" using xw v False "4.prems"(1) by simp
        have sub: "set xs \<inter> dom d \<subseteq> edges g `` {n}"
          using "4.prems"(5) sound_dom [OF s "4.prems"(2)] by auto
        have "sound_result g d r \<and> (\<not> fst r \<longrightarrow> set xs \<inter> dom d \<subseteq> blacks (snd r))"
          using "4.IH"(3) [OF Some White v refl _ r ok dn on_path_same [OF gr "4.prems"(4)] sub]
            False by simp
        with sound_trans [OF s, of r] have "sound_result g c r" "blacks d \<subseteq> blacks (snd r) \<or> fst r"
          "\<not> fst r \<longrightarrow> set xs \<inter> dom d \<subseteq> blacks (snd r)" by (auto simp: sound_result_def)
        with xb sound_dom [OF s "4.prems"(2)] show ?thesis by auto
      qed
    qed
  qed
qed (auto simp: sound_result_def)

section \<open>The fuel is enough\<close>

lemma visit_whites:
  "visit f g n c = Some (b, c') \<Longrightarrow> whites c' \<subseteq> whites c"
  "visit_each f g xs c = Some (b, c') \<Longrightarrow> whites c' \<subseteq> whites c"
proof (induction f g n c and f g xs c arbitrary: b c' and b c' rule: visit_visit_each.induct)
  case (2 f g n c)
  from "2.prems" obtain b0 d where v: "visit_each f g (blockers g n) (paint n Gray c) = Some (b0, d)"
    by (auto split: option.splits)
  then have "whites d \<subseteq> whites c" using "2.IH" [OF v] by (auto simp: color_sets_upd)
  moreover have "c' = d \<or> c' = paint n Black d" using "2.prems" v by (auto split: bool.splits)
  ultimately show ?case by (auto simp: color_sets_upd)
next
  case (4 f g x xs c)
  show ?case
  proof (cases "c x = Some White")
    case True
    with "4.prems" obtain b0 d where v: "visit f g x c = Some (b0, d)"
      by (auto split: option.splits)
    have d: "whites d \<subseteq> whites c" using "4.IH"(2) [OF True refl v] .
    show ?thesis
    proof (cases b0)
      case True
      with v \<open>c x = Some White\<close> "4.prems" d show ?thesis by simp
    next
      case False
      with v \<open>c x = Some White\<close> "4.prems" have "visit_each f g xs d = Some (b, c')" by simp
      with "4.IH"(3) [OF \<open>c x = Some White\<close> refl v refl] False d show ?thesis by auto
    qed
  next
    case False
    with "4.prems" "4.IH"(1,4) show ?thesis by (auto split: option.splits color.splits)
  qed
qed auto

lemma visit_enough:
  "finite (whites c) \<Longrightarrow> card (whites c) \<le> f \<Longrightarrow> c n = Some White \<Longrightarrow> \<exists>r. visit f g n c = Some r"
  "finite (whites c) \<Longrightarrow> card (whites c) \<le> f \<Longrightarrow> \<exists>r. visit_each f g xs c = Some r"
proof (induction f g n c and f g xs c rule: visit_visit_each.induct)
  case (1 g n c)
  then show ?case by (auto simp: whites_def)
next
  case (2 f g n c)
  have "n \<in> whites c" using "2.prems"(3) by (simp add: whites_def)
  with "2.prems" have "card (whites ((paint n Gray c))) \<le> f"
    by (simp add: color_sets_upd)
  with "2.prems" obtain r where "visit_each f g (blockers g n) ((paint n Gray c)) = Some r"
    using "2.IH" by (auto simp: color_sets_upd)
  then show ?case by (cases r) (auto split: bool.splits)
next
  case (4 f g x xs c)
  { fix d assume w: "c x = Some White" "visit f g x c = Some (False, d)"
    then have "whites d \<subseteq> whites c" using visit_whites(1) [of f g x c False d] by simp
    with "4.prems" have "finite (whites d)" "card (whites d) \<le> f"
      by (auto intro: finite_subset card_mono le_trans)
    with "4.IH"(3) [OF w(1) refl w(2) refl] have "\<exists>r. visit_each f g xs d = Some r" by simp }
  with 4 show ?case by (auto split: option.splits color.splits bool.splits)
qed auto

lemma black_ok_init: "black_ok g (init_colors g)"
  by (auto simp: black_ok_def init_colors_def blacks_def acyclic_def split: if_splits)

lemma visit_all_correct:
  assumes "black_ok g c" "grays c = {}" "whites c \<subseteq> set ns" "finite (whites c)" "card (whites c) \<le> f"
  shows "visit_all f g ns c = Some (\<not> acyclic (edges g))"
  using assms
proof (induction ns arbitrary: c)
  case Nil
  have "dom c = blacks c"
  proof (rule set_eqI)
    fix y show "y \<in> dom c \<longleftrightarrow> y \<in> blacks c"
      using Nil.prems(2,3) by (cases "c y"; cases "the (c y)") (auto simp: whites_def grays_def blacks_def)
  qed
  moreover have "edges g \<subseteq> dom c \<times> dom c"
    using Nil.prems(1) by (auto simp: black_ok_def edges_def)
  ultimately have "edges g \<inter> blacks c \<times> blacks c = edges g" by auto
  with Nil.prems(1) show ?case by (simp add: black_ok_def)
next
  case (Cons n ns)
  show ?case
  proof (cases "c n = Some White")
    case False
    then have "n \<notin> whites c" by (simp add: whites_def)
    with Cons False show ?thesis by auto
  next
    case True
    obtain b d where v: "visit f g n c = Some (b, d)"
      using visit_enough(1) [OF Cons.prems(4,5) True, of g] by auto
    have "on_path g c n" using Cons.prems(2) by (simp add: on_path_def)
    from visit_sound(1) [OF v Cons.prems(1) True this]
    have s: "sound_result g c (b, d)" and nb: "\<not> b \<Longrightarrow> n \<in> blacks d" by simp_all
    show ?thesis
    proof (cases b)
      case True
      with s v \<open>c n = Some White\<close> show ?thesis by (simp add: sound_result_def)
    next
      case False
      with s nb have d: "black_ok g d" "grays d = {}" "whites d \<subseteq> whites c" "n \<notin> whites d"
        using Cons.prems(2) by (auto simp: sound_result_def blacks_def whites_def)
      then have "visit_all f g ns d = Some (\<not> acyclic (edges g))"
        using Cons.prems(3,4,5) card_mono [OF Cons.prems(4) d(3)]
        by (intro Cons.IH) (auto intro: finite_subset)
      with False v True show ?thesis by simp
    qed
  qed
qed

lemma detect_cycle_iff: "detect_cycle g = Some (\<not> acyclic (edges g))"
proof -
  have w: "whites (init_colors g) = set (dict_keys g)"
    by (auto simp: whites_def init_colors_def)
  have "card (set (dict_keys g)) \<le> Suc (length g)"
    using card_length [of "dict_keys g"] by (simp add: dict_keys_def)
  moreover have "grays (init_colors g) = {}" by (auto simp: grays_def init_colors_def)
  ultimately show ?thesis
    unfolding detect_cycle_def by (intro visit_all_correct black_ok_init) (simp_all add: w)
qed

text \<open>
  Claim C2. The search always returns, and answers whether the blocking relation, taken
  between the nodes of the graph, has a cycle.
\<close>

theorem detect_cycle_correct: "detect_cycle g = Some (\<not> acyclic (edges g))"
  by (rule detect_cycle_iff)

end
