(* ===== verification/Json.thy ===== *)
theory Json
  imports Prelude
begin

text \<open>
  What the scripts use of Python's \<^verbatim>\<open>json\<close> module: the values \<^verbatim>\<open>json.loads\<close> returns and
  \<^verbatim>\<open>json.loads\<close> itself, \<open>None\<close> standing for \<^verbatim>\<open>JSONDecodeError\<close>. A number that is not an
  integer is kept as its text. The parser recurses on fuel, one unit more than twice the length
  of the text: a nested value takes two units and at least one character of the text.
\<close>

datatype json =
    JNull
  | JBool bool
  | JInt int
  | JFloat string
  | JStr string
  | JList "json list"
  | JObj "(string \<times> json) list"

text \<open>Python's truth value. A float is zero when the digits before its exponent are.\<close>

definition falsy :: "json \<Rightarrow> bool" where
  "falsy j =
     (case j of
        JNull \<Rightarrow> True
      | JBool b \<Rightarrow> \<not> b
      | JInt i \<Rightarrow> i = 0
      | JFloat t \<Rightarrow> list_all (\<lambda>c. c \<in> {CHR ''0'', CHR ''.'', CHR ''-''}) (takeWhile (\<lambda>c. c \<notin> {CHR ''e'', CHR ''E''}) t)
      | JStr s \<Rightarrow> s = []
      | JList vs \<Rightarrow> vs = []
      | JObj kvs \<Rightarrow> kvs = [])"

definition falsy_opt :: "json option \<Rightarrow> bool" where
  "falsy_opt v = (case v of None \<Rightarrow> True | Some j \<Rightarrow> falsy j)"

text \<open>A value that can be a member of a set or a key of a dictionary.\<close>

definition hashable :: "json \<Rightarrow> bool" where
  "hashable j = (case j of JList _ \<Rightarrow> False | JObj _ \<Rightarrow> False | _ \<Rightarrow> True)"

definition is_json_space :: "char \<Rightarrow> bool" where
  "is_json_space c = (of_char c \<in> {9, 10, 13, 32 :: nat})"

definition skip_ws :: "string \<Rightarrow> string" where
  "skip_ws s = dropWhile is_json_space s"

text \<open>UTF-8 bytes of a code point.\<close>

definition utf8 :: "nat \<Rightarrow> string" where
  "utf8 n = map char_of
     (if n < 128 then [n]
      else if n < 2048 then [192 + n div 64, 128 + n mod 64]
      else if n < 65536 then [224 + n div 4096, 128 + n div 64 mod 64, 128 + n mod 64]
      else [240 + n div 262144, 128 + n div 4096 mod 64, 128 + n div 64 mod 64, 128 + n mod 64])"

definition hex_val :: "char \<Rightarrow> nat option" where
  "hex_val c = (let n = of_char c :: nat in
     if 48 \<le> n \<and> n \<le> 57 then Some (n - 48)
     else if 97 \<le> n \<and> n \<le> 102 then Some (n - 87)
     else if 65 \<le> n \<and> n \<le> 70 then Some (n - 55) else None)"

fun hex4 :: "string \<Rightarrow> nat option" where
  "hex4 (a # b # c # d # _) =
     (case (hex_val a, hex_val b, hex_val c, hex_val d) of
        (Some i, Some j, Some k, Some l) \<Rightarrow> Some (((i * 16 + j) * 16 + k) * 16 + l)
      | _ \<Rightarrow> None)"
| "hex4 _ = None"

text \<open>After \<^verbatim>\<open>\u\<close>: the code point and how many characters it took, a surrogate pair as one.\<close>

definition u_escape :: "string \<Rightarrow> (nat \<times> nat) option" where
  "u_escape s =
     (case hex4 s of
        None \<Rightarrow> None
      | Some n \<Rightarrow>
          (if 55296 \<le> n \<and> n < 56320 \<and> take 2 (drop 4 s) = [CHR 0x5C, CHR ''u''] then
             (case hex4 (drop 6 s) of
                Some m \<Rightarrow> if 56320 \<le> m \<and> m < 57344
                  then Some (65536 + (n - 55296) * 1024 + (m - 56320), 10) else Some (n, 4)
              | None \<Rightarrow> Some (n, 4))
           else Some (n, 4)))"

definition simple_escape :: "char \<Rightarrow> char option" where
  "simple_escape c =
     (if c \<in> {CHR 0x22, CHR 0x5C, CHR ''/''} then Some c
      else if c = CHR ''b'' then Some (char_of (8::nat))
      else if c = CHR ''f'' then Some (char_of (12::nat))
      else if c = CHR ''n'' then Some (char_of (10::nat))
      else if c = CHR ''r'' then Some (char_of (13::nat))
      else if c = CHR ''t'' then Some (char_of (9::nat)) else None)"

fun parse_str :: "string \<Rightarrow> string \<Rightarrow> (string \<times> string) option" where
  "parse_str acc [] = None"
| "parse_str acc (c # cs) =
     (if c = CHR 0x22 then Some (rev acc, cs)
      else if (of_char c :: nat) < 32 then None
      else if c = CHR 0x5C then
        (case cs of
           [] \<Rightarrow> None
         | e # es \<Rightarrow>
             (case simple_escape e of
                Some ch \<Rightarrow> parse_str (ch # acc) es
              | None \<Rightarrow>
                  (if e = CHR ''u'' then
                     (case u_escape es of
                        None \<Rightarrow> None
                      | Some (n, k) \<Rightarrow> parse_str (rev (utf8 n) @ acc) (drop k es))
                   else None)))
      else parse_str (c # acc) cs)"

text \<open>The number token: integer part, optional fraction, optional exponent.\<close>

definition num_frac :: "string \<Rightarrow> string" where
  "num_frac s = (case s of
     c # cs \<Rightarrow> if c = CHR ''.'' \<and> takeWhile is_digit cs \<noteq> [] then c # takeWhile is_digit cs else []
   | [] \<Rightarrow> [])"

definition num_exp :: "string \<Rightarrow> string" where
  "num_exp s = (case s of
     c # cs \<Rightarrow>
       if c = CHR ''e'' \<or> c = CHR ''E'' then
         (let sg = (case cs of d # _ \<Rightarrow> if d = CHR ''+'' \<or> d = CHR ''-'' then [d] else [] | [] \<Rightarrow> []);
              ds = takeWhile is_digit (drop (length sg) cs)
          in if ds = [] then [] else c # sg @ ds)
       else []
   | [] \<Rightarrow> [])"

definition parse_number :: "string \<Rightarrow> (json \<times> string) option" where
  "parse_number s =
     (let sg = (case s of c # _ \<Rightarrow> if c = CHR ''-'' then [c] else [] | [] \<Rightarrow> []);
          ds = takeWhile is_digit (drop (length sg) s);
          int_part = (case ds of d # _ \<Rightarrow> if d = CHR ''0'' then [d] else ds | [] \<Rightarrow> []);
          rest = drop (length sg + length int_part) s;
          fr = num_frac rest;
          ex = num_exp (drop (length fr) rest)
      in if int_part = [] then None
         else if fr = [] \<and> ex = []
           then Some (JInt ((if sg = [] then 1 else -1) * int (read_digits int_part)), rest)
         else Some (JFloat (sg @ int_part @ fr @ ex), drop (length fr + length ex) rest))"

definition parse_const :: "string \<Rightarrow> (json \<times> string) option" where
  "parse_const s =
     (if prefix ''null'' s then Some (JNull, drop 4 s)
      else if prefix ''true'' s then Some (JBool True, drop 4 s)
      else if prefix ''false'' s then Some (JBool False, drop 5 s)
      else if prefix ''NaN'' s then Some (JFloat ''NaN'', drop 3 s)
      else if prefix ''Infinity'' s then Some (JFloat ''Infinity'', drop 8 s)
      else if prefix ''-Infinity'' s then Some (JFloat ''-Infinity'', drop 9 s)
      else None)"

fun parse_value :: "nat \<Rightarrow> string \<Rightarrow> (json \<times> string) option"
and parse_items :: "nat \<Rightarrow> string \<Rightarrow> (json list \<times> string) option"
and parse_members :: "nat \<Rightarrow> string \<Rightarrow> ((string \<times> json) list \<times> string) option" where
  "parse_value 0 s = None"
| "parse_value (Suc f) s =
     (case s of
        [] \<Rightarrow> None
      | c # cs \<Rightarrow>
          if c = CHR 0x22 then map_option (\<lambda>(t, r). (JStr t, r)) (parse_str [] cs)
          else if c = CHR ''['' then
            (if prefix '']'' (skip_ws cs) then Some (JList [], drop 1 (skip_ws cs))
             else map_option (\<lambda>(vs, r). (JList vs, r)) (parse_items f (skip_ws cs)))
          else if c = CHR ''{'' then
            (if prefix ''}'' (skip_ws cs) then Some (JObj [], drop 1 (skip_ws cs))
             else map_option (\<lambda>(ms, r). (JObj (foldl (\<lambda>d (k, v). dict_set k v d) [] ms), r))
               (parse_members f (skip_ws cs)))
          else (case parse_const s of Some r \<Rightarrow> Some r | None \<Rightarrow> parse_number s))"
| "parse_items 0 s = None"
| "parse_items (Suc f) s =
     (case parse_value f s of
        None \<Rightarrow> None
      | Some (v, r) \<Rightarrow>
          (case skip_ws r of
             [] \<Rightarrow> None
           | c # cs \<Rightarrow>
               if c = CHR '']'' then Some ([v], cs)
               else if c = CHR '','' then
                 map_option (\<lambda>(vs, r'). (v # vs, r')) (parse_items f (skip_ws cs))
               else None))"
| "parse_members 0 s = None"
| "parse_members (Suc f) s =
     (case s of
        [] \<Rightarrow> None
      | q # qs \<Rightarrow>
          if q \<noteq> CHR 0x22 then None
          else (case parse_str [] qs of
             None \<Rightarrow> None
           | Some (k, r) \<Rightarrow>
               (case skip_ws r of
                  [] \<Rightarrow> None
                | c # cs \<Rightarrow>
                    if c \<noteq> CHR '':'' then None
                    else (case parse_value f (skip_ws cs) of
                       None \<Rightarrow> None
                     | Some (v, r') \<Rightarrow>
                         (case skip_ws r' of
                            [] \<Rightarrow> None
                          | e # es \<Rightarrow>
                              if e = CHR ''}'' then Some ([(k, v)], es)
                              else if e = CHR '','' then
                                map_option (\<lambda>(ms, r''). ((k, v) # ms, r''))
                                  (parse_members f (skip_ws es))
                              else None)))))"

definition json_loads :: "string \<Rightarrow> json option" where
  "json_loads s =
     (case parse_value (Suc (2 * length s)) (skip_ws s) of
        Some (v, rest) \<Rightarrow> if skip_ws rest = [] then Some v else None
      | None \<Rightarrow> None)"

section \<open>Reading values\<close>

fun jget :: "string \<Rightarrow> json \<Rightarrow> json option" where
  "jget k (JObj ms) = dict_get ms k"
| "jget k _ = None"

definition is_obj :: "json \<Rightarrow> bool" where
  "is_obj j = (case j of JObj _ \<Rightarrow> True | _ \<Rightarrow> False)"

fun is_jstr :: "json \<Rightarrow> bool" where
  "is_jstr (JStr _) = True"
| "is_jstr _ = False"

section \<open>Values as text\<close>

text \<open>
  \<open>repr(s)\<close>: single quotes unless the text has one and no double quote; a backslash, the quote and
  the control characters are escaped.
\<close>

definition hex_digit :: "nat \<Rightarrow> char" where
  "hex_digit n = (if n < 10 then char_of (48 + n) else char_of (87 + n))"

definition repr_char :: "char \<Rightarrow> char \<Rightarrow> string" where
  "repr_char q c =
     (let n = of_char c :: nat
      in if c = q \<or> c = CHR 0x5C then [CHR 0x5C, c]
         else if n = 9 then [CHR 0x5C, CHR ''t''] else if n = 10 then [CHR 0x5C, CHR ''n'']
         else if n = 13 then [CHR 0x5C, CHR ''r'']
         else if n < 32 \<or> n = 127 then [CHR 0x5C, CHR ''x'', hex_digit (n div 16), hex_digit (n mod 16)]
         else [c])"

definition py_repr_str :: "string \<Rightarrow> string" where
  "py_repr_str s =
     (let q = (if CHR 0x27 \<in> set s \<and> CHR 0x22 \<notin> set s then CHR 0x22 else CHR 0x27)
      in q # concat (map (repr_char q) s) @ [q])"

fun py_repr :: "json \<Rightarrow> string" where
  "py_repr JNull = ''None''"
| "py_repr (JBool b) = (if b then ''True'' else ''False'')"
| "py_repr (JInt i) = show_int i"
| "py_repr (JFloat t) = t"
| "py_repr (JStr s) = py_repr_str s"
| "py_repr (JList vs) = ''['' @ join '', '' (map py_repr vs) @ '']''"
| "py_repr (JObj kvs) = ''{'' @ join '', '' (map (\<lambda>(k, v). py_repr_str k @ '': '' @ py_repr v) kvs) @ ''}''"

text \<open>\<open>str(v)\<close>. A float is shown as it is written in the file.\<close>

definition py_str :: "json \<Rightarrow> string" where
  "py_str v = (case v of JStr s \<Rightarrow> s | _ \<Rightarrow> py_repr v)"

end
