(* ===== verification/Wayfind.thy ===== *)
theory Wayfind
  imports Cycle Json
begin

text \<open>
  The decision maps of \<^verbatim>\<open>wayfind_runner.py\<close>: the canonical state of a map, the guards and
  derived sets every operation uses, and identifier minting. The state is what
  \<^verbatim>\<open>create_wayfind_map\<close> writes and the later operations update: a JSON object with fixed
  keys, so a record here, with statuses and ticket types as enumerations. The two
  dictionaries keep insertion order.

  What a process takes from outside is the record \<open>wf_env\<close>: the clock, a fresh identifier,
  one environment variable, and the file system below the project directory.
\<close>

section \<open>Data\<close>

datatype ticket_type = Research | Prototype | Grilling | Task

datatype ticket_status = Open | Resolved | OutOfScope

datatype map_status = Charting | Active | Exhausted | HandedOff

datatype fog_status = FogOpen | Graduated | Retired

record resolution =
  res_gist :: "string option"
  res_path :: "string option"

record ticket =
  t_title :: string
  t_type :: ticket_type
  t_question :: string
  t_status :: ticket_status
  blocked_by :: "string list"
  claimed_by :: "string option"
  claimed_at :: "string option"
  created_at :: string
  resolved_at :: "string option"
  human_input_path :: "string option"
  t_resolution :: "resolution option"
  from_fog :: "string option"

record fog =
  fog_id :: string
  fog_text :: string
  fog_stat :: fog_status

record oos_entry =
  oos_reason :: string
  ruled_at :: string
  oos_ticket :: "string option"
  oos_fog :: "string option"
  oos_gist :: string

record ledger =
  started_at :: string
  non_research_resolved :: int
  l_claimed :: "string list"

record wstate =
  schema_version :: string
  backend :: string
  revision :: int
  map_id :: string
  slug :: string
  title :: string
  status :: map_status
  destination :: string
  map_notes :: string
  fogs :: "fog list"
  out_of_scope :: "oos_entry list"
  tickets :: "(string, ticket) dict"
  sessions :: "(string, ledger) dict"

record wf_env =
  clock :: "nat \<Rightarrow> string" \<comment> \<open>the readings of \<^verbatim>\<open>_now()\<close> within one operation, in order\<close>
  uuid_hex :: string
  env_cap :: "string option"
  cwd :: "string list"
  resolve_path :: "string list \<Rightarrow> string list" \<comment> \<open>\<^verbatim>\<open>Path.resolve\<close>: symbolic links and dots\<close>
  is_file :: "string list \<Rightarrow> bool"
  read_text :: "string list \<Rightarrow> string option" \<comment> \<open>\<open>None\<close>: \<^verbatim>\<open>OSError\<close>\<close>

definition SCHEMA_VERSION :: string where
  "SCHEMA_VERSION = ''1.0''"

text \<open>\<^verbatim>\<open>WAYFIND_TICKET_TYPES\<close>, as the check that a name is in it.\<close>

definition parse_ticket_type :: "string \<Rightarrow> ticket_type option" where
  "parse_ticket_type s =
     (if s = ''research'' then Some Research
      else if s = ''prototype'' then Some Prototype
      else if s = ''grilling'' then Some Grilling
      else if s = ''task'' then Some Task else None)"

definition is_hitl :: "ticket_type \<Rightarrow> bool" where
  "is_hitl ty = (ty = Prototype \<or> ty = Grilling)"

definition terminal_status :: "ticket_status \<Rightarrow> bool" where
  "terminal_status st = (st = Resolved \<or> st = OutOfScope)"

definition max_nonresearch_per_session :: "wf_env \<Rightarrow> int" where
  "max_nonresearch_per_session e =
     (case py_int (case env_cap e of None \<Rightarrow> ''0'' | Some v \<Rightarrow> v) of
        None \<Rightarrow> 0
      | Some n \<Rightarrow> max 0 n)"

definition oneline :: "string \<Rightarrow> string" where
  "oneline s = strip (squeeze s)"

text \<open>A value counts as true in Python when it is neither \<^verbatim>\<open>None\<close> nor the empty string.\<close>

definition truthy :: "string option \<Rightarrow> bool" where
  "truthy v = (v \<noteq> None \<and> v \<noteq> Some [])"

text \<open>\<^verbatim>\<open>_SLUG_RE.match\<close>: the final \<^verbatim>\<open>$\<close> of the pattern also matches before a last line feed.\<close>

definition slug_char :: "char \<Rightarrow> bool" where
  "slug_char c = (is_lower c \<or> is_digit c \<or> c = CHR ''-'')"

definition slug_match :: "string \<Rightarrow> bool" where
  "slug_match s = (let b = chop_newline s in
     1 \<le> length b \<and> length b \<le> 50 \<and> list_all slug_char b)"

section \<open>Errors\<close>

text \<open>
  The error results. A rejected argument (a message without a code) is \<open>BadArg\<close>; the
  other constructors are the messages that carry a \<^verbatim>\<open>code\<close>, which \<open>err_code\<close> gives. The
  arguments of a constructor are the values its message quotes.
\<close>

datatype text_arg = TitleArg | DestinationArg | QuestionArg | GistArg | ReasonArg | FogTextArg

datatype json_arg = FogJson | BlockedByJson | RisksJson

datatype missing = NoMap string | NoTicket string string | NoFog string string
  | NoOutOfScopeEntry string string

datatype bad_arg =
    InvalidSlug string
  | EmptyText text_arg
  | InvalidJson json_arg
  | WrongShape json_arg
  | FogEntryInvalid nat
  | InvalidTicketType string
  | UnknownBlocker json
  | FogUnknownOrNotOpen string
  | SelfBlock
  | SessionRequired
  | NothingToAmend
  | ExactlyOneRef

datatype wf_error =
    BadArg bad_arg
  | NotFound missing
  | DuplicateMap string
  | AlreadyHandedOff string
  | StaleRevision int int
  | WouldCycle string "string list"
  | RecursionLimit
  | TicketNotOpen string ticket_status
  | AlreadyClaimed string "string option"
  | TicketBlocked string "string list"
  | NotOwner string string "string option"
  | MissingInput string
  | MissingResolution string
  | AwaitingHuman string ticket_type
  | SessionLimit int
  | NotResolved string ticket_status
  | FogNotOpen string fog_status
  | AlreadyGraduated string fog_status
  | NotTerminal "string list"

definition err_code :: "wf_error \<Rightarrow> string option" where
  "err_code er = (case er of
     BadArg _ \<Rightarrow> None
   | NotFound _ \<Rightarrow> Some ''not_found''
   | DuplicateMap _ \<Rightarrow> Some ''duplicate''
   | AlreadyHandedOff _ \<Rightarrow> Some ''handed_off''
   | StaleRevision _ _ \<Rightarrow> Some ''stale_revision''
   | WouldCycle _ _ \<Rightarrow> Some ''cycle''
   | RecursionLimit \<Rightarrow> None
   | TicketNotOpen _ _ \<Rightarrow> Some ''not_open''
   | AlreadyClaimed _ _ \<Rightarrow> Some ''already_claimed''
   | TicketBlocked _ _ \<Rightarrow> Some ''blocked''
   | NotOwner _ _ _ \<Rightarrow> Some ''not_owner''
   | MissingInput _ \<Rightarrow> Some ''missing_input''
   | MissingResolution _ \<Rightarrow> Some ''missing_resolution''
   | AwaitingHuman _ _ \<Rightarrow> Some ''awaiting_human''
   | SessionLimit _ \<Rightarrow> Some ''session_limit''
   | NotResolved _ _ \<Rightarrow> Some ''not_resolved''
   | FogNotOpen _ _ \<Rightarrow> Some ''not_open''
   | AlreadyGraduated _ _ \<Rightarrow> Some ''already_graduated''
   | NotTerminal _ \<Rightarrow> Some ''not_terminal'')"

section \<open>Evidence files\<close>

text \<open>\<^verbatim>\<open>Path(rel)\<close> keeps the components that are neither empty nor a single dot.\<close>

definition path_parts :: "string \<Rightarrow> string list" where
  "path_parts p = filter (\<lambda>c. c \<noteq> [] \<and> c \<noteq> ''.'') (split_on CHR ''/'' p)"

definition map_dir_path :: "wf_env \<Rightarrow> string \<Rightarrow> string list" where
  "map_dir_path e sl = cwd e @ [''.map'', ''wayfind''] @ path_parts sl"

definition is_absolute :: "string \<Rightarrow> bool" where
  "is_absolute p = (p \<noteq> [] \<and> hd p = CHR ''/'')"

definition resolve_evidence_path :: "wf_env \<Rightarrow> string \<Rightarrow> string \<Rightarrow> string list option" where
  "resolve_evidence_path e sl rel =
     (if rel = [] then None
      else if is_absolute rel then None
      else
        let base = resolve_path e (map_dir_path e sl);
            candidate = resolve_path e (base @ path_parts rel)
        in if candidate \<noteq> base \<and> \<not> strict_prefix base candidate then None
           else if \<not> is_file e candidate then None
           else Some candidate)"

definition safe_read :: "wf_env \<Rightarrow> string list \<Rightarrow> string" where
  "safe_read e p = (case read_text e p of Some t \<Rightarrow> t | None \<Rightarrow> [])"

text \<open>The test both evidence gates make: a contained regular file that is not blank.\<close>

definition evidence_ok :: "wf_env \<Rightarrow> string \<Rightarrow> string \<Rightarrow> bool" where
  "evidence_ok e sl rel =
     (case resolve_evidence_path e sl rel of
        None \<Rightarrow> False
      | Some p \<Rightarrow> strip (safe_read e p) \<noteq> [])"

section \<open>Guards\<close>

definition revision_guard :: "wstate \<Rightarrow> int option \<Rightarrow> wf_error option" where
  "revision_guard st expected =
     (case expected of
        None \<Rightarrow> None
      | Some x \<Rightarrow> if revision st \<noteq> x then Some (StaleRevision x (revision st)) else None)"

definition mutation_guard :: "wstate \<Rightarrow> int option \<Rightarrow> wf_error option" where
  "mutation_guard st expected =
     (if status st = HandedOff then Some (AlreadyHandedOff (slug st))
      else revision_guard st expected)"

section \<open>Identifiers\<close>

text \<open>\<^verbatim>\<open>re.match(r"^T-(\d+)$", tid)\<close> and the number it captures.\<close>

definition id_number :: "char \<Rightarrow> string \<Rightarrow> nat option" where
  "id_number c s =
     (case s of
        a # b # rest \<Rightarrow>
          if a = c \<and> b = CHR ''-'' \<and> all_digits (chop_newline rest)
          then Some (read_digits (chop_newline rest)) else None
      | _ \<Rightarrow> None)"

definition next_number :: "char \<Rightarrow> string list \<Rightarrow> nat" where
  "next_number c ids =
     (let nums = List.map_filter (id_number c) ids in if nums = [] then 1 else Max (set nums) + 1)"

definition next_ticket_id :: "wstate \<Rightarrow> string" where
  "next_ticket_id st = ''T-'' @ zfill 3 (next_number CHR ''T'' (dict_keys (tickets st)))"

definition next_fog_id :: "wstate \<Rightarrow> string" where
  "next_fog_id st = ''F-'' @ show_nat (next_number CHR ''F'' (map fog_id (fogs st)))"

section \<open>Derived sets\<close>

definition ticket_blocked :: "wstate \<Rightarrow> ticket \<Rightarrow> bool" where
  "ticket_blocked st t =
     list_ex (\<lambda>bid. case dict_get (tickets st) bid of
                None \<Rightarrow> True
              | Some b \<Rightarrow> \<not> terminal_status (t_status b)) (blocked_by t)"

definition blocking_graph :: "wstate \<Rightarrow> (string \<times> string list) option \<Rightarrow> string graph" where
  "blocking_graph st override =
     (let g = map (\<lambda>(tid, t). (tid, blocked_by t)) (tickets st)
      in case override of None \<Rightarrow> g | Some (tid, bs) \<Rightarrow> dict_set tid bs g)"

definition active_claims :: "wstate \<Rightarrow> string list" where
  "active_claims st =
     map fst (filter (\<lambda>(tid, t). truthy (claimed_by t) \<and> \<not> terminal_status (t_status t)) (tickets st))"

definition open_fog :: "wstate \<Rightarrow> fog list" where
  "open_fog st = filter (\<lambda>f. fog_stat f = FogOpen) (fogs st)"

definition is_terminal :: "wstate \<Rightarrow> bool" where
  "is_terminal st =
     (if tickets st = [] then False
      else if list_ex (\<lambda>(tid, t). \<not> terminal_status (t_status t)) (tickets st) then False
      else if open_fog st \<noteq> [] then False
      else active_claims st = [])"

definition recompute_status :: "wstate \<Rightarrow> wstate" where
  "recompute_status st =
     (if status st = HandedOff then st
      else if is_terminal st then st\<lparr>status := Exhausted\<rparr>
      else if status st = Exhausted then st\<lparr>status := Active\<rparr>
      else st)"

definition new_ledger :: "string \<Rightarrow> ledger" where
  "new_ledger ts = \<lparr>started_at = ts, non_research_resolved = 0, l_claimed = []\<rparr>"

definition ensure_session :: "string \<Rightarrow> string \<Rightarrow> wstate \<Rightarrow> wstate \<times> ledger" where
  "ensure_session ts session st =
     (case dict_get (sessions st) session of
        Some l \<Rightarrow> (st, l)
      | None \<Rightarrow> (st\<lparr>sessions := dict_set session (new_ledger ts) (sessions st)\<rparr>, new_ledger ts))"

definition is_frontier :: "wstate \<Rightarrow> ticket \<Rightarrow> bool" where
  "is_frontier st t = (t_status t = Open \<and> \<not> truthy (claimed_by t) \<and> \<not> ticket_blocked st t)"

definition sorted_tickets :: "wstate \<Rightarrow> (string \<times> ticket) list" where
  "sorted_tickets st =
     List.map_filter (\<lambda>tid. map_option (Pair tid) (dict_get (tickets st) tid))
       (sort (dict_keys (tickets st)))"

definition frontier_tickets :: "wstate \<Rightarrow> (string \<times> ticket) list" where
  "frontier_tickets st = filter (\<lambda>(tid, t). is_frontier st t) (sorted_tickets st)"

definition mint_ticket ::
  "string \<Rightarrow> wstate \<Rightarrow> string \<Rightarrow> ticket_type \<Rightarrow> string \<Rightarrow> string list \<Rightarrow> string option \<Rightarrow> string \<times> wstate"
where
  "mint_ticket ts st ttl ty question bs fog0 =
     (let tid = next_ticket_id st;
          t = \<lparr>t_title = oneline ttl, t_type = ty, t_question = oneline question, t_status = Open,
               blocked_by = bs, claimed_by = None, claimed_at = None, created_at = ts,
               resolved_at = None, human_input_path = None, t_resolution = None,
               from_fog = (if truthy fog0 then fog0 else None)\<rparr>
      in (tid, st\<lparr>tickets := dict_set tid t (tickets st)\<rparr>))"

end
