(* ===== verification/Wayfind_Views.thy ===== *)
theory Wayfind_Views
  imports Wayfind
begin

text \<open>
  The human-readable projections of a decision map: \<^verbatim>\<open>map.md\<close>, one \<^verbatim>\<open>tickets/T-NNN.md\<close> per
  ticket, and \<^verbatim>\<open>handoff.md\<close>, as the lists of lines the renderers of \<^verbatim>\<open>wayfind_runner.py\<close>
  join. Text outside ASCII (the dash and the red circle of the badge) is spelled as its
  UTF-8 bytes.
\<close>

definition NL :: string where "NL = [CHR 0x0A]"

definition DASH :: string where "DASH = [CHR 0xE2, CHR 0x80, CHR 0x94]"

definition RED_CIRCLE :: string where "RED_CIRCLE = [CHR 0xF0, CHR 0x9F, CHR 0x94, CHR 0xB4]"

definition DO_NOT_EDIT_BANNER :: string where
  "DO_NOT_EDIT_BANNER = ''<!-- DO NOT EDIT '' @ DASH @ '' regenerated from state.json by wayfind_runner.py. ''
     @ ''Manual edits will be overwritten. -->''"

fun type_name :: "ticket_type \<Rightarrow> string" where
  "type_name Research = ''research''"
| "type_name Prototype = ''prototype''"
| "type_name Grilling = ''grilling''"
| "type_name Task = ''task''"

fun ticket_status_name :: "ticket_status \<Rightarrow> string" where
  "ticket_status_name Open = ''open''"
| "ticket_status_name Resolved = ''resolved''"
| "ticket_status_name OutOfScope = ''out_of_scope''"

fun map_status_name :: "map_status \<Rightarrow> string" where
  "map_status_name Charting = ''charting''"
| "map_status_name Active = ''active''"
| "map_status_name Exhausted = ''exhausted''"
| "map_status_name HandedOff = ''handed_off''"

text \<open>Python's \<^verbatim>\<open>a or b\<close> on strings, and \<^verbatim>\<open>d.get(k, "")\<close> or \<^verbatim>\<open>d.get(k) or b\<close> on optional ones.\<close>

definition or_else :: "string \<Rightarrow> string \<Rightarrow> string" where
  "or_else a b = (if a = [] then b else a)"

definition opt_or :: "string option \<Rightarrow> string \<Rightarrow> string" where
  "opt_or v b = (case v of None \<Rightarrow> b | Some s \<Rightarrow> or_else s b)"

definition ticket_gist :: "ticket \<Rightarrow> string" where
  "ticket_gist t = (case t_resolution t of None \<Rightarrow> [] | Some r \<Rightarrow> opt_or (res_gist r) [])"

definition ticket_res_path :: "ticket \<Rightarrow> string" where
  "ticket_res_path t = (case t_resolution t of None \<Rightarrow> [] | Some r \<Rightarrow> opt_or (res_path r) [])"

definition oos_ref :: "oos_entry \<Rightarrow> string" where
  "oos_ref en = opt_or (oos_ticket en) (opt_or (oos_fog en) [])"

definition ticket_badge :: "ticket \<Rightarrow> string" where
  "ticket_badge t =
     (if t_status t = Open \<and> truthy (claimed_by t) \<and> is_hitl (t_type t)
         \<and> \<not> truthy (human_input_path t)
      then '' '' @ DASH @ '' '' @ RED_CIRCLE @ '' AWAITING HUMAN'' else [])"

text \<open>A section body: the rendered entries, or one placeholder line.\<close>

definition or_placeholder :: "string list \<Rightarrow> string \<Rightarrow> string list" where
  "or_placeholder ls p = (if ls = [] then [p] else ls)"

definition decision_line :: "string \<times> ticket \<Rightarrow> string" where
  "decision_line = (\<lambda>(tid, t).
     ''- **'' @ tid @ ''** '' @ oneline (t_title t) @ '' '' @ DASH @ '' '' @ oneline (ticket_gist t)
     @ (if ticket_res_path t \<noteq> [] then ''  ([resolution]('' @ ticket_res_path t @ ''))'' else []))"

definition frontier_line :: "string \<times> ticket \<Rightarrow> string" where
  "frontier_line = (\<lambda>(tid, t).
     ''- **'' @ tid @ ''** ['' @ type_name (t_type t) @ ''] '' @ oneline (t_title t)
     @ '' '' @ DASH @ '' '' @ oneline (t_question t))"

definition pending_line :: "wstate \<Rightarrow> string \<times> ticket \<Rightarrow> string" where
  "pending_line st = (\<lambda>(tid, t).
     let blocked = ticket_blocked st t;
         claimed = truthy (claimed_by t);
         detail = join ''; ''
           ((if blocked then [''blocked by '' @ join '', '' (blocked_by t)] else [])
            @ (if claimed then [''claimed by `'' @ opt_or (claimed_by t) [] @ ''`''] else []))
     in ''- **'' @ tid @ ''** ['' @ type_name (t_type t) @ ''] '' @ oneline (t_title t)
        @ '' '' @ DASH @ '' '' @ detail @ ticket_badge t)"

definition is_pending :: "wstate \<Rightarrow> ticket \<Rightarrow> bool" where
  "is_pending st t =
     (t_status t = Open \<and> (ticket_blocked st t \<or> truthy (claimed_by t)))"

definition oos_line :: "string \<Rightarrow> string \<Rightarrow> string \<Rightarrow> string" where
  "oos_line gist reason ref =
     ''- '' @ oneline gist @ '' '' @ DASH @ '' '' @ oneline reason
     @ (if ref \<noteq> [] then '' (from '' @ ref @ '')'' else [])"

definition render_map_md :: "wstate \<Rightarrow> string" where
  "render_map_md st = join NL (
     [DO_NOT_EDIT_BANNER,
      ''# Wayfinding Map: '' @ oneline (title st),
      [],
      ''- **Slug:** `'' @ slug st @ ''`'',
      ''- **Status:** '' @ map_status_name (status st),
      ''- **Map ID:** `'' @ map_id st @ ''`'',
      ''- **Revision:** '' @ show_int (revision st),
      [],
      ''## Destination'', [],
      or_else (oneline (destination st)) ''_Not stated._'', [],
      ''## Notes'', [],
      or_else (oneline (map_notes st)) ''_None._'', [],
      ''## Decisions so far'', []]
     @ or_placeholder
         (map decision_line (filter (\<lambda>(tid, t). t_status t = Resolved) (sorted_tickets st)))
         ''_None yet._''
     @ [[], ''## Frontier (resolve next, one non-research at a time)'', []]
     @ or_placeholder (map frontier_line (frontier_tickets st)) ''_Empty._''
     @ [[], ''## Blocked / claimed'', []]
     @ or_placeholder
         (map (pending_line st) (filter (\<lambda>(tid, t). is_pending st t) (sorted_tickets st)))
         ''_None._''
     @ [[], ''## Fog of war (too vague to ticket yet)'', []]
     @ or_placeholder
         (map (\<lambda>f. ''- **'' @ fog_id f @ ''** '' @ oneline (fog_text f)) (open_fog st)) ''_None._''
     @ [[], ''## Out of scope'', []]
     @ or_placeholder
         (map (\<lambda>en. oos_line (oos_gist en) (oos_reason en) (oos_ref en)) (out_of_scope st))
         ''_None._''
     @ [[]])"

definition render_ticket_md :: "string \<Rightarrow> ticket \<Rightarrow> string" where
  "render_ticket_md tid t = join NL (
     [DO_NOT_EDIT_BANNER,
      ''# '' @ tid @ '': '' @ oneline (t_title t),
      [],
      ''- **Type:** '' @ type_name (t_type t),
      ''- **Status:** '' @ ticket_status_name (t_status t),
      ''- **Blocked by:** '' @ or_else (join '', '' (blocked_by t)) DASH,
      ''- **Claimed by:** '' @ opt_or (claimed_by t) DASH,
      ''- **From fog:** '' @ opt_or (from_fog t) DASH,
      ''- **Created:** '' @ created_at t,
      ''- **Resolved:** '' @ opt_or (resolved_at t) DASH,
      [],
      ''## Question'', [],
      oneline (t_question t),
      []]
     @ (case t_resolution t of
          None \<Rightarrow> []
        | Some r \<Rightarrow>
            if res_gist r = None \<and> res_path r = None then []
            else [''## Resolution'', [], oneline (ticket_gist t), [],
                  ''See `'' @ ticket_res_path t @ ''`.'', []])
     @ (if truthy (human_input_path t)
        then [''Human input recorded at `'' @ opt_or (human_input_path t) [] @ ''`.'', []] else []))"

section \<open>The handoff document\<close>

record decision =
  d_ticket_id :: string
  d_title :: string
  d_type :: ticket_type
  d_question :: string
  d_gist :: string
  d_resolution_path :: string

record handoff_oos =
  ho_gist :: string
  ho_reason :: string
  ho_ref :: string

record handoff =
  h_schema :: string
  h_slug :: string
  h_map_id :: string
  h_title :: string
  h_destination :: string
  generated_at :: string
  h_early :: bool
  decisions :: "decision list"
  h_out_of_scope :: "handoff_oos list"
  remaining_risks :: "string list"

definition decision_row :: "nat \<times> decision \<Rightarrow> string" where
  "decision_row = (\<lambda>(i, d).
     let link = (if d_resolution_path d \<noteq> []
                 then ''['' @ d_ticket_id d @ '']('' @ d_resolution_path d @ '')'' else d_ticket_id d)
     in ''| '' @ show_nat i @ '' | '' @ oneline (d_question d) @ '' | '' @ oneline (d_gist d)
        @ '' | '' @ link @ '' |'')"

definition render_handoff_md :: "handoff \<Rightarrow> string" where
  "render_handoff_md h = join NL (
     [''# Wayfinding Handoff: '' @ oneline (h_title h),
      [],
      ''- **Slug:** `'' @ h_slug h @ ''`'',
      ''- **Generated:** '' @ generated_at h,
      ''- **Early handoff:** '' @ (if h_early h then ''yes'' else ''no''),
      [],
      ''## Destination'', [],
      or_else (oneline (h_destination h)) ''_Not stated._'', [],
      ''## Decisions Made'', [],
      ''| # | Question | Decision | Resolution |'',
      ''|---|----------|----------|------------|'']
     @ or_placeholder (map decision_row (zip [1..<Suc (length (decisions h))] (decisions h)))
         (''| '' @ DASH @ '' | _No decisions resolved._ | | |'')
     @ [[], ''## Out of Scope'', []]
     @ or_placeholder
         (map (\<lambda>x. oos_line (ho_gist x) (ho_reason x) (ho_ref x)) (h_out_of_scope h)) ''_None._''
     @ [[], ''## Open Questions / Remaining Risks'', []]
     @ or_placeholder (map (\<lambda>r. ''- '' @ oneline r) (remaining_risks h)) ''_None._''
     @ [[], ''---'', [],
        ''Feed this into planning with `/map-plan --wayfind '' @ h_slug h @ ''` on a feature branch.'',
        []])"

end
