(* ===== verification/Wayfind_Ops.thy ===== *)
theory Wayfind_Ops
  imports Wayfind_Views
begin

text \<open>
  The operations of \<^verbatim>\<open>wayfind_runner.py\<close> on the directory \<^verbatim>\<open>.map/wayfind\<close>. A store maps the
  name of a map directory to the files the runner keeps there. Every mutating operation of
  the source has the same frame, \<open>mutate\<close>: load the state, apply a guard, run the
  operation's own checks and updates (its \<open>_body\<close>), save. The frame is written once; the
  bodies follow the source line by line.
\<close>

section \<open>Files\<close>

datatype state_doc = Doc wstate | Unreadable

datatype handoff_doc = HDoc handoff | HUnreadable

record map_dir =
  state_json :: "state_doc option"
  map_md :: "string option"
  ticket_mds :: "(string, string) dict"
  handoff_json :: "handoff_doc option"
  handoff_md :: "string option"

type_synonym store = "(string, map_dir) dict"

definition empty_dir :: map_dir where
  "empty_dir = \<lparr>state_json = None, map_md = None, ticket_mds = [], handoff_json = None, handoff_md = None\<rparr>"

definition dir_of :: "store \<Rightarrow> string \<Rightarrow> map_dir" where
  "dir_of s sl = (case dict_get s sl of None \<Rightarrow> empty_dir | Some d \<Rightarrow> d)"

definition state_path :: "string \<Rightarrow> string" where
  "state_path sl = ''.map/wayfind/'' @ sl @ ''/state.json''"

definition map_path :: "string \<Rightarrow> string" where
  "map_path sl = ''.map/wayfind/'' @ sl @ ''/map.md''"

definition handoff_path :: "string \<Rightarrow> string" where
  "handoff_path sl = ''.map/wayfind/'' @ sl @ ''/handoff.md''"

definition handoff_json_path :: "string \<Rightarrow> string" where
  "handoff_json_path sl = ''.map/wayfind/'' @ sl @ ''/handoff.json''"

definition load_state :: "store \<Rightarrow> string \<Rightarrow> wstate option" where
  "load_state s sl = (case state_json (dir_of s sl) of Some (Doc st) \<Rightarrow> Some st | _ \<Rightarrow> None)"

definition render_views :: "wstate \<Rightarrow> map_dir \<Rightarrow> map_dir" where
  "render_views st d = d\<lparr>
     map_md := Some (render_map_md st),
     ticket_mds := fold (\<lambda>(tid, t). dict_set tid (render_ticket_md tid t)) (tickets st) (ticket_mds d)\<rparr>"

definition save_state :: "wstate \<Rightarrow> store \<Rightarrow> wstate \<times> store" where
  "save_state st s =
     (let st' = st\<lparr>revision := revision st + 1\<rparr>;
          d = (dir_of s (slug st))\<lparr>state_json := Some (Doc st')\<rparr>
      in (st', dict_set (slug st) (render_views st' d) s))"

section \<open>Results\<close>

record summary =
  s_slug :: string
  s_title :: string
  s_status :: map_status
  s_revision :: int
  n_open :: nat
  n_blocked :: nat
  n_claimed :: nat
  n_resolved :: nat
  n_out_of_scope :: nat
  n_open_fog :: nat
  n_frontier :: nat
  handoff_eligible :: bool

datatype wf_ok =
    MapCreated string string string string nat
  | StatusList "summary list"
  | StatusOne summary
  | Handoffs "(string \<times> string \<times> string \<times> nat \<times> string) list"
  | TicketShown string ticket
  | TicketAdded string string int
  | BlockingWired string string "string list" int
  | TicketClaimed string string string bool int
  | TicketReleased string string int
  | HumanInputRecorded string string string int
  | TicketResolved string string bool int
  | ResolutionAmended string string "string option" "string option" bool int
  | OutOfScopeAmended string string string string bool int
  | Frontier string "(string \<times> string \<times> ticket_type \<times> string) list"
  | FogAdded string string int
  | FogGraduated string string string int
  | RuledOut string string int
  | HandoffEmitted string string string nat nat int

type_synonym wf_result = "(wf_error + wf_ok) \<times> store"

type_synonym wf_body = "wf_error + wstate \<times> (int \<Rightarrow> wf_ok)"

definition mutate ::
  "(wstate \<Rightarrow> int option \<Rightarrow> wf_error option) \<Rightarrow> string \<Rightarrow> int option \<Rightarrow> (wstate \<Rightarrow> wf_body)
     \<Rightarrow> store \<Rightarrow> wf_result" where
  "mutate guard sl expected body s =
     (case load_state s sl of
        None \<Rightarrow> (Inl (NotFound (NoMap sl)), s)
      | Some st \<Rightarrow>
          (case guard st expected of
             Some er \<Rightarrow> (Inl er, s)
           | None \<Rightarrow>
               (case body st of
                  Inl er \<Rightarrow> (Inl er, s)
                | Inr (st', mk) \<Rightarrow>
                    (let (st'', s') = save_state st' s in (Inr (mk (revision st'')), s')))))"

section \<open>Map lifecycle\<close>

fun fog_entries :: "nat \<Rightarrow> json list \<Rightarrow> bad_arg + fog list" where
  "fog_entries i [] = Inr []"
| "fog_entries i (v # vs) =
     (case v of
        JStr text \<Rightarrow>
          if strip text = [] then Inl (FogEntryInvalid (i - 1))
          else (case fog_entries (i + 1) vs of
             Inl er \<Rightarrow> Inl er
           | Inr fs \<Rightarrow>
               Inr (\<lparr>fog_id = ''F-'' @ show_nat i, fog_text = oneline text, fog_stat = FogOpen\<rparr> # fs))
      | _ \<Rightarrow> Inl (FogEntryInvalid (i - 1)))"

definition new_map ::
  "wf_env \<Rightarrow> string \<Rightarrow> string \<Rightarrow> string \<Rightarrow> string \<Rightarrow> fog list \<Rightarrow> wstate" where
  "new_map e sl ttl dest nts fs =
     \<lparr>schema_version = SCHEMA_VERSION, backend = ''local'', revision = 0, map_id = uuid_hex e,
      slug = sl, title = oneline ttl, status = Charting, destination = oneline dest,
      map_notes = oneline nts, fogs = fs, out_of_scope = [], tickets = [], sessions = []\<rparr>"

definition create_wayfind_map ::
  "wf_env \<Rightarrow> string \<Rightarrow> string \<Rightarrow> string \<Rightarrow> string \<Rightarrow> string \<Rightarrow> store \<Rightarrow> wf_result" where
  "create_wayfind_map e sl ttl dest nts fog_json s =
     (if \<not> slug_match sl then (Inl (BadArg (InvalidSlug sl)), s)
      else if oneline ttl = [] then (Inl (BadArg (EmptyText TitleArg)), s)
      else if oneline dest = [] then (Inl (BadArg (EmptyText DestinationArg)), s)
      else if state_json (dir_of s sl) \<noteq> None then (Inl (DuplicateMap sl), s)
      else
        (case json_loads (or_else fog_json ''[]'') of
           None \<Rightarrow> (Inl (BadArg (InvalidJson FogJson)), s)
         | Some (JList vs) \<Rightarrow>
             (case fog_entries 1 vs of
                Inl er \<Rightarrow> (Inl (BadArg er), s)
              | Inr fs \<Rightarrow>
                  (let (st, s') = save_state (new_map e sl ttl dest nts fs) s
                   in (Inr (MapCreated sl (map_id st) (state_path sl) (map_path sl) (length fs)), s')))
         | Some _ \<Rightarrow> (Inl (BadArg (WrongShape FogJson)), s)))"

definition status_summary :: "wstate \<Rightarrow> summary" where
  "status_summary st =
     (let open_ids = map fst (filter (\<lambda>(tid, t). t_status t = Open) (tickets st));
          blocked = filter (\<lambda>(tid, t). t_status t = Open \<and> ticket_blocked st t) (tickets st)
      in \<lparr>s_slug = slug st, s_title = title st, s_status = status st, s_revision = revision st,
          n_open = length open_ids,
          n_blocked = length blocked,
          n_claimed = length (active_claims st),
          n_resolved = length (filter (\<lambda>(tid, t). t_status t = Resolved) (tickets st)),
          n_out_of_scope = length (filter (\<lambda>(tid, t). t_status t = OutOfScope) (tickets st)),
          n_open_fog = length (open_fog st),
          n_frontier = length (frontier_tickets st),
          handoff_eligible = is_terminal st\<rparr>)"

definition wayfind_status :: "string option \<Rightarrow> store \<Rightarrow> wf_error + wf_ok" where
  "wayfind_status slo s =
     (case slo of
        None \<Rightarrow> Inr (StatusList (map status_summary
                  (List.map_filter (load_state s) (sort (dict_keys s)))))
      | Some sl \<Rightarrow>
          (case load_state s sl of
             None \<Rightarrow> Inl (NotFound (NoMap sl))
           | Some st \<Rightarrow> Inr (StatusOne (status_summary st))))"

definition list_handoffs :: "store \<Rightarrow> wf_error + wf_ok" where
  "list_handoffs s = Inr (Handoffs (List.map_filter
     (\<lambda>sl. case (load_state s sl, handoff_json (dir_of s sl)) of
        (Some st, Some (HDoc h)) \<Rightarrow>
          Some (slug st, title st, handoff_path sl, length (decisions h), generated_at h)
      | _ \<Rightarrow> None)
     (sort (dict_keys s))))"

definition show_ticket :: "string \<Rightarrow> string \<Rightarrow> store \<Rightarrow> wf_error + wf_ok" where
  "show_ticket sl tid s =
     (case load_state s sl of
        None \<Rightarrow> Inl (NotFound (NoMap sl))
      | Some st \<Rightarrow>
          (case dict_get (tickets st) tid of
             None \<Rightarrow> Inl (NotFound (NoTicket tid sl))
           | Some t \<Rightarrow> Inr (TicketShown tid t)))"

section \<open>Tickets\<close>

text \<open>The loop of \<^verbatim>\<open>_parse_blocked_by\<close>: known identifiers only, each once, in first-seen order.\<close>

fun collect_blockers :: "wstate \<Rightarrow> string list \<Rightarrow> json list \<Rightarrow> bad_arg + string list" where
  "collect_blockers st seen [] = Inr seen"
| "collect_blockers st seen (v # vs) =
     (case v of
        JStr bid \<Rightarrow>
          if dict_get (tickets st) bid = None then Inl (UnknownBlocker v)
          else collect_blockers st (if bid \<in> set seen then seen else seen @ [bid]) vs
      | _ \<Rightarrow> Inl (UnknownBlocker v))"

definition parse_blocked_by :: "wstate \<Rightarrow> string \<Rightarrow> bad_arg + string list" where
  "parse_blocked_by st txt =
     (case json_loads (or_else txt ''[]'') of
        None \<Rightarrow> Inl (InvalidJson BlockedByJson)
      | Some (JList vs) \<Rightarrow> collect_blockers st [] vs
      | Some _ \<Rightarrow> Inl (WrongShape BlockedByJson))"

definition add_ticket_body ::
  "wf_env \<Rightarrow> string \<Rightarrow> string \<Rightarrow> string \<Rightarrow> string \<Rightarrow> string \<Rightarrow> string \<Rightarrow> wstate \<Rightarrow> wf_body" where
  "add_ticket_body e sl ttl ty question bb fog0 st =
     (case parse_ticket_type ty of
        None \<Rightarrow> Inl (BadArg (InvalidTicketType ty))
      | Some ty' \<Rightarrow>
          if oneline ttl = [] then Inl (BadArg (EmptyText TitleArg))
          else if oneline question = [] then Inl (BadArg (EmptyText QuestionArg))
          else (case parse_blocked_by st bb of
             Inl er \<Rightarrow> Inl (BadArg er)
           | Inr bs \<Rightarrow>
               if fog0 \<noteq> [] \<and> \<not> list_ex (\<lambda>f. fog_id f = fog0 \<and> fog_stat f = FogOpen) (fogs st)
               then Inl (BadArg (FogUnknownOrNotOpen fog0))
               else
                 (let (tid, st1) = mint_ticket (clock e 0) st ttl ty' question bs (Some fog0)
                  in Inr (recompute_status st1, \<lambda>rev. TicketAdded sl tid rev))))"

definition add_ticket ::
  "wf_env \<Rightarrow> string \<Rightarrow> string \<Rightarrow> string \<Rightarrow> string \<Rightarrow> string \<Rightarrow> string \<Rightarrow> int option \<Rightarrow> store \<Rightarrow> wf_result"
where
  "add_ticket e sl ttl ty question bb fog0 expected =
     mutate mutation_guard sl expected (add_ticket_body e sl ttl ty question bb fog0)"

definition set_ticket :: "string \<Rightarrow> ticket \<Rightarrow> wstate \<Rightarrow> wstate" where
  "set_ticket tid t st = st\<lparr>tickets := dict_set tid t (tickets st)\<rparr>"

definition wire_blocking_body :: "string \<Rightarrow> string \<Rightarrow> string \<Rightarrow> wstate \<Rightarrow> wf_body" where
  "wire_blocking_body sl tid bb st =
     (case dict_get (tickets st) tid of
        None \<Rightarrow> Inl (NotFound (NoTicket tid sl))
      | Some t \<Rightarrow>
          (case parse_blocked_by st bb of
             Inl er \<Rightarrow> Inl (BadArg er)
           | Inr bs \<Rightarrow>
               if tid \<in> set bs then Inl (BadArg SelfBlock)
               else (case detect_cycle (blocking_graph st (Some (tid, bs))) of
                  None \<Rightarrow> Inl RecursionLimit
                | Some True \<Rightarrow> Inl (WouldCycle tid bs)
                | Some False \<Rightarrow>
                    Inr (recompute_status (set_ticket tid (t\<lparr>blocked_by := bs\<rparr>) st),
                         \<lambda>rev. BlockingWired sl tid bs rev))))"

definition wire_blocking :: "string \<Rightarrow> string \<Rightarrow> string \<Rightarrow> int option \<Rightarrow> store \<Rightarrow> wf_result" where
  "wire_blocking sl tid bb expected = mutate mutation_guard sl expected (wire_blocking_body sl tid bb)"

definition set_ledger :: "string \<Rightarrow> ledger \<Rightarrow> wstate \<Rightarrow> wstate" where
  "set_ledger session l st = st\<lparr>sessions := dict_set session l (sessions st)\<rparr>"

definition claim_ticket_body :: "wf_env \<Rightarrow> string \<Rightarrow> string \<Rightarrow> string \<Rightarrow> wstate \<Rightarrow> wf_body" where
  "claim_ticket_body e sl tid session st =
     (if session = [] then Inl (BadArg SessionRequired)
      else (case dict_get (tickets st) tid of
         None \<Rightarrow> Inl (NotFound (NoTicket tid sl))
       | Some t \<Rightarrow>
           if t_status t \<noteq> Open then Inl (TicketNotOpen tid (t_status t))
           else if truthy (claimed_by t) then Inl (AlreadyClaimed tid (claimed_by t))
           else if ticket_blocked st t then Inl (TicketBlocked tid (blocked_by t))
           else
             (let st1 = set_ticket tid (t\<lparr>claimed_by := Some session, claimed_at := Some (clock e 0)\<rparr>) st;
                  (st2, l) = ensure_session (clock e 1) session st1;
                  st3 = (if tid \<notin> set (l_claimed l)
                         then set_ledger session (l\<lparr>l_claimed := l_claimed l @ [tid]\<rparr>) st2 else st2);
                  st4 = (if status st3 = Charting then st3\<lparr>status := Active\<rparr> else st3)
              in Inr (recompute_status st4,
                      \<lambda>rev. TicketClaimed sl tid session (is_hitl (t_type t)) rev))))"

definition claim_ticket :: "wf_env \<Rightarrow> string \<Rightarrow> string \<Rightarrow> string \<Rightarrow> int option \<Rightarrow> store \<Rightarrow> wf_result" where
  "claim_ticket e sl tid session expected =
     mutate mutation_guard sl expected (claim_ticket_body e sl tid session)"

text \<open>\<^verbatim>\<open>ledger["claimed"].remove(ticket_id)\<close> when the session has a ledger that lists the ticket.\<close>

definition drop_claim :: "string \<Rightarrow> string \<Rightarrow> wstate \<Rightarrow> wstate" where
  "drop_claim session tid st =
     (case dict_get (sessions st) session of
        None \<Rightarrow> st
      | Some l \<Rightarrow>
          if tid \<in> set (l_claimed l)
          then set_ledger session (l\<lparr>l_claimed := remove1 tid (l_claimed l)\<rparr>) st else st)"

definition release_ticket_body :: "string \<Rightarrow> string \<Rightarrow> string \<Rightarrow> wstate \<Rightarrow> wf_body" where
  "release_ticket_body sl tid session st =
     (case dict_get (tickets st) tid of
        None \<Rightarrow> Inl (NotFound (NoTicket tid sl))
      | Some t \<Rightarrow>
          if claimed_by t \<noteq> Some session then Inl (NotOwner tid session (claimed_by t))
          else
            (let st1 = set_ticket tid (t\<lparr>claimed_by := None, claimed_at := None\<rparr>) st;
                 st2 = drop_claim session tid st1
             in Inr (recompute_status st2, \<lambda>rev. TicketReleased sl tid rev)))"

definition release_ticket :: "string \<Rightarrow> string \<Rightarrow> string \<Rightarrow> int option \<Rightarrow> store \<Rightarrow> wf_result" where
  "release_ticket sl tid session expected =
     mutate mutation_guard sl expected (release_ticket_body sl tid session)"

definition record_human_input_body ::
  "wf_env \<Rightarrow> string \<Rightarrow> string \<Rightarrow> string \<Rightarrow> string \<Rightarrow> wstate \<Rightarrow> wf_body" where
  "record_human_input_body e sl tid session path st =
     (case dict_get (tickets st) tid of
        None \<Rightarrow> Inl (NotFound (NoTicket tid sl))
      | Some t \<Rightarrow>
          if claimed_by t \<noteq> Some session then Inl (NotOwner tid session (claimed_by t))
          else if \<not> evidence_ok e sl path then Inl (MissingInput path)
          else Inr (set_ticket tid (t\<lparr>human_input_path := Some path\<rparr>) st,
                    \<lambda>rev. HumanInputRecorded sl tid path rev))"

definition record_human_input ::
  "wf_env \<Rightarrow> string \<Rightarrow> string \<Rightarrow> string \<Rightarrow> string \<Rightarrow> int option \<Rightarrow> store \<Rightarrow> wf_result" where
  "record_human_input e sl tid session path expected =
     mutate mutation_guard sl expected (record_human_input_body e sl tid session path)"

definition resolve_ticket_body ::
  "wf_env \<Rightarrow> string \<Rightarrow> string \<Rightarrow> string \<Rightarrow> string \<Rightarrow> string \<Rightarrow> wstate \<Rightarrow> wf_body" where
  "resolve_ticket_body e sl tid session gist path st =
     (case dict_get (tickets st) tid of
        None \<Rightarrow> Inl (NotFound (NoTicket tid sl))
      | Some t \<Rightarrow>
          if claimed_by t \<noteq> Some session then Inl (NotOwner tid session (claimed_by t))
          else if t_status t \<noteq> Open then Inl (TicketNotOpen tid (t_status t))
          else if oneline gist = [] then Inl (BadArg (EmptyText GistArg))
          else if \<not> evidence_ok e sl path then Inl (MissingResolution path)
          else if is_hitl (t_type t) \<and> \<not> truthy (human_input_path t)
            then Inl (AwaitingHuman tid (t_type t))
          else
            (let is_non_research = (t_type t \<noteq> Research);
                 (st1, l) = ensure_session (clock e 0) session st;
                 cap = max_nonresearch_per_session e
             in if is_non_research \<and> cap > 0 \<and> non_research_resolved l \<ge> cap
                then Inl (SessionLimit cap)
                else
                  (let st2 = set_ticket tid (t\<lparr>t_status := Resolved,
                               resolved_at := Some (clock e 1),
                               t_resolution := Some \<lparr>res_gist = Some (oneline gist), res_path = Some path\<rparr>,
                               claimed_by := None, claimed_at := None\<rparr>) st1;
                       l1 = (if tid \<in> set (l_claimed l)
                             then l\<lparr>l_claimed := remove1 tid (l_claimed l)\<rparr> else l);
                       l2 = (if is_non_research
                             then l1\<lparr>non_research_resolved := non_research_resolved l1 + 1\<rparr> else l1);
                       st3 = recompute_status (set_ledger session l2 st2)
                   in Inr (st3, \<lambda>rev. TicketResolved sl tid (is_terminal st3) rev))))"

definition resolve_ticket ::
  "wf_env \<Rightarrow> string \<Rightarrow> string \<Rightarrow> string \<Rightarrow> string \<Rightarrow> string \<Rightarrow> int option \<Rightarrow> store \<Rightarrow> wf_result" where
  "resolve_ticket e sl tid session gist path expected =
     mutate mutation_guard sl expected (resolve_ticket_body e sl tid session gist path)"

definition amend_resolution_body ::
  "wf_env \<Rightarrow> string \<Rightarrow> string \<Rightarrow> string option \<Rightarrow> string option \<Rightarrow> wstate \<Rightarrow> wf_body" where
  "amend_resolution_body e sl tid gist path st =
     (case dict_get (tickets st) tid of
        None \<Rightarrow> Inl (NotFound (NoTicket tid sl))
      | Some t \<Rightarrow>
          if t_status t \<noteq> Resolved then Inl (NotResolved tid (t_status t))
          else if gist = None \<and> path = None then Inl (BadArg NothingToAmend)
          else if (case gist of None \<Rightarrow> False | Some g \<Rightarrow> oneline g = [])
            then Inl (BadArg (EmptyText GistArg))
          else if (case path of None \<Rightarrow> False | Some p \<Rightarrow> \<not> evidence_ok e sl p)
            then Inl (MissingResolution (the path))
          else
            (let r0 = (case t_resolution t of None \<Rightarrow> \<lparr>res_gist = None, res_path = None\<rparr> | Some r \<Rightarrow> r);
                 r1 = (case gist of None \<Rightarrow> r0 | Some g \<Rightarrow> r0\<lparr>res_gist := Some (oneline g)\<rparr>);
                 r2 = (case path of None \<Rightarrow> r1 | Some p \<Rightarrow> r1\<lparr>res_path := Some p\<rparr>);
                 st1 = recompute_status (set_ticket tid (t\<lparr>t_resolution := Some r2\<rparr>) st)
             in Inr (st1, \<lambda>rev. ResolutionAmended sl tid (res_gist r2) (res_path r2)
                            (status st1 = HandedOff) rev)))"

definition amend_resolution ::
  "wf_env \<Rightarrow> string \<Rightarrow> string \<Rightarrow> string option \<Rightarrow> string option \<Rightarrow> int option \<Rightarrow> store \<Rightarrow> wf_result" where
  "amend_resolution e sl tid gist path expected =
     mutate revision_guard sl expected (amend_resolution_body e sl tid gist path)"

text \<open>\<^verbatim>\<open>next((x for x in xs if p(x)), None)\<close>, and the assignment to the object it returns.\<close>

fun update_first :: "('a \<Rightarrow> bool) \<Rightarrow> ('a \<Rightarrow> 'a) \<Rightarrow> 'a list \<Rightarrow> 'a list" where
  "update_first p f [] = []"
| "update_first p f (x # xs) = (if p x then f x # xs else x # update_first p f xs)"

definition amend_out_of_scope_body ::
  "string \<Rightarrow> string \<Rightarrow> string \<Rightarrow> string option \<Rightarrow> string option \<Rightarrow> wstate \<Rightarrow> wf_body" where
  "amend_out_of_scope_body sl tid fid reason gist st =
     (if (tid \<noteq> []) = (fid \<noteq> []) then Inl (BadArg ExactlyOneRef)
      else if reason = None \<and> gist = None then Inl (BadArg NothingToAmend)
      else
        (let ref = or_else tid fid;
             matches = (\<lambda>en. (if tid \<noteq> [] then oos_ticket en else oos_fog en) = Some ref)
         in case find matches (out_of_scope st) of
              None \<Rightarrow> Inl (NotFound (NoOutOfScopeEntry ref sl))
            | Some en \<Rightarrow>
                if (case reason of None \<Rightarrow> False | Some r \<Rightarrow> oneline r = [])
                then Inl (BadArg (EmptyText ReasonArg))
                else if (case gist of None \<Rightarrow> False | Some g \<Rightarrow> oneline g = [])
                then Inl (BadArg (EmptyText GistArg))
                else
                  (let en1 = (case reason of None \<Rightarrow> en | Some r \<Rightarrow> en\<lparr>oos_reason := oneline r\<rparr>);
                       en2 = (case gist of None \<Rightarrow> en1 | Some g \<Rightarrow> en1\<lparr>oos_gist := oneline g\<rparr>);
                       st1 = recompute_status
                         (st\<lparr>out_of_scope := update_first matches (\<lambda>_. en2) (out_of_scope st)\<rparr>)
                   in Inr (st1, \<lambda>rev. OutOfScopeAmended sl ref (oos_reason en2) (oos_gist en2)
                                 (status st1 = HandedOff) rev))))"

definition amend_out_of_scope ::
  "string \<Rightarrow> string \<Rightarrow> string \<Rightarrow> string option \<Rightarrow> string option \<Rightarrow> int option \<Rightarrow> store \<Rightarrow> wf_result" where
  "amend_out_of_scope sl tid fid reason gist expected =
     mutate revision_guard sl expected (amend_out_of_scope_body sl tid fid reason gist)"

definition wayfind_frontier :: "string \<Rightarrow> store \<Rightarrow> wf_error + wf_ok" where
  "wayfind_frontier sl s =
     (case load_state s sl of
        None \<Rightarrow> Inl (NotFound (NoMap sl))
      | Some st \<Rightarrow>
          Inr (Frontier sl (map (\<lambda>(tid, t). (tid, t_title t, t_type t, t_question t))
                 (frontier_tickets st))))"

section \<open>Fog and exclusions\<close>

definition add_fog_body :: "string \<Rightarrow> string \<Rightarrow> wstate \<Rightarrow> wf_body" where
  "add_fog_body sl text st =
     (if oneline text = [] then Inl (BadArg (EmptyText FogTextArg))
      else
        (let fid = next_fog_id st;
             st1 = st\<lparr>fogs := fogs st @ [\<lparr>fog_id = fid, fog_text = oneline text, fog_stat = FogOpen\<rparr>]\<rparr>
         in Inr (recompute_status st1, \<lambda>rev. FogAdded sl fid rev)))"

definition add_fog :: "string \<Rightarrow> string \<Rightarrow> int option \<Rightarrow> store \<Rightarrow> wf_result" where
  "add_fog sl text expected = mutate mutation_guard sl expected (add_fog_body sl text)"

definition set_fog_status :: "string \<Rightarrow> fog_status \<Rightarrow> wstate \<Rightarrow> wstate" where
  "set_fog_status fid fs st =
     st\<lparr>fogs := update_first (\<lambda>f. fog_id f = fid) (\<lambda>f. f\<lparr>fog_stat := fs\<rparr>) (fogs st)\<rparr>"

definition graduate_fog_body ::
  "wf_env \<Rightarrow> string \<Rightarrow> string \<Rightarrow> string \<Rightarrow> string \<Rightarrow> string \<Rightarrow> string \<Rightarrow> wstate \<Rightarrow> wf_body" where
  "graduate_fog_body e sl fid ttl ty question bb st =
     (case find (\<lambda>f. fog_id f = fid) (fogs st) of
        None \<Rightarrow> Inl (NotFound (NoFog fid sl))
      | Some f \<Rightarrow>
          if fog_stat f \<noteq> FogOpen then Inl (AlreadyGraduated fid (fog_stat f))
          else (case parse_ticket_type ty of
             None \<Rightarrow> Inl (BadArg (InvalidTicketType ty))
           | Some ty' \<Rightarrow>
               if oneline ttl = [] then Inl (BadArg (EmptyText TitleArg))
               else if oneline question = [] then Inl (BadArg (EmptyText QuestionArg))
               else (case parse_blocked_by st bb of
                  Inl er \<Rightarrow> Inl (BadArg er)
                | Inr bs \<Rightarrow>
                    (let (tid, st1) = mint_ticket (clock e 0) st ttl ty' question bs (Some fid);
                         st2 = set_fog_status fid Graduated st1
                     in Inr (recompute_status st2, \<lambda>rev. FogGraduated sl tid fid rev)))))"

definition graduate_fog ::
  "wf_env \<Rightarrow> string \<Rightarrow> string \<Rightarrow> string \<Rightarrow> string \<Rightarrow> string \<Rightarrow> string \<Rightarrow> int option \<Rightarrow> store \<Rightarrow> wf_result"
where
  "graduate_fog e sl fid ttl ty question bb expected =
     mutate mutation_guard sl expected (graduate_fog_body e sl fid ttl ty question bb)"

definition rule_out_of_scope_body ::
  "wf_env \<Rightarrow> string \<Rightarrow> string \<Rightarrow> string \<Rightarrow> string \<Rightarrow> string \<Rightarrow> wstate \<Rightarrow> wf_body" where
  "rule_out_of_scope_body e sl reason tid fid gist st =
     (if oneline reason = [] then Inl (BadArg (EmptyText ReasonArg))
      else if (tid \<noteq> []) = (fid \<noteq> []) then Inl (BadArg ExactlyOneRef)
      else if tid \<noteq> [] then
        (case dict_get (tickets st) tid of
           None \<Rightarrow> Inl (NotFound (NoTicket tid sl))
         | Some t \<Rightarrow>
             if terminal_status (t_status t) then Inl (TicketNotOpen tid (t_status t))
             else
               (let st1 = set_ticket tid (t\<lparr>t_status := OutOfScope, claimed_by := None,
                            claimed_at := None\<rparr>) st;
                    st2 = (if truthy (claimed_by t) then drop_claim (the (claimed_by t)) tid st1 else st1);
                    en = \<lparr>oos_reason = oneline reason, ruled_at = clock e 0, oos_ticket = Some tid,
                          oos_fog = None, oos_gist = or_else (oneline gist) (oneline (t_title t))\<rparr>
                in Inr (recompute_status (st2\<lparr>out_of_scope := out_of_scope st2 @ [en]\<rparr>),
                        \<lambda>rev. RuledOut sl tid rev)))
      else
        (case find (\<lambda>f. fog_id f = fid) (fogs st) of
           None \<Rightarrow> Inl (NotFound (NoFog fid sl))
         | Some f \<Rightarrow>
             if fog_stat f \<noteq> FogOpen then Inl (FogNotOpen fid (fog_stat f))
             else
               (let st1 = set_fog_status fid Retired st;
                    en = \<lparr>oos_reason = oneline reason, ruled_at = clock e 0, oos_ticket = None,
                          oos_fog = Some fid, oos_gist = or_else (oneline gist) (oneline (fog_text f))\<rparr>
                in Inr (recompute_status (st1\<lparr>out_of_scope := out_of_scope st1 @ [en]\<rparr>),
                        \<lambda>rev. RuledOut sl fid rev))))"

definition rule_out_of_scope ::
  "wf_env \<Rightarrow> string \<Rightarrow> string \<Rightarrow> string \<Rightarrow> string \<Rightarrow> string \<Rightarrow> int option \<Rightarrow> store \<Rightarrow> wf_result" where
  "rule_out_of_scope e sl reason tid fid gist expected =
     mutate mutation_guard sl expected (rule_out_of_scope_body e sl reason tid fid gist)"

section \<open>Handoff\<close>

definition open_item_labels :: "wstate \<Rightarrow> string list" where
  "open_item_labels st =
     map (\<lambda>(tid, t). tid @ '' ('' @ type_name (t_type t) @ '', ''
            @ (if truthy (claimed_by t) then ''claimed'' else ''open'') @ ''): '' @ t_title t)
       (filter (\<lambda>(tid, t). \<not> terminal_status (t_status t)) (sorted_tickets st))
     @ map (\<lambda>f. fog_id f @ '' (fog): '' @ fog_text f) (open_fog st)"

text \<open>\<^verbatim>\<open>all(isinstance(r, str) for r in remaining_risks)\<close> and the texts.\<close>

fun risk_texts :: "json list \<Rightarrow> string list option" where
  "risk_texts [] = Some []"
| "risk_texts (JStr r # vs) = map_option (\<lambda>rs. oneline r # rs) (risk_texts vs)"
| "risk_texts (_ # vs) = None"

definition handoff_decisions :: "wstate \<Rightarrow> decision list" where
  "handoff_decisions st =
     map (\<lambda>(tid, t). \<lparr>d_ticket_id = tid, d_title = t_title t, d_type = t_type t,
            d_question = t_question t, d_gist = ticket_gist t, d_resolution_path = ticket_res_path t\<rparr>)
       (filter (\<lambda>(tid, t). t_status t = Resolved) (sorted_tickets st))"

definition handoff_payload :: "wf_env \<Rightarrow> string \<Rightarrow> wstate \<Rightarrow> bool \<Rightarrow> string list \<Rightarrow> handoff" where
  "handoff_payload e sl st early risks =
     \<lparr>h_schema = SCHEMA_VERSION, h_slug = sl, h_map_id = map_id st, h_title = title st,
      h_destination = destination st, generated_at = clock e 0,
      h_early = (early \<and> \<not> is_terminal st),
      decisions = handoff_decisions st,
      h_out_of_scope = map (\<lambda>en. \<lparr>ho_gist = oos_gist en, ho_reason = oos_reason en, ho_ref = oos_ref en\<rparr>)
        (out_of_scope st),
      remaining_risks = risks\<rparr>"

definition write_handoff :: "string \<Rightarrow> handoff \<Rightarrow> store \<Rightarrow> store" where
  "write_handoff sl h s =
     dict_set sl ((dir_of s sl)\<lparr>handoff_json := Some (HDoc h), handoff_md := Some (render_handoff_md h)\<rparr>) s"

definition emit_wayfind_handoff ::
  "wf_env \<Rightarrow> string \<Rightarrow> string \<Rightarrow> bool \<Rightarrow> bool \<Rightarrow> int option \<Rightarrow> store \<Rightarrow> wf_result" where
  "emit_wayfind_handoff e sl risks_json early confirmed expected s =
     (case load_state s sl of
        None \<Rightarrow> (Inl (NotFound (NoMap sl)), s)
      | Some st \<Rightarrow>
          (case revision_guard st expected of
             Some er \<Rightarrow> (Inl er, s)
           | None \<Rightarrow>
               (case json_loads (or_else risks_json ''[]'') of
                  None \<Rightarrow> (Inl (BadArg (InvalidJson RisksJson)), s)
                | Some j \<Rightarrow>
                    (case (case j of JList vs \<Rightarrow> risk_texts vs | _ \<Rightarrow> None) of
                       None \<Rightarrow> (Inl (BadArg (WrongShape RisksJson)), s)
                     | Some risks \<Rightarrow>
                         if \<not> is_terminal st \<and> \<not> (early \<and> confirmed)
                         then (Inl (NotTerminal (open_item_labels st)), s)
                         else
                           (let risks1 = (if is_terminal st then risks
                                  else risks @ map (\<lambda>l. ''UNRESOLVED: '' @ l) (open_item_labels st));
                                h = handoff_payload e sl st early risks1;
                                s1 = write_handoff sl h s;
                                (st2, s2) = save_state (st\<lparr>status := HandedOff\<rparr>) s1
                            in (Inr (HandoffEmitted sl (handoff_path sl) (handoff_json_path sl)
                                  (length (decisions h)) (length risks1) (revision st2)), s2))))))"

section \<open>The command line\<close>

datatype wf_cmd =
    CreateMap string string string string string
  | Status "string option"
  | ListHandoffs
  | ShowTicket string string
  | AddTicket string string string string string string "int option"
  | WireBlocking string string string "int option"
  | ClaimTicket string string string "int option"
  | ReleaseTicket string string string "int option"
  | RecordHumanInput string string string string "int option"
  | ResolveTicket string string string string string "int option"
  | AmendResolution string string "string option" "string option" "int option"
  | AmendOutOfScope string string string "string option" "string option" "int option"
  | ShowFrontier string
  | AddFog string string "int option"
  | GraduateFog string string string string string string "int option"
  | RuleOutOfScope string string string string string "int option"
  | EmitHandoff string string bool bool "int option"

fun dispatch :: "wf_env \<Rightarrow> wf_cmd \<Rightarrow> store \<Rightarrow> wf_result" where
  "dispatch e (CreateMap sl ttl dest nts fj) s = create_wayfind_map e sl ttl dest nts fj s"
| "dispatch e (Status slo) s = (wayfind_status slo s, s)"
| "dispatch e ListHandoffs s = (list_handoffs s, s)"
| "dispatch e (ShowTicket sl tid) s = (show_ticket sl tid s, s)"
| "dispatch e (AddTicket sl ttl ty question bb fog0 x) s = add_ticket e sl ttl ty question bb fog0 x s"
| "dispatch e (WireBlocking sl tid bb x) s = wire_blocking sl tid bb x s"
| "dispatch e (ClaimTicket sl tid ses x) s = claim_ticket e sl tid ses x s"
| "dispatch e (ReleaseTicket sl tid ses x) s = release_ticket sl tid ses x s"
| "dispatch e (RecordHumanInput sl tid ses p x) s = record_human_input e sl tid ses p x s"
| "dispatch e (ResolveTicket sl tid ses g p x) s = resolve_ticket e sl tid ses g p x s"
| "dispatch e (AmendResolution sl tid g p x) s = amend_resolution e sl tid g p x s"
| "dispatch e (AmendOutOfScope sl tid fid r g x) s = amend_out_of_scope sl tid fid r g x s"
| "dispatch e (ShowFrontier sl) s = (wayfind_frontier sl s, s)"
| "dispatch e (AddFog sl txt x) s = add_fog sl txt x s"
| "dispatch e (GraduateFog sl fid ttl ty question bb x) s = graduate_fog e sl fid ttl ty question bb x s"
| "dispatch e (RuleOutOfScope sl r tid fid g x) s = rule_out_of_scope e sl r tid fid g x s"
| "dispatch e (EmitHandoff sl rj early conf x) s = emit_wayfind_handoff e sl rj early conf x s"

end
