(* ===== verification/Wayfind_Inv.thy ===== *)
theory Wayfind_Inv
  imports Wayfind_Ops
begin

text \<open>
  The invariant of a decision map and its preservation by every operation. It is split
  along the state: the tickets (identifiers, blockers, evidence of closed tickets), the
  agreement of claims with the session ledgers, the fog, and the map status.
\<close>

named_theorems wf_defs

section \<open>The invariant\<close>

definition ticket_ok :: "ticket \<Rightarrow> bool" where
  "ticket_ok t \<longleftrightarrow>
     (claimed_by t \<noteq> None \<longrightarrow> t_status t = Open \<and> truthy (claimed_by t))
   \<and> (t_status t = Resolved \<longrightarrow>
        (case t_resolution t of None \<Rightarrow> False | Some r \<Rightarrow> truthy (res_gist r) \<and> truthy (res_path r))
        \<and> (is_hitl (t_type t) \<longrightarrow> truthy (human_input_path t)))"

definition blocks :: "(string, ticket) dict \<Rightarrow> (string \<times> string) set" where
  "blocks T = {(tid, b). \<exists>t. dict_get T tid = Some t \<and> b \<in> set (blocked_by t)}"

definition tickets_ok :: "(string, ticket) dict \<Rightarrow> bool" where
  "tickets_ok T \<longleftrightarrow> dict_wf T
     \<and> (\<forall>tid t. dict_get T tid = Some t \<longrightarrow> ticket_ok t)
     \<and> (\<forall>tid b. (tid, b) \<in> blocks T \<longrightarrow> dict_get T b \<noteq> None)
     \<and> acyclic (blocks T)"

text \<open>A session's ledger lists exactly the tickets that session holds.\<close>

definition holds :: "(string, ledger) dict \<Rightarrow> string \<Rightarrow> string \<Rightarrow> bool" where
  "holds S session tid \<longleftrightarrow> (\<exists>l. dict_get S session = Some l \<and> tid \<in> set (l_claimed l))"

definition claims_ok :: "(string, ticket) dict \<Rightarrow> (string, ledger) dict \<Rightarrow> bool" where
  "claims_ok T S \<longleftrightarrow> dict_wf S
     \<and> (\<forall>session l. dict_get S session = Some l \<longrightarrow> distinct (l_claimed l))
     \<and> (\<forall>session tid. holds S session tid \<longleftrightarrow>
          (\<exists>t. dict_get T tid = Some t \<and> claimed_by t = Some session))"

definition status_ok :: "wstate \<Rightarrow> bool" where
  "status_ok st \<longleftrightarrow> (status st \<noteq> HandedOff \<longrightarrow> (status st = Exhausted \<longleftrightarrow> is_terminal st))"

definition core_ok :: "wstate \<Rightarrow> bool" where
  "core_ok st \<longleftrightarrow> tickets_ok (tickets st) \<and> claims_ok (tickets st) (sessions st)
     \<and> distinct (map fog_id (fogs st))"

definition wf_state :: "wstate \<Rightarrow> bool" where
  "wf_state st \<longleftrightarrow> core_ok st \<and> status_ok st"

section \<open>Frame facts of the state updates\<close>

lemma is_terminal_cong:
  "tickets a = tickets b \<Longrightarrow> fogs a = fogs b \<Longrightarrow> is_terminal a = is_terminal b"
  by (simp add: is_terminal_def open_fog_def active_claims_def)

lemma is_terminal_status [simp]: "is_terminal (st\<lparr>status := x\<rparr>) = is_terminal st"
  by (rule is_terminal_cong) simp_all

lemma recompute_frame [simp]:
  "tickets (recompute_status st) = tickets st" "sessions (recompute_status st) = sessions st"
  "fogs (recompute_status st) = fogs st" "slug (recompute_status st) = slug st"
  "revision (recompute_status st) = revision st" "out_of_scope (recompute_status st) = out_of_scope st"
  by (simp_all add: recompute_status_def)

lemma is_terminal_recompute [simp]: "is_terminal (recompute_status st) = is_terminal st"
  by (rule is_terminal_cong) simp_all

lemma recompute_handed_off [simp]:
  "status (recompute_status st) = HandedOff \<longleftrightarrow> status st = HandedOff"
  by (simp add: recompute_status_def)

lemma set_ticket_frame [simp]:
  "tickets (set_ticket tid t st) = dict_set tid t (tickets st)"
  "sessions (set_ticket tid t st) = sessions st" "fogs (set_ticket tid t st) = fogs st"
  "slug (set_ticket tid t st) = slug st" "revision (set_ticket tid t st) = revision st"
  "status (set_ticket tid t st) = status st" "out_of_scope (set_ticket tid t st) = out_of_scope st"
  by (simp_all add: set_ticket_def)

lemma set_ledger_frame [simp]:
  "sessions (set_ledger s l st) = dict_set s l (sessions st)"
  "tickets (set_ledger s l st) = tickets st" "fogs (set_ledger s l st) = fogs st"
  "slug (set_ledger s l st) = slug st" "revision (set_ledger s l st) = revision st"
  "status (set_ledger s l st) = status st" "out_of_scope (set_ledger s l st) = out_of_scope st"
  by (simp_all add: set_ledger_def)

lemma drop_claim_frame [simp]:
  "tickets (drop_claim s tid st) = tickets st" "fogs (drop_claim s tid st) = fogs st"
  "slug (drop_claim s tid st) = slug st" "revision (drop_claim s tid st) = revision st"
  "status (drop_claim s tid st) = status st" "out_of_scope (drop_claim s tid st) = out_of_scope st"
  by (simp_all add: drop_claim_def split: option.splits)

lemma set_fog_status_frame [simp]:
  "tickets (set_fog_status f x st) = tickets st" "sessions (set_fog_status f x st) = sessions st"
  "slug (set_fog_status f x st) = slug st" "revision (set_fog_status f x st) = revision st"
  "status (set_fog_status f x st) = status st"
  "out_of_scope (set_fog_status f x st) = out_of_scope st"
  by (simp_all add: set_fog_status_def)

lemma map_update_first: "(\<And>x. g (f x) = g x) \<Longrightarrow> map g (update_first p f xs) = map g xs"
  by (induction xs) auto

lemma set_fog_status_ids [simp]: "map fog_id (fogs (set_fog_status f x st)) = map fog_id (fogs st)"
  by (simp add: set_fog_status_def map_update_first)

lemma ensure_session_frame:
  assumes "ensure_session ts session st = (st', l)"
  shows "tickets st' = tickets st" "fogs st' = fogs st" "slug st' = slug st"
    "revision st' = revision st" "status st' = status st" "out_of_scope st' = out_of_scope st"
    "dict_get (sessions st') session = Some l"
    "s \<noteq> session \<Longrightarrow> dict_get (sessions st') s = dict_get (sessions st) s"
  using assms by (auto simp: ensure_session_def dict_simps split: option.splits)

lemma recompute_ok: "core_ok st \<Longrightarrow> wf_state (recompute_status st)"
  by (auto simp: wf_state_def status_ok_def core_ok_def)
    (auto simp: recompute_status_def split: if_splits)

section \<open>Tickets\<close>

lemma blocks_set:
  "blocks (dict_set tid t T) = {(x, b) \<in> blocks T. x \<noteq> tid} \<union> {tid} \<times> set (blocked_by t)"
  by (auto simp: blocks_def alist.get_put split: if_splits)

lemma tickets_ok_closed:
  "tickets_ok T \<Longrightarrow> dict_get T x = Some t \<Longrightarrow> b \<in> set (blocked_by t) \<Longrightarrow> dict_get T b \<noteq> None"
  unfolding tickets_ok_def blocks_def by blast

lemma tickets_ok_ticket: "tickets_ok T \<Longrightarrow> dict_get T x = Some t \<Longrightarrow> ticket_ok t"
  by (simp add: tickets_ok_def)

text \<open>An update that leaves the blockers alone keeps the blocking relation.\<close>

lemma blocks_same:
  "dict_get T tid = Some t \<Longrightarrow> blocked_by t' = blocked_by t \<Longrightarrow> blocks (dict_set tid t' T) = blocks T"
  by (auto simp: blocks_set) (auto simp: blocks_def)

lemma tickets_ok_update:
  assumes ok: "tickets_ok T" and t: "dict_get T tid = Some t"
    and t': "ticket_ok t'" "blocked_by t' = blocked_by t"
  shows "tickets_ok (dict_set tid t' T)"
proof -
  have "dict_wf (dict_set tid t' T)" using ok by (simp add: tickets_ok_def alist.wf_put)
  moreover have "acyclic (blocks (dict_set tid t' T))"
    using ok blocks_same [OF t t'(2)] by (simp add: tickets_ok_def)
  ultimately show ?thesis
    using ok t'(1) blocks_same [OF t t'(2)] by (simp add: tickets_ok_def alist.get_put)
qed

lemma tickets_ok_new:
  assumes ok: "tickets_ok T" and new: "dict_get T tid = None" and t: "ticket_ok t"
    and bs: "\<And>b. b \<in> set (blocked_by t) \<Longrightarrow> dict_get T b \<noteq> None"
  shows "tickets_ok (dict_set tid t T)"
proof -
  let ?E = "blocks (dict_set tid t T)" and ?B = "set (dict_keys T)"
  have old: "(x, b) \<in> blocks T \<Longrightarrow> x \<in> ?B \<and> b \<in> ?B" for x b
    using ok by (auto simp: tickets_ok_def blocks_def alist.keys_get)
  have n: "tid \<notin> ?B" using new by (simp add: alist.keys_get)
  have "?E \<inter> ?B \<times> ?B \<subseteq> blocks T" using n by (auto simp: blocks_set)
  then have "acyclic (?E \<inter> ?B \<times> ?B)"
    using ok by (auto simp: tickets_ok_def intro: acyclic_subset)
  moreover have "?E `` ?B \<subseteq> ?B" "?E `` {tid} \<subseteq> ?B"
    using old n bs by (auto simp: blocks_set alist.keys_get)
  ultimately have "acyclic (?E \<inter> insert tid ?B \<times> insert tid ?B)"
    using n by (intro acyclic_add_source)
  moreover have sub: "?E \<subseteq> insert tid ?B \<times> insert tid ?B"
    using old bs by (auto simp: blocks_set alist.keys_get)
  ultimately have "acyclic ?E" by (simp add: Int_absorb2)
  moreover have "(x, b) \<in> ?E \<Longrightarrow> dict_get (dict_set tid t T) b \<noteq> None" for x b
    using sub by (auto simp: alist.get_put alist.keys_get)
  ultimately show ?thesis
    using ok t by (auto simp: tickets_ok_def alist.wf_put alist.get_put)
qed

lemma dict_get_graph: "dict_get (map (\<lambda>(tid, t). (tid, blocked_by t)) T) k = map_option blocked_by (dict_get T k)"
  by (induction T) auto

text \<open>The graph the cycle check sees is the blocking relation after the update.\<close>

lemma edges_override:
  assumes ok: "tickets_ok (tickets st)" and t: "dict_get (tickets st) tid = Some t"
    and bs: "\<And>b. b \<in> set bs \<Longrightarrow> dict_get (tickets st) b \<noteq> None"
  shows "edges (blocking_graph st (Some (tid, bs))) = blocks (dict_set tid (t\<lparr>blocked_by := bs\<rparr>) (tickets st))"
proof -
  let ?g = "blocking_graph st (Some (tid, bs))" and ?T = "tickets st"
  have get: "dict_get ?g k = (if k = tid then Some bs else map_option blocked_by (dict_get ?T k))" for k
    by (simp add: blocking_graph_def alist.get_put dict_get_graph)
  have keys: "k \<in> set (dict_keys ?g) \<longleftrightarrow> dict_get ?T k \<noteq> None" for k
    using t by (simp add: alist.keys_get get)
  have "blocks (dict_set tid (t\<lparr>blocked_by := bs\<rparr>) ?T) = {(n, b). dict_get ?T n \<noteq> None \<and> b \<in> set (blockers ?g n)}"
    using t by (auto simp: blocks_set blockers_def get split: if_splits) (auto simp: blocks_def)
  moreover have "dict_get ?T b \<noteq> None" if "dict_get ?T n \<noteq> None" "b \<in> set (blockers ?g n)" for n b
    using that bs tickets_ok_closed [OF ok] by (fastforce simp: blockers_def get split: if_splits)
  ultimately show ?thesis unfolding edges_def keys by blast
qed

lemma tickets_ok_wire:
  assumes ok: "tickets_ok (tickets st)" and t: "dict_get (tickets st) tid = Some t"
    and bs: "\<And>b. b \<in> set bs \<Longrightarrow> dict_get (tickets st) b \<noteq> None"
    and nocycle: "detect_cycle (blocking_graph st (Some (tid, bs))) = Some False"
  shows "tickets_ok (dict_set tid (t\<lparr>blocked_by := bs\<rparr>) (tickets st))"
proof -
  let ?T' = "dict_set tid (t\<lparr>blocked_by := bs\<rparr>) (tickets st)"
  have "acyclic (blocks ?T')"
    using nocycle by (simp add: detect_cycle_iff edges_override [OF ok t bs])
  moreover have "ticket_ok (t\<lparr>blocked_by := bs\<rparr>)"
    using ok t by (auto simp: tickets_ok_def ticket_ok_def)
  moreover have "(x, b) \<in> blocks ?T' \<Longrightarrow> dict_get ?T' b \<noteq> None" for x b
    using ok bs by (auto simp: blocks_set tickets_ok_def alist.get_put)
  ultimately show ?thesis
    using ok by (auto simp: tickets_ok_def alist.wf_put alist.get_put)
qed


section \<open>Minted identifiers are new\<close>

lemma id_number_minted:
  "all_digits d \<Longrightarrow> id_number c (c # CHR ''-'' # d) = Some (read_digits d)"
  by (simp add: id_number_def all_digits_no_newline)

lemma next_number_above:
  assumes "s \<in> set ids" "id_number c s = Some n"
  shows "n < next_number c ids"
proof -
  let ?nums = "List.map_filter (id_number c) ids"
  have n: "n \<in> set ?nums" using assms by (auto simp: map_filter_def image_iff)
  then have "n \<le> Max (set ?nums)" by simp
  moreover have "?nums \<noteq> []" using n by (metis empty_iff list.set(1))
  ultimately show ?thesis by (simp add: next_number_def)
qed

lemma next_ticket_id_new: "dict_get (tickets st) (next_ticket_id st) = None"
proof (rule ccontr)
  let ?n = "next_number CHR ''T'' (dict_keys (tickets st))"
  assume "dict_get (tickets st) (next_ticket_id st) \<noteq> None"
  then have "next_ticket_id st \<in> set (dict_keys (tickets st))" by (simp add: alist.keys_get)
  moreover have "id_number CHR ''T'' (next_ticket_id st) = Some ?n"
    unfolding next_ticket_id_def by (simp add: id_number_minted zfill_ok)
  ultimately have "?n < ?n" by (rule next_number_above)
  then show False by simp
qed

lemma next_fog_id_new: "next_fog_id st \<notin> fog_id ` set (fogs st)"
proof
  let ?n = "next_number CHR ''F'' (map fog_id (fogs st))"
  assume "next_fog_id st \<in> fog_id ` set (fogs st)"
  then have "next_fog_id st \<in> set (map fog_id (fogs st))" by simp
  moreover have "id_number CHR ''F'' (next_fog_id st) = Some ?n"
    unfolding next_fog_id_def using show_nat_ok [of ?n] by (simp add: id_number_minted)
  ultimately have "?n < ?n" by (rule next_number_above)
  then show False by simp
qed

section \<open>Claims and ledgers\<close>

lemma claims_ok_iff:
  "claims_ok T S \<Longrightarrow> holds S session tid \<longleftrightarrow> (\<exists>t. dict_get T tid = Some t \<and> claimed_by t = Some session)"
  by (simp add: claims_ok_def)

lemma claims_ok_same:
  assumes "claims_ok T S"
    and "\<And>tid s. (\<exists>t. dict_get T' tid = Some t \<and> claimed_by t = Some s)
            \<longleftrightarrow> (\<exists>t. dict_get T tid = Some t \<and> claimed_by t = Some s)"
  shows "claims_ok T' S"
  using assms unfolding claims_ok_def by simp

lemma claims_ok_update:
  "claims_ok T S \<Longrightarrow> dict_get T tid = Some t \<Longrightarrow> claimed_by t' = claimed_by t
     \<Longrightarrow> claims_ok (dict_set tid t' T) S"
  by (erule claims_ok_same) (auto simp: alist.get_put)

lemma claims_ok_new:
  "claims_ok T S \<Longrightarrow> dict_get T tid = None \<Longrightarrow> claimed_by t' = None
     \<Longrightarrow> claims_ok (dict_set tid t' T) S"
  by (erule claims_ok_same) (auto simp: alist.get_put)

lemma holds_put: "holds (dict_set s l S) session tid
    \<longleftrightarrow> (if session = s then tid \<in> set (l_claimed l) else holds S session tid)"
  by (auto simp: holds_def alist.get_put)

lemma claims_ok_claim:
  assumes ok: "claims_ok T S" and t: "dict_get T tid = Some t" "claimed_by t = None"
    and l: "dict_get S s = Some l \<or> dict_get S s = None \<and> l_claimed l = []"
    and t': "claimed_by t' = Some s" and l': "l_claimed l' = l_claimed l @ [tid]"
  shows "claims_ok (dict_set tid t' T) (dict_set s l' S)"
proof -
  have free: "\<not> holds S session tid" for session
    using ok t by (auto simp: claims_ok_def)
  have lS: "set (l_claimed l) = {x. holds S s x}" "distinct (l_claimed l)"
    using l ok by (auto simp: holds_def) (auto simp: claims_ok_def)
  then have "distinct (l_claimed l')" using l' free by auto
  moreover have "holds (dict_set s l' S) session x \<longleftrightarrow>
      (\<exists>u. dict_get (dict_set tid t' T) x = Some u \<and> claimed_by u = Some session)" for session x
    using free [of session] lS(1) l' t' by (auto simp: holds_put claims_ok_iff [OF ok] alist.get_put)
  ultimately show ?thesis
    using ok by (auto simp: claims_ok_def alist.wf_put alist.get_put)
qed

lemma claims_ok_drop:
  assumes ok: "claims_ok T S" and t: "dict_get T tid = Some t" "claimed_by t = Some s"
    and l: "dict_get S s = Some l" and t': "claimed_by t' = None"
    and l': "l_claimed l' = remove1 tid (l_claimed l)"
  shows "claims_ok (dict_set tid t' T) (dict_set s l' S)"
proof -
  have d: "distinct (l_claimed l)" using ok l by (auto simp: claims_ok_def)
  have lS: "set (l_claimed l') = {x. holds S s x} - {tid}"
    using l l' d by (auto simp: holds_def)
  have "holds (dict_set s l' S) session x \<longleftrightarrow>
      (\<exists>u. dict_get (dict_set tid t' T) x = Some u \<and> claimed_by u = Some session)" for session x
    using lS t t' by (auto simp: holds_put claims_ok_iff [OF ok] alist.get_put)
  then show ?thesis
    using ok l' d by (auto simp: claims_ok_def alist.wf_put alist.get_put)
qed

text \<open>A held ticket is listed in its holder's ledger, so the removal always finds it.\<close>

lemma claimed_in_ledger:
  assumes "claims_ok T S" "dict_get T tid = Some t" "claimed_by t = Some s"
  obtains l where "dict_get S s = Some l" "tid \<in> set (l_claimed l)"
  using assms unfolding claims_ok_def holds_def by metis

lemma claims_ok_drop_claim:
  assumes ok: "claims_ok (tickets st) (sessions st)"
    and t: "dict_get (tickets st) tid = Some t" "claimed_by t = Some s" and t': "claimed_by t' = None"
  shows "claims_ok (dict_set tid t' (tickets st)) (sessions (drop_claim s tid (set_ticket tid t' st)))"
proof -
  obtain l where l: "dict_get (sessions st) s = Some l" "tid \<in> set (l_claimed l)"
    using claimed_in_ledger [OF ok t] .
  with claims_ok_drop [OF ok t l(1) t'] show ?thesis
    by (simp add: drop_claim_def)
qed

section \<open>The operations keep the invariant\<close>

text \<open>
  What \<open>mutate\<close> needs of an operation's body: it edits one map in place (same directory,
  same revision), never removes a ticket or reopens a closed one (\<open>keeps\<close>), and keeps the
  invariant.
\<close>

definition keeps :: "(string, ticket) dict \<Rightarrow> (string, ticket) dict \<Rightarrow> bool" where
  "keeps T T' \<longleftrightarrow> (\<forall>tid t. dict_get T tid = Some t \<longrightarrow>
     (\<exists>t'. dict_get T' tid = Some t' \<and> (terminal_status (t_status t) \<longrightarrow> t_status t' = t_status t)))"

lemma keeps_refl [simp]: "keeps T T"
  by (simp add: keeps_def)

lemma keeps_trans: "keeps T T' \<Longrightarrow> keeps T' T'' \<Longrightarrow> keeps T T''"
  unfolding keeps_def by metis

lemma keeps_update:
  "dict_get T tid = Some t \<Longrightarrow> (terminal_status (t_status t) \<Longrightarrow> t_status t' = t_status t)
     \<Longrightarrow> keeps T (dict_set tid t' T)"
  by (auto simp: keeps_def alist.get_put)

lemma keeps_open:
  "dict_get T tid = Some t \<Longrightarrow> \<not> terminal_status (t_status t) \<Longrightarrow> keeps T (dict_set tid t' T)"
  by (auto simp: keeps_def alist.get_put)

lemma keeps_new: "dict_get T tid = None \<Longrightarrow> keeps T (dict_set tid t' T)"
  by (auto simp: keeps_def alist.get_put)

lemma not_terminal_Open [simp]: "\<not> terminal_status Open"
  by (simp add: terminal_status_def)

locale map_operation =
  fixes guard :: "wstate \<Rightarrow> int option \<Rightarrow> wf_error option"
    and body :: "wstate \<Rightarrow> wf_body"
  assumes body_slug: "body st = Inr (st', mk) \<Longrightarrow> slug st' = slug st"
    and body_revision: "body st = Inr (st', mk) \<Longrightarrow> revision st' = revision st"
    and body_handed_off: "body st = Inr (st', mk) \<Longrightarrow> status st' = HandedOff \<longleftrightarrow> status st = HandedOff"
    and body_keeps: "body st = Inr (st', mk) \<Longrightarrow> keeps (tickets st) (tickets st')"
    and body_wf: "wf_state st \<Longrightarrow> body st = Inr (st', mk) \<Longrightarrow> wf_state st'"

lemma collect_blockers_known:
  "collect_blockers st seen vs = Inr bs \<Longrightarrow> b \<in> set bs
     \<Longrightarrow> b \<in> set seen \<or> dict_get (tickets st) b \<noteq> None"
proof (induction vs arbitrary: seen)
  case (Cons v vs)
  then obtain x where x: "v = JStr x" "dict_get (tickets st) x \<noteq> None"
      "collect_blockers st (if x \<in> set seen then seen else seen @ [x]) vs = Inr bs"
    by (auto split: json.splits if_splits)
  from Cons.IH [OF x(3) Cons.prems(2)] x(2) show ?case by (auto split: if_splits)
qed auto

lemma parse_blocked_by_known:
  assumes "parse_blocked_by st txt = Inr bs" "b \<in> set bs"
  shows "dict_get (tickets st) b \<noteq> None"
proof -
  from assms(1) obtain vs where "collect_blockers st [] vs = Inr bs"
    by (auto simp: parse_blocked_by_def split: option.splits json.splits)
  from collect_blockers_known [OF this assms(2)] show ?thesis by simp
qed

lemma core_ok_mint:
  assumes ok: "core_ok st" and m: "mint_ticket ts st ttl ty question bs fog0 = (tid, st')"
    and bs: "\<And>b. b \<in> set bs \<Longrightarrow> dict_get (tickets st) b \<noteq> None"
  shows "core_ok st'"
proof -
  have new: "dict_get (tickets st) tid = None" using m next_ticket_id_new by (auto simp: mint_ticket_def Let_def)
  obtain t where t: "tickets st' = dict_set tid t (tickets st)" "sessions st' = sessions st"
      "fogs st' = fogs st" "blocked_by t = bs" "claimed_by t = None" "ticket_ok t"
    using m by (auto simp: mint_ticket_def Let_def ticket_ok_def)
  have "tickets_ok (tickets st')"
    unfolding t(1) using ok bs t by (intro tickets_ok_new [OF _ new]) (auto simp: core_ok_def)
  moreover have "claims_ok (tickets st') (sessions st')"
    unfolding t(1,2) using ok t by (intro claims_ok_new [OF _ new]) (auto simp: core_ok_def)
  ultimately show ?thesis using ok t by (simp add: core_ok_def)
qed

lemma mint_frame:
  assumes "mint_ticket ts st ttl ty question bs fog0 = (tid, st')"
  shows "slug st' = slug st" "revision st' = revision st" "status st' = status st" "fogs st' = fogs st"
    "sessions st' = sessions st" "out_of_scope st' = out_of_scope st" "tid = next_ticket_id st"
    "keeps (tickets st) (tickets st')"
  using assms by (auto simp: mint_ticket_def Let_def keeps_new next_ticket_id_new)

interpretation add_ticket: map_operation mutation_guard "add_ticket_body e sl ttl ty question bb fog0"
  for e sl ttl ty question bb fog0
proof unfold_locales
  fix st st' mk assume b: "add_ticket_body e sl ttl ty question bb fog0 st = Inr (st', mk)"
  then obtain ty' bs tid st1 where m: "mint_ticket (clock e 0) st ttl ty' question bs (Some fog0) = (tid, st1)"
      "parse_blocked_by st bb = Inr bs" and st': "st' = recompute_status st1"
    by (auto simp: add_ticket_body_def split: option.splits if_splits sum.splits prod.splits)
  show "slug st' = slug st" "revision st' = revision st" "status st' = HandedOff \<longleftrightarrow> status st = HandedOff"
    using mint_frame [OF m(1)] st' by simp_all
  show "keeps (tickets st) (tickets st')" using mint_frame(8) [OF m(1)] st' by simp
  assume "wf_state st"
  then have "core_ok st" by (simp add: wf_state_def)
  from core_ok_mint [OF this m(1) parse_blocked_by_known [OF m(2)]] show "wf_state st'"
    unfolding st' by (rule recompute_ok)
qed

interpretation wire_blocking: map_operation mutation_guard "wire_blocking_body sl tid bb" for sl tid bb
proof unfold_locales
  fix st st' mk assume b: "wire_blocking_body sl tid bb st = Inr (st', mk)"
  then obtain t bs where t: "dict_get (tickets st) tid = Some t" "parse_blocked_by st bb = Inr bs"
      "detect_cycle (blocking_graph st (Some (tid, bs))) = Some False"
      and st': "st' = recompute_status (set_ticket tid (t\<lparr>blocked_by := bs\<rparr>) st)"
    by (auto simp: wire_blocking_body_def split: option.splits if_splits sum.splits bool.splits)
  show "slug st' = slug st" "revision st' = revision st" "status st' = HandedOff \<longleftrightarrow> status st = HandedOff"
    using st' by simp_all
  show "keeps (tickets st) (tickets st')" using t(1) by (simp add: st' keeps_update)
  assume "wf_state st"
  then have ok: "tickets_ok (tickets st)" "claims_ok (tickets st) (sessions st)"
      "distinct (map fog_id (fogs st))"
    by (simp_all add: wf_state_def core_ok_def)
  have "core_ok (set_ticket tid (t\<lparr>blocked_by := bs\<rparr>) st)"
    using tickets_ok_wire [OF ok(1) t(1) parse_blocked_by_known [OF t(2)] t(3)]
      claims_ok_update [OF ok(2) t(1), of "t\<lparr>blocked_by := bs\<rparr>"] ok(3) by (simp add: core_ok_def)
  then show "wf_state st'" unfolding st' by (rule recompute_ok)
qed

lemma claims_ok_ensure:
  assumes "claims_ok T (sessions st)" "ensure_session ts session st = (st', l)"
  shows "claims_ok T (sessions st')"
proof (cases "dict_get (sessions st) session")
  case None
  then have s: "sessions st' = dict_set session (new_ledger ts) (sessions st)"
    using assms(2) by (auto simp: ensure_session_def)
  have "holds (sessions st') x tid \<longleftrightarrow> holds (sessions st) x tid" for x tid
    using None by (auto simp: s holds_put new_ledger_def) (auto simp: holds_def)
  then show ?thesis
    using assms(1) by (auto simp: claims_ok_def s alist.wf_put alist.get_put new_ledger_def)
next
  case (Some l)
  with assms show ?thesis by (auto simp: ensure_session_def)
qed

lemma claim_ticket_bodyE:
  assumes b: "claim_ticket_body e sl tid session st = Inr (st', mk)"
  obtains t st2 l where "dict_get (tickets st) tid = Some t" "session \<noteq> []" "t_status t = Open"
      "\<not> truthy (claimed_by t)" "\<not> ticket_blocked st t"
    and "ensure_session (clock e 1) session
      (set_ticket tid (t\<lparr>claimed_by := Some session, claimed_at := Some (clock e 0)\<rparr>) st) = (st2, l)"
    and "st' = (let st3 = (if tid \<notin> set (l_claimed l)
        then set_ledger session (l\<lparr>l_claimed := l_claimed l @ [tid]\<rparr>) st2 else st2)
      in recompute_status (if status st3 = Charting then st3\<lparr>status := Active\<rparr> else st3))"
proof -
  from b obtain t where t: "dict_get (tickets st) tid = Some t" "session \<noteq> []" "t_status t = Open"
      "\<not> truthy (claimed_by t)" "\<not> ticket_blocked st t"
    unfolding claim_ticket_body_def by (cases "dict_get (tickets st) tid") (simp_all split: if_splits)
  obtain st2 l where "ensure_session (clock e 1) session
      (set_ticket tid (t\<lparr>claimed_by := Some session, claimed_at := Some (clock e 0)\<rparr>) st) = (st2, l)"
    by fastforce
  with b t that show ?thesis by (simp add: claim_ticket_body_def Let_def)
qed

interpretation claim_ticket: map_operation mutation_guard "claim_ticket_body e sl tid session"
  for e sl tid session
proof unfold_locales
  fix st st' mk assume b: "claim_ticket_body e sl tid session st = Inr (st', mk)"
  let ?t' = "\<lambda>t. t\<lparr>claimed_by := Some session, claimed_at := Some (clock e 0)\<rparr>"
  from b obtain t st2 l where t: "dict_get (tickets st) tid = Some t" "session \<noteq> []" "t_status t = Open"
      "\<not> truthy (claimed_by t)"
    and es: "ensure_session (clock e 1) session (set_ticket tid (?t' t) st) = (st2, l)"
    and st': "st' = (let st3 = (if tid \<notin> set (l_claimed l)
        then set_ledger session (l\<lparr>l_claimed := l_claimed l @ [tid]\<rparr>) st2 else st2)
      in recompute_status (if status st3 = Charting then st3\<lparr>status := Active\<rparr> else st3))"
    by (rule claim_ticket_bodyE)
  note es_frame = ensure_session_frame [OF es]
  show "slug st' = slug st" "revision st' = revision st" "status st' = HandedOff \<longleftrightarrow> status st = HandedOff"
    using es_frame by (simp_all add: st' Let_def)
  show "keeps (tickets st) (tickets st')" using t(1,3) es_frame by (simp add: st' Let_def keeps_update)
  assume "wf_state st"
  then have ok: "tickets_ok (tickets st)" "claims_ok (tickets st) (sessions st)"
      "distinct (map fog_id (fogs st))"
    by (simp_all add: wf_state_def core_ok_def)
  have free: "claimed_by t = None"
    using tickets_ok_ticket [OF ok(1) t(1)] t(4) by (auto simp: ticket_ok_def)
  have S: "claims_ok (tickets st) (sessions st2)" using claims_ok_ensure [OF _ es] ok(2) by simp
  have "tid \<notin> set (l_claimed l)"
    using claims_ok_iff [OF S, of session tid] es_frame(7) t(1) free by (auto simp: holds_def)
  with st' have st'': "st' = recompute_status (let st3 = set_ledger session (l\<lparr>l_claimed := l_claimed l @ [tid]\<rparr>) st2
      in if status st3 = Charting then st3\<lparr>status := Active\<rparr> else st3)"
    by (simp add: Let_def)
  have "tickets_ok (dict_set tid (?t' t) (tickets st))"
    using tickets_ok_ticket [OF ok(1) t(1)] t
    by (intro tickets_ok_update [OF ok(1) t(1)]) (auto simp: ticket_ok_def truthy_def)
  moreover have "claims_ok (dict_set tid (?t' t) (tickets st))
      (dict_set session (l\<lparr>l_claimed := l_claimed l @ [tid]\<rparr>) (sessions st2))"
    using es_frame(7) by (intro claims_ok_claim [OF S t(1) free]) auto
  ultimately show "wf_state st'"
    unfolding st'' using es_frame ok(3) by (intro recompute_ok) (simp add: core_ok_def Let_def)
qed

interpretation release_ticket: map_operation mutation_guard "release_ticket_body sl tid session"
  for sl tid session
proof unfold_locales
  fix st st' mk assume b: "release_ticket_body sl tid session st = Inr (st', mk)"
  let ?t' = "\<lambda>t. t\<lparr>claimed_by := None, claimed_at := None\<rparr>"
  from b obtain t where t: "dict_get (tickets st) tid = Some t" "claimed_by t = Some session"
    and st': "st' = recompute_status (drop_claim session tid (set_ticket tid (?t' t) st))"
    by (auto simp: release_ticket_body_def Let_def split: option.splits if_splits)
  show "slug st' = slug st" "revision st' = revision st" "status st' = HandedOff \<longleftrightarrow> status st = HandedOff"
    by (simp_all add: st')
  show "keeps (tickets st) (tickets st')" using t(1) by (simp add: st' keeps_update)
  assume "wf_state st"
  then have ok: "tickets_ok (tickets st)" "claims_ok (tickets st) (sessions st)"
      "distinct (map fog_id (fogs st))"
    by (simp_all add: wf_state_def core_ok_def)
  have "tickets_ok (dict_set tid (?t' t) (tickets st))"
    using tickets_ok_ticket [OF ok(1) t(1)]
    by (intro tickets_ok_update [OF ok(1) t(1)]) (auto simp: ticket_ok_def)
  then show "wf_state st'"
    unfolding st' using claims_ok_drop_claim [OF ok(2) t, of "?t' t"] ok(3)
    by (intro recompute_ok) (simp add: core_ok_def)
qed

lemma is_terminal_iff:
  assumes "dict_wf (tickets st)"
  shows "is_terminal st \<longleftrightarrow> tickets st \<noteq> []
    \<and> (\<forall>tid t. dict_get (tickets st) tid = Some t \<longrightarrow> terminal_status (t_status t)) \<and> open_fog st = []"
proof -
  have "(\<forall>tid t. dict_get (tickets st) tid = Some t \<longrightarrow> terminal_status (t_status t))
      \<longleftrightarrow> (\<forall>p \<in> set (tickets st). terminal_status (t_status (snd p)))"
    using assms by (auto simp: dict_get_iff_mem)
  then show ?thesis
    by (auto simp: is_terminal_def active_claims_def list_ex_iff filter_empty_conv split: prod.splits)
qed

text \<open>Updates that leave a ticket's status alone do not change whether the map is terminal.\<close>

lemma is_terminal_same_status:
  assumes "dict_wf (tickets st)" "dict_get (tickets st) tid = Some t" "t_status t' = t_status t"
  shows "is_terminal (set_ticket tid t' st) = is_terminal st"
proof -
  have "tickets st \<noteq> []" using assms(2) by auto
  moreover have "dict_set tid t' (tickets st) \<noteq> []" by (simp add: dict_set_def update_nonempty)
  ultimately show ?thesis
    using assms by (auto simp: is_terminal_iff alist.wf_put alist.get_put open_fog_def)
qed

interpretation record_human_input: map_operation mutation_guard "record_human_input_body e sl tid session path"
  for e sl tid session path
proof unfold_locales
  fix st st' mk assume b: "record_human_input_body e sl tid session path st = Inr (st', mk)"
  let ?t' = "\<lambda>t. t\<lparr>human_input_path := Some path\<rparr>"
  from b obtain t where t: "dict_get (tickets st) tid = Some t" "evidence_ok e sl path"
      "claimed_by t = Some session" and st': "st' = set_ticket tid (?t' t) st"
    by (auto simp: record_human_input_body_def split: option.splits if_splits)
  show "slug st' = slug st" "revision st' = revision st" "status st' = HandedOff \<longleftrightarrow> status st = HandedOff"
    by (simp_all add: st')
  show "keeps (tickets st) (tickets st')" using t(1) by (simp add: st' keeps_update)
  assume w: "wf_state st"
  then have ok: "tickets_ok (tickets st)" "claims_ok (tickets st) (sessions st)"
      "distinct (map fog_id (fogs st))" and so: "status_ok st"
    by (simp_all add: wf_state_def core_ok_def)
  have "ticket_ok (?t' t)"
    using tickets_ok_ticket [OF ok(1) t(1)] t(3) by (auto simp: ticket_ok_def)
  then have "core_ok st'"
    using tickets_ok_update [OF ok(1) t(1), of "?t' t"] claims_ok_update [OF ok(2) t(1), of "?t' t"] ok(3)
    by (simp add: core_ok_def st')
  moreover have "dict_wf (tickets st)" using ok(1) by (simp add: tickets_ok_def)
  then have "status_ok st'"
    using so is_terminal_same_status [OF _ t(1), of "?t' t"] by (simp add: status_ok_def st')
  ultimately show "wf_state st'" by (simp add: wf_state_def)
qed

lemma resolve_ticket_bodyE:
  assumes b: "resolve_ticket_body e sl tid session gist path st = Inr (st', mk)"
  obtains t st1 l l2 where "dict_get (tickets st) tid = Some t" "claimed_by t = Some session"
      "t_status t = Open" "oneline gist \<noteq> []" "evidence_ok e sl path"
      "is_hitl (t_type t) \<longrightarrow> truthy (human_input_path t)"
      "ensure_session (clock e 0) session st = (st1, l)"
      "t_type t \<noteq> Research \<and> max_nonresearch_per_session e > 0
         \<longrightarrow> non_research_resolved l < max_nonresearch_per_session e"
      "non_research_resolved l2 = non_research_resolved l + (if t_type t = Research then 0 else 1)"
      "l_claimed l2 = remove1 tid (l_claimed l)"
      "st' = recompute_status (set_ledger session l2 (set_ticket tid
         (t\<lparr>t_status := Resolved, resolved_at := Some (clock e 1),
            t_resolution := Some \<lparr>res_gist = Some (oneline gist), res_path = Some path\<rparr>,
            claimed_by := None, claimed_at := None\<rparr>) st1))"
proof -
  from b obtain t where t: "dict_get (tickets st) tid = Some t" "claimed_by t = Some session"
      "t_status t = Open" "oneline gist \<noteq> []" "evidence_ok e sl path"
      "is_hitl (t_type t) \<longrightarrow> truthy (human_input_path t)"
    unfolding resolve_ticket_body_def
    by (cases "dict_get (tickets st) tid") (simp_all split: if_splits)
  obtain st1 l where es: "ensure_session (clock e 0) session st = (st1, l)" by fastforce
  let ?l1 = "if tid \<in> set (l_claimed l) then l\<lparr>l_claimed := remove1 tid (l_claimed l)\<rparr> else l"
  let ?l2 = "if t_type t \<noteq> Research
    then ?l1\<lparr>non_research_resolved := non_research_resolved ?l1 + 1\<rparr> else ?l1"
  have cap: "\<not> (t_type t \<noteq> Research \<and> max_nonresearch_per_session e > 0
      \<and> non_research_resolved l \<ge> max_nonresearch_per_session e)"
    and st': "st' = recompute_status (set_ledger session ?l2 (set_ticket tid
         (t\<lparr>t_status := Resolved, resolved_at := Some (clock e 1),
            t_resolution := Some \<lparr>res_gist = Some (oneline gist), res_path = Some path\<rparr>,
            claimed_by := None, claimed_at := None\<rparr>) st1))"
    using b t es by (auto simp: resolve_ticket_body_def Let_def split: if_splits)
  show ?thesis
    by (rule that [OF t(1-5) _ es _ _ _ st']) (use t(6) cap in \<open>auto simp: remove1_idem\<close>)
qed

lemma evidence_ok_Nil [simp]: "\<not> evidence_ok e sl []"
  by (simp add: evidence_ok_def resolve_evidence_path_def)

lemma evidence_path_nonempty: "evidence_ok e sl p \<Longrightarrow> p \<noteq> []"
  by auto

interpretation resolve_ticket: map_operation mutation_guard "resolve_ticket_body e sl tid session gist path"
  for e sl tid session gist path
proof unfold_locales
  fix st st' mk assume b: "resolve_ticket_body e sl tid session gist path st = Inr (st', mk)"
  let ?t' = "\<lambda>t. t\<lparr>t_status := Resolved, resolved_at := Some (clock e 1),
            t_resolution := Some \<lparr>res_gist = Some (oneline gist), res_path = Some path\<rparr>,
            claimed_by := None, claimed_at := None\<rparr>"
  from b obtain t st1 l l2 where t: "dict_get (tickets st) tid = Some t" "claimed_by t = Some session"
      "t_status t = Open"
      "oneline gist \<noteq> []" "evidence_ok e sl path" "is_hitl (t_type t) \<longrightarrow> truthy (human_input_path t)"
    and es: "ensure_session (clock e 0) session st = (st1, l)"
    and l2: "l_claimed l2 = remove1 tid (l_claimed l)"
    and st': "st' = recompute_status (set_ledger session l2 (set_ticket tid (?t' t) st1))"
    by (rule resolve_ticket_bodyE)
  note es_frame = ensure_session_frame [OF es]
  show "slug st' = slug st" "revision st' = revision st" "status st' = HandedOff \<longleftrightarrow> status st = HandedOff"
    using es_frame by (simp_all add: st')
  show "keeps (tickets st) (tickets st')"
    using keeps_open [OF t(1)] t(3) es_frame(1) by (simp add: st')
  assume "wf_state st"
  then have ok: "tickets_ok (tickets st)" "claims_ok (tickets st) (sessions st)"
      "distinct (map fog_id (fogs st))"
    by (simp_all add: wf_state_def core_ok_def)
  have "ticket_ok (?t' t)"
    using t(4,6) evidence_path_nonempty [OF t(5)] by (auto simp: ticket_ok_def truthy_def)
  then have "tickets_ok (dict_set tid (?t' t) (tickets st))"
    by (intro tickets_ok_update [OF ok(1) t(1)]) auto
  moreover have "claims_ok (dict_set tid (?t' t) (tickets st)) (dict_set session l2 (sessions st1))"
    using l2 es_frame(7) by (intro claims_ok_drop [OF claims_ok_ensure [OF ok(2) es] t(1,2)]) auto
  ultimately show "wf_state st'"
    unfolding st' using es_frame ok(3) by (intro recompute_ok) (simp add: core_ok_def)
qed

lemma amend_resolution_bodyE:
  assumes b: "amend_resolution_body e sl tid gist path st = Inr (st', mk)"
  obtains t r where "dict_get (tickets st) tid = Some t" "t_status t = Resolved"
      "truthy (res_gist r) \<or> gist = None \<and> res_gist r = (case t_resolution t of None \<Rightarrow> None | Some r0 \<Rightarrow> res_gist r0)"
      "truthy (res_path r) \<or> path = None \<and> res_path r = (case t_resolution t of None \<Rightarrow> None | Some r0 \<Rightarrow> res_path r0)"
      "st' = recompute_status (set_ticket tid (t\<lparr>t_resolution := Some r\<rparr>) st)"
proof -
  from b obtain t where t: "dict_get (tickets st) tid = Some t" "t_status t = Resolved"
      "\<And>g. gist = Some g \<Longrightarrow> oneline g \<noteq> []" "\<And>p. path = Some p \<Longrightarrow> evidence_ok e sl p"
    unfolding amend_resolution_body_def
    by (cases "dict_get (tickets st) tid") (auto split: if_splits option.splits)
  let ?r0 = "case t_resolution t of None \<Rightarrow> \<lparr>res_gist = None, res_path = None\<rparr> | Some r \<Rightarrow> r"
  let ?r1 = "case gist of None \<Rightarrow> ?r0 | Some g \<Rightarrow> ?r0\<lparr>res_gist := Some (oneline g)\<rparr>"
  let ?r2 = "case path of None \<Rightarrow> ?r1 | Some p \<Rightarrow> ?r1\<lparr>res_path := Some p\<rparr>"
  have st': "st' = recompute_status (set_ticket tid (t\<lparr>t_resolution := Some ?r2\<rparr>) st)"
    using b t by (simp add: amend_resolution_body_def Let_def split: if_splits)
  show ?thesis
    by (rule that [OF t(1,2) _ _ st'])
      (use t(3) t(4) in \<open>auto simp: truthy_def split: option.splits\<close>)
qed

interpretation amend_resolution: map_operation revision_guard "amend_resolution_body e sl tid gist path"
  for e sl tid gist path
proof unfold_locales
  fix st st' mk assume b: "amend_resolution_body e sl tid gist path st = Inr (st', mk)"
  from b obtain t r where t: "dict_get (tickets st) tid = Some t" "t_status t = Resolved"
      "truthy (res_gist r) \<or> gist = None \<and> res_gist r = (case t_resolution t of None \<Rightarrow> None | Some r0 \<Rightarrow> res_gist r0)"
      "truthy (res_path r) \<or> path = None \<and> res_path r = (case t_resolution t of None \<Rightarrow> None | Some r0 \<Rightarrow> res_path r0)"
    and st': "st' = recompute_status (set_ticket tid (t\<lparr>t_resolution := Some r\<rparr>) st)"
    by (rule amend_resolution_bodyE)
  show "slug st' = slug st" "revision st' = revision st" "status st' = HandedOff \<longleftrightarrow> status st = HandedOff"
    by (simp_all add: st')
  show "keeps (tickets st) (tickets st')" using t(1) by (simp add: st' keeps_update)
  assume "wf_state st"
  then have ok: "tickets_ok (tickets st)" "claims_ok (tickets st) (sessions st)"
      "distinct (map fog_id (fogs st))"
    by (simp_all add: wf_state_def core_ok_def)
  have "ticket_ok (t\<lparr>t_resolution := Some r\<rparr>)"
    using tickets_ok_ticket [OF ok(1) t(1)] t(2-4) by (auto simp: ticket_ok_def split: option.splits)
  then have "core_ok (set_ticket tid (t\<lparr>t_resolution := Some r\<rparr>) st)"
    using tickets_ok_update [OF ok(1) t(1), of "t\<lparr>t_resolution := Some r\<rparr>"]
      claims_ok_update [OF ok(2) t(1), of "t\<lparr>t_resolution := Some r\<rparr>"] ok(3)
    by (simp add: core_ok_def)
  then show "wf_state st'" unfolding st' by (rule recompute_ok)
qed

lemma core_ok_frame:
  "core_ok st \<Longrightarrow> tickets st' = tickets st \<Longrightarrow> sessions st' = sessions st
     \<Longrightarrow> map fog_id (fogs st') = map fog_id (fogs st) \<Longrightarrow> core_ok st'"
  by (simp add: core_ok_def)

interpretation amend_out_of_scope: map_operation revision_guard "amend_out_of_scope_body sl tid fid reason gist"
  for sl tid fid reason gist
proof unfold_locales
  fix st st' mk assume b: "amend_out_of_scope_body sl tid fid reason gist st = Inr (st', mk)"
  then obtain oos where st': "st' = recompute_status (st\<lparr>out_of_scope := oos\<rparr>)"
    by (auto simp: amend_out_of_scope_body_def Let_def split: if_splits option.splits)
  show "slug st' = slug st" "revision st' = revision st" "status st' = HandedOff \<longleftrightarrow> status st = HandedOff"
    by (simp_all add: st')
  show "keeps (tickets st) (tickets st')" by (simp add: st')
  assume "wf_state st"
  then show "wf_state st'"
    unfolding st' wf_state_def [of st] by (auto intro!: recompute_ok elim: core_ok_frame)
qed

interpretation add_fog: map_operation mutation_guard "add_fog_body sl tx" for sl tx
proof unfold_locales
  fix st st' mk assume b: "add_fog_body sl tx st = Inr (st', mk)"
  let ?f = "\<lparr>fog_id = next_fog_id st, fog_text = oneline tx, fog_stat = FogOpen\<rparr>"
  from b have st': "st' = recompute_status (st\<lparr>fogs := fogs st @ [?f]\<rparr>)"
    by (simp add: add_fog_body_def Let_def split: if_splits)
  show "slug st' = slug st" "revision st' = revision st" "status st' = HandedOff \<longleftrightarrow> status st = HandedOff"
    by (simp_all add: st')
  show "keeps (tickets st) (tickets st')" by (simp add: st')
  assume "wf_state st"
  then have "core_ok (st\<lparr>fogs := fogs st @ [?f]\<rparr>)"
    using next_fog_id_new [of st] by (auto simp: wf_state_def core_ok_def)
  then show "wf_state st'" unfolding st' by (rule recompute_ok)
qed

interpretation graduate_fog: map_operation mutation_guard "graduate_fog_body e sl fid ttl ty question bb"
  for e sl fid ttl ty question bb
proof unfold_locales
  fix st st' mk assume b: "graduate_fog_body e sl fid ttl ty question bb st = Inr (st', mk)"
  then obtain ty' bs tid st1 where m: "mint_ticket (clock e 0) st ttl ty' question bs (Some fid) = (tid, st1)"
      "parse_blocked_by st bb = Inr bs" and st': "st' = recompute_status (set_fog_status fid Graduated st1)"
    by (auto simp: graduate_fog_body_def split: option.splits if_splits sum.splits prod.splits)
  show "slug st' = slug st" "revision st' = revision st" "status st' = HandedOff \<longleftrightarrow> status st = HandedOff"
    using mint_frame [OF m(1)] st' by simp_all
  show "keeps (tickets st) (tickets st')" using mint_frame(8) [OF m(1)] st' by simp
  assume "wf_state st"
  then have "core_ok st" by (simp add: wf_state_def)
  from core_ok_mint [OF this m(1) parse_blocked_by_known [OF m(2)]]
  have "core_ok (set_fog_status fid Graduated st1)" by (rule core_ok_frame) simp_all
  then show "wf_state st'" unfolding st' by (rule recompute_ok)
qed

text \<open>Ruling out: a ticket loses its claim with its status; a fog entry only changes status.\<close>

definition ruled_out :: "ticket \<Rightarrow> ticket" where
  "ruled_out t = t\<lparr>t_status := OutOfScope, claimed_by := None, claimed_at := None\<rparr>"

lemma rule_out_of_scope_bodyE:
  assumes b: "rule_out_of_scope_body e sl reason tid fid gist st = Inr (st', mk)"
  obtains (tick) t st2 oos where "dict_get (tickets st) tid = Some t" "\<not> terminal_status (t_status t)"
      "st2 = (if truthy (claimed_by t) then drop_claim (the (claimed_by t)) tid (set_ticket tid (ruled_out t) st)
        else set_ticket tid (ruled_out t) st)"
      "st' = recompute_status (st2\<lparr>out_of_scope := oos\<rparr>)"
    | (foggy) oos where "st' = recompute_status ((set_fog_status fid Retired st)\<lparr>out_of_scope := oos\<rparr>)"
proof (cases "tid = []")
  case True
  then show ?thesis
    using b foggy by (auto simp: rule_out_of_scope_body_def Let_def split: if_splits option.splits)
next
  case False
  then obtain t where t: "dict_get (tickets st) tid = Some t" "\<not> terminal_status (t_status t)"
    using b unfolding rule_out_of_scope_body_def
    by (cases "dict_get (tickets st) tid") (simp_all split: if_splits)
  from b False t show ?thesis
    by (intro tick [OF t refl]) (auto simp: rule_out_of_scope_body_def ruled_out_def Let_def split: if_splits)
qed

lemma core_ok_ruled_out:
  assumes ok: "core_ok st" and t: "dict_get (tickets st) tid = Some t" "\<not> terminal_status (t_status t)"
    and st2: "st2 = (if truthy (claimed_by t) then drop_claim (the (claimed_by t)) tid (set_ticket tid (ruled_out t) st)
        else set_ticket tid (ruled_out t) st)"
  shows "core_ok st2"
proof -
  have T: "tickets_ok (tickets st)" and C: "claims_ok (tickets st) (sessions st)"
    using ok by (simp_all add: core_ok_def)
  have r: "ticket_ok (ruled_out t)" "blocked_by (ruled_out t) = blocked_by t" "claimed_by (ruled_out t) = None"
    by (simp_all add: ticket_ok_def ruled_out_def)
  have T': "tickets_ok (dict_set tid (ruled_out t) (tickets st))"
    using tickets_ok_update [OF T t(1) r(1,2)] .
  show ?thesis
  proof (cases "claimed_by t")
    case None
    then have "claims_ok (dict_set tid (ruled_out t) (tickets st)) (sessions st)"
      using r(3) by (intro claims_ok_update [OF C t(1)]) simp
    with None T' ok st2 show ?thesis by (simp add: core_ok_def truthy_def)
  next
    case (Some s)
    moreover have "truthy (claimed_by t)"
      using Some tickets_ok_ticket [OF T t(1)] by (simp add: ticket_ok_def)
    ultimately show ?thesis
      using claims_ok_drop_claim [OF C t(1) Some r(3)] T' ok st2 by (simp add: core_ok_def)
  qed
qed

interpretation rule_out_of_scope: map_operation mutation_guard "rule_out_of_scope_body e sl reason tid fid gist"
  for e sl reason tid fid gist
proof unfold_locales
  fix st st' mk assume b: "rule_out_of_scope_body e sl reason tid fid gist st = Inr (st', mk)"
  show "slug st' = slug st"
    using b by (rule rule_out_of_scope_bodyE) simp_all
  show "revision st' = revision st"
    using b by (rule rule_out_of_scope_bodyE) simp_all
  show "status st' = HandedOff \<longleftrightarrow> status st = HandedOff"
    using b by (rule rule_out_of_scope_bodyE) simp_all
  show "keeps (tickets st) (tickets st')"
    using b by (rule rule_out_of_scope_bodyE) (auto intro: keeps_open)
  assume "wf_state st"
  then have ok: "core_ok st" by (simp add: wf_state_def)
  from b show "wf_state st'"
  proof (cases rule: rule_out_of_scope_bodyE)
    case (tick t st2 oos)
    then have "core_ok (st2\<lparr>out_of_scope := oos\<rparr>)"
      using core_ok_ruled_out [OF ok] core_ok_frame [of st2] by simp
    with tick(4) show ?thesis by (simp add: recompute_ok)
  next
    case (foggy oos)
    have "core_ok ((set_fog_status fid Retired st)\<lparr>out_of_scope := oos\<rparr>)"
      using ok by (rule core_ok_frame) simp_all
    with foggy show ?thesis by (simp add: recompute_ok)
  qed
qed

end
