(* ===== verification/Wayfind_Store.thy ===== *)
theory Wayfind_Store
  imports Wayfind_Inv
begin

text \<open>
  The decision maps on disk. What every command keeps of the directory (\<open>store_ok\<close>: the
  canonical states are well formed, every rendered view agrees with its state, a map that
  was handed off has its hand-off file), what a command can only move forward (\<open>later\<close>), and
  the interpretation of the two machine interfaces on the command line.
\<close>

section \<open>The invariant of the directory\<close>

definition views_ok :: "map_dir \<Rightarrow> wstate \<Rightarrow> bool" where
  "views_ok d st \<longleftrightarrow> map_md d = Some (render_map_md st)
     \<and> (\<forall>tid t. dict_get (tickets st) tid = Some t
          \<longrightarrow> dict_get (ticket_mds d) tid = Some (render_ticket_md tid t))"

definition dir_ok :: "string \<Rightarrow> map_dir \<Rightarrow> wstate \<Rightarrow> bool" where
  "dir_ok sl d st \<longleftrightarrow> slug st = sl \<and> 1 \<le> revision st \<and> wf_state st \<and> views_ok d st
     \<and> (status st = HandedOff \<longrightarrow> (\<exists>h. handoff_json d = Some (HDoc h) \<and> h_slug h = sl))"

definition store_ok :: "store \<Rightarrow> bool" where
  "store_ok s \<longleftrightarrow> dict_wf s \<and> (\<forall>sl st. load_state s sl = Some st \<longrightarrow> dir_ok sl (dir_of s sl) st)"

lemma store_ok_dir: "store_ok s \<Longrightarrow> load_state s sl = Some st \<Longrightarrow> dir_ok sl (dir_of s sl) st"
  by (simp add: store_ok_def)

lemma store_ok_wf: "store_ok s \<Longrightarrow> load_state s sl = Some st \<Longrightarrow> wf_state st"
  using store_ok_dir by (auto simp: dir_ok_def)

lemma store_ok_slug: "store_ok s \<Longrightarrow> load_state s sl = Some st \<Longrightarrow> slug st = sl"
  using store_ok_dir by (auto simp: dir_ok_def)

lemma store_ok_empty: "store_ok []"
  by (simp add: store_ok_def load_state_def dir_of_def empty_dir_def)

section \<open>Saving\<close>

lemma fold_dict_set_get:
  "dict_wf T \<Longrightarrow> dict_get (fold (\<lambda>(k, v). dict_set k (f k v)) T D) k
     = (case dict_get T k of Some v \<Rightarrow> Some (f k v) | None \<Rightarrow> dict_get D k)"
proof (induction T arbitrary: D)
  case (Cons p T)
  obtain a v where p: "p = (a, v)" by (cases p)
  then have "dict_wf T" "dict_get T a = None"
    using Cons.prems by (simp_all add: dict_wf_def dict_get_def map_of_eq_None_iff)
  with Cons.IH show ?case by (auto simp: p alist.get_put split: option.splits)
qed simp

lemma views_ok_render:
  "dict_wf (tickets st) \<Longrightarrow> views_ok (render_views st d) st"
  by (simp add: views_ok_def render_views_def fold_dict_set_get)

lemma dir_of_set: "dir_of (dict_set k d s) sl = (if sl = k then d else dir_of s sl)"
  by (simp add: dir_of_def alist.get_put)

lemma render_views_frame [simp]:
  "state_json (render_views st d) = state_json d" "handoff_json (render_views st d) = handoff_json d"
  "handoff_md (render_views st d) = handoff_md d"
  by (simp_all add: render_views_def)

lemma load_set:
  "load_state (dict_set k d s) sl
     = (if sl = k then (case state_json d of Some (Doc st) \<Rightarrow> Some st | _ \<Rightarrow> None) else load_state s sl)"
  by (simp add: load_state_def dir_of_set)

text \<open>What was saved is what is loaded, one revision later; no other map is touched.\<close>

lemma load_save:
  assumes "save_state st s = (st', s')"
  shows "load_state s' sl = (if sl = slug st then Some st' else load_state s sl)"
    "st' = st\<lparr>revision := revision st + 1\<rparr>" "sl \<noteq> slug st \<Longrightarrow> dir_of s' sl = dir_of s sl"
    "handoff_json (dir_of s' sl) = handoff_json (dir_of s sl)"
  using assms by (auto simp: save_state_def Let_def load_set dir_of_set)

lemma wf_state_revision [simp]: "wf_state (st\<lparr>revision := r\<rparr>) = wf_state st"
  by (simp add: wf_state_def core_ok_def status_ok_def is_terminal_def open_fog_def active_claims_def)

lemma wf_state_tickets: "wf_state st \<Longrightarrow> dict_wf (tickets st)"
  by (simp add: wf_state_def core_ok_def tickets_ok_def)

lemma store_ok_save:
  assumes ok: "store_ok s" and st: "wf_state st" "0 \<le> revision st"
    and hand: "status st = HandedOff \<Longrightarrow> \<exists>h. handoff_json (dir_of s (slug st)) = Some (HDoc h) \<and> h_slug h = slug st"
    and save: "save_state st s = (st', s')"
  shows "store_ok s'"
proof -
  let ?d = "(dir_of s (slug st))\<lparr>state_json := Some (Doc st')\<rparr>"
  note l = load_save [OF save]
  have s': "s' = dict_set (slug st) (render_views st' ?d) s"
    using save l(2) by (simp add: save_state_def Let_def)
  have "dir_ok (slug st) (render_views st' ?d) st'"
    using st hand views_ok_render [of st' ?d] wf_state_tickets [OF st(1)]
    by (simp add: dir_ok_def l(2))
  moreover have "load_state s' sl = Some st2 \<Longrightarrow> sl \<noteq> slug st \<Longrightarrow> dir_ok sl (dir_of s' sl) st2" for sl st2
    using l(1,3) [of sl] store_ok_dir [OF ok, of sl st2] by simp
  ultimately show ?thesis
    using ok l(1) by (auto simp: store_ok_def s' alist.wf_put dir_of_set split: if_splits)
qed

section \<open>Moving forward\<close>

definition state_later :: "wstate \<Rightarrow> wstate \<Rightarrow> bool" where
  "state_later st st' \<longleftrightarrow> revision st \<le> revision st'
     \<and> (status st = HandedOff \<longrightarrow> status st' = HandedOff) \<and> keeps (tickets st) (tickets st')"

definition later :: "store \<Rightarrow> store \<Rightarrow> bool" where
  "later s s' \<longleftrightarrow> (\<forall>sl st. load_state s sl = Some st \<longrightarrow>
     (\<exists>st'. load_state s' sl = Some st' \<and> state_later st st'))"

lemma state_later_refl [simp]: "state_later st st"
  by (simp add: state_later_def)

lemma later_refl [simp]: "later s s"
  by (simp add: later_def)

lemma later_trans: "later s s' \<Longrightarrow> later s' s'' \<Longrightarrow> later s s''"
  unfolding later_def state_later_def by (meson keeps_trans order_trans)

lemma later_save:
  assumes "load_state s (slug st) = None \<or> (\<exists>st0. load_state s (slug st) = Some st0 \<and> state_later st0 st)"
    and "save_state st s = (st', s')"
  shows "later s s'"
proof -
  have "state_later st0 st \<Longrightarrow> state_later st0 st'" for st0
    using load_save(2) [OF assms(2)] by (simp add: state_later_def)
  then show ?thesis
    using assms(1) load_save(1) [OF assms(2)] by (auto simp: later_def)
qed

section \<open>Every command\<close>

lemma mutate_error: "mutate guard sl expected body s = (Inl er, s') \<Longrightarrow> s' = s"
  by (auto simp: mutate_def Let_def split: option.splits sum.splits prod.splits)

lemma mutate_okE:
  assumes "mutate guard sl expected body s = (Inr r, s')"
  obtains st st' mk st'' where "load_state s sl = Some st" "guard st expected = None"
    "body st = Inr (st', mk)" "save_state st' s = (st'', s')" "r = mk (revision st'')"
  using assms by (auto simp: mutate_def Let_def split: option.splits sum.splits prod.splits)

context map_operation
begin

lemma mutate_ok:
  assumes ok: "store_ok s" and m: "mutate guard sl expected body s = (Inr r, s')"
  obtains st st' where "load_state s sl = Some st" "guard st expected = None"
    "load_state s' sl = Some st'" "revision st' = revision st + 1" "state_later st st'"
    "store_ok s'" "\<forall>sl'. sl' \<noteq> sl \<longrightarrow> dir_of s' sl' = dir_of s sl'"
proof -
  from m obtain st st' mk st'' where b: "load_state s sl = Some st" "guard st expected = None"
      "body st = Inr (st', mk)" "save_state st' s = (st'', s')"
    by (rule mutate_okE)
  have d: "slug st = sl" "1 \<le> revision st" "wf_state st"
      "status st = HandedOff \<Longrightarrow> \<exists>h. handoff_json (dir_of s sl) = Some (HDoc h) \<and> h_slug h = sl"
    using store_ok_dir [OF ok b(1)] by (simp_all add: dir_ok_def)
  have sl: "slug st' = sl" using body_slug [OF b(3)] d(1) by simp
  note l = load_save [OF b(4)]
  have "store_ok s'"
    using d body_revision [OF b(3)] body_handed_off [OF b(3)] body_wf [OF d(3) b(3)]
    by (intro store_ok_save [OF ok _ _ _ b(4)]) (simp_all add: sl)
  moreover have "state_later st st''"
    using body_revision [OF b(3)] body_handed_off [OF b(3)] body_keeps [OF b(3)] l(2)
    by (simp add: state_later_def)
  ultimately show ?thesis
    using that [OF b(1,2), of st''] l sl body_revision [OF b(3)] by simp
qed

lemma mutate_store_ok: "store_ok s \<Longrightarrow> store_ok (snd (mutate guard sl expected body s))"
  by (cases "mutate guard sl expected body s"; cases "fst (mutate guard sl expected body s)")
    (auto dest: mutate_error elim: mutate_ok)

lemma mutate_later: "store_ok s \<Longrightarrow> later s (snd (mutate guard sl expected body s))"
proof -
  assume ok: "store_ok s"
  obtain r s' where m: "mutate guard sl expected body s = (r, s')" by fastforce
  show ?thesis
  proof (cases r)
    case (Inl er)
    then show ?thesis using m mutate_error by fastforce
  next
    case (Inr a)
    with m have "mutate guard sl expected body s = (Inr a, s')" by simp
    then obtain st st' where "load_state s sl = Some st" "load_state s' sl = Some st'" "state_later st st'"
        "\<forall>sl'. sl' \<noteq> sl \<longrightarrow> dir_of s' sl' = dir_of s sl'"
      by (rule mutate_ok [OF ok])
    then have "load_state s sl' = Some st0 \<Longrightarrow>
        \<exists>st1. load_state s' sl' = Some st1 \<and> state_later st0 st1" for sl' st0
      by (cases "sl' = sl") (auto simp: load_state_def)
    then show ?thesis using m by (simp add: later_def)
  qed
qed

end

text \<open>A new map: its fog identifiers are the numbers from 1, so distinct.\<close>

lemma fog_entries_ids:
  "fog_entries i vs = Inr fs \<Longrightarrow> \<exists>n. map fog_id fs = map (\<lambda>k. ''F-'' @ show_nat k) [i..<n] \<and> (fs = [] \<or> i < n)"
proof (induction vs arbitrary: i fs)
  case (Cons v vs)
  then obtain tx fs' where f: "fs = \<lparr>fog_id = ''F-'' @ show_nat i, fog_text = oneline tx, fog_stat = FogOpen\<rparr> # fs'"
      "fog_entries (i + 1) vs = Inr fs'"
    by (auto split: json.splits if_splits sum.splits)
  from Cons.IH [OF f(2)] obtain n where n: "map fog_id fs' = map (\<lambda>k. ''F-'' @ show_nat k) [i + 1..<n]"
      "fs' = [] \<or> i + 1 < n" by auto
  show ?case
  proof (cases "fs' = []")
    case True
    then show ?thesis using f by (intro exI [of _ "Suc i"]) simp
  next
    case False
    with n have "[i..<n] = i # [i + 1..<n]" using upt_conv_Cons [of i n] by simp
    then show ?thesis using n False f by (intro exI [of _ n]) simp
  qed
qed (auto intro: exI [of _ i])

lemma show_nat_inj: "show_nat m = show_nat n \<longleftrightarrow> m = n"
  by (metis show_nat_ok)

lemma wf_new_map:
  assumes "fog_entries 1 vs = Inr fs"
  shows "wf_state (new_map e sl ttl dest nts fs)"
proof -
  obtain n where "map fog_id fs = map (\<lambda>k. ''F-'' @ show_nat k) [1..<n]"
    using fog_entries_ids [OF assms] by blast
  then have "distinct (map fog_id fs)"
    by (simp add: distinct_map inj_on_def show_nat_inj)
  then show ?thesis
    by (simp add: wf_state_def core_ok_def status_ok_def new_map_def tickets_ok_def claims_ok_def holds_def
        blocks_def is_terminal_def acyclic_def)
qed

lemma create_okE:
  assumes "create_wayfind_map e sl ttl dest nts fj s = (Inr r, s')"
  obtains vs fs st where "slug_match sl" "oneline ttl \<noteq> []" "oneline dest \<noteq> []" "load_state s sl = None"
    "fog_entries 1 vs = Inr fs" "save_state (new_map e sl ttl dest nts fs) s = (st, s')"
    "r = MapCreated sl (map_id st) (state_path sl) (map_path sl) (length fs)"
  using assms
  by (auto simp: create_wayfind_map_def load_state_def Let_def
      split: if_splits option.splits json.splits sum.splits prod.splits)

lemma create_error: "create_wayfind_map e sl ttl dest nts fj s = (Inl er, s') \<Longrightarrow> s' = s"
  by (auto simp: create_wayfind_map_def Let_def
      split: if_splits option.splits json.splits sum.splits prod.splits)

lemma create_keeps:
  assumes "store_ok s"
  shows "store_ok (snd (create_wayfind_map e sl ttl dest nts fj s)) \<and> later s (snd (create_wayfind_map e sl ttl dest nts fj s))"
proof (cases "create_wayfind_map e sl ttl dest nts fj s")
  case (Pair r s')
  show ?thesis
  proof (cases r)
    case (Inl er)
    with Pair create_error assms show ?thesis by fastforce
  next
    case (Inr a)
    with Pair obtain vs fs st where c: "load_state s sl = None" "fog_entries 1 vs = Inr fs"
        "save_state (new_map e sl ttl dest nts fs) s = (st, s')"
      by (auto elim: create_okE)
    have "slug (new_map e sl ttl dest nts fs) = sl" by (simp add: new_map_def)
    then show ?thesis
      using store_ok_save [OF assms wf_new_map [OF c(2)] _ _ c(3)] later_save [OF _ c(3)] c(1) Pair
      by (simp add: new_map_def)
  qed
qed

lemma emit_error: "emit_wayfind_handoff e sl rj early conf x s = (Inl er, s') \<Longrightarrow> s' = s"
  by (auto simp: emit_wayfind_handoff_def Let_def split: if_splits option.splits json.splits prod.splits)

lemma emit_okE:
  assumes "emit_wayfind_handoff e sl rj early conf x s = (Inr r, s')"
  obtains st risks h st2 where "load_state s sl = Some st" "revision_guard st x = None"
    "is_terminal st \<or> early \<and> conf"
    "h = handoff_payload e sl st early (if is_terminal st then risks
       else risks @ map (\<lambda>l. ''UNRESOLVED: '' @ l) (open_item_labels st))"
    "h_slug h = sl"
    "save_state (st\<lparr>status := HandedOff\<rparr>) (write_handoff sl h s) = (st2, s')"
proof -
  from assms obtain st risks st2 where "load_state s sl = Some st" "revision_guard st x = None"
    "is_terminal st \<or> early \<and> conf"
    "save_state (st\<lparr>status := HandedOff\<rparr>) (write_handoff sl (handoff_payload e sl st early
       (if is_terminal st then risks else risks @ map (\<lambda>l. ''UNRESOLVED: '' @ l) (open_item_labels st))) s)
      = (st2, s')"
    by (auto simp: emit_wayfind_handoff_def Let_def split: if_splits option.splits json.splits prod.splits)
  then show ?thesis
    by (intro that [OF _ _ _ refl]) (simp_all add: handoff_payload_def)
qed

lemma load_write_handoff [simp]: "load_state (write_handoff sl h s) sl' = load_state s sl'"
  by (simp add: write_handoff_def load_set) (simp add: load_state_def)

lemma store_ok_write_handoff:
  assumes ok: "store_ok s" and h: "h_slug h = sl"
  shows "store_ok (write_handoff sl h s)"
proof -
  have "dir_ok sl' (dir_of (write_handoff sl h s) sl') st" if "load_state s sl' = Some st" for sl' st
    using store_ok_dir [OF ok that] h by (auto simp: write_handoff_def dir_of_set dir_ok_def views_ok_def)
  then show ?thesis
    using ok by (simp add: store_ok_def) (simp add: write_handoff_def alist.wf_put)
qed

lemma wf_state_handed_off: "wf_state st \<Longrightarrow> wf_state (st\<lparr>status := HandedOff\<rparr>)"
  by (simp add: wf_state_def core_ok_def status_ok_def)

lemma later_write_handoff: "later s s' \<longleftrightarrow> later (write_handoff sl h s) s'"
  by (simp add: later_def)

lemma emit_keeps:
  assumes "store_ok s"
  shows "store_ok (snd (emit_wayfind_handoff e sl rj early conf x s))
    \<and> later s (snd (emit_wayfind_handoff e sl rj early conf x s))"
proof (cases "emit_wayfind_handoff e sl rj early conf x s")
  case (Pair r s')
  show ?thesis
  proof (cases r)
    case (Inl er)
    with Pair emit_error assms show ?thesis by fastforce
  next
    case (Inr a)
    with Pair obtain st h st2 where c: "load_state s sl = Some st" "h_slug h = sl"
        "save_state (st\<lparr>status := HandedOff\<rparr>) (write_handoff sl h s) = (st2, s')"
      by (auto elim: emit_okE)
    have d: "slug st = sl" "1 \<le> revision st" "wf_state st"
      using store_ok_dir [OF assms c(1)] by (simp_all add: dir_ok_def)
    have ok: "store_ok s'"
      using d c(2) by (intro store_ok_save [OF store_ok_write_handoff [OF assms c(2)] wf_state_handed_off _ _ c(3)])
        (auto simp: write_handoff_def dir_of_set)
    have "later (write_handoff sl h s) s'"
      using c(1) d(1) by (intro later_save [OF _ c(3)]) (simp add: state_later_def)
    with ok Pair show ?thesis using later_write_handoff by simp
  qed
qed

lemmas operation_defs = add_ticket_def wire_blocking_def claim_ticket_def release_ticket_def
  record_human_input_def resolve_ticket_def amend_resolution_def amend_out_of_scope_def
  add_fog_def graduate_fog_def rule_out_of_scope_def

lemmas operations_store_ok =
  add_ticket.mutate_store_ok wire_blocking.mutate_store_ok claim_ticket.mutate_store_ok
  release_ticket.mutate_store_ok record_human_input.mutate_store_ok resolve_ticket.mutate_store_ok
  amend_resolution.mutate_store_ok amend_out_of_scope.mutate_store_ok add_fog.mutate_store_ok
  graduate_fog.mutate_store_ok rule_out_of_scope.mutate_store_ok

lemmas operations_later =
  add_ticket.mutate_later wire_blocking.mutate_later claim_ticket.mutate_later
  release_ticket.mutate_later record_human_input.mutate_later resolve_ticket.mutate_later
  amend_resolution.mutate_later amend_out_of_scope.mutate_later add_fog.mutate_later
  graduate_fog.mutate_later rule_out_of_scope.mutate_later

lemma dispatch_store_ok: "store_ok s \<Longrightarrow> store_ok (snd (dispatch e c s))"
  by (cases c) (simp_all add: create_keeps emit_keeps operation_defs operations_store_ok)

lemma dispatch_later: "store_ok s \<Longrightarrow> later s (snd (dispatch e c s))"
  by (cases c) (simp_all add: create_keeps emit_keeps operation_defs operations_later)

lemma dispatch_error: "dispatch e c s = (Inl er, s') \<Longrightarrow> s' = s"
  by (cases c) (auto simp: operation_defs dest: mutate_error create_error emit_error)

section \<open>The command line as a machine\<close>

inductive wf_step :: "store \<Rightarrow> store \<Rightarrow> bool" where
  command: "dispatch e c s = (r, s') \<Longrightarrow> wf_step s s'"

inductive_simps wf_step_iff: "wf_step s s'"

definition wf_start :: "store \<Rightarrow> bool" where
  "wf_start s \<longleftrightarrow> s = []"

interpretation maps: monotone_machine wf_start wf_step store_ok later
proof unfold_locales
  show "wf_start s \<Longrightarrow> store_ok s" for s by (simp add: wf_start_def store_ok_empty)
  show "store_ok s \<Longrightarrow> wf_step s t \<Longrightarrow> store_ok t" for s t
    by (metis dispatch_store_ok snd_conv wf_step_iff)
  show "store_ok s \<Longrightarrow> wf_step s t \<Longrightarrow> later s t" for s t
    by (metis dispatch_later snd_conv wf_step_iff)
  show "later s t \<Longrightarrow> later t u \<Longrightarrow> later s u" for s t u
    by (rule later_trans)
qed simp

end
