(* ===== verification/Wayfind_Cap.thy ===== *)
theory Wayfind_Cap
  imports Wayfind_Store
begin

text \<open>
  The limit on the tickets a session may resolve: which operations touch a session's count,
  and the machine whose commands all run under one limit.
\<close>

section \<open>The session limit\<close>

text \<open>What a session has used of its limit on tickets that are not research.\<close>

definition spent :: "wstate \<Rightarrow> string \<Rightarrow> int" where
  "spent st session = (case dict_get (sessions st) session of None \<Rightarrow> 0 | Some l \<Rightarrow> non_research_resolved l)"

lemma spent_cong: "sessions a = sessions b \<Longrightarrow> spent a = spent b"
  by (simp add: spent_def fun_eq_iff)

lemma spent_frame [simp]:
  "spent (recompute_status st) = spent st" "spent (set_ticket tid t st) = spent st"
  "spent (set_fog_status f x st) = spent st" "spent (st\<lparr>out_of_scope := oos\<rparr>) = spent st"
  "spent (st\<lparr>fogs := fs\<rparr>) = spent st" "spent (st\<lparr>revision := r\<rparr>) = spent st"
  "spent (st\<lparr>status := ms\<rparr>) = spent st"
  by (rule spent_cong, simp)+

lemma spent_set_ledger:
  "spent (set_ledger session l st) = (spent st)(session := non_research_resolved l)"
  by (auto simp: spent_def fun_eq_iff alist.get_put)

lemma spent_drop_claim [simp]: "spent (drop_claim s tid st) = spent st"
  by (auto simp: drop_claim_def spent_set_ledger fun_eq_iff split: option.splits) (simp add: spent_def)

lemma spent_ensure:
  assumes "ensure_session ts session st = (st', l)"
  shows "spent st' = spent st" "spent st session = non_research_resolved l"
  using assms by (auto simp: ensure_session_def spent_def fun_eq_iff alist.get_put new_ledger_def split: option.splits if_splits)

text \<open>The count of a session in the map of a directory, a map that does not exist counting nothing.\<close>

definition spent_at :: "store \<Rightarrow> string \<Rightarrow> string \<Rightarrow> int" where
  "spent_at s sl session = (case load_state s sl of None \<Rightarrow> 0 | Some st \<Rightarrow> spent st session)"

lemma spent_at_save:
  "save_state st s = (st', s') \<Longrightarrow> spent_at s' sl = (if sl = slug st then spent st else spent_at s sl)"
  using load_save(1,2) [of st s st' s'] by (auto simp: spent_at_def fun_eq_iff)

locale unspent = map_operation +
  assumes body_spent: "body st = Inr (st', mk) \<Longrightarrow> spent st' = spent st"
begin

lemma mutate_spent:
  assumes "store_ok s" "mutate guard sl x body s = (r, s')"
  shows "spent_at s' = spent_at s"
proof (cases r)
  case (Inl er)
  with assms(2) mutate_error show ?thesis by fastforce
next
  case (Inr a)
  from assms(2) [unfolded Inr] obtain st st1 mk st2 where b: "load_state s sl = Some st" "body st = Inr (st1, mk)"
      "save_state st1 s = (st2, s')"
    by (rule mutate_okE)
  have "slug st1 = sl" using body_slug [OF b(2)] store_ok_slug [OF assms(1) b(1)] by simp
  then show ?thesis using spent_at_save [OF b(3)] b(1) body_spent [OF b(2)] by (auto simp: spent_at_def fun_eq_iff)
qed

end

interpretation add_ticket_u: unspent mutation_guard "add_ticket_body e sl ttl ty question bb fog0"
  for e sl ttl ty question bb fog0
proof unfold_locales
  fix st st' mk assume "add_ticket_body e sl ttl ty question bb fog0 st = Inr (st', mk)"
  then obtain ty' bs tid st1 where m: "mint_ticket (clock e 0) st ttl ty' question bs (Some fog0) = (tid, st1)"
      "st' = recompute_status st1"
    by (auto simp: add_ticket_body_def split: option.splits if_splits sum.splits prod.splits)
  show "spent st' = spent st" using spent_cong [OF mint_frame(5) [OF m(1)]] m(2) by simp
qed

interpretation graduate_fog_u: unspent mutation_guard "graduate_fog_body e sl fid ttl ty question bb"
  for e sl fid ttl ty question bb
proof unfold_locales
  fix st st' mk assume "graduate_fog_body e sl fid ttl ty question bb st = Inr (st', mk)"
  then obtain ty' bs tid st1 where m: "mint_ticket (clock e 0) st ttl ty' question bs (Some fid) = (tid, st1)"
      "st' = recompute_status (set_fog_status fid Graduated st1)"
    by (auto simp: graduate_fog_body_def split: option.splits if_splits sum.splits prod.splits)
  show "spent st' = spent st" using spent_cong [OF mint_frame(5) [OF m(1)]] m(2) by simp
qed

interpretation wire_blocking_u: unspent mutation_guard "wire_blocking_body sl tid bb" for sl tid bb
  by unfold_locales (auto simp: wire_blocking_body_def split: option.splits if_splits sum.splits bool.splits)

interpretation release_ticket_u: unspent mutation_guard "release_ticket_body sl tid session"
  for sl tid session
  by unfold_locales (auto simp: release_ticket_body_def Let_def split: option.splits if_splits)

interpretation record_human_input_u: unspent mutation_guard "record_human_input_body e sl tid session path"
  for e sl tid session path
  by unfold_locales (auto simp: record_human_input_body_def split: option.splits if_splits)

interpretation add_fog_u: unspent mutation_guard "add_fog_body sl tx" for sl tx
  by unfold_locales (auto simp: add_fog_body_def Let_def split: if_splits)

interpretation amend_resolution_u: unspent revision_guard "amend_resolution_body e sl tid gist path"
  for e sl tid gist path
proof unfold_locales
  show "spent st' = spent st" if "amend_resolution_body e sl tid gist path st = Inr (st', mk)" for st st' mk
    using that by (rule amend_resolution_bodyE) simp
qed

interpretation amend_out_of_scope_u: unspent revision_guard "amend_out_of_scope_body sl tid fid reason gist"
  for sl tid fid reason gist
  by unfold_locales (auto simp: amend_out_of_scope_body_def Let_def split: if_splits option.splits)

interpretation rule_out_of_scope_u: unspent mutation_guard "rule_out_of_scope_body e sl reason tid fid gist"
  for e sl reason tid fid gist
proof unfold_locales
  show "spent st' = spent st" if "rule_out_of_scope_body e sl reason tid fid gist st = Inr (st', mk)" for st st' mk
    using that by (rule rule_out_of_scope_bodyE) simp_all
qed

interpretation claim_ticket_u: unspent mutation_guard "claim_ticket_body e sl tid session"
  for e sl tid session
proof unfold_locales
  fix st st' mk assume "claim_ticket_body e sl tid session st = Inr (st', mk)"
  then obtain t st2 l where es: "ensure_session (clock e 1) session
      (set_ticket tid (t\<lparr>claimed_by := Some session, claimed_at := Some (clock e 0)\<rparr>) st) = (st2, l)"
    and st': "st' = (let st3 = (if tid \<notin> set (l_claimed l)
        then set_ledger session (l\<lparr>l_claimed := l_claimed l @ [tid]\<rparr>) st2 else st2)
      in recompute_status (if status st3 = Charting then st3\<lparr>status := Active\<rparr> else st3))"
    by (rule claim_ticket_bodyE)
  show "spent st' = spent st"
    using spent_ensure [OF es] by (auto simp: st' Let_def spent_set_ledger)
qed

text \<open>
  A command that resolves, in the map \<open>sl\<close> and for the session, a ticket that is not research;
  and how many such commands a run holds. Neither looks at the ledger of the session.
\<close>

definition resolves_for :: "wf_env \<Rightarrow> wf_cmd \<Rightarrow> store \<Rightarrow> string \<Rightarrow> string \<Rightarrow> bool" where
  "resolves_for e c s sl session =
     (case c of
        ResolveTicket sl' tid session' g p x \<Rightarrow>
          sl' = sl \<and> session' = session \<and> \<not> isl (fst (dispatch e c s))
          \<and> (case load_state s sl of
                None \<Rightarrow> False
              | Some st \<Rightarrow> (case dict_get (tickets st) tid of None \<Rightarrow> False | Some t \<Rightarrow> t_type t \<noteq> Research))
      | _ \<Rightarrow> False)"

fun run_all :: "(wf_env \<times> wf_cmd) list \<Rightarrow> store \<Rightarrow> store" where
  "run_all [] s = s"
| "run_all (p # ps) s = run_all ps (snd (dispatch (fst p) (snd p) s))"

fun resolved_by :: "(wf_env \<times> wf_cmd) list \<Rightarrow> store \<Rightarrow> string \<Rightarrow> string \<Rightarrow> nat" where
  "resolved_by [] s sl session = 0"
| "resolved_by (p # ps) s sl session =
     (if resolves_for (fst p) (snd p) s sl session then 1 else 0)
       + resolved_by ps (snd (dispatch (fst p) (snd p) s)) sl session"

text \<open>The ledger counts exactly these commands, and a positive limit is checked before each.\<close>

lemma resolve_spent:
  assumes ok: "store_ok s" and r: "resolve_ticket e sl tid session gist path x s = (r, s')"
  shows "spent_at s' sl' ses = spent_at s sl' ses + (if resolves_for e (ResolveTicket sl tid session gist path x) s sl' ses then 1 else 0)"
    "resolves_for e (ResolveTicket sl tid session gist path x) s sl' ses \<Longrightarrow> 0 < max_nonresearch_per_session e
       \<Longrightarrow> spent_at s sl' ses < max_nonresearch_per_session e"
proof -
  let ?c = "ResolveTicket sl tid session gist path x"
  have "spent_at s' sl' ses = spent_at s sl' ses + (if resolves_for e ?c s sl' ses then 1 else 0)
      \<and> (resolves_for e ?c s sl' ses \<longrightarrow> 0 < max_nonresearch_per_session e \<longrightarrow> spent_at s sl' ses < max_nonresearch_per_session e)"
  proof (cases r)
    case (Inl er)
    have "s' = s" using r Inl mutate_error by (fastforce simp: resolve_ticket_def)
    with Inl r show ?thesis by (simp add: resolves_for_def)
  next
    case (Inr a)
    from r [unfolded Inr] obtain st st1 mk st2 where m: "load_state s sl = Some st" "save_state st1 s = (st2, s')"
        and b: "resolve_ticket_body e sl tid session gist path st = Inr (st1, mk)"
      by (auto simp: resolve_ticket_def elim: mutate_okE)
    have sl: "slug st1 = sl" using resolve_ticket.body_slug [OF b] store_ok_slug [OF ok m(1)] by simp
    from b show ?thesis
    proof (rule resolve_ticket_bodyE)
      fix t st0 l l2 u
      assume t: "dict_get (tickets st) tid = Some t"
        and es: "ensure_session (clock e 0) session st = (st0, l)"
        and c: "t_type t \<noteq> Research \<and> max_nonresearch_per_session e > 0
           \<longrightarrow> non_research_resolved l < max_nonresearch_per_session e"
        and l2: "non_research_resolved l2 = non_research_resolved l + (if t_type t = Research then 0 else 1)"
        and st1: "st1 = recompute_status (set_ledger session l2 (set_ticket tid
           (t\<lparr>t_status := Resolved, resolved_at := Some (clock e 1),
              t_resolution := Some \<lparr>res_gist = Some (oneline gist), res_path = Some path\<rparr>,
              claimed_by := None, claimed_at := None\<rparr>) st0))"
      have res: "resolves_for e ?c s sl' ses \<longleftrightarrow> sl' = sl \<and> ses = session \<and> t_type t \<noteq> Research"
        using r Inr m(1) t by (auto simp: resolves_for_def)
      have "spent_at s' sl' = (if sl' = sl then (spent st)(session := non_research_resolved l2) else spent_at s sl')"
        using spent_at_save [OF m(2)] sl spent_ensure(1) [OF es] by (simp add: st1 spent_set_ledger)
      moreover have "spent_at s sl = spent st" using m(1) by (simp add: spent_at_def fun_eq_iff)
      ultimately show ?thesis using spent_ensure(2) [OF es] l2 c res by auto
    qed
  qed
  then show "spent_at s' sl' ses = spent_at s sl' ses + (if resolves_for e ?c s sl' ses then 1 else 0)"
    "resolves_for e ?c s sl' ses \<Longrightarrow> 0 < max_nonresearch_per_session e \<Longrightarrow> spent_at s sl' ses < max_nonresearch_per_session e"
    by blast+
qed

lemma create_spent:
  assumes "create_wayfind_map e sl ttl dest nts fj s = (r, s')"
  shows "spent_at s' = spent_at s"
proof (cases r)
  case (Inl er)
  with assms create_error show ?thesis by fastforce
next
  case (Inr a)
  from assms [unfolded Inr] show ?thesis
  proof (rule create_okE)
    fix fs st assume "load_state s sl = None" "save_state (new_map e sl ttl dest nts fs) s = (st, s')"
    with spent_at_save [OF this(2)] show ?thesis
      by (auto simp: spent_at_def new_map_def spent_def fun_eq_iff)
  qed
qed

lemma emit_spent:
  assumes "store_ok s" "emit_wayfind_handoff e sl rj early conf x s = (r, s')"
  shows "spent_at s' = spent_at s"
proof (cases r)
  case (Inl er)
  with assms(2) emit_error show ?thesis by fastforce
next
  case (Inr a)
  from assms(2) [unfolded Inr] show ?thesis
  proof (rule emit_okE)
    fix st h st2 assume a: "load_state s sl = Some st"
      "save_state (st\<lparr>status := HandedOff\<rparr>) (write_handoff sl h s) = (st2, s')"
    have "spent_at (write_handoff sl h s) = spent_at s" by (simp add: spent_at_def fun_eq_iff)
    with spent_at_save [OF a(2)] a(1) store_ok_slug [OF assms(1) a(1)] show ?thesis
      by (auto simp: spent_at_def fun_eq_iff)
  qed
qed

lemmas operations_spent =
  add_ticket_u.mutate_spent wire_blocking_u.mutate_spent claim_ticket_u.mutate_spent
  release_ticket_u.mutate_spent record_human_input_u.mutate_spent
  amend_resolution_u.mutate_spent amend_out_of_scope_u.mutate_spent add_fog_u.mutate_spent
  graduate_fog_u.mutate_spent rule_out_of_scope_u.mutate_spent

lemma dispatch_spent:
  assumes ok: "store_ok s" and d: "dispatch e c s = (r, s')"
  shows "spent_at s' sl ses = spent_at s sl ses + (if resolves_for e c s sl ses then 1 else 0)"
    "resolves_for e c s sl ses \<Longrightarrow> 0 < max_nonresearch_per_session e \<Longrightarrow> spent_at s sl ses < max_nonresearch_per_session e"
proof -
  show "spent_at s' sl ses = spent_at s sl ses + (if resolves_for e c s sl ses then 1 else 0)"
  proof (cases "\<exists>sl tid session g p x. c = ResolveTicket sl tid session g p x")
    case True
    then show ?thesis using resolve_spent(1) [OF ok] d by auto
  next
    case False
    then have "spent_at s' = spent_at s"
      using d operations_spent [OF ok] emit_spent [OF ok] create_spent
      by (cases c) (auto simp: operation_defs)
    moreover have "\<not> resolves_for e c s sl ses" using False by (auto simp: resolves_for_def split: wf_cmd.splits)
    ultimately show ?thesis by simp
  qed
  show "resolves_for e c s sl ses \<Longrightarrow> 0 < max_nonresearch_per_session e \<Longrightarrow> spent_at s sl ses < max_nonresearch_per_session e"
    using resolve_spent(2) [OF ok] d by (cases c) (auto simp: resolves_for_def)
qed

lemma resolved_within:
  assumes "store_ok s" "\<forall>p \<in> set run. 0 < max_nonresearch_per_session (fst p) \<and> max_nonresearch_per_session (fst p) \<le> n"
    "spent_at s sl ses \<le> n"
  shows "spent_at s sl ses + int (resolved_by run s sl ses) \<le> n"
  using assms
proof (induction run arbitrary: s)
  case (Cons p run)
  obtain r s' where d: "dispatch (fst p) (snd p) s = (r, s')" by fastforce
  have ok': "store_ok s'" using dispatch_store_ok [OF Cons.prems(1), of "fst p" "snd p"] d by simp
  have "spent_at s' sl ses \<le> n"
    using dispatch_spent [OF Cons.prems(1) d, of sl ses] Cons.prems(2,3) by (auto split: if_splits)
  from Cons.IH [OF ok' _ this] Cons.prems(2) dispatch_spent(1) [OF Cons.prems(1) d, of sl ses] d
  show ?case by (auto split: if_splits)
qed simp

text \<open>What a session resolves in one map is not counted against its limit in another.\<close>

lemma limit_is_per_map:
  assumes "store_ok s" "resolve_ticket e sl tid session gist path x s = (r, s')" "sl' \<noteq> sl"
  shows "spent_at s' sl' session = spent_at s sl' session"
  using resolve_spent(1) [OF assms(1,2), of sl' session] assms(3) by (auto simp: resolves_for_def)

end
