(* ===== verification/Wayfind_Props.thy ===== *)
theory Wayfind_Props
  imports Wayfind_Cap
begin

text \<open>
  The properties of the decision maps, with their witnesses. A witness runs a concrete
  list of commands on the empty directory.
\<close>

section \<open>A concrete run\<close>

fun run_cmds :: "wf_env \<Rightarrow> wf_cmd list \<Rightarrow> store \<Rightarrow> store" where
  "run_cmds e [] s = s"
| "run_cmds e (c # cs) s = run_cmds e cs (snd (dispatch e c s))"

lemma wf_step_dispatch: "wf_step s (snd (dispatch e c s))"
  by (metis prod.collapse wf_step_iff)

lemma run_cmds_steps: "wf_step\<^sup>*\<^sup>* s (run_cmds e cs s)"
proof (induction cs arbitrary: s)
  case (Cons c cs)
  from Cons.IH [of "snd (dispatch e c s)"] wf_step_dispatch [of s e c] show ?case
    by (simp add: converse_rtranclp_into_rtranclp)
qed simp

lemma run_cmds_reachable: "reachable_from wf_start wf_step s \<Longrightarrow> reachable_from wf_start wf_step (run_cmds e cs s)"
  by (induction cs arbitrary: s) (auto intro: reach_step wf_step_dispatch)

lemma run_cmds_ok: "store_ok s \<Longrightarrow> store_ok (run_cmds e cs s)"
  using run_cmds_steps by (rule maps.run_inv)

definition demo_env :: wf_env where
  "demo_env = \<lparr>clock = (\<lambda>_. ''now''), uuid_hex = ''0a1b'', env_cap = Some ''1'', cwd = [''repo''],
     resolve_path = id, is_file = (\<lambda>p. True), read_text = (\<lambda>p. Some ''evidence'')\<rparr>"

definition demo_cmds :: "wf_cmd list" where
  "demo_cmds =
     [CreateMap ''auth'' ''Auth'' ''Ship it'' '''' '''',
      AddTicket ''auth'' ''Pick'' ''task'' ''Which?'' '''' '''' None,
      AddTicket ''auth'' ''Try'' ''grilling'' ''Works?'' ''[\"T-001\"]'' '''' (Some 2),
      ClaimTicket ''auth'' ''T-001'' ''s1'' None]"

definition demo :: store where
  "demo = run_cmds demo_env demo_cmds []"

lemma demo_ok: "store_ok demo"
  unfolding demo_def by (intro run_cmds_ok store_ok_empty)

lemma demo_reachable: "reachable_from wf_start wf_step demo"
  unfolding demo_def by (intro run_cmds_reachable reach_start) (simp add: wf_start_def)

definition demo_state :: wstate where
  "demo_state = the (load_state demo ''auth'')"

lemma demo_load: "load_state demo ''auth'' = Some demo_state"
proof -
  have "load_state demo ''auth'' \<noteq> None" by code_simp
  then show ?thesis by (auto simp: demo_state_def)
qed

lemma demo_wf: "wf_state demo_state"
  using store_ok_wf [OF demo_ok demo_load] .

section \<open>The invariant\<close>

text \<open>
  Claim C1. In every state the command line can reach from the empty directory, each
  decision map is well formed: ticket identifiers are distinct, every blocker names an
  existing ticket and blocking is acyclic; only open tickets are claimed, and the session
  ledgers list exactly the claims; every resolved ticket has its answer and its evidence,
  and, for a type that needs a person, the recorded human input; the map is exhausted
  exactly when nothing is left to decide (until it is handed off); the rendered files
  agree with the state; and a handed-off map has its hand-off file.
\<close>

theorem wayfind_invariant:
  assumes "reachable_from wf_start wf_step s" and "load_state s sl = Some st"
  shows "slug st = sl \<and> wf_state st \<and> views_ok (dir_of s sl) st
    \<and> (status st = HandedOff \<longrightarrow> (\<exists>h. handoff_json (dir_of s sl) = Some (HDoc h) \<and> h_slug h = sl))"
  using store_ok_dir [OF maps.reachable_inv [OF assms(1)] assms(2)] by (simp add: dir_ok_def)

theorem wayfind_invariant_witness: "wf_state demo_state \<and> views_ok (dir_of demo ''auth'') demo_state"
  using wayfind_invariant [OF demo_reachable demo_load] by simp

section \<open>Commands as transactions\<close>

text \<open>The map a mutating command edits, and the revision it expects.\<close>

fun target :: "wf_cmd \<Rightarrow> (string \<times> int option) option" where
  "target (AddTicket sl ttl ty question bb fog0 x) = Some (sl, x)"
| "target (WireBlocking sl tid bb x) = Some (sl, x)"
| "target (ClaimTicket sl tid ses x) = Some (sl, x)"
| "target (ReleaseTicket sl tid ses x) = Some (sl, x)"
| "target (RecordHumanInput sl tid ses p x) = Some (sl, x)"
| "target (ResolveTicket sl tid ses g p x) = Some (sl, x)"
| "target (AmendResolution sl tid g p x) = Some (sl, x)"
| "target (AmendOutOfScope sl tid fid r g x) = Some (sl, x)"
| "target (AddFog sl tx x) = Some (sl, x)"
| "target (GraduateFog sl fid ttl ty question bb x) = Some (sl, x)"
| "target (RuleOutOfScope sl r tid fid g x) = Some (sl, x)"
| "target (EmitHandoff sl rj early conf x) = Some (sl, x)"
| "target _ = None"

text \<open>A successful edit adds one to the revision of its map and leaves the others alone.\<close>

definition bumps :: "string \<Rightarrow> int option \<Rightarrow> store \<Rightarrow> store \<Rightarrow> bool" where
  "bumps sl x s s' \<longleftrightarrow> (\<exists>st st'. load_state s sl = Some st \<and> load_state s' sl = Some st'
     \<and> revision_guard st x = None \<and> revision st' = revision st + 1
     \<and> (\<forall>sl'. sl' \<noteq> sl \<longrightarrow> dir_of s' sl' = dir_of s sl'))"

lemma guard_revision: "mutation_guard st x = None \<Longrightarrow> revision_guard st x = None"
  by (simp add: mutation_guard_def split: if_splits)

context map_operation
begin

lemma mutate_bumps:
  assumes "store_ok s" "mutate guard sl x body s = (Inr r, s')"
    and "\<And>st. guard st x = None \<Longrightarrow> revision_guard st x = None"
  shows "bumps sl x s s'"
  using assms(1,2) by (rule mutate_ok) (use assms(3) in \<open>auto simp: bumps_def\<close>)

end

lemma emit_bumps:
  assumes "store_ok s" "emit_wayfind_handoff e sl rj early conf x s = (Inr r, s')"
  shows "bumps sl x s s'"
proof -
  from assms(2) obtain st h st2 where c: "load_state s sl = Some st" "revision_guard st x = None"
      "save_state (st\<lparr>status := HandedOff\<rparr>) (write_handoff sl h s) = (st2, s')"
    by (rule emit_okE)
  moreover have "slug st = sl" using store_ok_slug [OF assms(1) c(1)] .
  moreover have "sl' \<noteq> sl \<Longrightarrow> dir_of (write_handoff sl h s) sl' = dir_of s sl'" for sl'
    by (simp add: write_handoff_def dir_of_set)
  ultimately show ?thesis
    using load_save [OF c(3)] unfolding bumps_def by auto
qed

lemmas operations_bumps =
  add_ticket.mutate_bumps wire_blocking.mutate_bumps claim_ticket.mutate_bumps
  release_ticket.mutate_bumps record_human_input.mutate_bumps resolve_ticket.mutate_bumps
  amend_resolution.mutate_bumps amend_out_of_scope.mutate_bumps add_fog.mutate_bumps
  graduate_fog.mutate_bumps rule_out_of_scope.mutate_bumps

lemma dispatch_bumps:
  assumes "store_ok s" "target c = Some (sl, x)" "dispatch e c s = (Inr r, s')"
  shows "bumps sl x s s'"
  using assms
  by (cases c)
    (simp_all add: operation_defs operations_bumps emit_bumps guard_revision)

lemma dispatch_query:
  assumes "target c = None" "dispatch e c s = (r, s')"
  shows "s' = s \<or> (\<exists>sl. load_state s sl = None \<and> (\<forall>sl'. sl' \<noteq> sl \<longrightarrow> dir_of s' sl' = dir_of s sl'))"
proof (cases c)
  case (CreateMap sl ttl dest nts fj)
  show ?thesis
  proof (cases r)
    case (Inl er)
    with CreateMap assms create_error show ?thesis by simp
  next
    case (Inr a)
    with CreateMap assms have "create_wayfind_map e sl ttl dest nts fj s = (Inr a, s')" by simp
    then obtain fs st where "load_state s sl = None" "save_state (new_map e sl ttl dest nts fs) s = (st, s')"
      by (rule create_okE)
    moreover have "slug (new_map e sl ttl dest nts fs) = sl" by (simp add: new_map_def)
    ultimately show ?thesis using load_save(3) by metis
  qed
qed (use assms in auto)

text \<open>
  Claim C3. Every command is a transaction: one that reports an error leaves the directory
  as it was; one that succeeds changes at most one map directory; and a successful edit
  adds exactly one to the revision of its map.
\<close>

theorem command_is_transaction:
  assumes "store_ok s" and "dispatch e c s = (r, s')"
  shows "((\<exists>er. r = Inl er) \<longrightarrow> s' = s)
    \<and> (\<exists>sl. \<forall>sl'. sl' \<noteq> sl \<longrightarrow> dir_of s' sl' = dir_of s sl')
    \<and> (\<forall>sl x a. target c = Some (sl, x) \<and> r = Inr a \<longrightarrow> bumps sl x s s')"
proof -
  have u: "(\<exists>er. r = Inl er) \<longrightarrow> s' = s" using assms(2) dispatch_error by auto
  have b: "\<forall>sl x a. target c = Some (sl, x) \<and> r = Inr a \<longrightarrow> bumps sl x s s'"
    using dispatch_bumps assms by blast
  have "\<exists>sl. \<forall>sl'. sl' \<noteq> sl \<longrightarrow> dir_of s' sl' = dir_of s sl'"
  proof (cases "target c")
    case None
    with dispatch_query [OF None assms(2)] show ?thesis by blast
  next
    case (Some p)
    then show ?thesis using u b by (cases r; cases p) (auto simp: bumps_def)
  qed
  with u b show ?thesis by blast
qed

lemma dispatch_eta: "dispatch e c s = (fst (dispatch e c s), snd (dispatch e c s))"
  by simp

theorem command_is_transaction_witness:
  "bumps ''auth'' None demo (snd (dispatch demo_env (AddFog ''auth'' ''haze'' None) demo))"
proof -
  have "\<exists>a. fst (dispatch demo_env (AddFog ''auth'' ''haze'' None) demo) = Inr a"
    by (rule exI [of _ "FogAdded ''auth'' ''F-1'' 5"]) code_simp
  with command_is_transaction [OF demo_ok dispatch_eta [of demo_env "AddFog ''auth'' ''haze'' None"]]
  show ?thesis by auto
qed

text \<open>
  Claim C4. No lost update: when two sessions prepare edits of a map from the same
  revision, and the first one is applied, the second one is refused without effect.
\<close>

theorem no_lost_update:
  assumes "store_ok s" "target c = Some (sl, Some n)" "dispatch e c s = (Inr r, s')"
    and "target c' = Some (sl, Some n)"
  shows "\<exists>er. dispatch e' c' s' = (Inl er, s')"
proof -
  have "bumps sl (Some n) s s'" using dispatch_bumps assms by blast
  then obtain st' where st': "load_state s' sl = Some st'" "revision st' \<noteq> n"
    by (auto simp: bumps_def revision_guard_def split: if_splits)
  have "store_ok s'" using dispatch_store_ok [OF assms(1), of e c] assms(3) by simp
  then have "dispatch e' c' s' = (Inr a, t) \<Longrightarrow> False" for a t
    using dispatch_bumps [OF _ assms(4), of s' e' a t] st'
    by (auto simp: bumps_def revision_guard_def)
  then show ?thesis
    by (metis dispatch_error sum.exhaust surj_pair)
qed

theorem no_lost_update_witness:
  "\<exists>er. dispatch demo_env (AddFog ''auth'' ''rain'' (Some 4))
      (snd (dispatch demo_env (AddFog ''auth'' ''haze'' (Some 4)) demo))
     = (Inl er, snd (dispatch demo_env (AddFog ''auth'' ''haze'' (Some 4)) demo))"
proof -
  have "fst (dispatch demo_env (AddFog ''auth'' ''haze'' (Some 4)) demo) = Inr (FogAdded ''auth'' ''F-1'' 5)"
    by code_simp
  then have "dispatch demo_env (AddFog ''auth'' ''haze'' (Some 4)) demo
      = (Inr (FogAdded ''auth'' ''F-1'' 5), snd (dispatch demo_env (AddFog ''auth'' ''haze'' (Some 4)) demo))"
    by (simp add: prod_eq_iff)
  from no_lost_update [OF demo_ok _ this, of "''auth''" 4 "AddFog ''auth'' ''rain'' (Some 4)" demo_env]
  show ?thesis by simp
qed

section \<open>What never goes back\<close>

text \<open>
  Claim C5. Along any run of commands, a map never disappears and its revision never
  falls; a ticket is never removed, and a resolved or excluded ticket keeps that status for
  ever; a map that was handed off stays handed off.
\<close>

theorem decisions_are_permanent:
  assumes "reachable_from wf_start wf_step s" "wf_step\<^sup>*\<^sup>* s s'" "load_state s sl = Some st"
  shows "\<exists>st'. load_state s' sl = Some st' \<and> revision st \<le> revision st'
    \<and> (status st = HandedOff \<longrightarrow> status st' = HandedOff)
    \<and> (\<forall>tid t. dict_get (tickets st) tid = Some t \<longrightarrow>
         (\<exists>t'. dict_get (tickets st') tid = Some t'
            \<and> (t_status t \<in> {Resolved, OutOfScope} \<longrightarrow> t_status t' = t_status t)))"
proof -
  have "later s s'" using maps.run_above [OF assms(2) maps.reachable_inv [OF assms(1)]] .
  then obtain st' where "load_state s' sl = Some st'" "state_later st st'"
    using assms(3) by (auto simp: later_def)
  then show ?thesis by (auto simp: state_later_def keeps_def terminal_status_def)
qed

theorem decisions_are_permanent_witness:
  "\<exists>st'. load_state (run_cmds demo_env [ResolveTicket ''auth'' ''T-001'' ''s1'' ''yes'' ''a.md'' None] demo) ''auth''
      = Some st' \<and> revision demo_state \<le> revision st'"
  using decisions_are_permanent [OF demo_reachable run_cmds_steps demo_load] by fast

text \<open>
  The part of a map the hand-off fixes: everything but the wording of answers and
  exclusions (and the revision).
\<close>

definition decided :: "wstate \<Rightarrow> (string \<times> ticket) list \<times> fog list \<times> (string, ledger) dict
    \<times> (string option \<times> string option) list \<times> string \<times> string \<times> string" where
  "decided st = (map (\<lambda>(tid, t). (tid, t\<lparr>t_resolution := None\<rparr>)) (tickets st), fogs st, sessions st,
     map (\<lambda>en. (oos_ticket en, oos_fog en)) (out_of_scope st), title st, destination st, map_notes st)"

lemma mutate_handed_off:
  "load_state s sl = Some st \<Longrightarrow> status st = HandedOff \<Longrightarrow>
     mutate mutation_guard sl x body s = (Inl (AlreadyHandedOff (slug st)), s)"
  by (simp add: mutate_def mutation_guard_def)

lemma decided_recompute [simp]: "decided (recompute_status st) = decided st"
  by (simp add: decided_def recompute_status_def)

lemma decided_revision [simp]: "decided (st\<lparr>revision := r\<rparr>) = decided st"
  "decided (st\<lparr>status := x\<rparr>) = decided st"
  by (simp_all add: decided_def)

lemma map_dict_set_same:
  "dict_get T k = Some v \<Longrightarrow> f (k, w) = f (k, v) \<Longrightarrow> map f (dict_set k w T) = map f T"
  by (induction T) (auto simp: dict_set_def)

lemma amend_resolution_decided:
  assumes "amend_resolution_body e sl tid gist path st = Inr (st', mk)"
  shows "decided st' = decided st"
  using assms
proof (rule amend_resolution_bodyE)
  fix t r assume "dict_get (tickets st) tid = Some t"
    "st' = recompute_status (set_ticket tid (t\<lparr>t_resolution := Some r\<rparr>) st)"
  then show ?thesis by (simp add: set_ticket_def) (simp add: decided_def map_dict_set_same)
qed

lemma map_update_first_found:
  "find p xs = Some x \<Longrightarrow> g y = g x \<Longrightarrow> map g (update_first p (\<lambda>_. y) xs) = map g xs"
  by (induction xs) (auto split: if_splits)

lemma amend_out_of_scope_decided:
  assumes "amend_out_of_scope_body sl tid fid reason gist st = Inr (st', mk)"
  shows "decided st' = decided st"
proof -
  define p :: "oos_entry \<Rightarrow> bool"
    where "p = (\<lambda>en. (if tid \<noteq> [] then oos_ticket en else oos_fog en) = Some (or_else tid fid))"
  note b = assms [unfolded amend_out_of_scope_body_def Let_def, folded p_def]
  from b obtain en where f: "find p (out_of_scope st) = Some en"
    by (cases "find p (out_of_scope st)") (simp_all split: if_splits)
  let ?en1 = "case reason of None \<Rightarrow> en | Some r \<Rightarrow> en\<lparr>oos_reason := oneline r\<rparr>"
  let ?en2 = "case gist of None \<Rightarrow> ?en1 | Some g \<Rightarrow> ?en1\<lparr>oos_gist := oneline g\<rparr>"
  have "st' = recompute_status (st\<lparr>out_of_scope := update_first p (\<lambda>_. ?en2) (out_of_scope st)\<rparr>)"
    using b f by (simp split: if_splits)
  moreover have "(oos_ticket ?en2, oos_fog ?en2) = (oos_ticket en, oos_fog en)"
    by (simp split: option.splits)
  ultimately show ?thesis
    using map_update_first_found [OF f, of "\<lambda>en. (oos_ticket en, oos_fog en)" ?en2]
    by simp (simp add: decided_def)
qed

text \<open>An amendment is an operation that keeps what the hand-off fixed.\<close>

locale amendment = map_operation +
  assumes body_decided: "body st = Inr (st', mk) \<Longrightarrow> decided st' = decided st"
begin

lemma mutate_decided:
  assumes "store_ok s" "load_state s sl = Some st" "mutate guard sl x body s = (Inr r, s')"
  shows "\<exists>st'. load_state s' sl = Some st' \<and> decided st' = decided st"
proof -
  from assms(3) obtain st1 mk st2 where b: "body st = Inr (st1, mk)" "save_state st1 s = (st2, s')"
    using assms(2) by (auto elim: mutate_okE)
  moreover have "slug st1 = sl" using body_slug [OF b(1)] store_ok_slug [OF assms(1,2)] by simp
  ultimately show ?thesis
    using load_save(1,2) [OF b(2)] body_decided [OF b(1)] by simp
qed

end

interpretation amend_res: amendment revision_guard "amend_resolution_body e sl tid gist path"
  for e sl tid gist path
  by unfold_locales (rule amend_resolution_decided)

interpretation amend_oos: amendment revision_guard "amend_out_of_scope_body sl tid fid reason gist"
  for sl tid fid reason gist
  by unfold_locales (rule amend_out_of_scope_decided)

lemma emit_decided:
  assumes "store_ok s" "load_state s sl = Some st" "emit_wayfind_handoff e sl rj early conf x s = (Inr r, s')"
  shows "\<exists>st'. load_state s' sl = Some st' \<and> decided st' = decided st"
proof -
  from assms(3) obtain h st2 where c: "save_state (st\<lparr>status := HandedOff\<rparr>) (write_handoff sl h s) = (st2, s')"
    using assms(2) by (auto elim: emit_okE)
  with load_save(1,2) [OF c] store_ok_slug [OF assms(1,2)] show ?thesis by simp
qed

lemma handed_off_commands:
  assumes "load_state s sl = Some st" "status st = HandedOff" "target c = Some (sl, x)"
    and "dispatch e c s = (Inr a, s')"
  shows "(\<exists>tid g p. c = AmendResolution sl tid g p x) \<or> (\<exists>tid fid r g. c = AmendOutOfScope sl tid fid r g x)
       \<or> (\<exists>rj early conf. c = EmitHandoff sl rj early conf x)"
  using assms by (cases c) (auto simp: operation_defs mutate_handed_off)

lemma handed_off_decided:
  assumes "store_ok s" "load_state s sl = Some st" "status st = HandedOff"
  shows "\<exists>st'. load_state (snd (dispatch e c s)) sl = Some st' \<and> decided st' = decided st"
proof (cases "dispatch e c s")
  case (Pair r s')
  show ?thesis
  proof (cases r)
    case (Inl er)
    then show ?thesis using assms(2) Pair dispatch_error by fastforce
  next
    case (Inr a)
    have same: "dir_of s' sl = dir_of s sl \<Longrightarrow> ?thesis" using assms(2) Pair by (simp add: load_state_def)
    show ?thesis
    proof (cases "target c")
      case None
      then have "dir_of s' sl = dir_of s sl"
        using dispatch_query [OF None Pair] assms(2) by (metis option.distinct(1))
      then show ?thesis by (rule same)
    next
      case (Some p)
      then obtain sl' x where t: "target c = Some (sl', x)" by (cases p) auto
      have d: "dispatch e c s = (Inr a, s')" using Pair Inr by simp
      show ?thesis
      proof (cases "sl' = sl")
        case False
        then show ?thesis using dispatch_bumps [OF assms(1) t d] same by (auto simp: bumps_def)
      next
        case True
        with handed_off_commands [OF assms(2,3) _ d] t
        consider tid g p where "c = AmendResolution sl tid g p x"
          | tid fid g p where "c = AmendOutOfScope sl tid fid g p x"
          | rj early conf where "c = EmitHandoff sl rj early conf x" by auto
        then show ?thesis
          using d amend_res.mutate_decided [OF assms(1,2)] amend_oos.mutate_decided [OF assms(1,2)]
            emit_decided [OF assms(1,2)]
          by cases (simp_all add: amend_resolution_def amend_out_of_scope_def)
      qed
    qed
  qed
qed

text \<open>
  A handed-off map is frozen: whatever command runs next, the map stays handed
  off and its tickets, fog, ledgers, exclusions and descriptive fields are what they were;
  only the wording of recorded answers and exclusions may be amended, and only the two
  amendments and a repeated hand-off can succeed at all.
\<close>

theorem handed_off_is_frozen:
  assumes "store_ok s" "load_state s sl = Some st" "status st = HandedOff"
  shows "(\<exists>st'. load_state (snd (dispatch e c s)) sl = Some st' \<and> status st' = HandedOff \<and> decided st' = decided st)
    \<and> (\<forall>x a. target c = Some (sl, x) \<and> fst (dispatch e c s) = Inr a \<longrightarrow>
         (\<exists>tid g p. c = AmendResolution sl tid g p x) \<or> (\<exists>tid fid r g. c = AmendOutOfScope sl tid fid r g x)
         \<or> (\<exists>rj early conf. c = EmitHandoff sl rj early conf x))"
proof -
  have "\<exists>st'. load_state (snd (dispatch e c s)) sl = Some st' \<and> state_later st st'"
    using dispatch_later [OF assms(1), of e c] assms(2) by (simp add: later_def)
  with handed_off_decided [OF assms, of e c] assms(3)
  have "\<exists>st'. load_state (snd (dispatch e c s)) sl = Some st' \<and> status st' = HandedOff \<and> decided st' = decided st"
    by (auto simp: state_later_def)
  moreover have "target c = Some (sl, x) \<Longrightarrow> fst (dispatch e c s) = Inr a \<Longrightarrow>
      (\<exists>tid g p. c = AmendResolution sl tid g p x) \<or> (\<exists>tid fid r g. c = AmendOutOfScope sl tid fid r g x)
      \<or> (\<exists>rj early conf. c = EmitHandoff sl rj early conf x)" for x a
    using handed_off_commands [OF assms(2,3), of c x e a "snd (dispatch e c s)"]
    by (simp add: prod_eq_iff)
  ultimately show ?thesis by blast
qed

definition demo_off :: store where
  "demo_off = snd (dispatch demo_env (EmitHandoff ''auth'' [] True True None) demo)"

lemma demo_off_ok: "store_ok demo_off"
  unfolding demo_off_def by (intro dispatch_store_ok demo_ok)

theorem handed_off_is_frozen_witness:
  "\<exists>st'. load_state (snd (dispatch demo_env (AddFog ''auth'' ''haze'' None) demo_off)) ''auth'' = Some st'
      \<and> status st' = HandedOff"
proof -
  have "map_option status (load_state demo_off ''auth'') = Some HandedOff" by code_simp
  then obtain st where "load_state demo_off ''auth'' = Some st" "status st = HandedOff" by auto
  from handed_off_is_frozen [OF demo_off_ok this, of demo_env "AddFog ''auth'' ''haze'' None"]
  show ?thesis by blast
qed

section \<open>The frontier\<close>

lemma set_sorted_tickets:
  "dict_wf (tickets st) \<Longrightarrow> set (sorted_tickets st) = set (tickets st)"
  by (auto simp: sorted_tickets_def set_map_filter alist.keys_get dict_get_iff_mem)

lemma frontier_iff:
  "dict_wf (tickets st) \<Longrightarrow> (tid, t) \<in> set (frontier_tickets st) \<longleftrightarrow>
     dict_get (tickets st) tid = Some t \<and> is_frontier st t"
  by (auto simp: frontier_tickets_def set_sorted_tickets dict_get_iff_mem)

lemma claim_body_ok:
  "(\<exists>p. claim_ticket_body e sl tid session st = Inr p) \<longleftrightarrow>
     session \<noteq> [] \<and> (\<exists>t. dict_get (tickets st) tid = Some t \<and> is_frontier st t)"
  by (auto simp: claim_ticket_body_def is_frontier_def Let_def split: option.splits prod.splits if_splits)

text \<open>
  Claim C6. The frontier is exact: on a map that is not handed off, with the current
  revision expected and a session named, a claim succeeds for the tickets the frontier
  lists and for no others.
\<close>

theorem claim_succeeds_iff_frontier:
  assumes "store_ok s" "load_state s sl = Some st" "mutation_guard st x = None" "session \<noteq> []"
  shows "(\<exists>r. fst (claim_ticket e sl tid session x s) = Inr r) \<longleftrightarrow> tid \<in> fst ` set (frontier_tickets st)"
proof -
  have wf: "dict_wf (tickets st)" using wf_state_tickets [OF store_ok_wf [OF assms(1,2)]] .
  have "(\<exists>r. fst (claim_ticket e sl tid session x s) = Inr r)
      \<longleftrightarrow> (\<exists>p. claim_ticket_body e sl tid session st = Inr p)"
    using assms(2,3) by (auto simp: claim_ticket_def mutate_def Let_def split: sum.splits prod.splits)
  also have "\<dots> \<longleftrightarrow> (\<exists>t. (tid, t) \<in> set (frontier_tickets st))"
    using assms(4) by (simp only: claim_body_ok frontier_iff [OF wf]) simp
  finally show ?thesis by force
qed

theorem claim_succeeds_iff_frontier_witness:
  "(\<exists>r. fst (claim_ticket demo_env ''auth'' ''T-002'' ''s2'' None demo) = Inr r)
     \<longleftrightarrow> ''T-002'' \<in> fst ` set (frontier_tickets demo_state)"
proof -
  have "map_option (\<lambda>st. mutation_guard st None) (load_state demo ''auth'') = Some None" by code_simp
  then have "mutation_guard demo_state None = None" by (simp add: demo_load)
  then show ?thesis using claim_succeeds_iff_frontier [OF demo_ok demo_load, of None "''s2''" demo_env "''T-002''"]
    by simp
qed

lemma demo_tickets:
  "map (\<lambda>(tid, t). (tid, t_status t, claimed_by t)) (tickets demo_state)
     = [(''T-001'', Open, Some ''s1''), (''T-002'', Open, None)]"
  by code_simp

lemma demo_first: "\<exists>t. dict_get (tickets demo_state) ''T-001'' = Some t \<and> t_status t = Open"
  using demo_tickets by (auto simp: map_eq_Cons_conv)

text \<open>
  Claim C7. No deadlock: as long as a well-formed map has an open ticket, it has an open
  ticket that nothing blocks.
\<close>

theorem some_open_ticket_is_unblocked:
  assumes "wf_state st" "dict_get (tickets st) tid = Some t" "t_status t = Open"
  shows "\<exists>tid' t'. dict_get (tickets st) tid' = Some t' \<and> t_status t' = Open \<and> \<not> ticket_blocked st t'"
proof -
  let ?T = "tickets st" and ?O = "{x. \<exists>u. dict_get (tickets st) x = Some u \<and> t_status u = Open}"
  have T: "tickets_ok ?T" using assms(1) by (simp add: wf_state_def core_ok_def)
  have "finite (blocks ?T)"
  proof (rule finite_subset)
    show "blocks ?T \<subseteq> (\<Union>(x, u) \<in> set ?T. {x} \<times> set (blocked_by u))"
      by (auto simp: blocks_def dest!: dict_get_mem)
  qed auto
  then have "wf ((blocks ?T)\<inverse>)"
    using T by (intro finite_acyclic_wf_converse) (simp_all add: tickets_ok_def)
  moreover have "tid \<in> ?O" using assms(2,3) by simp
  ultimately obtain m where m: "m \<in> ?O" "\<And>y. (y, m) \<in> (blocks ?T)\<inverse> \<Longrightarrow> y \<notin> ?O"
    by (rule wfE_min) blast
  then obtain u where u: "dict_get ?T m = Some u" "t_status u = Open" by blast
  have "terminal_status (t_status v)" if "b \<in> set (blocked_by u)" "dict_get ?T b = Some v" for b v
    using that u m(2) [of b] by (cases "t_status v") (auto simp: blocks_def terminal_status_def)
  moreover have "dict_get ?T b \<noteq> None" if "b \<in> set (blocked_by u)" for b
    using tickets_ok_closed [OF T u(1) that] .
  ultimately have "\<not> ticket_blocked st u"
    by (fastforce simp: ticket_blocked_def list_ex_iff split: option.splits)
  with u show ?thesis by blast
qed

theorem some_open_ticket_is_unblocked_witness:
  "\<exists>tid t. dict_get (tickets demo_state) tid = Some t \<and> t_status t = Open \<and> \<not> ticket_blocked demo_state t"
  using demo_first some_open_ticket_is_unblocked [OF demo_wf] by blast

text \<open>
  The blocking editor is exact: given an existing ticket and a list that parses
  to existing blockers, the edit is refused as a self-block or a cycle precisely when the
  resulting blocking relation would have a cycle, and otherwise it is made.
\<close>

theorem wire_blocking_exact:
  assumes "wf_state st" "dict_get (tickets st) tid = Some t" "parse_blocked_by st bb = Inr bs"
  shows "(\<exists>p. wire_blocking_body sl tid bb st = Inr p)
    \<longleftrightarrow> acyclic (blocks (dict_set tid (t\<lparr>blocked_by := bs\<rparr>) (tickets st)))"
proof -
  let ?E = "blocks (dict_set tid (t\<lparr>blocked_by := bs\<rparr>) (tickets st))"
  have T: "tickets_ok (tickets st)" using assms(1) by (simp add: wf_state_def core_ok_def)
  have "edges (blocking_graph st (Some (tid, bs))) = ?E"
    using edges_override [OF T assms(2) parse_blocked_by_known [OF assms(3)]] .
  then have c: "detect_cycle (blocking_graph st (Some (tid, bs))) = Some (\<not> acyclic ?E)"
    by (simp add: detect_cycle_iff)
  have "tid \<in> set bs \<Longrightarrow> (tid, tid) \<in> ?E" by (simp add: blocks_set)
  then have "tid \<in> set bs \<Longrightarrow> \<not> acyclic ?E" by (auto simp: acyclic_def)
  with c assms(2,3) show ?thesis by (cases "acyclic ?E") (auto simp: wire_blocking_body_def)
qed

theorem wire_blocking_exact_witness:
  "\<exists>t. (\<exists>p. wire_blocking_body ''auth'' ''T-001'' ''[]'' demo_state = Inr p)
     \<longleftrightarrow> acyclic (blocks (dict_set ''T-001'' (t\<lparr>blocked_by := []\<rparr>) (tickets demo_state)))"
proof -
  obtain t where t: "dict_get (tickets demo_state) ''T-001'' = Some t" using demo_first by blast
  have "json_loads ''[]'' = Some (JList [])" by code_simp
  then have "parse_blocked_by demo_state ''[]'' = Inr []" by (simp add: parse_blocked_by_def or_else_def)
  with wire_blocking_exact [OF demo_wf t] show ?thesis by blast
qed

section \<open>The session limit in force\<close>

text \<open>
  Claim C8. However the commands of a run are chosen, when each runs under a positive limit of at
  most \<open>n\<close>, the run resolves for one session at most \<open>n\<close> tickets of one map that are not
  research. The commands that succeed are counted, not the ledger of the session; the limit is kept
  per map, so a session that works on two maps has it twice.
\<close>

theorem session_limit_respected:
  assumes "\<forall>p \<in> set run. 0 < max_nonresearch_per_session (fst p) \<and> max_nonresearch_per_session (fst p) \<le> n" "0 \<le> n"
  shows "int (resolved_by run [] sl session) \<le> n"
  using resolved_within [OF store_ok_empty assms(1), of sl session] assms(2)
  by (simp add: spent_at_def load_state_def dir_of_def empty_dir_def)

definition demo_run :: "(wf_env \<times> wf_cmd) list" where
  "demo_run = map (Pair demo_env) (demo_cmds @ [ResolveTicket ''auth'' ''T-001'' ''s1'' ''yes'' ''a.md'' None])"

theorem session_limit_respected_witness:
  "resolved_by demo_run [] ''auth'' ''s1'' = 1 \<and> int (resolved_by demo_run [] ''auth'' ''s1'') \<le> 1"
proof -
  have "max_nonresearch_per_session demo_env = 1" by code_simp
  then have "\<forall>p \<in> set demo_run. 0 < max_nonresearch_per_session (fst p) \<and> max_nonresearch_per_session (fst p) \<le> 1"
    by (auto simp: demo_run_def)
  from session_limit_respected [OF this] have "int (resolved_by demo_run [] ''auth'' ''s1'') \<le> 1" by simp
  moreover have "resolved_by demo_run [] ''auth'' ''s1'' = 1" by code_simp
  ultimately show ?thesis by simp
qed

section \<open>The hand-off\<close>

lemma decisions_exact:
  assumes "dict_wf (tickets st)"
  shows "set (handoff_decisions st) = {\<lparr>d_ticket_id = tid, d_title = t_title t, d_type = t_type t,
      d_question = t_question t, d_gist = ticket_gist t, d_resolution_path = ticket_res_path t\<rparr> | tid t.
      dict_get (tickets st) tid = Some t \<and> t_status t = Resolved}"
  using assms by (auto simp: handoff_decisions_def set_sorted_tickets dict_get_iff_mem)

lemma resolved_answered:
  assumes "wf_state st" "dict_get (tickets st) tid = Some t" "t_status t = Resolved"
  shows "ticket_gist t \<noteq> []" "ticket_res_path t \<noteq> []"
proof -
  have "ticket_ok t" using assms(1,2) by (auto simp: wf_state_def core_ok_def tickets_ok_def)
  with assms(3) show "ticket_gist t \<noteq> []" "ticket_res_path t \<noteq> []"
    by (auto simp: ticket_ok_def ticket_gist_def ticket_res_path_def opt_or_def or_else_def truthy_def
        split: option.splits)
qed

text \<open>
  A hand-off that is emitted is sound: its decisions are exactly the resolved
  tickets of the map at that moment, each with an answer and an evidence path; it is marked
  early precisely when something was still open; and every ticket and fog patch that was
  still open is named among the remaining risks. The map is then handed off.
\<close>

theorem handoff_is_sound:
  assumes "store_ok s" "load_state s sl = Some st"
    and "emit_wayfind_handoff e sl rj early conf x s = (Inr r, s')"
  shows "\<exists>h st'. handoff_json (dir_of s' sl) = Some (HDoc h) \<and> handoff_md (dir_of s' sl) = Some (render_handoff_md h)
    \<and> load_state s' sl = Some st' \<and> status st' = HandedOff
    \<and> d_ticket_id ` set (decisions h) = {tid. \<exists>t. dict_get (tickets st) tid = Some t \<and> t_status t = Resolved}
    \<and> list_all (\<lambda>d. d_gist d \<noteq> [] \<and> d_resolution_path d \<noteq> []) (decisions h)
    \<and> (h_early h \<longleftrightarrow> \<not> is_terminal st)
    \<and> set (map (\<lambda>l. ''UNRESOLVED: '' @ l) (open_item_labels st)) \<subseteq> set (remaining_risks h)"
proof -
  have w: "wf_state st" using store_ok_wf [OF assms(1,2)] .
  note dec = decisions_exact [OF wf_state_tickets [OF w]]
  from assms(3) obtain st0 risks h st2 where l0: "load_state s sl = Some st0"
      and t0: "is_terminal st0 \<or> early \<and> conf" and h0: "h = handoff_payload e sl st0 early (if is_terminal st0 then risks
         else risks @ map (\<lambda>l. ''UNRESOLVED: '' @ l) (open_item_labels st0))"
      and sv0: "save_state (st0\<lparr>status := HandedOff\<rparr>) (write_handoff sl h s) = (st2, s')"
    by (rule emit_okE)
  have "st0 = st" using l0 assms(2) by simp
  note t = t0 [unfolded this] and h = h0 [unfolded this] and sv = sv0 [unfolded this]
  have sl: "slug st = sl" using store_ok_slug [OF assms(1,2)] .
  have j: "handoff_json (dir_of s' sl) = Some (HDoc h)" "handoff_md (dir_of s' sl) = Some (render_handoff_md h)"
    using sv by (auto simp: save_state_def Let_def sl dir_of_set write_handoff_def)
  have "is_terminal st \<Longrightarrow> open_item_labels st = []"
    using is_terminal_iff [OF wf_state_tickets [OF w]] wf_state_tickets [OF w]
    by (auto simp: open_item_labels_def filter_empty_conv set_sorted_tickets dict_get_iff_mem)
  then have risks: "set (map (\<lambda>l. ''UNRESOLVED: '' @ l) (open_item_labels st)) \<subseteq> set (remaining_risks h)"
    by (auto simp: h handoff_payload_def)
  have d: "decisions h = handoff_decisions st" "h_early h \<longleftrightarrow> \<not> is_terminal st"
    using t by (auto simp: h handoff_payload_def)
  have "list_all (\<lambda>d. d_gist d \<noteq> [] \<and> d_resolution_path d \<noteq> []) (decisions h)"
    using resolved_answered [OF w] by (auto simp: list_all_iff d(1) dec)
  moreover have "d_ticket_id ` set (decisions h) = {tid. \<exists>t. dict_get (tickets st) tid = Some t \<and> t_status t = Resolved}"
    by (force simp: d(1) dec image_iff)
  moreover have "load_state s' sl = Some st2" "status st2 = HandedOff"
    using load_save(1,2) [OF sv] by (simp_all add: sl)
  ultimately show ?thesis using j d(2) risks by blast
qed

theorem handoff_is_sound_witness:
  "\<exists>h. handoff_json (dir_of demo_off ''auth'') = Some (HDoc h)
     \<and> set (map (\<lambda>l. ''UNRESOLVED: '' @ l) (open_item_labels demo_state)) \<subseteq> set (remaining_risks h)"
proof -
  have "fst (emit_wayfind_handoff demo_env ''auth'' [] True True None demo)
      = Inr (HandoffEmitted ''auth'' ''.map/wayfind/auth/handoff.md'' ''.map/wayfind/auth/handoff.json'' 0 2 5)"
    by code_simp
  then obtain r where "emit_wayfind_handoff demo_env ''auth'' [] True True None demo = (Inr r, demo_off)"
    unfolding demo_off_def by (simp add: prod_eq_iff)
  from handoff_is_sound [OF demo_ok demo_load this] show ?thesis by blast
qed

section \<open>Summaries\<close>

lemma length_filter_disjoint:
  "(\<And>x. x \<in> set xs \<Longrightarrow> P x \<Longrightarrow> \<not> Q x) \<Longrightarrow>
     length (filter P xs) + length (filter Q xs) = length (filter (\<lambda>x. P x \<or> Q x) xs)"
  by (induction xs) auto

lemma length_filter_cover:
  "(\<And>x. x \<in> set xs \<Longrightarrow> P x \<Longrightarrow> Q x \<or> R x) \<Longrightarrow>
     length (filter P xs) \<le> length (filter Q xs) + length (filter R xs)"
  by (induction xs) auto

lemma length_filter_mono:
  "(\<And>x. x \<in> set xs \<Longrightarrow> P x \<Longrightarrow> Q x) \<Longrightarrow> length (filter P xs) \<le> length (filter Q xs)"
  by (induction xs) auto

lemma mset_sorted_tickets:
  assumes "dict_wf (tickets st)"
  shows "length (filter P (sorted_tickets st)) = length (filter P (tickets st))"
proof -
  have d: "distinct (tickets st)" using assms by (simp add: dict_wf_def distinct_map)
  have "map fst (sorted_tickets st) = sort (dict_keys (tickets st))"
  proof -
    have "\<forall>k \<in> set ks. dict_get (tickets st) k \<noteq> None \<Longrightarrow>
        map fst (List.map_filter (\<lambda>tid. map_option (Pair tid) (dict_get (tickets st) tid)) ks) = ks" for ks
      by (induction ks) (auto simp: map_filter_simps)
    then show ?thesis by (simp add: sorted_tickets_def alist.keys_get)
  qed
  then have "distinct (sorted_tickets st)"
    using assms by (metis alist.wf_keys distinct_map distinct_sort)
  then have "card (set (filter P (sorted_tickets st))) = length (filter P (sorted_tickets st))"
    by (intro distinct_card) simp
  moreover have "card (set (filter P (tickets st))) = length (filter P (tickets st))"
    using d by (intro distinct_card) simp
  ultimately show ?thesis using set_sorted_tickets [OF assms] by simp
qed

lemma terminal_iff: "terminal_status x \<longleftrightarrow> x \<noteq> Open"
  by (cases x) (simp_all add: terminal_status_def)

lemma count_statuses:
  "length (filter (\<lambda>p. t_status (snd p) = Open) T) + length (filter (\<lambda>p. t_status (snd p) = Resolved) T)
     + length (filter (\<lambda>p. t_status (snd p) = OutOfScope) T) = length T"
proof (induction T)
  case (Cons p T)
  then show ?case by (cases "t_status (snd p)") auto
qed simp

text \<open>
  The summary of a well-formed map adds up: every ticket is counted once as
  open, resolved or excluded; each open ticket is in the frontier, blocked or claimed; and
  the map is reported ready to hand off exactly when it has tickets, none of them open, and
  no open fog.
\<close>

theorem status_summary_adds_up:
  assumes "wf_state st"
  shows "n_open (status_summary st) + n_resolved (status_summary st) + n_out_of_scope (status_summary st)
      = length (tickets st)
    \<and> n_open (status_summary st) \<le>
        n_frontier (status_summary st) + n_blocked (status_summary st) + n_claimed (status_summary st)
    \<and> n_frontier (status_summary st) + n_blocked (status_summary st) \<le> n_open (status_summary st)
    \<and> (handoff_eligible (status_summary st) \<longleftrightarrow>
        tickets st \<noteq> [] \<and> n_open (status_summary st) = 0 \<and> n_open_fog (status_summary st) = 0)"
proof -
  let ?T = "tickets st"
  have wf: "dict_wf ?T" using wf_state_tickets [OF assms] .
  have total: "n_open (status_summary st) + n_resolved (status_summary st)
      + n_out_of_scope (status_summary st) = length ?T"
    using count_statuses [of ?T] by (simp add: status_summary_def Let_def case_prod_unfold)
  have f: "n_frontier (status_summary st) = length (filter (\<lambda>p. is_frontier st (snd p)) ?T)"
    using mset_sorted_tickets [OF wf]
    by (simp add: status_summary_def Let_def frontier_tickets_def case_prod_unfold)
  have o: "n_open (status_summary st) = length (filter (\<lambda>p. t_status (snd p) = Open) ?T)"
    by (simp add: status_summary_def Let_def case_prod_unfold)
  have b: "n_blocked (status_summary st) = length (filter (\<lambda>p. t_status (snd p) = Open \<and> ticket_blocked st (snd p)) ?T)"
    by (simp add: status_summary_def Let_def case_prod_unfold)
  have c: "n_claimed (status_summary st)
      = length (filter (\<lambda>p. truthy (claimed_by (snd p)) \<and> \<not> terminal_status (t_status (snd p))) ?T)"
    by (simp add: status_summary_def Let_def case_prod_unfold active_claims_def)
  have open0: "filter (\<lambda>p. t_status (snd p) = Open) ?T = []
      \<longleftrightarrow> (\<forall>tid t. dict_get ?T tid = Some t \<longrightarrow> terminal_status (t_status t))"
    by (auto simp: filter_empty_conv dict_get_iff_mem [OF wf] terminal_iff)
  have fog0: "n_open_fog (status_summary st) = length (open_fog st)"
    and handoff: "handoff_eligible (status_summary st) = is_terminal st"
    by (simp_all add: status_summary_def Let_def)
  have fb: "n_frontier (status_summary st) + n_blocked (status_summary st)
      = length (filter (\<lambda>p. is_frontier st (snd p) \<or> t_status (snd p) = Open \<and> ticket_blocked st (snd p)) ?T)"
    unfolding f b by (rule length_filter_disjoint) (simp add: is_frontier_def)
  have "n_open (status_summary st) \<le> (n_frontier (status_summary st) + n_blocked (status_summary st)) + n_claimed (status_summary st)"
    unfolding fb o c by (rule length_filter_cover) (auto simp: is_frontier_def)
  moreover have "n_frontier (status_summary st) + n_blocked (status_summary st) \<le> n_open (status_summary st)"
    unfolding fb o by (rule length_filter_mono) (auto simp: is_frontier_def)
  moreover have "handoff_eligible (status_summary st) \<longleftrightarrow>
        ?T \<noteq> [] \<and> n_open (status_summary st) = 0 \<and> n_open_fog (status_summary st) = 0"
    unfolding o handoff is_terminal_iff [OF wf] by (simp add: open0 fog0)
  ultimately show ?thesis using total by simp
qed

theorem status_summary_adds_up_witness:
  "n_open (status_summary demo_state) + n_resolved (status_summary demo_state)
     + n_out_of_scope (status_summary demo_state) = length (tickets demo_state)"
  using status_summary_adds_up [OF demo_wf] by blast

section \<open>Texts\<close>

text \<open>A text on one line: single blanks, none at either end.\<close>

definition single_line :: "string \<Rightarrow> bool" where
  "single_line s \<longleftrightarrow> (\<forall>c \<in> set s. is_space c \<longrightarrow> c = CHR '' '')
     \<and> (\<forall>u v. s \<noteq> u @ [CHR '' '', CHR '' ''] @ v)
     \<and> (s \<noteq> [] \<longrightarrow> \<not> is_space (hd s) \<and> \<not> is_space (last s))"

fun no_double :: "string \<Rightarrow> bool" where
  "no_double (c # d # cs) = (\<not> (is_space c \<and> is_space d) \<and> no_double (d # cs))"
| "no_double _ = True"

lemma no_double_app: "no_double (u @ v) \<Longrightarrow> no_double u \<and> no_double v"
  by (induction u rule: no_double.induct) (auto, metis append_Cons append_Nil no_double.elims(3) no_double.simps(1) no_double.simps(3))

lemma no_double_squeeze: "no_double (squeeze s)"
proof (induction s rule: squeeze.induct)
  case (2 c cs)
  show ?case
  proof (cases "is_space c")
    case True
    show ?thesis
    proof (cases "dropWhile is_space cs")
      case (Cons d ds)
      then have "\<not> is_space d" by (metis hd_dropWhile list.distinct(1) list.sel(1))
      with 2 True Cons show ?thesis by auto
    next
      case Nil
      with True show ?thesis by (simp add: Nil)
    qed
  next
    case False
    with 2 show ?thesis by (cases "squeeze cs") auto
  qed
qed simp

lemma strip_infix: "\<exists>u v. s = u @ strip s @ v"
proof -
  have "s = takeWhile is_space s @ lstrip s" by (simp add: lstrip_def)
  moreover have "lstrip s = rstrip (lstrip s) @ rev (takeWhile is_space (rev (lstrip s)))"
    unfolding rstrip_def by (metis rev_append rev_rev_ident takeWhile_dropWhile_id)
  ultimately show ?thesis unfolding strip_def by metis
qed

lemma no_double_pair: "no_double s \<Longrightarrow> s \<noteq> u @ [CHR '' '', CHR '' ''] @ v"
proof
  assume "no_double s" "s = u @ [CHR '' '', CHR '' ''] @ v"
  then have "no_double ([CHR '' '', CHR '' ''] @ v)" using no_double_app by blast
  then show False by simp
qed

lemma oneline_single: "single_line (oneline s)"
proof -
  obtain u v where uv: "squeeze s = u @ oneline s @ v"
    using strip_infix [of "squeeze s"] unfolding oneline_def by blast
  have "no_double (oneline s)"
    using no_double_squeeze [of s] unfolding uv by (metis no_double_app)
  moreover have "\<forall>c \<in> set (oneline s). is_space c \<longrightarrow> c = CHR '' ''"
    using uv set_squeeze [of _ s] by (metis Un_iff set_append)
  ultimately show ?thesis
    unfolding single_line_def using no_double_pair strip_ends [of "squeeze s"] by (auto simp: oneline_def)
qed

lemma squeeze_id:
  "no_double s \<Longrightarrow> \<forall>c \<in> set s. is_space c \<longrightarrow> c = CHR '' '' \<Longrightarrow> squeeze s = s"
proof (induction s rule: squeeze.induct)
  case (2 c cs)
  show ?case
  proof (cases "is_space c")
    case True
    with 2(4) have c: "c = CHR '' ''" by simp
    have dw: "dropWhile is_space cs = cs" using 2(3) True by (cases cs) auto
    have "no_double cs" using 2(3) by (cases cs) auto
    with 2(1) [unfolded dw, OF True] 2(4) have "squeeze cs = cs" by simp
    then show ?thesis using True c by (simp add: dw)
  next
    case False
    moreover have "no_double cs" using 2(3) by (cases cs) auto
    ultimately show ?thesis using 2(2,4) by simp
  qed
qed simp

lemma oneline_id: "single_line s \<Longrightarrow> no_double s \<Longrightarrow> oneline s = s"
  unfolding oneline_def single_line_def by (subst squeeze_id) (auto intro: strip_id)

lemma pair_no_double:
  "(\<forall>c \<in> set s. is_space c \<longrightarrow> c = CHR '' '') \<Longrightarrow> (\<forall>u v. s \<noteq> u @ [CHR '' '', CHR '' ''] @ v) \<Longrightarrow> no_double s"
proof (induction s rule: no_double.induct)
  case (1 c d cs)
  have "d # cs \<noteq> u @ [CHR '' '', CHR '' ''] @ v" for u v
    using 1(3) by (metis append_Cons)
  moreover have "\<not> (is_space c \<and> is_space d)" using 1(2,3) by (metis append_Cons append_Nil list.set_intros)
  ultimately show ?case using 1 by simp
qed simp_all

text \<open>
  Every free text a command stores goes through one normalisation, which is a
  projection onto the single-line texts: its results have no line break, no tab, no two
  blanks in a row and no blank at either end, so they cannot start a new line of a rendered
  file; and it changes nothing exactly on such texts.
\<close>

theorem oneline_is_projection:
  "single_line (oneline s) \<and> (oneline s = s \<longleftrightarrow> single_line s) \<and> oneline (oneline s) = oneline s"
proof -
  have "oneline t = t" if "single_line t" for t
    using that pair_no_double [of t] by (intro oneline_id) (auto simp: single_line_def)
  then show ?thesis using oneline_single by metis
qed

section \<open>Tickets\<close>

text \<open>
  Adding a ticket mints an identifier no ticket of the map has, stores under it
  an open, unclaimed ticket with normalised title and question, and changes no other
  ticket; looking the new identifier up shows that ticket.
\<close>

theorem add_ticket_effect:
  assumes "store_ok s" "load_state s sl = Some st"
    and "add_ticket e sl ttl ty question bb fog0 x s = (Inr r, s')"
  shows "\<exists>tid t st'. r = TicketAdded sl tid (revision st + 1) \<and> dict_get (tickets st) tid = None
    \<and> load_state s' sl = Some st' \<and> show_ticket sl tid s' = Inr (TicketShown tid t)
    \<and> t_title t = oneline ttl \<and> t_question t = oneline question \<and> t_status t = Open \<and> claimed_by t = None
    \<and> (\<forall>tid'. tid' \<noteq> tid \<longrightarrow> dict_get (tickets st') tid' = dict_get (tickets st) tid')"
proof -
  from assms(2,3) obtain st1 mk st2 where b: "add_ticket_body e sl ttl ty question bb fog0 st = Inr (st1, mk)"
      and sv: "save_state st1 s = (st2, s')" and r: "r = mk (revision st2)"
    by (auto simp: add_ticket_def elim: mutate_okE)
  from b obtain ty' bs tid st0 where m: "mint_ticket (clock e 0) st ttl ty' question bs (Some fog0) = (tid, st0)"
      and st1: "st1 = recompute_status st0" and mk: "mk = (\<lambda>rev. TicketAdded sl tid rev)"
    by (auto simp: add_ticket_body_def split: option.splits if_splits sum.splits prod.splits)
  obtain t where t: "tickets st0 = dict_set tid t (tickets st)" "t_title t = oneline ttl"
      "t_question t = oneline question" "t_status t = Open" "claimed_by t = None"
    using m by (auto simp: mint_ticket_def Let_def)
  note fr = mint_frame [OF m]
  have "slug st1 = sl" using fr(1) store_ok_slug [OF assms(1,2)] by (simp add: st1)
  with load_save(1,2) [OF sv] have l: "load_state s' sl = Some st2" "revision st2 = revision st + 1"
      "tickets st2 = tickets st0"
    using fr(2) by (simp_all add: st1)
  have "dict_get (tickets st) tid = None" using fr(7) next_ticket_id_new by simp
  moreover have "show_ticket sl tid s' = Inr (TicketShown tid t)"
    using l t(1) by (simp add: show_ticket_def alist.get_put)
  ultimately show ?thesis
    using l t r mk by (intro exI [of _ tid] exI [of _ t] exI [of _ st2]) (simp add: alist.get_put)
qed

theorem add_ticket_effect_witness:
  "\<exists>tid. dict_get (tickets demo_state) tid = None \<and>
     (\<exists>t. show_ticket ''auth'' tid (snd (add_ticket demo_env ''auth'' ''New'' ''task'' ''Why?'' [] [] None demo))
        = Inr (TicketShown tid t))"
proof -
  have "fst (add_ticket demo_env ''auth'' ''New'' ''task'' ''Why?'' [] [] None demo) = Inr (TicketAdded ''auth'' ''T-003'' 5)"
    by code_simp
  then have "add_ticket demo_env ''auth'' ''New'' ''task'' ''Why?'' [] [] None demo
      = (Inr (TicketAdded ''auth'' ''T-003'' 5), snd (add_ticket demo_env ''auth'' ''New'' ''task'' ''Why?'' [] [] None demo))"
    by (simp add: prod_eq_iff)
  from add_ticket_effect [OF demo_ok demo_load this] show ?thesis by blast
qed

text \<open>
  A ticket is resolved only by the session that holds it and only on evidence:
  after a successful resolution the ticket is resolved with the given answer, the evidence
  is a file that is not blank and lies inside the map's own directory after symbolic links
  and dots are resolved, and for a type that needs a person the human input had been
  recorded.
\<close>

theorem resolve_ticket_effect:
  assumes "store_ok s" "load_state s sl = Some st"
    and "resolve_ticket e sl tid session gist path x s = (Inr r, s')"
  shows "\<exists>t t' st' p. dict_get (tickets st) tid = Some t \<and> claimed_by t = Some session
    \<and> load_state s' sl = Some st' \<and> dict_get (tickets st') tid = Some t' \<and> t_status t' = Resolved
    \<and> t_resolution t' = Some \<lparr>res_gist = Some (oneline gist), res_path = Some path\<rparr>
    \<and> (is_hitl (t_type t) \<longrightarrow> truthy (human_input_path t))
    \<and> prefix (resolve_path e (map_dir_path e sl)) p \<and> is_file e p \<and> strip (safe_read e p) \<noteq> []
    \<and> p = resolve_path e (resolve_path e (map_dir_path e sl) @ path_parts path)"
proof -
  from assms(2,3) obtain st1 mk st2 where b: "resolve_ticket_body e sl tid session gist path st = Inr (st1, mk)"
      and sv: "save_state st1 s = (st2, s')"
    by (auto simp: resolve_ticket_def elim: mutate_okE)
  let ?t' = "\<lambda>t. t\<lparr>t_status := Resolved, resolved_at := Some (clock e 1),
            t_resolution := Some \<lparr>res_gist = Some (oneline gist), res_path = Some path\<rparr>,
            claimed_by := None, claimed_at := None\<rparr>"
  from b obtain t st0 l l2 where t: "dict_get (tickets st) tid = Some t" "claimed_by t = Some session"
      "evidence_ok e sl path" "is_hitl (t_type t) \<longrightarrow> truthy (human_input_path t)"
      and st1: "st1 = recompute_status (set_ledger session l2 (set_ticket tid (?t' t) st0))"
    by (rule resolve_ticket_bodyE)
  from t(3) obtain p where p: "resolve_evidence_path e sl path = Some p" "strip (safe_read e p) \<noteq> []"
    by (auto simp: evidence_ok_def split: option.splits)
  then have "prefix (resolve_path e (map_dir_path e sl)) p \<and> is_file e p
      \<and> p = resolve_path e (resolve_path e (map_dir_path e sl) @ path_parts path)"
    by (auto simp: resolve_evidence_path_def Let_def split: if_splits)
  moreover have "slug st1 = sl"
    using resolve_ticket.body_slug [OF b] store_ok_slug [OF assms(1,2)] by simp
  then have "load_state s' sl = Some st2" "tickets st2 = tickets st1"
    using load_save(1,2) [OF sv] by simp_all
  moreover have "dict_get (tickets st1) tid = Some (?t' t)" by (simp add: st1 alist.get_put)
  ultimately show ?thesis
    using t p(2) by - (rule exI [of _ t], rule exI [of _ "?t' t"], rule exI [of _ st2], rule exI [of _ p], auto)
qed

theorem resolve_ticket_effect_witness:
  "\<exists>t. dict_get (tickets demo_state) ''T-001'' = Some t \<and> claimed_by t = Some ''s1''"
proof -
  have "fst (resolve_ticket demo_env ''auth'' ''T-001'' ''s1'' ''yes'' ''a.md'' None demo)
      = Inr (TicketResolved ''auth'' ''T-001'' False 5)"
    by code_simp
  then have "resolve_ticket demo_env ''auth'' ''T-001'' ''s1'' ''yes'' ''a.md'' None demo
      = (Inr (TicketResolved ''auth'' ''T-001'' False 5),
         snd (resolve_ticket demo_env ''auth'' ''T-001'' ''s1'' ''yes'' ''a.md'' None demo))"
    by (simp add: prod_eq_iff)
  from resolve_ticket_effect [OF demo_ok demo_load this] show ?thesis by blast
qed

end
