(* ===== verification/Orch_Plan.thy ===== *)
theory Orch_Plan
  imports Json
begin

text \<open>
  The planning half of \<^verbatim>\<open>map_orchestrator.py\<close>: which subtask identifiers a blueprint or a
  Markdown plan lists, the dependencies a blueprint declares, and the stable topological
  sort that orders the subtasks. Word boundaries in the patterns are those of ASCII.
\<close>

section \<open>Subtask identifiers\<close>

definition dedupe_subtask_ids :: "string list \<Rightarrow> string list" where
  "dedupe_subtask_ids ids = foldl (\<lambda>unique x. if x \<in> set unique then unique else unique @ [x]) [] ids"

text \<open>\<^verbatim>\<open>_SUBTASK_ID_FULL_RE.fullmatch\<close>.\<close>

definition is_subtask_id :: "string \<Rightarrow> bool" where
  "is_subtask_id s = (take 3 s = ''ST-'' \<and> all_digits (drop 3 s))"

text \<open>A file that is read as JSON: missing, not parseable, or its value.\<close>

datatype 'a doc_file = Absent | Unparsable | Parsed 'a

fun blueprint_ids :: "json list \<Rightarrow> string list" where
  "blueprint_ids [] = []"
| "blueprint_ids (st # sts) =
     (case st of
        JObj _ \<Rightarrow>
          (case jget ''id'' st of
             Some (JStr i) \<Rightarrow>
               if is_subtask_id (strip i) then strip i # blueprint_ids sts else blueprint_ids sts
           | _ \<Rightarrow> blueprint_ids sts)
      | _ \<Rightarrow> blueprint_ids sts)"

definition extract_subtask_ids_from_blueprint :: "json doc_file \<Rightarrow> string list" where
  "extract_subtask_ids_from_blueprint f =
     (case f of
        Parsed (JObj kvs) \<Rightarrow>
          (case jget ''subtasks'' (JObj kvs) of
             Some (JList sts) \<Rightarrow> dedupe_subtask_ids (blueprint_ids sts)
           | _ \<Rightarrow> [])
      | _ \<Rightarrow> [])"

text \<open>\<^verbatim>\<open>(ST-\d+)\<close> at the start of a string, taking all its digits: the match and the rest.\<close>

definition match_id :: "string \<Rightarrow> (string \<times> string) option" where
  "match_id s =
     (let ds = takeWhile is_digit (drop 3 s)
      in if take 3 s = ''ST-'' \<and> ds \<noteq> [] then Some (''ST-'' @ ds, drop (3 + length ds) s) else None)"

definition at_boundary :: "string \<Rightarrow> bool" where
  "at_boundary rest = (rest = [] \<or> \<not> is_word_char (hd rest))"

definition bounded_id :: "string \<Rightarrow> string option" where
  "bounded_id s = (case match_id s of Some (i, rest) \<Rightarrow> if at_boundary rest then Some i else None | None \<Rightarrow> None)"

text \<open>\<^verbatim>\<open>\s{0,3}#{1,6}\s+(ST-\d+)\b\<close>\<close>

definition heading_match :: "string \<Rightarrow> string option" where
  "heading_match line =
     (let rest = lstrip line; body = dropWhile (\<lambda>c. c = CHR ''#'') rest;
          n = length rest - length body
      in if length line - length rest \<le> 3 \<and> 1 \<le> n \<and> n \<le> 6 \<and> body \<noteq> [] \<and> is_space (hd body)
         then bounded_id (lstrip body) else None)"

text \<open>\<^verbatim>\<open>\s*\|\s*(ST-\d+)\s*\|\<close>\<close>

definition table_match :: "string \<Rightarrow> string option" where
  "table_match line =
     (case lstrip line of
        c # rest \<Rightarrow>
          if c = CHR ''|'' then
            (case match_id (lstrip rest) of
               Some (i, more) \<Rightarrow>
                 (case lstrip more of d # _ \<Rightarrow> if d = CHR ''|'' then Some i else None | [] \<Rightarrow> None)
             | None \<Rightarrow> None)
          else None
      | [] \<Rightarrow> None)"

text \<open>\<^verbatim>\<open>(?:\[[ xX]\]\s*)?\<close>: a check box, when there is one.\<close>

definition skip_checkbox :: "string \<Rightarrow> string" where
  "skip_checkbox s =
     (case s of
        a # b # c # rest \<Rightarrow>
          if a = CHR ''['' \<and> b \<in> {CHR '' '', CHR ''x'', CHR ''X''} \<and> c = CHR '']'' then lstrip rest else s
      | _ \<Rightarrow> s)"

text \<open>\<^verbatim>\<open>\s*[-*]\s+(?:\[[ xX]\]\s*)?(ST-\d+)\b\<close>\<close>

definition bullet_match :: "string \<Rightarrow> string option" where
  "bullet_match line =
     (case lstrip line of
        c # rest \<Rightarrow>
          if (c = CHR ''-'' \<or> c = CHR ''*'') \<and> rest \<noteq> [] \<and> is_space (hd rest)
          then bounded_id (skip_checkbox (lstrip rest)) else None
      | [] \<Rightarrow> None)"

definition plan_line_id :: "string \<Rightarrow> string option" where
  "plan_line_id line =
     (case heading_match line of
        Some i \<Rightarrow> Some i
      | None \<Rightarrow> (case table_match line of Some i \<Rightarrow> Some i | None \<Rightarrow> bullet_match line))"

definition extract_subtask_ids_from_plan_markdown :: "string \<Rightarrow> string list" where
  "extract_subtask_ids_from_plan_markdown content =
     dedupe_subtask_ids (List.map_filter plan_line_id (splitlines content))"

definition extract_subtask_ids_from_plan_artifacts :: "string \<Rightarrow> json doc_file \<Rightarrow> string list" where
  "extract_subtask_ids_from_plan_artifacts content f =
     (let ids = extract_subtask_ids_from_blueprint f
      in if ids \<noteq> [] then ids else extract_subtask_ids_from_plan_markdown content)"

text \<open>\<^verbatim>\<open>_normalize_subtask_ids\<close>: the identifiers, or the malformed ones.\<close>

definition normalize_subtask_ids :: "string list \<Rightarrow> string list + string list" where
  "normalize_subtask_ids raw =
     (let ids = concat (map py_words raw); invalid = filter (\<lambda>i. \<not> is_subtask_id i) ids
      in if invalid \<noteq> [] then Inl invalid else Inr ids)"

section \<open>Declared dependencies\<close>

type_synonym deps = "(string, string list) dict"

fun str_items :: "json list \<Rightarrow> string list" where
  "str_items [] = []"
| "str_items (JStr s # vs) = s # str_items vs"
| "str_items (_ # vs) = str_items vs"

definition subtask_deps :: "json \<Rightarrow> string list" where
  "subtask_deps st = (case jget ''dependencies'' st of Some (JList ds) \<Rightarrow> str_items ds | _ \<Rightarrow> [])"

fun collect_deps :: "deps \<Rightarrow> json list \<Rightarrow> deps" where
  "collect_deps d [] = d"
| "collect_deps d (st # sts) =
     (case st of
        JObj _ \<Rightarrow>
          (case jget ''id'' st of
             Some (JStr i) \<Rightarrow> collect_deps (dict_set i (subtask_deps st) d) sts
           | _ \<Rightarrow> collect_deps d sts)
      | _ \<Rightarrow> collect_deps d sts)"

text \<open>The body of a blueprint: nested under \<^verbatim>\<open>blueprint\<close> when that is an object.\<close>

definition blueprint_body :: "json \<Rightarrow> json" where
  "blueprint_body payload =
     (case jget ''blueprint'' payload of Some (JObj kvs) \<Rightarrow> JObj kvs | _ \<Rightarrow> payload)"

text \<open>\<open>None\<close> when the file holds JSON that is not an object: \<^verbatim>\<open>payload.get\<close> then raises.\<close>

definition load_blueprint_deps :: "json doc_file \<Rightarrow> deps option" where
  "load_blueprint_deps f =
     (case f of
        Absent \<Rightarrow> Some []
      | Unparsable \<Rightarrow> Some []
      | Parsed (JObj kvs) \<Rightarrow>
          (case jget ''subtasks'' (blueprint_body (JObj kvs)) of
             Some (JList sts) \<Rightarrow> Some (collect_deps [] sts)
           | _ \<Rightarrow> Some [])
      | Parsed _ \<Rightarrow> None)"

text \<open>\<^verbatim>\<open>deps_map.get(sid, [])\<close>\<close>

definition deps_of :: "deps \<Rightarrow> string \<Rightarrow> string list" where
  "deps_of d i = (case dict_get d i of None \<Rightarrow> [] | Some ds \<Rightarrow> ds)"

section \<open>Topological sort\<close>

definition index_of :: "'a list \<Rightarrow> 'a \<Rightarrow> nat" where
  "index_of xs x = length (takeWhile (\<lambda>y. y \<noteq> x) xs)"

text \<open>The edges the source counts: dependencies inside the list, on another subtask.\<close>

definition in_deps :: "string list \<Rightarrow> deps \<Rightarrow> string \<Rightarrow> string list" where
  "in_deps ids d i = filter (\<lambda>x. x \<in> set ids \<and> x \<noteq> i) (deps_of d i)"

text \<open>One entry of \<^verbatim>\<open>incoming\<close> per pass over the list, so a repeated identifier counts again.\<close>

definition init_incoming :: "string list \<Rightarrow> deps \<Rightarrow> string \<Rightarrow> int" where
  "init_incoming ids d i = int (length (filter (\<lambda>x. x = i) ids)) * int (length (in_deps ids d i))"

definition children_of :: "string list \<Rightarrow> deps \<Rightarrow> string \<Rightarrow> string list" where
  "children_of ids d n = concat (map (\<lambda>i. map (\<lambda>_. i) (filter (\<lambda>x. x = n) (in_deps ids d i))) ids)"

fun release :: "string list \<Rightarrow> (string \<Rightarrow> int) \<Rightarrow> string list \<Rightarrow> (string \<Rightarrow> int) \<times> string list" where
  "release [] inc ready = (inc, ready)"
| "release (c # cs) inc ready =
     (let inc' = inc(c := inc c - 1)
      in release cs inc' (if inc' c = 0 then ready @ [c] else ready))"

fun kahn :: "nat \<Rightarrow> string list \<Rightarrow> deps \<Rightarrow> (string \<Rightarrow> int) \<Rightarrow> string list \<Rightarrow> string list \<Rightarrow> string list option" where
  "kahn fuel ids d inc [] out = Some out"
| "kahn 0 ids d inc (r # rs) out = None"
| "kahn (Suc fuel) ids d inc (r # rs) out =
     (case sort_key (index_of ids) (r # rs) of
        [] \<Rightarrow> None
      | n # rest \<Rightarrow>
          (let (inc', ready') = release (children_of ids d n) inc rest
           in kahn fuel ids d inc' ready' (out @ [n])))"

datatype topo = Sorted "string list" | CycleAmong "string list" | OutOfFuel

definition topological_sort_subtasks :: "string list \<Rightarrow> deps \<Rightarrow> topo" where
  "topological_sort_subtasks ids d =
     (let inc = init_incoming ids d
      in case kahn (2 * length ids) ids d inc (filter (\<lambda>i. inc i = 0) ids) [] of
           None \<Rightarrow> OutOfFuel
         | Some out \<Rightarrow>
             if length out \<noteq> length ids then CycleAmong (filter (\<lambda>i. i \<notin> set out) ids)
             else Sorted out)"

end
