(* ===== verification/Orch_State.thy ===== *)
theory Orch_State
  imports Orch_Plan
begin

text \<open>
  The workflow state of \<^verbatim>\<open>map_orchestrator.py\<close> (class \<^verbatim>\<open>StepState\<close>), the files of one branch
  directory \<^verbatim>\<open>.map/<branch>\<close>, and the dependency-aware search for the next subtask. Steps and
  phases are the strings of the source. An entry of \<^verbatim>\<open>subtask_results\<close> is an object with the
  fields the script writes; a status that is missing or not a string is \<open>None\<close>.

  What the script takes from elsewhere is the record \<open>orch_env\<close>: the clock, one environment
  variable, the commit \<^verbatim>\<open>git\<close> reports, the answers of the optional module
  \<^verbatim>\<open>map_step_runner\<close> (each \<open>None\<close> when the import fails), and the library of dependency waves.
\<close>

section \<open>Steps\<close>

definition STEP_PHASES :: "(string, string) dict" where
  "STEP_PHASES = [(''1.0'', ''DECOMPOSE''), (''1.5'', ''INIT_PLAN''), (''1.55'', ''REVIEW_PLAN''),
     (''1.56'', ''CHOOSE_MODE''), (''1.6'', ''INIT_STATE''), (''2.2'', ''RESEARCH''),
     (''2.25'', ''TEST_WRITER''), (''2.26'', ''TEST_FAIL_GATE''), (''2.3'', ''ACTOR''), (''2.4'', ''MONITOR'')]"

definition STEP_ORDER :: "string list" where
  "STEP_ORDER = [''1.0'', ''1.5'', ''1.55'', ''1.56'', ''1.6'', ''2.2'', ''2.3'', ''2.4'']"

definition TDD_STEP_ORDER :: "string list" where
  "TDD_STEP_ORDER =
     [''1.0'', ''1.5'', ''1.55'', ''1.56'', ''1.6'', ''2.2'', ''2.25'', ''2.26'', ''2.3'', ''2.4'']"

definition get_step_order :: "bool \<Rightarrow> string list" where
  "get_step_order tdd = (if tdd then TDD_STEP_ORDER else STEP_ORDER)"

definition step_phase :: "string \<Rightarrow> string \<Rightarrow> string" where
  "step_phase dflt i = (case dict_get STEP_PHASES i of None \<Rightarrow> dflt | Some p \<Rightarrow> p)"

definition DEFERRED_FOR_DEPS_PHASE :: string where
  "DEFERRED_FOR_DEPS_PHASE = ''deferred_for_deps''"

definition DEFERRED_NONDETERMINISTIC_STATUS :: string where
  "DEFERRED_NONDETERMINISTIC_STATUS = ''deferred_nondeterministic''"

section \<open>State\<close>

record flaky_note =
  fn_path :: string
  fn_check :: string
  fn_reason :: string
  fn_run_count :: json
  fn_pass_count :: json
  fn_fail_count :: json
  fn_command :: json

record sub_result =
  r_subtask_id :: "string option"
  r_files :: "string list"
  r_status :: "string option"
  r_summary :: string
  r_commit :: "string option"
  r_flaky :: "flaky_note option"

record completion_reason =
  cr_kind :: string
  cr_reason :: string
  cr_recorded_at :: string
  cr_check_id :: "string option"

record contract_entry =
  ce_contract :: string
  ce_handoff :: string
  ce_ready_at :: string

record step_state =
  workflow :: string
  wf_started_at :: string
  current_subtask_id :: "string option"
  subtask_index :: nat
  subtask_sequence :: "string list"
  current_step_id :: string
  current_step_phase :: string
  completed_steps :: "string list"
  pending_steps :: "string list"
  retry_count :: nat
  max_retries :: nat
  plan_approved :: bool
  execution_mode :: string
  tdd_mode :: bool
  skipped_steps :: "string list"
  execution_waves :: "string list list"
  current_wave_index :: nat
  subtask_phases :: "(string, string) dict"
  subtask_retry_counts :: "(string, nat) dict"
  workflow_status :: string
  subtask_files_changed :: "(string, string list) dict"
  guard_rework_counts :: "(string, nat) dict"
  constraints :: "json option"
  subtask_results :: "(string, sub_result) dict"
  last_subtask_commit_sha :: "string option"
  contract_ready_subtasks :: "(string, contract_entry) dict"
  clean_retry_count :: nat
  contaminated_retry_count :: nat
  scope_feedback_subtasks :: "string list"
  progress_feedback_subtasks :: "string list"
  retry_isolation_status :: "(string, string) dict"
  retry_quarantine_paths :: "(string, string) dict"
  completed_at :: "string option"
  subtask_completion_reasons :: "(string, completion_reason) dict"

definition StepState :: "string \<Rightarrow> step_state" where
  "StepState now =
     \<lparr>workflow = ''map-efficient'', wf_started_at = now, current_subtask_id = None, subtask_index = 0,
      subtask_sequence = [], current_step_id = ''1.0'', current_step_phase = ''DECOMPOSE'',
      completed_steps = [], pending_steps = STEP_ORDER, retry_count = 0, max_retries = 5,
      plan_approved = False, execution_mode = ''batch'', tdd_mode = False, skipped_steps = [],
      execution_waves = [], current_wave_index = 0, subtask_phases = [], subtask_retry_counts = [],
      workflow_status = ''INITIALIZED'', subtask_files_changed = [], guard_rework_counts = [],
      constraints = None, subtask_results = [], last_subtask_commit_sha = None,
      contract_ready_subtasks = [], clean_retry_count = 0, contaminated_retry_count = 0,
      scope_feedback_subtasks = [], progress_feedback_subtasks = [], retry_isolation_status = [],
      retry_quarantine_paths = [], completed_at = None, subtask_completion_reasons = []\<rparr>"

text \<open>The method \<^verbatim>\<open>StepState.record_subtask_result\<close>.\<close>

definition nonempty :: "string option \<Rightarrow> string option" where
  "nonempty v = (if v = Some [] then None else v)"

definition StepState_record_subtask_result ::
  "string \<Rightarrow> string list \<Rightarrow> string \<Rightarrow> string \<Rightarrow> string option \<Rightarrow> step_state \<Rightarrow> step_state" where
  "StepState_record_subtask_result sid fs stat summ sha st =
     (let entry = \<lparr>r_subtask_id = Some sid, r_files = fs, r_status = Some stat, r_summary = summ,
                   r_commit = nonempty sha, r_flaky = None\<rparr>;
          st1 = st\<lparr>subtask_results := dict_set sid entry (subtask_results st)\<rparr>
      in if nonempty sha \<noteq> None then st1\<lparr>last_subtask_commit_sha := sha\<rparr> else st1)"

section \<open>Files and environment\<close>

record quarantine =
  q_subtask_id :: string
  q_retry_count :: nat
  q_summary :: string
  q_feedback_file :: "string option"

record branch_dir =
  step_file :: "step_state doc_file"
  blueprint_file :: "json doc_file"
  plan_file :: "string option"
  other_files :: "(string, string) dict" \<comment> \<open>feedback files and TDD artefacts, by name\<close>
  retired :: "(string, step_state doc_file) dict" \<comment> \<open>archived and abandoned states, by name\<close>
  quarantines :: "quarantine list"

record scope_result =
  sc_status :: string
  sc_strict :: bool
  sc_unexpected :: "string list"
  sc_expected :: "string list"
  sc_actual :: "string list"

datatype graph_result = GraphRaises | GraphCycle | GraphWaves "string list list"

record orch_env =
  iso_now :: string \<comment> \<open>\<^verbatim>\<open>datetime.now(UTC).isoformat()\<close>\<close>
  utc_timestamp :: string \<comment> \<open>\<^verbatim>\<open>_utc_timestamp()\<close>\<close>
  stamp_seconds :: string
  stamp_micros :: string
  sequential_only :: "string option" \<comment> \<open>\<^verbatim>\<open>MAP_EFFICIENT_SEQUENTIAL_ONLY\<close>\<close>
  git_head :: "string option"
  validate_research :: "(string \<Rightarrow> string list) option" \<comment> \<open>errors of the artefact, none when valid\<close>
  validate_mutation_boundary :: "(string \<Rightarrow> scope_result) option"
  validate_flaky_test_triage :: "(string \<Rightarrow> string list) option" \<comment> \<open>errors, by path\<close>
  read_json :: "string \<Rightarrow> json doc_file" \<comment> \<open>other files read as JSON, by path\<close>
  runner_config :: "(string \<times> string \<times> bool) option" \<comment> \<open>wave mode, isolation mode, concurrent dispatch\<close>
  compute_waves :: "((json \<times> json) list \<Rightarrow> graph_result) option" \<comment> \<open>\<open>None\<close>: no library\<close>
  split_wave :: "string list \<Rightarrow> (json \<times> json list) list \<Rightarrow> string list list"

definition load :: "orch_env \<Rightarrow> branch_dir \<Rightarrow> step_state" where
  "load e d = (case step_file d of Parsed st \<Rightarrow> st | _ \<Rightarrow> StepState (iso_now e))"

definition save :: "step_state \<Rightarrow> branch_dir \<Rightarrow> branch_dir" where
  "save st d = d\<lparr>step_file := Parsed st\<rparr>"

section \<open>Dependencies at run time\<close>

definition done_result :: "sub_result \<Rightarrow> bool" where
  "done_result r =
     (case r_status r of
        None \<Rightarrow> True
      | Some s \<Rightarrow> to_lower s \<in> {''valid'', ''completed'', ''done'', ''skipped'', ''no-op'',
                                DEFERRED_NONDETERMINISTIC_STATUS})"

definition done_phase :: "string \<Rightarrow> bool" where
  "done_phase p = (to_lower p \<in> {''completed'', ''skipped'', ''no-op'', ''complete''})"

definition deferred_for_deps :: "step_state \<Rightarrow> string \<Rightarrow> bool" where
  "deferred_for_deps st sid = (dict_get (subtask_phases st) sid = Some DEFERRED_FOR_DEPS_PHASE)"

definition completed_subtask_ids_for_deps :: "step_state \<Rightarrow> string list" where
  "completed_subtask_ids_for_deps st =
     map fst (filter (\<lambda>(sid, r). done_result r) (subtask_results st))
     @ map fst (filter (\<lambda>(sid, p). done_phase p) (subtask_phases st))
     @ filter (\<lambda>sid. \<not> deferred_for_deps st sid) (take (subtask_index st) (subtask_sequence st))"

definition done_with_current :: "step_state \<Rightarrow> string list" where
  "done_with_current st =
     completed_subtask_ids_for_deps st
     @ (case nonempty (current_subtask_id st) of None \<Rightarrow> [] | Some c \<Rightarrow> [c])"

text \<open>The walk: positions in the order given, the first ready one and the ones passed over.\<close>

fun first_ready ::
  "string list \<Rightarrow> deps \<Rightarrow> string list \<Rightarrow> nat list \<Rightarrow> string list \<Rightarrow> nat option \<times> string list" where
  "first_ready seq dm completed [] skipped = (None, skipped)"
| "first_ready seq dm completed (i # is) skipped =
     (if length seq \<le> i then first_ready seq dm completed is skipped
      else
        (let sid = seq ! i
         in if sid \<in> set completed then first_ready seq dm completed is skipped
            else if list_all (\<lambda>x. x \<in> set completed) (deps_of dm sid) then (Some i, skipped)
            else first_ready seq dm completed is (skipped @ [sid])))"

definition walk_order :: "nat \<Rightarrow> nat \<Rightarrow> nat list" where
  "walk_order start n = [start + 1..<n] @ [0..<start + 1]"

definition find_next_ready_subtask_index :: "deps \<Rightarrow> step_state \<Rightarrow> nat \<Rightarrow> nat option \<times> string list" where
  "find_next_ready_subtask_index dm st start =
     (if subtask_sequence st = [] then (None, [])
      else first_ready (subtask_sequence st) dm (done_with_current st)
             (walk_order start (length (subtask_sequence st))) [])"

definition steps_from_research :: "bool \<Rightarrow> string list" where
  "steps_from_research tdd = drop (index_of (get_step_order tdd) ''2.2'') (get_step_order tdd)"

text \<open>Entering a subtask: the step cursor and the per-subtask bookkeeping start over.\<close>

definition enter_subtask :: "nat \<Rightarrow> step_state \<Rightarrow> step_state" where
  "enter_subtask i st =
     (let sid = subtask_sequence st ! i
      in st\<lparr>subtask_index := i, current_subtask_id := Some sid,
            subtask_phases := (if deferred_for_deps st sid then dict_pop sid (subtask_phases st)
                               else subtask_phases st),
            pending_steps := steps_from_research (tdd_mode st), completed_steps := [],
            skipped_steps := [], retry_count := 0, current_step_id := ''2.2'',
            current_step_phase := ''RESEARCH''\<rparr>)"

definition mark_deferred :: "string list \<Rightarrow> step_state \<Rightarrow> step_state" where
  "mark_deferred sids st =
     st\<lparr>subtask_phases := fold (\<lambda>sid. dict_set sid DEFERRED_FOR_DEPS_PHASE) sids (subtask_phases st)\<rparr>"

definition has_more_subtasks :: "step_state \<Rightarrow> bool" where
  "has_more_subtasks st =
     (subtask_index st + 1 < length (subtask_sequence st)
      \<or> list_ex (deferred_for_deps st) (subtask_sequence st))"

definition remaining_subtasks :: "step_state \<Rightarrow> string list" where
  "remaining_subtasks st = filter (\<lambda>sid. sid \<notin> set (done_with_current st)) (subtask_sequence st)"

definition complete_workflow :: "orch_env \<Rightarrow> step_state \<Rightarrow> step_state" where
  "complete_workflow e st =
     st\<lparr>workflow_status := ''WORKFLOW_COMPLETE'', current_step_id := ''COMPLETE'',
        current_step_phase := ''COMPLETE'', completed_at := Some (utc_timestamp e)\<rparr>"

end
