(* ===== verification/Orch_Text.thy ===== *)
theory Orch_Text
  imports Orch_State
begin

text \<open>
  The texts of \<^verbatim>\<open>map_orchestrator.py\<close> that carry decisions: the instruction of each step, the
  ranking of Monitor feedback for an Actor retry, the scalars of \<^verbatim>\<open>.map/config.yaml\<close>, and the
  threshold at which a compaction is recommended. Characters outside ASCII are their UTF-8
  bytes.
\<close>

definition NEWLINE :: string where
  "NEWLINE = [char_of (10::nat)]"

definition QUOTE :: string where
  "QUOTE = [char_of (39::nat)]"

definition DQUOTE :: string where
  "DQUOTE = [char_of (34::nat)]"

definition EM_DASH :: string where
  "EM_DASH = map char_of [226, 128, 148 :: nat]"

definition LE_SIGN :: string where
  "LE_SIGN = map char_of [226, 137, 164 :: nat]"

definition ARROW :: string where
  "ARROW = map char_of [226, 134, 146 :: nat]"

section \<open>Small text helpers\<close>

definition last_lines :: "nat \<Rightarrow> 'a list \<Rightarrow> 'a list" where
  "last_lines n xs = drop (length xs - n) xs"

definition extract_recent_markdown_section :: "string \<Rightarrow> nat \<Rightarrow> string" where
  "extract_recent_markdown_section content max_lines =
     (let ls = map rstrip (filter (\<lambda>l. strip l \<noteq> []) (splitlines content))
      in join NEWLINE (if max_lines = 0 then ls else last_lines max_lines ls))"

definition shorten_text :: "string \<Rightarrow> nat \<Rightarrow> string" where
  "shorten_text tx max_chars =
     (let compact = join NEWLINE (map rstrip (filter (\<lambda>l. strip l \<noteq> []) (splitlines tx)))
      in if length compact \<le> max_chars then compact
         else rstrip (take (max_chars - 15) compact) @ NEWLINE @ ''[truncated]'')"

section \<open>Configuration scalars\<close>

definition is_key_char :: "char \<Rightarrow> bool" where
  "is_key_char c = (is_lower c \<or> is_upper c \<or> is_digit c \<or> c \<in> {CHR ''_'', CHR ''.'', CHR ''-''})"

definition config_line :: "string \<Rightarrow> (string \<times> string) option" where
  "config_line raw =
     (let line = strip raw
      in if line = [] \<or> startswith line ''#'' then None
         else (case split_once (CHR '':'') line of
            (_, None) \<Rightarrow> None
          | (k, Some v) \<Rightarrow>
              let key = strip k
              in if key = [] \<or> \<not> list_all is_key_char key then None
                 else Some (key, unquote (strip (fst (split_once (CHR ''#'') v))))))"

definition read_map_config_scalars :: "string option \<Rightarrow> (string, string) dict" where
  "read_map_config_scalars file0 =
     (case file0 of
        None \<Rightarrow> []
      | Some tx \<Rightarrow> fold (\<lambda>(k, v). dict_set k v) (List.map_filter config_line (splitlines tx)) [])"

definition map_config_str :: "string option \<Rightarrow> string \<Rightarrow> string \<Rightarrow> string" where
  "map_config_str file0 key dflt =
     (case dict_get (read_map_config_scalars file0) key of None \<Rightarrow> dflt | Some v \<Rightarrow> v)"

definition map_config_int :: "string option \<Rightarrow> string \<Rightarrow> int \<Rightarrow> int" where
  "map_config_int file0 key dflt =
     (case dict_get (read_map_config_scalars file0) key of
        None \<Rightarrow> dflt
      | Some v \<Rightarrow>
          (case py_int (filter (\<lambda>c. c \<noteq> CHR ''_'') v) of
             None \<Rightarrow> dflt
           | Some n \<Rightarrow> if 0 < n then n else dflt))"

text \<open>
  \<^verbatim>\<open>int(threshold * 0.4)\<close> is the exact quotient for every threshold below \<open>2 ^ 50\<close>: the relative
  error of the product is below \<open>2 ^ -52\<close>, and a quotient that is not whole is at least a
  fifth away from the next integer.
\<close>

definition effective_compression_threshold :: "string \<Rightarrow> int \<Rightarrow> int option" where
  "effective_compression_threshold policy threshold =
     (if policy = ''never'' \<or> threshold \<le> 0 then None
      else if policy = ''aggressive'' then Some (max 1 (2 * threshold div 5))
      else Some threshold)"

definition should_nudge :: "int \<Rightarrow> int option \<Rightarrow> bool" where
  "should_nudge used threshold = (case threshold of None \<Rightarrow> False | Some t \<Rightarrow> t \<le> used)"

definition sequential_only_env :: "string option \<Rightarrow> bool" where
  "sequential_only_env v =
     (to_lower (strip (case v of None \<Rightarrow> [] | Some s \<Rightarrow> s)) \<in> {''1'', ''true'', ''yes'', ''y'', ''on''})"

section \<open>Monitor feedback\<close>

definition BLOCKER_FEEDBACK_TERMS :: "string list" where
  "BLOCKER_FEEDBACK_TERMS =
     [''blocker'', ''critical'', ''contract'', ''acceptance'', ''build'', ''compile'',
      ''syntax'', ''test failure'', ''test failed'', ''failing test'', ''type mismatch'',
      ''security'', ''injection'', ''secret'', ''credential'', ''data loss'', ''data-loss'',
      ''missing required'', ''missing test'', ''missing'', ''silent failure'', ''crash'',
      ''exception'']"

definition NON_BLOCKING_FEEDBACK_TERMS :: "string list" where
  "NON_BLOCKING_FEEDBACK_TERMS =
     [''non-blocking'', ''nonblocking'', ''nice-to-have'', ''nice to have'', ''cosmetic'',
      ''style'', ''elegance'', ''volume'', ''alternative abstraction'',
      ''extra test category'', ''extra tests'', ''documentation'', ''docs'', ''docstring'']"

definition EXPLICIT_BLOCKER_TERMS :: "string list" where
  "EXPLICIT_BLOCKER_TERMS =
     [''blocker'', ''critical'', ''security'', ''build'', ''compile'', ''contract'', ''data loss'',
      ''test failure'', ''test failed'']"

definition is_blocker_feedback_line :: "string \<Rightarrow> bool" where
  "is_blocker_feedback_line line =
     (let lowered = to_lower line;
          has_blocker = list_ex (contains_str lowered) BLOCKER_FEEDBACK_TERMS;
          has_high = list_ex (startswith (strip lowered)) [''high:'', ''high -'', ''high severity'', ''severity: high'']
      in if \<not> has_blocker then has_high
         else
           (list_ex (contains_str lowered) EXPLICIT_BLOCKER_TERMS \<or> has_high)
           \<or> \<not> list_ex (contains_str lowered) NON_BLOCKING_FEEDBACK_TERMS)"

definition NO_BLOCKER_HEADER :: string where
  "NO_BLOCKER_HEADER = ''Monitor returned valid=false. Forwarding complete feedback (keyword ''
    @ ''classification did not match '' @ EM_DASH
    @ '' may be non-English or use non-standard phrasing):''"

definition NO_BLOCKER_FOOTER :: string where
  "NO_BLOCKER_FOOTER = ''Re-check the contract, build/test output, security, data-loss paths, and ''
    @ ''required behavior before expanding scope. Do not add code for style, volume, ''
    @ ''docs-only, cosmetic, or nice-to-have feedback.''"

definition filter_blocker_retry_feedback :: "string \<Rightarrow> string" where
  "filter_blocker_retry_feedback feedback =
     (if strip feedback = [] then []
      else
        (let kept = map rstrip (filter (\<lambda>l. strip l \<noteq> [] \<and> is_blocker_feedback_line l) (splitlines feedback))
         in if kept \<noteq> [] then
              join NEWLINE ([''BLOCKER feedback forwarded to Actor retry:''] @ kept
                @ [[], ''Actor may re-add or expand code only by naming the BLOCKER item it addresses.'',
                   [], ''Full Monitor feedback:'', rstrip feedback])
            else NO_BLOCKER_HEADER @ NEWLINE @ NEWLINE @ rstrip feedback @ NEWLINE @ NEWLINE
                 @ NO_BLOCKER_FOOTER))"

section \<open>Step instructions\<close>

definition show_opt :: "string option \<Rightarrow> string" where
  "show_opt v = (case v of None \<Rightarrow> ''None'' | Some s \<Rightarrow> s)"

definition or_empty :: "string option \<Rightarrow> string" where
  "or_empty v = (case v of None \<Rightarrow> [] | Some s \<Rightarrow> s)"

definition actor_step_instruction :: "step_state \<Rightarrow> string" where
  "actor_step_instruction st =
     (let key = or_empty (current_subtask_id st);
          clean_retry = (case dict_get (retry_quarantine_paths st) key of
              None \<Rightarrow> []
            | Some q \<Rightarrow>
                if dict_get (retry_isolation_status st) key = Some ''clean_retry_required'' \<and> q \<noteq> []
                then '' CLEAN_RETRY mode is required: read '' @ q
                @ '', rebuild context only from durable artifacts named there, preserve hard ''
                @ ''constraints and acceptance tags, and do not reuse the rejected approach ''
                @ ''unless the quarantine artifact explicitly preserves it.''
                else []);
          context0 = (if tdd_mode st
            then ''TDD CODE_ONLY mode: pass <TDD_Mode>code_only</TDD_Mode>. Actor must make ''
                @ ''existing tests green without modifying test files. When present, read ''
                @ ''test_contract_<subtask>.md and test_handoff_<subtask>.json before editing. ''
            else ''Pass AAG contract and context. '')
      in ''Call Task(subagent_type='' @ QUOTE @ ''actor'' @ QUOTE @ '') to implement subtask ''
         @ show_opt (current_subtask_id st) @ ''. '' @ context0 @ clean_retry)"

definition get_step_instruction :: "string \<Rightarrow> step_state \<Rightarrow> string" where
  "get_step_instruction step_id st =
     (if step_id = ''1.0''
       then ''Call Task(subagent_type='' @ QUOTE @ ''task-decomposer'' @ QUOTE
         @ '') to break down the task into '' @ LE_SIGN
         @ ''20 atomic subtasks with validation criteria.''
      else if step_id = ''1.5''
       then ''Generate .map/<branch>/task_plan_<branch>.md from decomposer blueprint. ''
         @ ''Include Goal, Current Phase, status for each subtask, and any deferred_yagni ''
         @ ''parking-lot items as a visible restore-or-approve section.''
      else if step_id = ''1.55''
       then ''Present the generated plan to the user using a short standardized summary ''
         @ ''(goal + subtask titles + risks + any deferred_yagni omissions) and get ''
         @ ''explicit approval to proceed. If the user restores a deferred_yagni item, run ''
         @ ''`python3 .map/scripts/map_orchestrator.py restore_deferred_yagni YG-NNN` ''
         @ ''before approval. Then persist approval in step_state.json: python3 ''
         @ ''.map/scripts/map_orchestrator.py set_plan_approved true''
      else if step_id = ''1.56''
       then ''Execution mode is batch (auto-set). No user action needed. Advance to next ''
         @ ''step: python3 .map/scripts/map_orchestrator.py get_next_step''
      else if step_id = ''1.6''
       then ''Create .map/<branch>/step_state.json with initial state. Single source of ''
         @ ''truth for workflow enforcement.''
      else if step_id = ''2.2''
       then ''Persist RESEARCH findings for the subtask via `python3 ''
         @ ''.map/scripts/map_step_runner.py save_research <branch> <subtask_id>`. The ''
         @ ''artifact is MANDATORY for every non-no-op subtask (validate_step 2.2 rejects ''
         @ ''when none exists); Task(subagent_type='' @ QUOTE @ ''research-agent'' @ QUOTE
         @ '') is conditional for broad, high-risk, or unclear discovery. If the target ''
         @ ''file/symbol is already known, save direct current-session findings instead. ''
         @ ''Short-circuit hint: if this subtask is already done in a prior PR or is a ''
         @ ''pure no-op, skip the cycle with `python3 .map/scripts/map_orchestrator.py ''
         @ ''mark_subtask_complete <subtask_id> --reason '' @ DQUOTE @ ''...'' @ DQUOTE
         @ ''` instead of running research.''
      else if step_id = ''2.25''
       then ''TDD TEST_WRITER: Call Task(subagent_type='' @ QUOTE @ ''actor'' @ QUOTE
         @ '') with <TDD_Mode>test_writer</TDD_Mode> to write ONLY tests for subtask ''
         @ show_opt (current_subtask_id st)
         @ ''. Tests must be derived from spec/contract, NOT from implementation.''
      else if step_id = ''2.26''
       then ''TDD TEST_FAIL_GATE: Run tests written by TEST_WRITER. Tests MUST fail (no ''
         @ ''implementation exists yet). If tests pass '' @ ARROW
         @ '' problem (trivial tests), go back to TEST_WRITER. If tests fail with ''
         @ ''assertion errors '' @ ARROW @ '' proceed to ACTOR.''
      else if step_id = ''2.3''
       then actor_step_instruction st
      else if step_id = ''2.4''
       then ''Call Task(subagent_type='' @ QUOTE @ ''monitor'' @ QUOTE
         @ '') to validate Actor output. Check correctness, security, standards, and tests.''
      else ''Execute step '' @ step_id @ '' ('' @ step_phase ''UNKNOWN'' step_id @ '')'')"

end
