(* ===== verification/Orch_Monitor.thy ===== *)
theory Orch_Monitor
  imports Orch_Text
begin

text \<open>
  The Monitor's verdict: parsing its JSON envelope, the keys it must have, and when an
  envelope authorises the deferral of a flaky check.
\<close>

definition endswith_char :: "string \<Rightarrow> char list \<Rightarrow> bool" where
  "endswith_char s cs = (s \<noteq> [] \<and> last s \<in> set cs)"

text \<open>\<^verbatim>\<open>re.search(r"\{(?:.|\n)*\}", s)\<close>: from the first opening to the last closing brace.\<close>

definition brace_span :: "string \<Rightarrow> string option" where
  "brace_span s =
     (let t = dropWhile (\<lambda>c. c \<noteq> CHR ''{'') s;
          u = rev (dropWhile (\<lambda>c. c \<noteq> CHR ''}'') (rev t))
      in if u = [] then None else Some u)"

datatype envelope_error = EmptyEnvelope | TruncatedEnvelope | NotJson | NotAnObject | MissingKeys "string list"

definition parse_monitor_envelope_json :: "string \<Rightarrow> envelope_error + json" where
  "parse_monitor_envelope_json tx =
     (let stripped = strip tx
      in if stripped = [] then Inl EmptyEnvelope
         else if \<not> endswith_char stripped [CHR ''}'', CHR '']''] then Inl TruncatedEnvelope
         else
           (case (case json_loads stripped of
                    Some v \<Rightarrow> Some v
                  | None \<Rightarrow> (case brace_span stripped of None \<Rightarrow> None | Some u \<Rightarrow> json_loads u)) of
              None \<Rightarrow> Inl NotJson
            | Some (JObj kvs) \<Rightarrow> Inr (JObj kvs)
            | Some _ \<Rightarrow> Inl NotAnObject))"

definition MONITOR_REQUIRED_KEYS :: "string list" where
  "MONITOR_REQUIRED_KEYS = [''valid'', ''summary'', ''issues'']"

definition validate_monitor_envelope :: "string \<Rightarrow> envelope_error option" where
  "validate_monitor_envelope tx =
     (case parse_monitor_envelope_json tx of
        Inl er \<Rightarrow> Some er
      | Inr v \<Rightarrow>
          (let missing = filter (\<lambda>k. jget k v = None) MONITOR_REQUIRED_KEYS
           in if missing \<noteq> [] then Some (MissingKeys missing) else None))"

text \<open>\<^verbatim>\<open>str(x or "").strip()\<close> for a JSON value.\<close>

definition str_or_empty :: "json option \<Rightarrow> string" where
  "str_or_empty v = (case v of None \<Rightarrow> [] | Some j \<Rightarrow> if falsy j then [] else strip (py_str j))"

datatype binding_error =
    BadEnvelope envelope_error
  | NotValidFalse
  | NoFailedChecks
  | NoDisposition
  | KindMismatch string
  | CheckMismatch string

definition validate_monitor_disposition_binding :: "string \<Rightarrow> string \<Rightarrow> string \<Rightarrow> binding_error option" where
  "validate_monitor_disposition_binding tx kind check_id =
     (case parse_monitor_envelope_json tx of
        Inl er \<Rightarrow> Some (BadEnvelope er)
      | Inr v \<Rightarrow>
          if jget ''valid'' v \<noteq> Some (JBool False) then Some NotValidFalse
          else if (case jget ''failed_checks'' v of Some (JList (_ # _)) \<Rightarrow> False | _ \<Rightarrow> True)
          then Some NoFailedChecks
          else
            (case jget ''disposition'' v of
               Some (JObj kvs) \<Rightarrow>
                 if to_lower (str_or_empty (jget ''kind'' (JObj kvs))) \<noteq> kind
                 then Some (KindMismatch kind)
                 else if str_or_empty (jget ''check_id'' (JObj kvs)) \<noteq> strip check_id
                 then Some (CheckMismatch (strip check_id))
                 else None
             | _ \<Rightarrow> Some NoDisposition))"

definition reject_recommendation :: "string \<Rightarrow> bool" where
  "reject_recommendation r = (r \<in> {''revise'', ''block'', ''needs_investigation''})"

text \<open>\<^verbatim>\<open>MONITOR_DISPOSITIONS\<close> has one entry: it needs a check identifier and the envelope, and
  allows no recommendation or \<^verbatim>\<open>needs_investigation\<close>.\<close>

definition known_disposition :: "string \<Rightarrow> bool" where
  "known_disposition k = (k = DEFERRED_NONDETERMINISTIC_STATUS)"

definition allowed_recommendation :: "string option \<Rightarrow> bool" where
  "allowed_recommendation r = (r = None \<or> r = Some ''needs_investigation'')"

section \<open>The flaky-check sidecar\<close>

datatype triage_error = RunnerMissing | InvalidTriage "string list" | UnreadableTriage | NoTriageFor string

definition load_deferred_flaky_triage :: "orch_env \<Rightarrow> string \<Rightarrow> string \<Rightarrow> triage_error + json" where
  "load_deferred_flaky_triage e path check_id =
     (case validate_flaky_test_triage e of
        None \<Rightarrow> Inl RunnerMissing
      | Some validate \<Rightarrow>
          if validate path \<noteq> [] then Inl (InvalidTriage (validate path))
          else
            (case read_json e path of
               Parsed v \<Rightarrow>
                 (case (case v of JObj _ \<Rightarrow> jget ''triages'' v | _ \<Rightarrow> None) of
                    Some (JList items) \<Rightarrow>
                      (let matches = filter (\<lambda>item. (case item of JObj _ \<Rightarrow> True | _ \<Rightarrow> False)
                             \<and> jget ''check_id'' item = Some (JStr check_id)
                             \<and> jget ''disposition'' item = Some (JStr DEFERRED_NONDETERMINISTIC_STATUS)) items
                       in if matches = [] then Inl (NoTriageFor check_id) else Inr (last matches))
                  | _ \<Rightarrow> Inl (InvalidTriage [''flaky test triage must contain a triages array'']))
             | _ \<Rightarrow> Inl UnreadableTriage))"

end
