(* ===== verification/Orch_Steps.thy ===== *)
theory Orch_Steps
  imports Orch_Monitor
begin

text \<open>
  The serial workflow of \<^verbatim>\<open>map_orchestrator.py\<close>: which step comes next, validating a step with
  its gates, closing a subtask and advancing to the next ready one. Every command loads the
  state file, and returns its answer with the branch directory it leaves behind.
\<close>

section \<open>Advancing past a finished subtask\<close>

datatype advance = Advanced "string option" string "string list" | Blocked "string list" "string list"
  | Completed "string list"

text \<open>
  The boundary between subtasks, shared by \<^verbatim>\<open>validate_step\<close>, \<^verbatim>\<open>get_next_step\<close> and
  \<^verbatim>\<open>_advance_after_terminal_current_subtask\<close>: mark the subtasks passed over, then enter the
  ready one, or tell completion from a deadlock.
\<close>

definition advance_search :: "deps \<Rightarrow> step_state \<Rightarrow> advance \<times> step_state" where
  "advance_search dm st =
     (let (ready, skipped) = find_next_ready_subtask_index dm st (subtask_index st);
          st1 = mark_deferred skipped st
      in case ready of
           Some i \<Rightarrow>
             (Advanced (current_subtask_id st) (subtask_sequence st ! i) skipped, enter_subtask i st1)
         | None \<Rightarrow>
             (case remaining_subtasks st1 of
                [] \<Rightarrow> (Completed skipped, st1)
              | rem \<Rightarrow>
                  (Blocked rem skipped,
                   st1\<lparr>current_step_id := ''BLOCKED_ON_DEPS'', current_step_phase := ''BLOCKED_ON_DEPS''\<rparr>)))"

definition advance_after_terminal_current_subtask ::
  "orch_env \<Rightarrow> deps \<Rightarrow> step_state \<Rightarrow> advance \<times> step_state" where
  "advance_after_terminal_current_subtask e dm st =
     (if has_more_subtasks st then
        (case advance_search dm st of
           (Completed skipped, st1) \<Rightarrow> (Completed skipped, complete_workflow e (st1\<lparr>pending_steps := []\<rparr>))
         | r \<Rightarrow> r)
      else (Completed [], complete_workflow e (st\<lparr>pending_steps := []\<rparr>)))"

section \<open>The next step\<close>

datatype next_response =
    NextComplete
  | NextContractReady "string option" string
  | NextBlocked "string list" "string list"
  | NextStep string string string "string option" string bool
  | NextRaised

definition subtask_progress :: "step_state \<Rightarrow> nat \<Rightarrow> string" where
  "subtask_progress st n = show_nat (subtask_index st + 1) @ ''/'' @ show_nat n"

definition peek_current_step :: "orch_env \<Rightarrow> branch_dir \<Rightarrow> next_response" where
  "peek_current_step e d =
     (let st = load e d
      in if workflow_status st = ''WORKFLOW_COMPLETE'' then NextComplete
         else if workflow_status st = ''CONTRACT_READY'' then NextContractReady (current_subtask_id st) []
         else
           (let next_id = (case pending_steps st of [] \<Rightarrow> current_step_id st | p # _ \<Rightarrow> p);
                ph = current_step_phase st
            in NextStep next_id (step_phase (if ph = [] then ''UNKNOWN'' else ph) next_id) []
                 (current_subtask_id st)
                 (subtask_progress st (max (length (subtask_sequence st)) 1)) False))"

text \<open>The two loops that pop steps nobody executes.\<close>

definition skip_choose_mode :: "step_state \<Rightarrow> step_state" where
  "skip_choose_mode st =
     (let n = length (takeWhile (\<lambda>s. s = ''1.56'') (pending_steps st))
      in if n = 0 then st
         else st\<lparr>execution_mode := ''batch'',
                 completed_steps := completed_steps st @ replicate n ''1.56'',
                 pending_steps := drop n (pending_steps st)\<rparr>)"

definition skip_tdd_phases :: "step_state \<Rightarrow> step_state" where
  "skip_tdd_phases st =
     (let sk = takeWhile (\<lambda>s. s = ''2.25'' \<or> s = ''2.26'') (pending_steps st)
      in if tdd_mode st \<or> sk = [] then st
         else st\<lparr>skipped_steps := skipped_steps st @ sk, pending_steps := drop (length sk) (pending_steps st)\<rparr>)"

text \<open>The soft warning about a skipped RESEARCH step; the artefact check is a file pattern.\<close>

definition research_skip_warning :: "(string \<Rightarrow> bool) \<Rightarrow> step_state \<Rightarrow> string \<Rightarrow> bool" where
  "research_skip_warning has_artifact st next_id =
     (next_id = ''2.3'' \<and> ''2.2'' \<notin> set (completed_steps st) \<and> ''2.2'' \<notin> set (skipped_steps st)
      \<and> ''2.25'' \<notin> set (skipped_steps st) \<and> ''2.26'' \<notin> set (skipped_steps st)
      \<and> (case nonempty (current_subtask_id st) of None \<Rightarrow> False | Some c \<Rightarrow> \<not> has_artifact c))"

definition return_step :: "(string \<Rightarrow> bool) \<Rightarrow> step_state \<Rightarrow> branch_dir \<Rightarrow> next_response \<times> branch_dir" where
  "return_step has_artifact st d =
     (let next_id = hd (pending_steps st); ph = step_phase ''UNKNOWN'' next_id;
          st1 = st\<lparr>current_step_id := next_id, current_step_phase := ph\<rparr>
      in (NextStep next_id ph (get_step_instruction next_id st) (current_subtask_id st)
            (subtask_progress st (length (subtask_sequence st)))
            (research_skip_warning has_artifact st next_id), save st1 d))"

definition next_of_subtask ::
  "(string \<Rightarrow> bool) \<Rightarrow> deps option \<Rightarrow> step_state \<Rightarrow> branch_dir \<Rightarrow> next_response \<times> branch_dir" where
  "next_of_subtask has_artifact dmo st d =
     (if \<not> has_more_subtasks st then (NextComplete, d)
      else
        (case dmo of
           None \<Rightarrow> (NextRaised, d)
         | Some dm \<Rightarrow>
             (case advance_search dm st of
                (Advanced _ _ _, st1) \<Rightarrow> return_step has_artifact st1 (save st1 d)
              | (Blocked rem skipped, st1) \<Rightarrow> (NextBlocked rem skipped, save st1 d)
              | (Completed _, _) \<Rightarrow> (NextComplete, d))))"

definition get_next_step ::
  "orch_env \<Rightarrow> (string \<Rightarrow> bool) \<Rightarrow> branch_dir \<Rightarrow> next_response \<times> branch_dir" where
  "get_next_step e has_artifact d =
     (let st = load e d
      in if workflow_status st = ''WORKFLOW_COMPLETE'' then (NextComplete, d)
         else if workflow_status st = ''CONTRACT_READY'' then
           (NextContractReady (current_subtask_id st) (subtask_progress st (length (subtask_sequence st))),
            if pending_steps st \<noteq> [''CONTRACT_READY''] then save (st\<lparr>pending_steps := [''CONTRACT_READY'']\<rparr>) d
            else d)
         else
           (let st1 = skip_tdd_phases (skip_choose_mode st);
                d1 = (if st1 = st then d else save st1 d)
            in if pending_steps st1 \<noteq> [] then return_step has_artifact st1 d1
               else next_of_subtask has_artifact (load_blueprint_deps (blueprint_file d)) st1 d1))"

section \<open>Recording results\<close>

datatype orch_error =
    NoStateFile
  | UnknownSubtask string "string list"
  | NotCurrentSubtask string "string option"
  | WrongPhase string
  | CheckIdRequired
  | TriageRejected triage_error
  | PendingSteps "string list"
  | InvalidKind string
  | NotComplete string string
  | InFlight string string
  | NotSkippable string
  | StepMismatch string string
  | InvalidValue string
  | InvalidIds "string list"
  | NoSubtaskIds
  | DependencyCycle "string list"
  | NoPlan
  | MissingArtifacts "string list"
  | Raised

text \<open>
  \<^verbatim>\<open>record_subtask_result\<close>: the commit is the caller's or the head of the repository. The
  warnings about files the result names are not modelled; they change no state.
\<close>

definition auto_commit_sha :: "orch_env \<Rightarrow> string option \<Rightarrow> string option \<times> bool" where
  "auto_commit_sha e sha =
     (if nonempty sha \<noteq> None then (sha, False)
      else (case nonempty (git_head e) of None \<Rightarrow> (sha, False) | Some h \<Rightarrow> (Some h, True)))"

definition sha_is_stale_duplicate :: "step_state \<Rightarrow> string option \<times> bool \<Rightarrow> bool" where
  "sha_is_stale_duplicate st r = (snd r \<and> fst r \<noteq> None \<and> last_subtask_commit_sha st = fst r)"

definition record_subtask_result ::
  "orch_env \<Rightarrow> string \<Rightarrow> string list \<Rightarrow> string \<Rightarrow> string \<Rightarrow> string option \<Rightarrow> branch_dir
     \<Rightarrow> (orch_error + bool) \<times> branch_dir" where
  "record_subtask_result e sid fs stat summ sha d =
     (if step_file d = Absent then (Inl NoStateFile, d)
      else
        (let st = load e d; r = auto_commit_sha e sha
         in (Inr (sha_is_stale_duplicate st r),
             save (StepState_record_subtask_result sid fs stat summ (fst r) st) d)))"

section \<open>Deferring a flaky subtask\<close>

definition append_once :: "'a \<Rightarrow> 'a list \<Rightarrow> 'a list" where
  "append_once x xs = (if x \<in> set xs then xs else xs @ [x])"

definition close_actor_and_monitor :: "step_state \<Rightarrow> step_state" where
  "close_actor_and_monitor st =
     st\<lparr>pending_steps := remove1 ''2.4'' (remove1 ''2.3'' (pending_steps st)),
        completed_steps := append_once ''2.4'' (append_once ''2.3'' (completed_steps st))\<rparr>"

text \<open>A value in a format string. The counts and the reason of a validated sidecar are scalars.\<close>

definition show_value :: "json option \<Rightarrow> string" where
  "show_value v =
     (case v of
        Some (JBool b) \<Rightarrow> if b then ''True'' else ''False''
      | Some (JInt i) \<Rightarrow> show_int i
      | Some (JFloat t) \<Rightarrow> t
      | Some (JStr s) \<Rightarrow> s
      | _ \<Rightarrow> ''None'')"

definition triage_reason :: "json \<Rightarrow> string" where
  "triage_reason tr =
     (let r = jget ''reason'' tr
      in if falsy_opt r
         then ''Recorded mixed pass/fail repeated-run evidence.'' else show_value r)"

definition triage_summary :: "string \<Rightarrow> string \<Rightarrow> json \<Rightarrow> string" where
  "triage_summary summ check tr =
     (if strip summ \<noteq> [] then strip summ
      else ''Deferred nondeterministic check '' @ check @ '': '' @ triage_reason tr @ '' (''
        @ show_value (jget ''pass_count'' tr) @ '' pass / '' @ show_value (jget ''fail_count'' tr)
        @ '' fail over '' @ show_value (jget ''run_count'' tr) @ '' runs).'')"

definition FLAKY_SIDECAR :: string where
  "FLAKY_SIDECAR = ''flaky_test_triage.json''"

definition jget_default :: "string \<Rightarrow> json \<Rightarrow> json \<Rightarrow> json" where
  "jget_default k dflt j = (case jget k j of None \<Rightarrow> dflt | Some v \<Rightarrow> v)"

definition triage_note :: "string \<Rightarrow> string \<Rightarrow> json \<Rightarrow> flaky_note" where
  "triage_note path check tr =
     \<lparr>fn_path = path, fn_check = check, fn_reason = triage_reason tr,
      fn_run_count = jget_default ''run_count'' JNull tr, fn_pass_count = jget_default ''pass_count'' JNull tr,
      fn_fail_count = jget_default ''fail_count'' JNull tr, fn_command = jget_default ''command'' (JStr []) tr\<rparr>"

text \<open>The entry of the subtask after the deferral, with the note about the flaky check.\<close>

definition note_flaky :: "string \<Rightarrow> flaky_note \<Rightarrow> step_state \<Rightarrow> step_state" where
  "note_flaky sid note0 st =
     (case dict_get (subtask_results st) sid of
        None \<Rightarrow> st
      | Some r \<Rightarrow> st\<lparr>subtask_results := dict_set sid (r\<lparr>r_flaky := Some note0\<rparr>) (subtask_results st)\<rparr>)"

definition defer_flaky_state :: "orch_env \<Rightarrow> string \<Rightarrow> string \<Rightarrow> string \<Rightarrow> json \<Rightarrow> step_state \<Rightarrow> step_state" where
  "defer_flaky_state e sid path check tr st =
     (let st1 = note_flaky sid (triage_note path check tr) st;
          st2 = st1\<lparr>subtask_phases := dict_set sid ''COMPLETE'' (subtask_phases st1)\<rparr>;
          st3 = close_actor_and_monitor st2
      in st3\<lparr>subtask_completion_reasons :=
             dict_set sid \<lparr>cr_kind = DEFERRED_NONDETERMINISTIC_STATUS, cr_reason = triage_reason tr,
                           cr_recorded_at = utc_timestamp e, cr_check_id = Some check\<rparr>
               (subtask_completion_reasons st3)\<rparr>)"

definition defer_flaky_subtask ::
  "orch_env \<Rightarrow> string \<Rightarrow> string \<Rightarrow> string \<Rightarrow> string list \<Rightarrow> string \<Rightarrow> string option \<Rightarrow> branch_dir
     \<Rightarrow> (orch_error + advance) \<times> branch_dir" where
  "defer_flaky_subtask e sid check_id triage_path fs summ sha d =
     (let check = strip check_id; path = (if triage_path = [] then FLAKY_SIDECAR else triage_path)
      in if check = [] then (Inl CheckIdRequired, d)
         else if step_file d = Absent then (Inl NoStateFile, d)
         else
           (let st = load e d
            in if sid \<notin> set (subtask_sequence st) then (Inl (UnknownSubtask sid (subtask_sequence st)), d)
               else if current_subtask_id st \<noteq> Some sid
               then (Inl (NotCurrentSubtask sid (current_subtask_id st)), d)
               else if current_step_phase st \<notin> {''MONITOR'', ''ACTOR''}
               then (Inl (WrongPhase (current_step_phase st)), d)
               else
                 (case load_deferred_flaky_triage e path check of
                    Inl er \<Rightarrow> (Inl (TriageRejected er), d)
                  | Inr tr \<Rightarrow>
                      (let d1 = snd (record_subtask_result e sid fs DEFERRED_NONDETERMINISTIC_STATUS
                             (triage_summary summ check tr) sha d);
                           st1 = defer_flaky_state e sid path check tr (load e d1)
                       in if \<not> has_more_subtasks st1 then
                            (let (a, st2) = advance_after_terminal_current_subtask e [] st1 in (Inr a, save st2 d1))
                          else
                            (case load_blueprint_deps (blueprint_file d1) of
                               None \<Rightarrow> (Inl Raised, d1)
                             | Some dm \<Rightarrow>
                                 (let (a, st2) = advance_after_terminal_current_subtask e dm st1
                                  in (Inr a, save st2 d1)))))))"

end
