(* ===== verification/Orch_Validate.thy ===== *)
theory Orch_Validate
  imports Orch_Steps
begin

text \<open>
  \<^verbatim>\<open>validate_step\<close>: the gates of each step in the order of the source, and the transition a
  validated step makes. A gate either answers (with the directory to leave behind) or lets
  the state, possibly updated, through.
\<close>

datatype validate_response =
    VIdempotent string
  | VMismatch string string
  | VPlanNotApproved
  | VNoSubtasks
  | VEnvelope envelope_error
  | VUnknownDisposition string
  | VNeedsCheckId
  | VContradiction "string option" string
  | VNeedsEnvelope
  | VBinding binding_error
  | VDeferralRejected orch_error
  | VDeferred string advance
  | VRecommendationRequired
  | VRejected string
  | VResearchInvalid string "string list"
  | VScopeViolation "string list"
  | VFalseProgress "string list"
  | VOk string "(string option \<times> string) option" "string list" "string list" "string list option"
  | VRaised

text \<open>The field \<^verbatim>\<open>valid\<close> of the answer.\<close>

definition is_valid :: "validate_response \<Rightarrow> bool" where
  "is_valid r = (case r of VIdempotent _ \<Rightarrow> True | VOk _ _ _ _ _ \<Rightarrow> True | _ \<Rightarrow> False)"

record validate_args =
  a_recommendation :: "string option"
  a_envelope :: "string option"
  a_disposition :: "string option"
  a_check_id :: "string option"
  a_files :: "string list"
  a_summary :: string
  a_commit :: "string option"

section \<open>Gates\<close>

text \<open>A verdict at 2.4 closes a pending ACTOR step first.\<close>

definition close_pending_actor :: "string \<Rightarrow> step_state \<Rightarrow> step_state" where
  "close_pending_actor step_id st =
     (if step_id = ''2.4'' \<and> current_step_id st = ''2.3'' \<and> ''2.3'' \<in> set (pending_steps st)
      then st\<lparr>completed_steps := completed_steps st @ [''2.3''],
              pending_steps := remove1 ''2.3'' (pending_steps st),
              current_step_id := ''2.4'', current_step_phase := ''MONITOR''\<rparr>
      else st)"

text \<open>INIT_STATE fills an empty subtask sequence from the plan artefacts.\<close>

definition init_state_gate :: "string \<Rightarrow> branch_dir \<Rightarrow> step_state \<Rightarrow> validate_response + step_state" where
  "init_state_gate step_id d st =
     (if step_id = ''1.6'' \<and> subtask_sequence st = [] then
        (let ids = extract_subtask_ids_from_plan_artifacts
               (case plan_file d of None \<Rightarrow> [] | Some tx \<Rightarrow> tx) (blueprint_file d)
         in if ids = [] then Inl VNoSubtasks
            else
              (case load_blueprint_deps (blueprint_file d) of
                 None \<Rightarrow> Inl VRaised
               | Some dm \<Rightarrow>
                   (let ids1 = (if dm = [] then ids
                          else (case topological_sort_subtasks ids dm of Sorted out \<Rightarrow> out | _ \<Rightarrow> ids))
                    in Inr (st\<lparr>subtask_sequence := ids1, current_subtask_id := Some (hd ids1),
                               subtask_index := 0\<rparr>))))
      else Inr st)"

definition envelope_gate :: "string \<Rightarrow> validate_args \<Rightarrow> validate_response option" where
  "envelope_gate step_id a =
     (if step_id = ''2.4'' then
        (case a_envelope a of
           None \<Rightarrow> None
         | Some tx \<Rightarrow> map_option VEnvelope (validate_monitor_envelope tx))
      else None)"

text \<open>The third outcome of a review: a deferral, routed to \<open>defer_flaky_subtask\<close>.\<close>

definition disposition_route ::
  "orch_env \<Rightarrow> string \<Rightarrow> validate_args \<Rightarrow> step_state \<Rightarrow> branch_dir \<Rightarrow> (validate_response \<times> branch_dir) option"
where
  "disposition_route e step_id a st d =
     (case nonempty (a_disposition a) of
        None \<Rightarrow> None
      | Some disp \<Rightarrow>
          if step_id \<noteq> ''2.4'' then None
          else Some
            (let norm = to_lower (strip disp);
                 check = (case a_check_id a of None \<Rightarrow> [] | Some c \<Rightarrow> c);
                 rec = map_option (\<lambda>r. to_lower (strip r)) (nonempty (a_recommendation a))
             in if \<not> known_disposition norm then (VUnknownDisposition norm, d)
                else if strip check = [] then (VNeedsCheckId, d)
                else if \<not> allowed_recommendation rec then (VContradiction rec norm, d)
                else
                  (case a_envelope a of
                     None \<Rightarrow> (VNeedsEnvelope, d)
                   | Some tx \<Rightarrow>
                       (case validate_monitor_disposition_binding tx norm check of
                          Some er \<Rightarrow> (VBinding er, d)
                        | None \<Rightarrow>
                            (case defer_flaky_subtask e
                                (case current_subtask_id st of None \<Rightarrow> [] | Some c \<Rightarrow> c)
                                check [] (a_files a) (a_summary a) (a_commit a) d of
                               (Inl er, d1) \<Rightarrow> (VDeferralRejected er, d1)
                             | (Inr adv, d1) \<Rightarrow> (VDeferred norm adv, d1))))))"

definition recommendation_gate :: "string \<Rightarrow> validate_args \<Rightarrow> validate_response option" where
  "recommendation_gate step_id a =
     (if step_id \<noteq> ''2.4'' then None
      else
        (case nonempty (a_recommendation a) of
           None \<Rightarrow> Some VRecommendationRequired
         | Some r \<Rightarrow>
             (let norm = to_lower (strip r)
              in if reject_recommendation norm then Some (VRejected norm) else None)))"

definition research_gate :: "orch_env \<Rightarrow> string \<Rightarrow> step_state \<Rightarrow> validate_response option" where
  "research_gate e step_id st =
     (case nonempty (current_subtask_id st) of
        None \<Rightarrow> None
      | Some sid \<Rightarrow>
          if step_id \<noteq> ''2.2'' then None
          else
            (let errors = (case validate_research e of
                   None \<Rightarrow> [''map_step_runner.validate_research could not be imported'']
                 | Some report \<Rightarrow> report sid)
             in if errors \<noteq> [] then Some (VResearchInvalid sid errors) else None))"

text \<open>
  The mutation-boundary check at 2.4. A first warning is noted in the state and saved; a
  subtask that changed nothing although files were expected is sent back once.
\<close>

definition scope_gate ::
  "orch_env \<Rightarrow> string \<Rightarrow> step_state \<Rightarrow> branch_dir
     \<Rightarrow> (validate_response \<times> branch_dir) + (step_state \<times> branch_dir \<times> string list option)" where
  "scope_gate e step_id st d =
     (case (nonempty (current_subtask_id st), validate_mutation_boundary e) of
        (Some sid, Some boundary) \<Rightarrow>
          if step_id \<noteq> ''2.4'' \<or> blueprint_file d = Absent then Inr (st, d, None)
          else
            (let r = boundary sid
             in if sc_status r = ''violation'' \<and> sc_strict r then Inl (VScopeViolation (sc_unexpected r), d)
                else
                  (let warn = (sc_status r = ''warning'' \<and> sid \<notin> set (scope_feedback_subtasks st));
                       st1 = (if warn then st\<lparr>scope_feedback_subtasks := scope_feedback_subtasks st @ [sid]\<rparr> else st);
                       d1 = (if warn then save st1 d else d);
                       has_commit = (case dict_get (subtask_results st1) sid of
                           None \<Rightarrow> False | Some res \<Rightarrow> nonempty (r_commit res) \<noteq> None)
                   in if sc_status r \<noteq> ''error'' \<and> sc_expected r \<noteq> [] \<and> sc_actual r = [] \<and> \<not> has_commit
                         \<and> sid \<notin> set (progress_feedback_subtasks st1)
                      then (let st2 = st1\<lparr>progress_feedback_subtasks := progress_feedback_subtasks st1 @ [sid]\<rparr>
                            in Inl (VFalseProgress (sc_expected r), save st2 d1))
                      else Inr (st1, d1, if warn then Some (sc_unexpected r) else None)))
      | _ \<Rightarrow> Inr (st, d, None))"

section \<open>The transition\<close>

definition mark_step_done :: "string \<Rightarrow> step_state \<Rightarrow> step_state" where
  "mark_step_done step_id st =
     (let st1 = st\<lparr>completed_steps := completed_steps st @ [step_id],
                   pending_steps := remove1 step_id (pending_steps st)\<rparr>
      in if step_id = ''1.6'' \<and> subtask_sequence st1 \<noteq> [] \<and> nonempty (current_subtask_id st1) = None
         then st1\<lparr>current_subtask_id := Some (hd (subtask_sequence st1)), subtask_index := 0\<rparr> else st1)"

definition finish_step ::
  "orch_env \<Rightarrow> deps option \<Rightarrow> string list option \<Rightarrow> step_state \<Rightarrow> (validate_response \<times> step_state) option" where
  "finish_step e dmo warning st =
     (case pending_steps st of
        p # ps \<Rightarrow>
          Some (VOk p None [] [] warning, st\<lparr>current_step_id := p, current_step_phase := step_phase ''UNKNOWN'' p\<rparr>)
      | [] \<Rightarrow>
          if has_more_subtasks st then
            (case dmo of
               None \<Rightarrow> None
             | Some dm \<Rightarrow>
                 Some (case advance_search dm st of
                   (Advanced from0 to0 skipped, st1) \<Rightarrow>
                     (VOk (current_step_id st1) (Some (from0, to0)) skipped [] warning, st1)
                 | (Blocked rem skipped, st1) \<Rightarrow> (VOk ''BLOCKED_ON_DEPS'' None skipped rem warning, st1)
                 | (Completed skipped, st1) \<Rightarrow>
                     (VOk ''COMPLETE'' None skipped [] warning, complete_workflow e st1)))
          else Some (VOk ''COMPLETE'' None [] [] warning, complete_workflow e st))"

definition complete_step ::
  "orch_env \<Rightarrow> string \<Rightarrow> step_state \<Rightarrow> branch_dir \<Rightarrow> string list option \<Rightarrow> validate_response \<times> branch_dir" where
  "complete_step e step_id st d warning =
     (case finish_step e (load_blueprint_deps (blueprint_file d)) warning (mark_step_done step_id st) of
        None \<Rightarrow> (VRaised, d)
      | Some (r, st1) \<Rightarrow> (r, save st1 d))"

text \<open>The gates after the step is known to be current, in order.\<close>

definition run_gates ::
  "orch_env \<Rightarrow> string \<Rightarrow> validate_args \<Rightarrow> step_state \<Rightarrow> branch_dir \<Rightarrow> validate_response \<times> branch_dir" where
  "run_gates e step_id a st d =
     (if step_id = ''1.55'' \<and> \<not> plan_approved st then (VPlanNotApproved, d)
      else
        (case init_state_gate step_id d st of
           Inl r \<Rightarrow> (r, d)
         | Inr st1 \<Rightarrow>
             (case envelope_gate step_id a of
                Some r \<Rightarrow> (r, d)
              | None \<Rightarrow>
                  (case disposition_route e step_id a st1 d of
                     Some rd \<Rightarrow> rd
                   | None \<Rightarrow>
                       (case recommendation_gate step_id a of
                          Some r \<Rightarrow> (r, d)
                        | None \<Rightarrow>
                            (case research_gate e step_id st1 of
                               Some r \<Rightarrow> (r, d)
                             | None \<Rightarrow>
                                 (case scope_gate e step_id st1 d of
                                    Inl rd \<Rightarrow> rd
                                  | Inr (st2, d1, warning) \<Rightarrow> complete_step e step_id st2 d1 warning)))))))"

definition validate_step ::
  "orch_env \<Rightarrow> string \<Rightarrow> validate_args \<Rightarrow> branch_dir \<Rightarrow> validate_response \<times> branch_dir" where
  "validate_step e step_id a d =
     (let st = load e d
      in if step_id \<in> set (completed_steps st) \<and> current_step_id st \<noteq> step_id
         then (VIdempotent (current_step_id st), d)
         else
           (let st1 = close_pending_actor step_id st
            in if current_step_id st1 \<noteq> step_id then (VMismatch (current_step_id st1) step_id, d)
               else run_gates e step_id a st1 d))"

end
