(* ===== verification/Orch_Commands.thy ===== *)
theory Orch_Commands
  imports Orch_Validate
begin

text \<open>
  The other commands of \<^verbatim>\<open>map_orchestrator.py\<close> on the serial workflow: setting it up, switching
  modes, retries, shortcuts, completion, reopening and retiring. A command returns an error or
  what it reports, and the branch directory it leaves behind.
\<close>

section \<open>Switches\<close>

definition truthy_word :: "string \<Rightarrow> bool" where
  "truthy_word s = (s \<in> {''1'', ''true'', ''yes'', ''y''})"

definition falsy_word :: "string \<Rightarrow> bool" where
  "falsy_word s = (s \<in> {''0'', ''false'', ''no'', ''n''})"

definition set_plan_approved :: "orch_env \<Rightarrow> string \<Rightarrow> branch_dir \<Rightarrow> (orch_error + bool) \<times> branch_dir" where
  "set_plan_approved e v d =
     (let st = load e d; norm = to_lower (strip v)
      in if truthy_word norm then (Inr True, save (st\<lparr>plan_approved := True\<rparr>) d)
         else if falsy_word norm then (Inr False, save (st\<lparr>plan_approved := False\<rparr>) d)
         else (Inl (InvalidValue v), d))"

definition set_execution_mode :: "orch_env \<Rightarrow> string \<Rightarrow> branch_dir \<Rightarrow> (orch_error + string) \<times> branch_dir" where
  "set_execution_mode e mode d =
     (let norm = to_lower (strip mode)
      in if norm \<notin> {''batch'', ''step_by_step''} then (Inl (InvalidValue mode), d)
         else (Inr norm, save ((load e d)\<lparr>execution_mode := norm\<rparr>) d))"

text \<open>
  The pending steps after a change of mode. With test-first enabled the rebuild starts at the
  earliest test step that is neither done nor skipped and lies before the current position.
\<close>

definition first_index :: "('a \<Rightarrow> bool) \<Rightarrow> 'a list \<Rightarrow> nat option" where
  "first_index P xs = (let n = length (takeWhile (\<lambda>x. \<not> P x) xs) in if n < length xs then Some n else None)"

definition rebuild_pending :: "bool \<Rightarrow> string list \<Rightarrow> string list \<Rightarrow> string list" where
  "rebuild_pending tdd done_skipped pending =
     (let order = get_step_order tdd; open_steps = filter (\<lambda>s. s \<notin> set done_skipped)
      in case pending of
           [] \<Rightarrow> open_steps order
         | p # _ \<Rightarrow>
             if p \<in> set order then
               (let pos = index_of order p;
                    pos1 = (if tdd
                       then (case first_index (\<lambda>s. s \<in> {''2.25'', ''2.26''} \<and> s \<notin> set done_skipped) (take pos order) of
                               None \<Rightarrow> pos | Some i \<Rightarrow> i)
                       else pos)
                in open_steps (drop pos1 order))
             else open_steps order)"

definition set_tdd_mode :: "orch_env \<Rightarrow> string \<Rightarrow> branch_dir \<Rightarrow> (orch_error + bool) \<times> branch_dir" where
  "set_tdd_mode e v d =
     (let st = load e d; norm = to_lower (strip v)
      in if \<not> truthy_word norm \<and> \<not> falsy_word norm then (Inl (InvalidValue v), d)
         else
           (let tdd = truthy_word norm;
                sk = (if tdd then filter (\<lambda>s. s \<notin> {''2.25'', ''2.26''}) (skipped_steps st) else skipped_steps st);
                st1 = st\<lparr>tdd_mode := tdd, skipped_steps := sk,
                         pending_steps := rebuild_pending tdd (completed_steps st @ sk) (pending_steps st)\<rparr>
            in (Inr tdd, save st1 d)))"

section \<open>The subtask sequence\<close>

definition set_subtasks ::
  "orch_env \<Rightarrow> string list \<Rightarrow> branch_dir \<Rightarrow> (orch_error + string list \<times> bool) \<times> branch_dir" where
  "set_subtasks e raw d =
     (let st = load e d
      in case normalize_subtask_ids raw of
           Inl bad \<Rightarrow> (Inl (InvalidIds bad), d)
         | Inr ids \<Rightarrow>
             if ids = [] then (Inl NoSubtaskIds, d)
             else
               (case load_blueprint_deps (blueprint_file d) of
                  None \<Rightarrow> (Inl Raised, d)
                | Some dm \<Rightarrow>
                    (case (if dm = [] then Sorted ids else topological_sort_subtasks ids dm) of
                       Sorted out \<Rightarrow>
                         (Inr (out, out \<noteq> ids),
                          save (st\<lparr>subtask_sequence := out, current_subtask_id := Some (hd out),
                                   subtask_index := 0\<rparr>) d)
                     | CycleAmong bad \<Rightarrow> (Inl (DependencyCycle bad), d)
                     | OutOfFuel \<Rightarrow> (Inl Raised, d))))"

section \<open>Retries\<close>

definition write_feedback_file :: "string \<Rightarrow> string \<Rightarrow> string \<Rightarrow> branch_dir \<Rightarrow> string option \<times> branch_dir" where
  "write_feedback_file name header feedback d =
     (if strip feedback = [] then (None, d)
      else (Some name,
            d\<lparr>other_files := dict_set name (''# '' @ header @ NEWLINE @ NEWLINE @ feedback @ NEWLINE) (other_files d)\<rparr>))"

definition write_retry_quarantine :: "string \<Rightarrow> nat \<Rightarrow> string option \<Rightarrow> string \<Rightarrow> branch_dir \<Rightarrow> branch_dir" where
  "write_retry_quarantine sid n fb feedback d =
     (let short = shorten_text feedback 1200;
          summ = (if short = [] then ''See latest Monitor feedback artifact.'' else short)
      in d\<lparr>quarantines := filter (\<lambda>q. \<not> (q_subtask_id q = sid \<and> q_retry_count q = n)) (quarantines d)
             @ [\<lparr>q_subtask_id = sid, q_retry_count = n, q_summary = summ, q_feedback_file = fb\<rparr>]\<rparr>)"

definition QUARANTINE_PATH :: string where
  "QUARANTINE_PATH = ''retry_quarantine.json''"

definition record_retry_isolation ::
  "string option \<Rightarrow> nat \<Rightarrow> string option \<Rightarrow> string \<Rightarrow> step_state \<Rightarrow> branch_dir
     \<Rightarrow> (string \<times> string option) \<times> step_state \<times> branch_dir" where
  "record_retry_isolation sid n fb feedback st d =
     (let key = (case nonempty sid of None \<Rightarrow> ''workflow'' | Some s \<Rightarrow> s)
      in if 2 \<le> n then
           ((''clean_retry_required'', Some QUARANTINE_PATH),
            st\<lparr>clean_retry_count := clean_retry_count st + 1,
               retry_isolation_status := dict_set key ''clean_retry_required'' (retry_isolation_status st),
               retry_quarantine_paths := dict_set key QUARANTINE_PATH (retry_quarantine_paths st)\<rparr>,
            write_retry_quarantine key n fb feedback d)
         else
           ((''normal_retry'', None),
            st\<lparr>contaminated_retry_count := contaminated_retry_count st + 1,
               retry_isolation_status := dict_set key ''normal_retry'' (retry_isolation_status st)\<rparr>, d))"

datatype retry_response =
    MaxRetries nat nat
  | Retrying nat nat "string option" string "string option"

definition check_retry_limit :: "nat \<Rightarrow> nat \<Rightarrow> bool" where
  "check_retry_limit n limit = (limit < n)"

definition monitor_failed ::
  "orch_env \<Rightarrow> string \<Rightarrow> branch_dir \<Rightarrow> (orch_error + retry_response) \<times> branch_dir" where
  "monitor_failed e feedback d =
     (let st = load e d
      in if current_step_phase st \<notin> {''MONITOR'', ''ACTOR'', ''APPLY'', ''TEST_WRITER''}
         then (Inl (WrongPhase (current_step_phase st)), d)
         else
           (let n = retry_count st + 1; st1 = st\<lparr>retry_count := n\<rparr>
            in if check_retry_limit n (max_retries st) then (Inr (MaxRetries n (max_retries st)), save st1 d)
               else
                 (let st2 = st1\<lparr>pending_steps := [''2.3'', ''2.4''], current_step_id := ''2.3'',
                                current_step_phase := ''ACTOR''\<rparr>;
                      fb = filter_blocker_retry_feedback feedback;
                      (file0, d1) = write_feedback_file (''monitor_feedback_retry'' @ show_nat n @ ''.md'')
                        (''Monitor Feedback (retry '' @ show_nat n @ '')'') fb d;
                      ((iso, q), st3, d2) = record_retry_isolation (current_subtask_id st2) n file0 fb st2 d1
                  in (Inr (Retrying n (max_retries st) file0 iso q), save st3 d2))))"

definition wave_monitor_failed ::
  "orch_env \<Rightarrow> string \<Rightarrow> string \<Rightarrow> branch_dir \<Rightarrow> retry_response \<times> branch_dir" where
  "wave_monitor_failed e sid feedback d =
     (let st = load e d;
          n = (case dict_get (subtask_retry_counts st) sid of None \<Rightarrow> 0 | Some k \<Rightarrow> k) + 1;
          st1 = st\<lparr>subtask_retry_counts := dict_set sid n (subtask_retry_counts st)\<rparr>
      in if check_retry_limit n (max_retries st) then (MaxRetries n (max_retries st), save st1 d)
         else
           (let st2 = st1\<lparr>subtask_phases := dict_set sid ''2.3'' (subtask_phases st1)\<rparr>;
                fb = filter_blocker_retry_feedback feedback;
                (file0, d1) = write_feedback_file
                  (''monitor_feedback_'' @ sid @ ''_retry'' @ show_nat n @ ''.md'')
                  (''Monitor Feedback for '' @ sid @ '' (retry '' @ show_nat n @ '')'') fb d;
                ((iso, q), st3, d2) = record_retry_isolation (Some sid) n file0 fb st2 d1
            in (Retrying n (max_retries st) file0 iso q, save st3 d2)))"

section \<open>Completion\<close>

definition mark_workflow_complete :: "orch_env \<Rightarrow> branch_dir \<Rightarrow> (orch_error + unit) \<times> branch_dir" where
  "mark_workflow_complete e d =
     (if step_file d = Absent then (Inl NoStateFile, d)
      else
        (let st = load e d
         in if pending_steps st \<noteq> [] then (Inl (PendingSteps (pending_steps st)), d)
            else (Inr (), save (complete_workflow e st) d)))"

definition VALID_MARK_COMPLETE_KINDS :: "string list" where
  "VALID_MARK_COMPLETE_KINDS = [''done'', ''noop'', ''deferred'', ''stub'', ''prior_pr'']"

text \<open>The shortcut advances by position, without looking at dependencies.\<close>

definition shortcut_advance :: "orch_env \<Rightarrow> step_state \<Rightarrow> step_state" where
  "shortcut_advance e st =
     (if subtask_index st + 1 < length (subtask_sequence st) then
        st\<lparr>subtask_index := subtask_index st + 1,
           current_subtask_id := Some (subtask_sequence st ! (subtask_index st + 1)),
           current_step_id := ''2.2'', current_step_phase := ''RESEARCH'',
           pending_steps := steps_from_research (tdd_mode st), completed_steps := [],
           skipped_steps := [], retry_count := 0\<rparr>
      else complete_workflow e (st\<lparr>pending_steps := []\<rparr>))"

definition mark_subtask_complete ::
  "orch_env \<Rightarrow> string \<Rightarrow> string \<Rightarrow> string option \<Rightarrow> branch_dir \<Rightarrow> (orch_error + string option \<times> bool) \<times> branch_dir"
where
  "mark_subtask_complete e sid reason kind d =
     (if step_file d = Absent then (Inl NoStateFile, d)
      else
        (let st = load e d
         in if sid \<notin> set (subtask_sequence st) then (Inl (UnknownSubtask sid (subtask_sequence st)), d)
            else
              (let norm = to_lower (strip (case nonempty kind of None \<Rightarrow> ''noop'' | Some k \<Rightarrow> k))
               in if norm \<notin> set VALID_MARK_COMPLETE_KINDS then (Inl (InvalidKind norm), d)
                  else
                    (let stat = (if norm = ''noop'' then ''no-op'' else norm);
                         st1 = StepState_record_subtask_result sid [] stat
                           (''Marked '' @ norm @ '' via mark_subtask_complete: '' @ reason) None st;
                         st2 = st1\<lparr>subtask_phases := dict_set sid ''COMPLETE'' (subtask_phases st1),
                                   subtask_completion_reasons :=
                                     dict_set sid \<lparr>cr_kind = norm, cr_reason = reason,
                                       cr_recorded_at = utc_timestamp e, cr_check_id = None\<rparr>
                                     (subtask_completion_reasons st1)\<rparr>;
                         cur = (current_subtask_id st = Some sid);
                         st3 = (if cur then shortcut_advance e st2 else st2);
                         more = (subtask_index st + 1 < length (subtask_sequence st))
                     in (Inr (if cur \<and> more then current_subtask_id st3 else None, cur \<and> \<not> more),
                         save st3 d)))))"

definition is_workflow_complete :: "step_state \<Rightarrow> bool" where
  "is_workflow_complete st =
     (if workflow_status st = ''WORKFLOW_COMPLETE'' \<or> current_step_id st = ''COMPLETE''
         \<or> current_step_phase st = ''COMPLETE'' then True
      else if subtask_sequence st = [] then False
      else list_all (\<lambda>sid. sid \<in> set (completed_subtask_ids_for_deps st)) (subtask_sequence st))"

definition reopen_for_fixes ::
  "orch_env \<Rightarrow> string \<Rightarrow> branch_dir \<Rightarrow> (orch_error + string option) \<times> branch_dir" where
  "reopen_for_fixes e feedback d =
     (if step_file d = Absent then (Inl NoStateFile, d)
      else
        (let st = load e d
         in if \<not> is_workflow_complete st
            then (Inl (NotComplete (current_step_phase st) (workflow_status st)), d)
            else
              (let st1 = st\<lparr>current_step_id := ''2.3'', current_step_phase := ''ACTOR'',
                            pending_steps := [''2.3'', ''2.4''], retry_count := 0,
                            workflow_status := ''IN_PROGRESS'', completed_at := None\<rparr>;
                   (file0, d1) = write_feedback_file ''review_feedback.md''
                     ''Review Feedback (post-COMPLETE reopen)'' feedback d
               in (Inr file0, save st1 d1))))"

section \<open>Retiring a workflow\<close>

datatype retire_response = NothingToRetire | Retired string

text \<open>The name of a retired state: by the second, by the microsecond when that is taken.\<close>

definition retired_name :: "orch_env \<Rightarrow> string \<Rightarrow> branch_dir \<Rightarrow> string" where
  "retired_name e label d =
     (let n = ''step_state.'' @ label @ ''-'' @ stamp_seconds e @ ''.json''
      in if dict_get (retired d) n = None then n
         else ''step_state.'' @ label @ ''-'' @ stamp_micros e @ ''.json'')"

definition retire :: "orch_env \<Rightarrow> string \<Rightarrow> branch_dir \<Rightarrow> retire_response \<times> branch_dir" where
  "retire e label d =
     (let n = retired_name e label d
      in (Retired n, d\<lparr>step_file := Absent, retired := dict_set n (step_file d) (retired d)\<rparr>))"

definition archive_completed_workflow ::
  "orch_env \<Rightarrow> branch_dir \<Rightarrow> (orch_error + retire_response) \<times> branch_dir" where
  "archive_completed_workflow e d =
     (if step_file d = Absent then (Inr NothingToRetire, d)
      else
        (let st = load e d
         in if \<not> is_workflow_complete st then (Inl (InFlight (current_step_phase st) (workflow_status st)), d)
            else (let (r, d1) = retire e ''completed'' d in (Inr r, d1))))"

definition abandon_workflow ::
  "orch_env \<Rightarrow> branch_dir \<Rightarrow> (orch_error + retire_response) \<times> branch_dir" where
  "abandon_workflow e d =
     (if step_file d = Absent then (Inr NothingToRetire, d)
      else if is_workflow_complete (load e d) then archive_completed_workflow e d
      else (let (r, d1) = retire e ''abandoned'' d in (Inr r, d1)))"

definition initialize_workflow :: "orch_env \<Rightarrow> branch_dir \<Rightarrow> string option \<times> branch_dir" where
  "initialize_workflow e d =
     (let (arch, d1) =
        (if step_file d \<noteq> Absent \<and> is_workflow_complete (load e d)
         then (case archive_completed_workflow e d of
                 (Inr (Retired n), d1) \<Rightarrow> (Some n, d1) | (_, d1) \<Rightarrow> (None, d1))
         else (None, d))
      in (arch, save (StepState (iso_now e)) d1))"

section \<open>Skipping and limits\<close>

definition skip_step :: "orch_env \<Rightarrow> string \<Rightarrow> branch_dir \<Rightarrow> (orch_error + string) \<times> branch_dir" where
  "skip_step e step_id d =
     (if step_id \<notin> {''2.25'', ''2.26''} then (Inl (NotSkippable step_id), d)
      else
        (let st = load e d
         in if current_step_id st \<noteq> step_id then (Inl (StepMismatch (current_step_id st) step_id), d)
            else
              (let st1 = st\<lparr>completed_steps := completed_steps st @ [step_id],
                            pending_steps := remove1 step_id (pending_steps st)\<rparr>;
                   st2 = (case pending_steps st1 of
                       p # _ \<Rightarrow> st1\<lparr>current_step_id := p, current_step_phase := step_phase ''UNKNOWN'' p\<rparr>
                     | [] \<Rightarrow> st1\<lparr>current_step_id := ''COMPLETE'', current_step_phase := ''COMPLETE''\<rparr>)
               in (Inr (current_step_id st2), save st2 d))))"

definition check_circuit_breaker :: "orch_env \<Rightarrow> branch_dir \<Rightarrow> nat \<times> nat \<times> bool" where
  "check_circuit_breaker e d =
     (let st = load e d; n = length (completed_steps st);
          m = length (subtask_sequence st) * length (get_step_order (tdd_mode st))
      in (n, m, m \<le> n))"

section \<open>Test contracts and resuming\<close>

definition contract_artifact_paths :: "string \<Rightarrow> string \<times> string" where
  "contract_artifact_paths sid = (''test_contract_'' @ sid @ ''.md'', ''test_handoff_'' @ sid @ ''.json'')"

definition missing_artifacts :: "string \<Rightarrow> branch_dir \<Rightarrow> string list" where
  "missing_artifacts sid d =
     filter (\<lambda>n. dict_get (other_files d) n = None)
       [fst (contract_artifact_paths sid), snd (contract_artifact_paths sid)]"

definition new_contract_entry :: "orch_env \<Rightarrow> string \<Rightarrow> contract_entry" where
  "new_contract_entry e sid =
     \<lparr>ce_contract = fst (contract_artifact_paths sid), ce_handoff = snd (contract_artifact_paths sid),
      ce_ready_at = utc_timestamp e\<rparr>"

definition mark_contract_ready :: "orch_env \<Rightarrow> string \<Rightarrow> branch_dir \<Rightarrow> (orch_error + unit) \<times> branch_dir" where
  "mark_contract_ready e sid d =
     (if step_file d = Absent then (Inl NoStateFile, d)
      else if missing_artifacts sid d \<noteq> [] then (Inl (MissingArtifacts (missing_artifacts sid d)), d)
      else
        (let st = load e d
         in if nonempty (current_subtask_id st) \<noteq> None \<and> current_subtask_id st \<noteq> Some sid
            then (Inl (NotCurrentSubtask sid (current_subtask_id st)), d)
            else
              (Inr (), save (st\<lparr>contract_ready_subtasks :=
                   dict_set sid (new_contract_entry e sid) (contract_ready_subtasks st),
                 workflow_status := ''CONTRACT_READY'', current_step_id := ''CONTRACT_READY'',
                 current_step_phase := ''CONTRACT_READY'', pending_steps := [''CONTRACT_READY'']\<rparr>) d)))"

definition resume_from_test_contract ::
  "orch_env \<Rightarrow> string \<Rightarrow> branch_dir \<Rightarrow> (orch_error + unit) \<times> branch_dir" where
  "resume_from_test_contract e sid d =
     (case plan_file d of
        None \<Rightarrow> (Inl NoPlan, d)
      | Some tx \<Rightarrow>
          if missing_artifacts sid d \<noteq> [] then (Inl (MissingArtifacts (missing_artifacts sid d)), d)
          else
            (let ids = extract_subtask_ids_from_plan_artifacts tx (blueprint_file d)
             in if sid \<notin> set ids then (Inl (UnknownSubtask sid ids), d)
                else
                  (let entry = (case dict_get (contract_ready_subtasks (load e d)) sid of
                         None \<Rightarrow> new_contract_entry e sid | Some en \<Rightarrow> en)
                   in (Inr (), save ((StepState (iso_now e))\<lparr>current_subtask_id := Some sid, subtask_index := 0,
                         subtask_sequence := [sid], current_step_id := ''2.3'', current_step_phase := ''ACTOR'',
                         completed_steps := [''1.0'', ''1.5'', ''1.55'', ''1.56'', ''1.6'', ''2.2'', ''2.25'', ''2.26''],
                         pending_steps := [''2.3'', ''2.4''], plan_approved := True, execution_mode := ''batch'',
                         tdd_mode := True, workflow_status := ''IN_PROGRESS'',
                         contract_ready_subtasks := [(sid, entry)]\<rparr>) d))))"

definition resume_single_subtask ::
  "orch_env \<Rightarrow> string \<Rightarrow> bool \<Rightarrow> branch_dir \<Rightarrow> (orch_error + string list) \<times> branch_dir" where
  "resume_single_subtask e sid tdd d =
     (case plan_file d of
        None \<Rightarrow> (Inl NoPlan, d)
      | Some tx \<Rightarrow>
          (let ids = extract_subtask_ids_from_plan_artifacts tx (blueprint_file d)
           in if ids = [] then (Inl NoSubtaskIds, d)
              else if sid \<notin> set ids then (Inl (UnknownSubtask sid ids), d)
              else
                (Inr ids, save ((StepState (iso_now e))\<lparr>current_subtask_id := Some sid, subtask_index := 0,
                   subtask_sequence := [sid], current_step_id := ''2.2'', current_step_phase := ''RESEARCH'',
                   completed_steps := [''1.0'', ''1.5'', ''1.55'', ''1.56'', ''1.6''],
                   pending_steps := steps_from_research tdd, plan_approved := True, execution_mode := ''batch'',
                   tdd_mode := tdd, workflow_status := ''IN_PROGRESS''\<rparr>) d)))"

text \<open>Legacy entries get the redundant identifier field.\<close>

definition backfill_subtask_ids :: "orch_env \<Rightarrow> branch_dir \<Rightarrow> (orch_error + string list) \<times> branch_dir" where
  "backfill_subtask_ids e d =
     (if step_file d = Absent then (Inl NoStateFile, d)
      else
        (let st = load e d;
             updated = map fst (filter (\<lambda>(sid, r). r_subtask_id r \<noteq> Some sid) (subtask_results st))
         in (Inr updated,
             if updated = [] then d
             else save (st\<lparr>subtask_results :=
                    map (\<lambda>(sid, r). (sid, r\<lparr>r_subtask_id := Some sid\<rparr>)) (subtask_results st)\<rparr>) d)))"

end
