(* ===== verification/Orch_Waves.thy ===== *)
theory Orch_Waves
  imports Orch_Commands
begin

text \<open>
  Execution waves: computing them from the blueprint (the graph library is the parameters
  \<open>compute_waves\<close> and \<open>split_wave\<close> of the environment), stepping through them, and the gate
  that decides between sequential and concurrent dispatch.
\<close>

section \<open>Computing waves\<close>

datatype waves_error = NoGraphLibrary | NoBlueprint | InvalidBlueprint | NoSubtasksInBlueprint | WaveCycle
  | WavesRaised

definition blueprint_subtasks :: "json \<Rightarrow> json option" where
  "blueprint_subtasks bp =
     (case jget ''blueprint'' bp of
        Some (JObj kvs) \<Rightarrow> (case jget ''subtasks'' (JObj kvs) of None \<Rightarrow> Some (JList []) | r \<Rightarrow> r)
      | _ \<Rightarrow> (case jget ''subtasks'' bp of None \<Rightarrow> Some (JList []) | r \<Rightarrow> r))"

text \<open>
  A node of the graph: identifier and dependencies as the blueprint has them, and the set of
  files as the list it is made from. \<open>None\<close> where the loop raises: the subtask is not an
  object, its identifier cannot be a key, or its files are not iterable or cannot be members.
\<close>

definition file_items :: "json \<Rightarrow> json list option" where
  "file_items v =
     (if falsy v then Some []
      else (case v of
          JList vs \<Rightarrow> if list_all hashable vs then Some vs else None
        | JStr s \<Rightarrow> Some (map (\<lambda>c. JStr [c]) s)
        | JObj kvs \<Rightarrow> Some (map (\<lambda>kv. JStr (fst kv)) kvs)
        | _ \<Rightarrow> None))"

definition wave_node :: "json \<Rightarrow> (json \<times> json \<times> json list) option" where
  "wave_node st =
     (case st of
        JObj _ \<Rightarrow>
          (case file_items (jget_default ''affected_files'' (JList []) st) of
             None \<Rightarrow> None
           | Some fs \<Rightarrow>
               (let i = jget_default ''id'' (JStr []) st
                in if hashable i then Some (i, jget_default ''dependencies'' (JList []) st, fs) else None))
      | _ \<Rightarrow> None)"

definition all_nodes :: "json list \<Rightarrow> (json \<times> json \<times> json list) list option" where
  "all_nodes sts =
     (if list_all (\<lambda>st. wave_node st \<noteq> None) sts then Some (List.map_filter wave_node sts) else None)"

definition store_waves :: "string list list \<Rightarrow> step_state \<Rightarrow> step_state" where
  "store_waves waves st =
     (let st1 = st\<lparr>execution_waves := waves, current_wave_index := 0, subtask_phases := [],
                   subtask_retry_counts := []\<rparr>;
          flat = concat waves
      in if subtask_sequence st1 = [] \<and> flat \<noteq> []
         then st1\<lparr>subtask_sequence := flat, current_subtask_id := Some (hd flat), subtask_index := 0\<rparr>
         else st1)"

definition set_waves :: "orch_env \<Rightarrow> branch_dir \<Rightarrow> (waves_error + string list list) \<times> branch_dir" where
  "set_waves e d =
     (case compute_waves e of
        None \<Rightarrow> (Inl NoGraphLibrary, d)
      | Some waves_of \<Rightarrow>
          (case blueprint_file d of
             Absent \<Rightarrow> (Inl NoBlueprint, d)
           | Unparsable \<Rightarrow> (Inl InvalidBlueprint, d)
           | Parsed bp \<Rightarrow>
               (case (case bp of JObj kvs \<Rightarrow> blueprint_subtasks bp | _ \<Rightarrow> None) of
                  None \<Rightarrow> (Inl WavesRaised, d)
                | Some v \<Rightarrow>
                    if falsy v then (Inl NoSubtasksInBlueprint, d)
                    else
                      (case (case v of JList sts \<Rightarrow> all_nodes sts | _ \<Rightarrow> None) of
                         None \<Rightarrow> (Inl WavesRaised, d)
                       | Some nodes \<Rightarrow>
                           (case waves_of (map (\<lambda>(i, ds, fs). (i, ds)) nodes) of
                              GraphRaises \<Rightarrow> (Inl WavesRaised, d)
                            | GraphCycle \<Rightarrow> (Inl WaveCycle, d)
                            | GraphWaves raw \<Rightarrow>
                                (let files = fold (\<lambda>(i, ds, fs). dict_set i fs) nodes [];
                                     waves = concat (map (\<lambda>w. split_wave e w files) raw)
                                 in (Inr waves, save (store_waves waves (load e d)) d)))))))"

section \<open>Stepping through waves\<close>

definition validate_wave_step :: "orch_env \<Rightarrow> string \<Rightarrow> string \<Rightarrow> branch_dir \<Rightarrow> string \<times> branch_dir" where
  "validate_wave_step e sid step_id d =
     (let st = load e d;
          order = filter (\<lambda>s. startswith s ''2.'') (get_step_order (tdd_mode st));
          i = index_of order step_id;
          next_phase = (if i + 1 < length order then order ! (i + 1) else ''COMPLETE'')
      in (next_phase, save (st\<lparr>subtask_phases := dict_set sid next_phase (subtask_phases st)\<rparr>) d))"

definition enter_wave :: "string list \<Rightarrow> step_state \<Rightarrow> step_state" where
  "enter_wave wave st =
     (case wave of
        [] \<Rightarrow> st
      | sid # _ \<Rightarrow>
          st\<lparr>current_subtask_id := Some sid,
             subtask_index := (if sid \<in> set (subtask_sequence st) then index_of (subtask_sequence st) sid
                               else subtask_index st),
             pending_steps := steps_from_research (tdd_mode st), completed_steps := [],
             skipped_steps := [], current_step_id := ''2.2'', current_step_phase := ''RESEARCH'',
             retry_count := 0\<rparr>)"

definition advance_wave :: "orch_env \<Rightarrow> branch_dir \<Rightarrow> (nat \<times> bool \<times> nat) option \<times> branch_dir" where
  "advance_wave e d =
     (let st = load e d
      in if execution_waves st = [] then (None, d)
         else
           (let i = current_wave_index st + 1;
                st1 = st\<lparr>current_wave_index := i, subtask_phases := [], subtask_retry_counts := []\<rparr>;
                finished = (length (execution_waves st) \<le> i);
                st2 = (if finished then st1 else enter_wave (execution_waves st ! i) st1)
            in (Some (i, finished, length (execution_waves st)), save st2 d)))"

section \<open>Sequential or concurrent\<close>

record strategy =
  s_wave_loop :: bool
  s_wave_mode :: string
  s_isolation :: string
  s_parallel_groups :: bool
  s_concurrency_allowed :: bool

definition select_execution_strategy :: "orch_env \<Rightarrow> branch_dir \<Rightarrow> strategy" where
  "select_execution_strategy e d =
     (if sequential_only_env (sequential_only e) then
        \<lparr>s_wave_loop = False, s_wave_mode = ''off'', s_isolation = ''off'', s_parallel_groups = False,
         s_concurrency_allowed = False\<rparr>
      else
        (let (wave_mode, isolation) = (case runner_config e of
               None \<Rightarrow> (''off'', ''off'') | Some (w, i, _) \<Rightarrow> (w, i));
             par = list_ex (\<lambda>g. 2 \<le> length g) (execution_waves (load e d));
             loop = (wave_mode \<in> {''on'', ''auto''} \<and> isolation \<noteq> ''off'' \<and> par)
         in \<lparr>s_wave_loop = loop, s_wave_mode = wave_mode, s_isolation = isolation, s_parallel_groups = par,
             s_concurrency_allowed = (loop \<and> isolation \<in> {''auto'', ''required''} \<and> par)\<rparr>))"

datatype dispatch_reason = SequentialOnlyEnv | DispatchSequential | GateNotParallelizable
  | CurrentWaveSequential | ConcurrentGated

definition is_concurrent :: "dispatch_reason \<Rightarrow> bool" where
  "is_concurrent r = (r = ConcurrentGated)"

text \<open>\<open>None\<close> is \<^verbatim>\<open>DispatchGateError\<close>.\<close>

definition compute_dispatch_gate :: "orch_env \<Rightarrow> branch_dir \<Rightarrow> dispatch_reason option" where
  "compute_dispatch_gate e d =
     (if sequential_only_env (sequential_only e) then Some SequentialOnlyEnv
      else
        (let flag_on = (case runner_config e of None \<Rightarrow> True | Some (_, _, c) \<Rightarrow> c);
             isolation = (case runner_config e of None \<Rightarrow> ''off'' | Some (_, i, _) \<Rightarrow> i)
         in if \<not> flag_on then Some DispatchSequential
            else if isolation = ''off'' then None
            else if \<not> s_concurrency_allowed (select_execution_strategy e d) then Some GateNotParallelizable
            else
              (let st = load e d; i = current_wave_index st
               in if length (execution_waves st) \<le> i \<or> length (execution_waves st ! i) < 2
                  then Some CurrentWaveSequential else Some ConcurrentGated)))"

record wave_subtask =
  ws_id :: string
  ws_phase :: string
  ws_step :: string
  ws_quarantine :: "string option"

datatype wave_response = NoWaves bool bool | WaveComplete nat bool bool
  | WaveBatch bool nat nat "wave_subtask list" bool dispatch_reason bool

definition wave_subtask_info :: "step_state \<Rightarrow> string \<Rightarrow> wave_subtask" where
  "wave_subtask_info st sid =
     (let ph = (case dict_get (subtask_phases st) sid of
            None \<Rightarrow> (if tdd_mode st then ''2.25'' else ''2.3'') | Some p \<Rightarrow> p);
          name = step_phase ''ACTOR'' ph;
          q = (case dict_get (retry_quarantine_paths st) sid of None \<Rightarrow> [] | Some p \<Rightarrow> p)
      in \<lparr>ws_id = sid, ws_phase = name, ws_step = ph,
          ws_quarantine = (if name = ''ACTOR'' \<and> q \<noteq> []
              \<and> dict_get (retry_isolation_status st) sid = Some ''clean_retry_required'' then Some q else None)\<rparr>)"

definition get_wave_step :: "orch_env \<Rightarrow> branch_dir \<Rightarrow> wave_response option" where
  "get_wave_step e d =
     (case compute_dispatch_gate e d of
        None \<Rightarrow> None
      | Some gate \<Rightarrow>
          (let st = load e d; conc = is_concurrent gate;
               iso = (case runner_config e of None \<Rightarrow> False | Some (_, i, _) \<Rightarrow> i \<noteq> ''off'');
               i = current_wave_index st; waves = execution_waves st
           in Some (if waves = [] then NoWaves conc iso
                    else if length waves \<le> i then WaveComplete i conc iso
                    else WaveBatch (length (waves ! i) \<noteq> 1) i (length waves)
                           (map (wave_subtask_info st) (waves ! i)) conc gate iso)))"

section \<open>Resuming a whole plan\<close>

definition resume_from_plan ::
  "orch_env \<Rightarrow> branch_dir \<Rightarrow> (orch_error + string list) \<times> branch_dir" where
  "resume_from_plan e d =
     (case plan_file d of
        None \<Rightarrow> (Inl NoPlan, d)
      | Some tx \<Rightarrow>
          (let ids = extract_subtask_ids_from_plan_artifacts tx (blueprint_file d)
           in if ids = [] then (Inl NoSubtaskIds, d)
              else
                (let start = filter (\<lambda>s. s \<notin> {''1.0'', ''1.5'', ''1.55'', ''1.56''}) STEP_ORDER;
                     d1 = save ((StepState (iso_now e))\<lparr>current_subtask_id := Some (hd ids), subtask_index := 0,
                        subtask_sequence := ids, current_step_id := hd start,
                        current_step_phase := step_phase ''INIT_STATE'' (hd start),
                        completed_steps := [''1.0'', ''1.5'', ''1.55'', ''1.56''], pending_steps := start,
                        plan_approved := True, execution_mode := ''batch'',
                        workflow_status := ''IN_PROGRESS''\<rparr>) d
                 in (Inr ids, if blueprint_file d1 = Absent then d1 else snd (set_waves e d1)))))"

end
