(* ===== verification/Orch_Restore.thy ===== *)
theory Orch_Restore
  imports Orch_Commands
begin

text \<open>
  Restoring a parked item: \<^verbatim>\<open>restore_deferred_yagni\<close> moves one entry of \<^verbatim>\<open>deferred_yagni\<close> into
  the active subtasks of the blueprint, appends it to the Markdown plan and withdraws the
  approval of the plan. A text field that is not a string is shown as a scalar.
\<close>

definition text_field :: "string \<Rightarrow> string \<Rightarrow> json \<Rightarrow> string" where
  "text_field key dflt item =
     (let v = jget key item
      in if falsy_opt v
         then dflt else show_value v)"

text \<open>\<^verbatim>\<open>re.fullmatch(r"YG-\d{3,}")\<close> and its kind.\<close>

definition id_with_digits :: "string \<Rightarrow> string \<Rightarrow> bool" where
  "id_with_digits pre s =
     (take (length pre) s = pre \<and> 3 \<le> length (drop (length pre) s)
      \<and> list_all is_digit (drop (length pre) s))"

definition subtask_number :: "json \<Rightarrow> nat" where
  "subtask_number st =
     (case st of
        JObj _ \<Rightarrow>
          (case jget ''id'' st of
             Some (JStr i) \<Rightarrow> if id_with_digits ''ST-'' i then read_digits (drop 3 i) else 0
           | _ \<Rightarrow> 0)
      | _ \<Rightarrow> 0)"

definition next_restored_subtask_id :: "json list \<Rightarrow> string" where
  "next_restored_subtask_id sts = ''ST-'' @ zfill 3 (foldl (\<lambda>m st. max m (subtask_number st)) 0 sts + 1)"

definition restored_subtask_from_deferred :: "json \<Rightarrow> string \<Rightarrow> json" where
  "restored_subtask_from_deferred item sid =
     (let ttl = strip (text_field ''title'' ''Restored deferred YAGNI item'' item);
          rationale = strip (text_field ''rationale'' ''No rationale recorded'' item);
          hint = strip (text_field ''restore_hint'' ''No restore hint recorded'' item);
          item_id = strip (text_field ''id'' ''YG-???'' item)
      in JObj [(''id'', JStr sid), (''title'', JStr ttl),
           (''description'', JStr (''Restored from deferred_yagni '' @ item_id @ ''. Original rationale: ''
              @ rationale @ ''. Restore hint: '' @ hint)),
           (''dependencies'', JList []), (''affected_files'', JList []), (''requiredness'', JStr ''optional''),
           (''pruneable'', JBool False),
           (''prune_rationale'', JStr (''Restored after user request; keep active unless the user explicitly ''
              @ ''moves it back to deferred_yagni.'')),
           (''validation_criteria'', JList [JStr (''VC1: Implement or re-plan restored scope from ''
              @ item_id @ '': '' @ hint)]),
           (''aag_contract'', JStr (''Actor -> Restore deferred scope '' @ item_id
              @ '' using the recorded hint -> '' @ ttl
              @ '' is implemented or explicitly re-planned with user approval'')),
           (''expected_diff_size'', JStr ''small''), (''concern_type'', JStr ''runtime''),
           (''one_logical_step'', JBool True), (''restored_from_deferred_yagni'', JStr item_id)])"

text \<open>\<^verbatim>\<open>re.search(rf"^###\s+ID\b", content, re.MULTILINE)\<close>\<close>

definition heading_here :: "string \<Rightarrow> string \<Rightarrow> bool" where
  "heading_here sid s =
     (startswith s ''###'' \<and> drop 3 s \<noteq> [] \<and> is_space (hd (drop 3 s))
      \<and> startswith (lstrip (drop 3 s)) sid \<and> at_boundary (drop (length sid) (lstrip (drop 3 s))))"

fun heading_present :: "string \<Rightarrow> bool \<Rightarrow> string \<Rightarrow> bool" where
  "heading_present sid line_start [] = False"
| "heading_present sid line_start (c # cs) =
     (line_start \<and> heading_here sid (c # cs) \<or> heading_present sid (c = char_of (10::nat)) cs)"

definition append_restored_subtask_to_plan ::
  "json \<Rightarrow> json \<Rightarrow> string option \<Rightarrow> bool \<times> string option" where
  "append_restored_subtask_to_plan subtask item plan =
     (case plan of
        None \<Rightarrow> (False, None)
      | Some content \<Rightarrow>
          (let sid = show_value (jget ''id'' subtask)
           in if heading_present sid True content then (False, Some content)
              else
                (True, Some (rstrip content @ NEWLINE @ NEWLINE @ ''## Restored Deferred YAGNI'' @ NEWLINE @ NEWLINE
                   @ ''### '' @ sid @ '': '' @ text_field ''title'' ''Restored deferred YAGNI item'' subtask @ NEWLINE
                   @ ''- **Status:** pending'' @ NEWLINE
                   @ ''- **Restored from:** '' @ text_field ''id'' ''YG-???'' item @ NEWLINE
                   @ ''- **Requiredness:** optional'' @ NEWLINE
                   @ ''- **Rationale:** '' @ text_field ''rationale'' ''No rationale recorded'' item @ NEWLINE
                   @ ''- **Restore hint:** '' @ text_field ''restore_hint'' ''No restore hint recorded'' item @ NEWLINE
                   @ ''- **Validation:** Implement this restored scope or re-plan it before ''
                   @ ''approving execution.'' @ NEWLINE))))"

datatype restore_error = BadItemId string | NoBlueprintFile | UnreadableBlueprint | BlueprintNotObject
  | SubtasksNotArray | DeferredNotArray | ItemNotFound string | BadSubtaskId string | SubtaskIdTaken string

fun jset :: "string \<Rightarrow> json \<Rightarrow> json \<Rightarrow> json" where
  "jset k v (JObj kvs) = JObj (dict_set k v kvs)"
| "jset k v j = j"

text \<open>The mutable body of a blueprint, put back where it came from.\<close>

definition put_body :: "json \<Rightarrow> json \<Rightarrow> json" where
  "put_body payload body =
     (case jget ''blueprint'' payload of Some (JObj _) \<Rightarrow> jset ''blueprint'' body payload | _ \<Rightarrow> body)"

definition has_id :: "string \<Rightarrow> json \<Rightarrow> bool" where
  "has_id i j = (is_obj j \<and> jget ''id'' j = Some (JStr i))"

definition restore_arrays :: "json \<Rightarrow> restore_error + json list \<times> json list" where
  "restore_arrays body =
     (case jget ''subtasks'' body of
        Some (JList sts) \<Rightarrow>
          (case jget ''deferred_yagni'' body of
             Some (JList items) \<Rightarrow> Inr (sts, items)
           | _ \<Rightarrow> Inl DeferredNotArray)
      | _ \<Rightarrow> Inl SubtasksNotArray)"

definition withdraw_approval :: "orch_env \<Rightarrow> branch_dir \<Rightarrow> branch_dir" where
  "withdraw_approval e d =
     (if step_file d = Absent then d else save ((load e d)\<lparr>plan_approved := False\<rparr>) d)"

definition restore_deferred_yagni ::
  "orch_env \<Rightarrow> string \<Rightarrow> string option \<Rightarrow> branch_dir \<Rightarrow> (restore_error + string \<times> bool) \<times> branch_dir" where
  "restore_deferred_yagni e item_id new_id d =
     (let norm = strip item_id
      in if \<not> id_with_digits ''YG-'' norm then (Inl (BadItemId item_id), d)
         else
           (case blueprint_file d of
              Absent \<Rightarrow> (Inl NoBlueprintFile, d)
            | Unparsable \<Rightarrow> (Inl UnreadableBlueprint, d)
            | Parsed payload \<Rightarrow>
                if \<not> is_obj payload then (Inl BlueprintNotObject, d)
                else
                  (case restore_arrays (blueprint_body payload) of
                     Inl er \<Rightarrow> (Inl er, d)
                   | Inr (sts, items) \<Rightarrow>
                       (case first_index (has_id norm) items of
                          None \<Rightarrow> (Inl (ItemNotFound norm), d)
                        | Some i \<Rightarrow>
                            (let sid = (case nonempty new_id of None \<Rightarrow> next_restored_subtask_id sts | Some n \<Rightarrow> n)
                             in if \<not> id_with_digits ''ST-'' sid then (Inl (BadSubtaskId sid), d)
                                else if list_ex (has_id sid) sts then (Inl (SubtaskIdTaken sid), d)
                                else
                                  (let restored = restored_subtask_from_deferred (items ! i) sid;
                                       body1 = jset ''subtasks'' (JList (sts @ [restored]))
                                         (jset ''deferred_yagni'' (JList (take i items @ drop (Suc i) items))
                                           (blueprint_body payload));
                                       (updated, plan1) = append_restored_subtask_to_plan restored (items ! i) (plan_file d);
                                       d1 = d\<lparr>blueprint_file := Parsed (put_body payload body1), plan_file := plan1\<rparr>
                                   in (Inr (sid, updated), withdraw_approval e d1)))))))"

end
