(* ===== verification/Orch_Topo.thy ===== *)
theory Orch_Topo
  imports Orch_Plan
begin

text \<open>
  Correctness of the stable topological sort on lists without repetition: it always
  returns, a success is a permutation in which every dependency precedes its dependents, a
  failure means a cycle of two or more subtasks and names all of them, and a list that is
  already in order is left alone. A subtask that names itself is not seen by the sort.
\<close>

section \<open>Order\<close>

text \<open>Every counted dependency of an entry comes before it.\<close>

definition ordered :: "string list \<Rightarrow> deps \<Rightarrow> string list \<Rightarrow> bool" where
  "ordered ids d out \<longleftrightarrow> (\<forall>k < length out. set (in_deps ids d (out ! k)) \<subseteq> set (take k out))"

definition dep_edges :: "string list \<Rightarrow> deps \<Rightarrow> (string \<times> string) set" where
  "dep_edges ids d = {(x, i). i \<in> set ids \<and> x \<in> set (in_deps ids d i)}"

text \<open>
  The dependencies among the listed subtasks as the blueprint declares them. The sort counts
  those between two different subtasks: a subtask that names itself is skipped.
\<close>

definition declared_edges :: "string list \<Rightarrow> deps \<Rightarrow> (string \<times> string) set" where
  "declared_edges ids d = {(x, i). i \<in> set ids \<and> x \<in> set ids \<and> x \<in> set (deps_of d i)}"

lemma declared_dep_edges: "declared_edges ids d - Id = dep_edges ids d"
  by (auto simp: declared_edges_def dep_edges_def in_deps_def)

lemma ordered_snoc:
  "ordered ids d (out @ [n]) \<longleftrightarrow> ordered ids d out \<and> set (in_deps ids d n) \<subseteq> set out"
  by (auto simp: ordered_def nth_append less_Suc_eq)

lemma ordered_Nil [simp]: "ordered ids d []"
  by (simp add: ordered_def)

lemma ordered_mem: "ordered ids d out \<Longrightarrow> i \<in> set out \<Longrightarrow> set (in_deps ids d i) \<subseteq> set out"
  unfolding ordered_def by (metis in_set_conv_nth order_trans set_take_subset)

section \<open>Releasing the children of a node\<close>

lemma release_inc: "fst (release cs inc ready) = (\<lambda>i. inc i - int (count_list cs i))"
  by (induction cs arbitrary: inc ready) (auto simp: Let_def fun_eq_iff)

lemma release_ready:
  assumes "\<And>i. int (count_list cs i) \<le> inc i" "distinct ready" "set ready \<inter> set cs = {}"
  shows "distinct (snd (release cs inc ready))
    \<and> set (snd (release cs inc ready)) = set ready \<union> {i \<in> set cs. inc i = int (count_list cs i)}"
  using assms
proof (induction cs arbitrary: inc ready)
  case (Cons c cs)
  define inc1 where "inc1 = inc(c := inc c - 1)"
  define ready1 where "ready1 = (if inc c = 1 then ready @ [c] else ready)"
  have step: "release (c # cs) inc ready = release cs inc1 ready1"
    by (simp add: Let_def inc1_def ready1_def)
  have le: "int (count_list cs i) \<le> inc1 i" for i
    using Cons.prems(1) [of i] by (auto simp: inc1_def split: if_splits)
  have c0: "inc c = 1 \<Longrightarrow> c \<notin> set cs"
    using Cons.prems(1) [of c] by (simp add: count_list_0_iff)
  have "distinct ready1" "set ready1 \<inter> set cs = {}"
    using Cons.prems(2,3) c0 by (auto simp: ready1_def)
  note ih = Cons.IH [OF le this]
  have "set ready1 \<union> {i \<in> set cs. inc1 i = int (count_list cs i)}
      = set ready \<union> {i \<in> set (c # cs). inc i = int (count_list (c # cs) i)}"
    using c0 count_list_0_iff [of cs c] by (auto simp: inc1_def ready1_def split: if_splits)
  with ih show ?case by (simp only: step)
qed simp

lemma count_children:
  assumes "distinct ids"
  shows "count_list (children_of ids d n) i = (if i \<in> set ids then length (filter (\<lambda>x. x = n) (in_deps ids d i)) else 0)"
proof -
  have "distinct xs \<Longrightarrow> count_list (concat (map (\<lambda>i. map (\<lambda>_. i) (F i)) xs)) i
      = (if i \<in> set xs then length (F i) else 0)" for xs and F :: "string \<Rightarrow> string list"
  proof (induction xs)
    case (Cons x xs)
    have "count_list (map (\<lambda>_. x) ys) i = (if x = i then length ys else 0)" for ys :: "string list"
      by (induction ys) auto
    with Cons show ?case by auto
  qed simp
  from this [OF assms, of "\<lambda>i. filter (\<lambda>x. x = n) (in_deps ids d i)"] show ?thesis
    by (simp add: children_of_def)
qed

section \<open>The loop\<close>

definition waiting :: "string list \<Rightarrow> deps \<Rightarrow> string list \<Rightarrow> string \<Rightarrow> nat" where
  "waiting ids d out i = length (filter (\<lambda>x. x \<notin> set out) (in_deps ids d i))"

definition loop_ok :: "string list \<Rightarrow> deps \<Rightarrow> (string \<Rightarrow> int) \<Rightarrow> string list \<Rightarrow> string list \<Rightarrow> bool" where
  "loop_ok ids d inc ready out \<longleftrightarrow> distinct out \<and> distinct ready \<and> set out \<subseteq> set ids
     \<and> (\<forall>i \<in> set ids. inc i = int (waiting ids d out i))
     \<and> set ready = {i \<in> set ids. i \<notin> set out \<and> waiting ids d out i = 0}
     \<and> ordered ids d out"

lemma waiting_0: "waiting ids d out i = 0 \<longleftrightarrow> set (in_deps ids d i) \<subseteq> set out"
  by (auto simp: waiting_def filter_empty_conv)

lemma waiting_snoc:
  assumes "n \<notin> set out"
  shows "waiting ids d out i
    = waiting ids d (out @ [n]) i + length (filter (\<lambda>x. x = n) (in_deps ids d i))"
proof -
  have "length (filter (\<lambda>x. x \<notin> set out) xs)
      = length (filter (\<lambda>x. x \<notin> set (out @ [n])) xs) + length (filter (\<lambda>x. x = n) xs)" for xs
    using assms by (induction xs) auto
  then show ?thesis unfolding waiting_def .
qed

lemma loop_ok_step:
  assumes ids: "distinct ids" and ok: "loop_ok ids d inc (r # rs) out"
    and s: "sort_key (index_of ids) (r # rs) = n # rest"
    and r: "release (children_of ids d n) inc rest = (inc', ready')"
  shows "loop_ok ids d inc' ready' (out @ [n])" "n \<notin> set out" "n \<in> set ids"
proof -
  have set_nr: "set (r # rs) = insert n (set rest)"
    using s by (metis list.set(2) set_sort)
  have dist: "distinct (n # rest)" using ok s by (metis distinct_sort loop_ok_def)
  show n: "n \<notin> set out" "n \<in> set ids" using ok set_nr by (auto simp: loop_ok_def)
  have n0: "waiting ids d out n = 0" using ok set_nr by (auto simp: loop_ok_def)
  let ?c = "\<lambda>i. length (filter (\<lambda>x. x = n) (in_deps ids d i))"
  have cnt: "count_list (children_of ids d n) i = (if i \<in> set ids then ?c i else 0)" for i
    by (rule count_children [OF ids])
  have inc: "inc i = int (waiting ids d (out @ [n]) i + ?c i)" if "i \<in> set ids" for i
    using ok that waiting_snoc [OF n(1), of ids d i] by (simp add: loop_ok_def)
  have child: "i \<in> set (children_of ids d n) \<longleftrightarrow> i \<in> set ids \<and> ?c i \<noteq> 0" for i
    using cnt [of i] count_list_0_iff [of "children_of ids d n" i] by (auto split: if_splits)
  define inc0 where "inc0 = (\<lambda>i. if i \<in> set ids then inc i else 0)"
  have le: "int (count_list (children_of ids d n) i) \<le> inc0 i" for i
    using inc by (simp add: cnt inc0_def)
  have rel: "snd (release cs f rd) = snd (release cs g rd)" if "\<forall>i \<in> set cs. f i = g i" for cs f g rd
    using that by (induction cs arbitrary: f g rd) (auto simp: Let_def)
  have "ready' = snd (release (children_of ids d n) inc0 rest)"
    using r rel [of "children_of ids d n" inc inc0 rest] child by (auto simp: inc0_def)
  moreover have "set rest \<inter> set (children_of ids d n) = {}"
  proof -
    have "?c i = 0" if "i \<in> set rest" for i
    proof -
      have "set (in_deps ids d i) \<subseteq> set out"
        using ok set_nr that waiting_0 by (auto simp: loop_ok_def)
      then show ?thesis using n(1) by (auto simp: filter_empty_conv)
    qed
    then show ?thesis using child by auto
  qed
  ultimately have ready': "distinct ready'"
      "set ready' = set rest \<union> {i \<in> set (children_of ids d n). inc0 i = int (count_list (children_of ids d n) i)}"
    using release_ready [OF le, of rest] dist by simp_all
  have inc': "inc' i = int (waiting ids d (out @ [n]) i)" if "i \<in> set ids" for i
    using release_inc [of "children_of ids d n" inc rest] r inc [OF that] that by (simp add: cnt)
  have "set ready' = {i \<in> set ids. i \<notin> set (out @ [n]) \<and> waiting ids d (out @ [n]) i = 0}"
  proof (intro set_eqI iffI)
    fix i assume "i \<in> set ready'"
    then consider "i \<in> set rest" | "i \<in> set ids" "?c i \<noteq> 0" "inc i = int (?c i)"
      using ready'(2) child cnt by (auto simp: inc0_def)
    then show "i \<in> {i \<in> set ids. i \<notin> set (out @ [n]) \<and> waiting ids d (out @ [n]) i = 0}"
    proof cases
      case 1
      then have "i \<in> set ids" "i \<notin> set out" "waiting ids d out i = 0" "i \<noteq> n"
        using ok set_nr dist by (auto simp: loop_ok_def)
      then show ?thesis using waiting_snoc [OF n(1), of ids d i] by simp
    next
      case 2
      then have w: "waiting ids d (out @ [n]) i = 0" using inc by simp
      have "i \<noteq> n" using 2(2) by (auto simp: in_deps_def filter_empty_conv)
      moreover have "i \<notin> set out"
      proof
        assume "i \<in> set out"
        then have "set (in_deps ids d i) \<subseteq> set out"
          using ok ordered_mem by (auto simp: loop_ok_def)
        with n(1) 2(2) show False by (auto simp: filter_empty_conv)
      qed
      ultimately show ?thesis using w 2(1) by simp
    qed
  next
    fix i assume i: "i \<in> {i \<in> set ids. i \<notin> set (out @ [n]) \<and> waiting ids d (out @ [n]) i = 0}"
    show "i \<in> set ready'"
    proof (cases "?c i = 0")
      case True
      then have "i \<in> set (r # rs)"
        using i ok waiting_snoc [OF n(1), of ids d i] by (auto simp: loop_ok_def)
      with i set_nr ready'(2) show ?thesis by auto
    next
      case False
      with i inc child cnt ready'(2) show ?thesis by (auto simp: inc0_def)
    qed
  qed
  moreover have "ordered ids d (out @ [n])"
    using ok n0 by (simp add: ordered_snoc loop_ok_def waiting_0)
  ultimately show "loop_ok ids d inc' ready' (out @ [n])"
    using ok n ready'(1) inc' by (simp add: loop_ok_def)
qed

lemma kahn_ok:
  assumes "distinct ids" "loop_ok ids d inc ready out" "length ids \<le> length out + fuel"
  shows "\<exists>inc' out'. kahn fuel ids d inc ready out = Some out' \<and> loop_ok ids d inc' [] out'"
  using assms(2,3)
proof (induction fuel arbitrary: inc ready out)
  case 0
  show ?case
  proof (cases ready)
    case (Cons r rs)
    then have "r \<notin> set out" "r \<in> set ids" "distinct out" "set out \<subseteq> set ids"
      using 0(1) by (auto simp: loop_ok_def)
    then have "card (insert r (set out)) \<le> card (set ids)" by (intro card_mono) auto
    with \<open>r \<notin> set out\<close> \<open>distinct out\<close> have "length out < card (set ids)" by (simp add: distinct_card)
    then show ?thesis using 0(2) card_length [of ids] by simp
  qed (use 0 in auto)
next
  case (Suc fuel)
  show ?case
  proof (cases ready)
    case (Cons r rs)
    obtain n rest where s: "sort_key (index_of ids) (r # rs) = n # rest"
      by (metis length_sort list.exhaust length_0_conv list.distinct(1))
    obtain inc' ready' where r: "release (children_of ids d n) inc rest = (inc', ready')" by fastforce
    have "loop_ok ids d inc' ready' (out @ [n])"
      using loop_ok_step(1) [OF assms(1) _ s r] Suc.prems(1) Cons by simp
    from Suc.IH [OF this] Suc.prems(2) show ?thesis using Cons s r by simp
  qed (use Suc in auto)
qed

lemma loop_ok_start:
  assumes "distinct ids"
  shows "loop_ok ids d (init_incoming ids d) (filter (\<lambda>i. init_incoming ids d i = 0) ids) []"
proof -
  have "i \<in> set ids \<Longrightarrow> length (filter (\<lambda>x. x = i) ids) = 1" for i
    using assms by (induction ids) (auto simp: filter_empty_conv)
  then have "i \<in> set ids \<Longrightarrow> init_incoming ids d i = int (waiting ids d [] i)" for i
    by (simp add: init_incoming_def waiting_def)
  then show ?thesis using assms by (auto simp: loop_ok_def)
qed

lemma loop_end_cycle:
  assumes ok: "loop_ok ids d inc [] out" and len: "length out \<noteq> length ids" and ids: "distinct ids"
  shows "\<not> acyclic (dep_edges ids d)" "filter (\<lambda>i. i \<notin> set out) ids \<noteq> []"
proof -
  let ?R = "{i \<in> set ids. i \<notin> set out}"
  have "set out \<noteq> set ids" using ok len ids by (metis distinct_card loop_ok_def)
  then show "filter (\<lambda>i. i \<notin> set out) ids \<noteq> []"
    using ok by (auto simp: loop_ok_def filter_empty_conv)
  then have ne: "?R \<noteq> {}" by (auto simp: filter_empty_conv)
  have "\<exists>x \<in> ?R. (x, i) \<in> dep_edges ids d" if "i \<in> ?R" for i
  proof -
    have "waiting ids d out i \<noteq> 0" using ok that by (auto simp: loop_ok_def)
    then obtain x where "x \<in> set (in_deps ids d i)" "x \<notin> set out" by (auto simp: waiting_0)
    then show ?thesis using that by (auto simp: dep_edges_def in_deps_def)
  qed
  moreover have "finite (dep_edges ids d)"
    by (rule finite_subset [of _ "set ids \<times> set ids"]) (auto simp: dep_edges_def in_deps_def)
  ultimately show "\<not> acyclic (dep_edges ids d)"
  proof (intro notI)
    assume a: "\<And>i. i \<in> ?R \<Longrightarrow> \<exists>x \<in> ?R. (x, i) \<in> dep_edges ids d"
      and f: "finite (dep_edges ids d)" "acyclic (dep_edges ids d)"
    obtain i where "i \<in> ?R" using ne by blast
    with finite_acyclic_wf [OF f] obtain z where "z \<in> ?R" "\<And>y. (y, z) \<in> dep_edges ids d \<Longrightarrow> y \<notin> ?R"
      by (rule wfE_min) blast
    with a [of z] show False by blast
  qed
qed

lemma index_of_mem: "x \<in> set xs \<Longrightarrow> index_of xs x < length xs \<and> xs ! index_of xs x = x"
  by (induction xs) (auto simp: index_of_def)

lemma index_of_nth: "distinct xs \<Longrightarrow> k < length xs \<Longrightarrow> index_of xs (xs ! k) = k"
proof -
  assume "distinct xs" "k < length xs"
  then have "takeWhile (\<lambda>y. y \<noteq> xs ! k) xs = take k xs"
    by (intro takeWhile_eq_take_P_nth) (auto simp: nth_eq_iff_index_eq)
  with \<open>k < length xs\<close> show ?thesis by (simp add: index_of_def)
qed

text \<open>What has been emitted lies on no cycle, so the report holds every cycle.\<close>

lemma ordered_trancl:
  assumes "distinct out" "ordered ids d out" "(x, i) \<in> (dep_edges ids d)\<^sup>+" "i \<in> set out"
  shows "x \<in> set out \<and> index_of out x < index_of out i"
proof -
  have edge: "x \<in> set out \<and> index_of out x < index_of out i"
    if "(x, i) \<in> dep_edges ids d" "i \<in> set out" for x i
  proof -
    obtain k where k: "k < length out" "out ! k = i" using \<open>i \<in> set out\<close> by (metis in_set_conv_nth)
    have "x \<in> set (take k out)" using that(1) k assms(2) by (auto simp: ordered_def dep_edges_def)
    then obtain j where "j < k" "out ! j = x" using k(1) by (auto simp: in_set_conv_nth)
    then show ?thesis using index_of_nth [OF assms(1)] k by auto
  qed
  from assms(3,4) show ?thesis
    by (induction rule: trancl_induct) (use edge in \<open>blast intro: less_trans\<close>)+
qed

lemma unsorted_holds_cycles:
  assumes "distinct ids" "topological_sort_subtasks ids d = CycleAmong bad" "(i, i) \<in> (dep_edges ids d)\<^sup>+"
  shows "i \<in> set bad"
proof -
  obtain inc out where out: "kahn (2 * length ids) ids d (init_incoming ids d)
      (filter (\<lambda>i. init_incoming ids d i = 0) ids) [] = Some out" "loop_ok ids d inc [] out"
    using kahn_ok [OF assms(1) loop_ok_start [OF assms(1)], of "2 * length ids" d] by auto
  have "i \<in> set ids" using assms(3) by (auto simp: dep_edges_def elim: tranclE)
  moreover have "i \<notin> set out"
    using ordered_trancl [OF _ _ assms(3)] out(2) by (auto simp: loop_ok_def)
  ultimately show ?thesis
    using assms(2) out(1) by (auto simp: topological_sort_subtasks_def Let_def split: if_splits)
qed

lemma ordered_acyclic:
  assumes "distinct ids" "distinct out" "set out = set ids" "ordered ids d out"
  shows "acyclic (dep_edges ids d)"
proof -
  have "(x, i) \<in> dep_edges ids d \<Longrightarrow> index_of out x < index_of out i" for x i
  proof -
    assume e: "(x, i) \<in> dep_edges ids d"
    then have "i \<in> set out" using assms(3) by (simp add: dep_edges_def)
    then obtain k where k: "k < length out" "out ! k = i" by (metis in_set_conv_nth)
    have "x \<in> set (take k out)" using e k assms(4) by (auto simp: ordered_def dep_edges_def)
    then obtain j where "j < k" "out ! j = x" using k(1) by (auto simp: in_set_conv_nth)
    then show ?thesis using index_of_nth [OF assms(2)] k by auto
  qed
  then have "dep_edges ids d \<subseteq> measure (index_of out)" by auto
  then show ?thesis by (meson acyclic_subset wf_acyclic wf_measure)
qed

lemma topological_sort_cases:
  assumes "distinct ids"
  obtains (ok) out where "topological_sort_subtasks ids d = Sorted out" "distinct out" "set out = set ids"
      "ordered ids d out" "acyclic (dep_edges ids d)"
    | (cycle) bad where "topological_sort_subtasks ids d = CycleAmong bad" "bad \<noteq> []" "set bad \<subseteq> set ids"
      "\<not> acyclic (dep_edges ids d)"
proof -
  obtain inc out where out: "kahn (2 * length ids) ids d (init_incoming ids d)
      (filter (\<lambda>i. init_incoming ids d i = 0) ids) [] = Some out" "loop_ok ids d inc [] out"
    using kahn_ok [OF assms loop_ok_start [OF assms], of "2 * length ids" d] by auto
  show ?thesis
  proof (cases "length out = length ids")
    case True
    have "set out = set ids"
      using out(2) True assms card_subset_eq [of "set ids" "set out"]
      by (simp add: loop_ok_def distinct_card)
    then show ?thesis
      using out True assms ordered_acyclic [OF assms, of out d]
      by (intro ok [of out]) (auto simp: topological_sort_subtasks_def Let_def loop_ok_def)
  next
    case False
    then show ?thesis
      using out loop_end_cycle [OF out(2) False assms]
      by (intro cycle [of "filter (\<lambda>i. i \<notin> set out) ids"]) (auto simp: topological_sort_subtasks_def Let_def)
  qed
qed

section \<open>Stability\<close>

lemma hd_sort_key_min:
  assumes "sort_key f xs = n # rest" "m \<in> set xs" "inj_on f (set xs)" "\<And>x. x \<in> set xs \<Longrightarrow> f m \<le> f x"
  shows "n = m"
proof -
  have "set xs = insert n (set rest)" using assms(1) by (metis list.set(2) set_sort)
  moreover have "sorted (map f (n # rest))" by (metis assms(1) sorted_sort_key)
  ultimately have "f n \<le> f m" using assms(2) by auto
  then show ?thesis
    using assms(2-4) \<open>set xs = insert n (set rest)\<close> by (metis inj_on_def insertI1 order_antisym)
qed

lemma loop_ok_done: "loop_ok ids d inc ready ids \<Longrightarrow> ready = []"
proof -
  assume "loop_ok ids d inc ready ids"
  then have "set ready = {i \<in> set ids. i \<notin> set ids \<and> waiting ids d ids i = 0}"
    by (simp only: loop_ok_def)
  also have "\<dots> = {}" by blast
  finally show ?thesis by simp
qed

lemma kahn_stable:
  assumes ids: "distinct ids" and o: "ordered ids d ids"
    and ok: "loop_ok ids d inc ready (take k ids)" "k \<le> length ids" "length ids \<le> k + fuel"
  shows "kahn fuel ids d inc ready (take k ids) = Some ids"
  using ok
proof (induction fuel arbitrary: inc ready k)
  case 0
  then have "k = length ids" by simp
  with 0(1) have "ready = []" using loop_ok_done by simp
  with 0 \<open>k = length ids\<close> show ?case by simp
next
  case (Suc fuel)
  show ?case
  proof (cases "k = length ids")
    case True
    with Suc.prems(1) have "ready = []" using loop_ok_done by simp
    with True show ?thesis by simp
  next
    case False
    then have k: "k < length ids" using Suc.prems(2) by simp
    have notin: "ids ! j \<notin> set (take k ids)" if "k \<le> j" "j < length ids" for j
      using that ids by (auto simp: in_set_conv_nth nth_eq_iff_index_eq)
    have m: "ids ! k \<in> set ready"
      using Suc.prems(1) o k notin [of k] by (auto simp: loop_ok_def waiting_0 ordered_def)
    have sub: "set ready \<subseteq> set ids" using Suc.prems(1) by (auto simp: loop_ok_def)
    have min: "index_of ids (ids ! k) \<le> index_of ids x" if x: "x \<in> set ready" for x
    proof -
      obtain j where j: "j < length ids" "ids ! j = x" using x sub by (metis in_set_conv_nth subsetD)
      have "x \<notin> set (take k ids)" using x Suc.prems(1) by (auto simp: loop_ok_def)
      then have "k \<le> j" using j by (metis in_set_conv_nth length_take min_less_iff_conj not_less nth_take)
      then show ?thesis using index_of_nth [OF ids] j k by auto
    qed
    have inj: "inj_on (index_of ids) (set ready)"
      using sub index_of_nth [OF ids] by (intro inj_onI) (metis in_set_conv_nth subsetD)
    obtain r rs where r: "ready = r # rs" using m by (cases ready) auto
    obtain n rest where s: "sort_key (index_of ids) ready = n # rest"
      using r by (metis length_sort list.exhaust length_0_conv list.distinct(1))
    have n: "n = ids ! k" using hd_sort_key_min [OF s m inj min] .
    obtain inc' ready' where rel: "release (children_of ids d n) inc rest = (inc', ready')" by fastforce
    have t: "take k ids @ [n] = take (Suc k) ids" using k n by (simp add: take_Suc_conv_app_nth)
    have "loop_ok ids d inc' ready' (take (Suc k) ids)"
      using loop_ok_step(1) [OF ids _ _ rel, of r rs "take k ids"] Suc.prems(1) r s t by simp
    from Suc.IH [OF this] k Suc.prems(3) show ?thesis using r s rel t by simp
  qed
qed

lemma sort_stable:
  assumes "distinct ids" "ordered ids d ids"
  shows "topological_sort_subtasks ids d = Sorted ids"
  using kahn_stable [OF assms, of _ _ 0 "2 * length ids"] loop_ok_start [OF assms(1), of d]
  by (simp add: topological_sort_subtasks_def Let_def)

section \<open>Properties\<close>

text \<open>
  Claim C12. On a list of distinct subtasks the topological sort is correct for the declared
  dependencies between two different listed subtasks: it always returns; when no cycle of two
  or more subtasks exists it returns a permutation of the list in which each subtask comes after
  every other listed subtask it depends on; otherwise it reports a non-empty part of the list
  that holds every subtask on such a cycle. A subtask that depends on itself is not such a
  cycle: it does not keep the sort from succeeding.
\<close>

theorem topological_sort_correct:
  assumes "distinct ids"
  shows "if acyclic (declared_edges ids d - Id)
    then \<exists>out. topological_sort_subtasks ids d = Sorted out \<and> distinct out \<and> set out = set ids
      \<and> (\<forall>k < length out. \<forall>x \<in> set (deps_of d (out ! k)).
            x \<notin> set ids \<or> x = out ! k \<or> x \<in> set (take k out))
    else \<exists>bad. topological_sort_subtasks ids d = CycleAmong bad \<and> bad \<noteq> [] \<and> set bad \<subseteq> set ids
      \<and> {i. (i, i) \<in> (declared_edges ids d - Id)\<^sup>+} \<subseteq> set bad"
  using assms
proof (cases rule: topological_sort_cases [of ids d])
  case (ok out)
  then show ?thesis by (auto simp: declared_dep_edges ordered_def in_deps_def subset_iff)
next
  case (cycle bad)
  then show ?thesis
    using unsorted_holds_cycles [OF assms cycle(1)] by (auto simp: declared_dep_edges)
qed

theorem topological_sort_correct_witness:
  "if acyclic (declared_edges [''A'', ''B''] [(''A'', [''B''])] - Id)
    then \<exists>out. topological_sort_subtasks [''A'', ''B''] [(''A'', [''B''])] = Sorted out \<and> distinct out
      \<and> set out = {''A'', ''B''}
    else \<exists>bad. topological_sort_subtasks [''A'', ''B''] [(''A'', [''B''])] = CycleAmong bad \<and> bad \<noteq> []"
  using topological_sort_correct [of "[''A'', ''B'']" "[(''A'', [''B''])]"] by (auto split: if_splits)

text \<open>A cycle of one subtask passes the sort, although its docstring says that cycles are reported.\<close>

lemma self_cycle_sorted:
  "(''ST-1'', ''ST-1'') \<in> declared_edges [''ST-1''] [(''ST-1'', [''ST-1''])]
   \<and> topological_sort_subtasks [''ST-1''] [(''ST-1'', [''ST-1''])] = Sorted [''ST-1'']"
  by (rule conjI, simp add: declared_edges_def deps_of_def, code_simp)

text \<open>
  The sort is stable: a list of distinct subtasks that already respects the
  declared dependencies is returned unchanged.
\<close>

theorem topological_sort_noop:
  assumes "distinct ids" "ordered ids d ids"
  shows "topological_sort_subtasks ids d = Sorted ids"
  using assms by (rule sort_stable)

theorem topological_sort_noop_witness:
  "topological_sort_subtasks [''A'', ''B'', ''C''] [(''C'', [''A'', ''A''])] = Sorted [''A'', ''B'', ''C'']"
proof -
  have "ordered [''A'', ''B'', ''C''] [(''C'', [''A'', ''A''])] [''A'', ''B'', ''C'']"
    by (auto simp: ordered_def in_deps_def deps_of_def less_Suc_eq numeral_3_eq_3)
  with topological_sort_noop [of "[''A'', ''B'', ''C'']"] show ?thesis by simp
qed

text \<open>A repeated identifier breaks the count: the sort then names a cycle among no subtasks.\<close>

lemma repeated_id_false_cycle:
  "topological_sort_subtasks [''ST-1'', ''ST-2'', ''ST-2''] [(''ST-2'', [''ST-1''])] = CycleAmong []"
  by code_simp

section \<open>Extracted identifiers\<close>

lemma dedupe_fold:
  "distinct acc \<Longrightarrow> distinct (foldl (\<lambda>u x. if x \<in> set u then u else u @ [x]) acc xs)
     \<and> set (foldl (\<lambda>u x. if x \<in> set u then u else u @ [x]) acc xs) = set acc \<union> set xs"
proof (induction xs arbitrary: acc)
  case (Cons x xs)
  show ?case
  proof (cases "x \<in> set acc")
    case True
    with Cons show ?thesis by auto
  next
    case False
    then have "distinct (acc @ [x])" using Cons.prems by simp
    from Cons.IH [OF this] False show ?thesis by auto
  qed
qed simp

lemma dedupe_ok: "distinct (dedupe_subtask_ids xs)" "set (dedupe_subtask_ids xs) = set xs"
  using dedupe_fold [of "[]" xs] by (simp_all add: dedupe_subtask_ids_def)

lemma digits_takeWhile: "list_all is_digit (takeWhile is_digit xs)"
  by (induction xs) auto

lemma match_id_ok: "match_id s = Some (i, rest) \<Longrightarrow> is_subtask_id i"
  by (auto simp: match_id_def is_subtask_id_def all_digits_def Let_def digits_takeWhile split: if_splits)

lemma bounded_id_ok: "bounded_id s = Some i \<Longrightarrow> is_subtask_id i"
  by (auto simp: bounded_id_def intro: match_id_ok split: option.splits if_splits)

lemma heading_match_ok: "heading_match line = Some i \<Longrightarrow> is_subtask_id i"
  by (auto simp: heading_match_def Let_def intro: bounded_id_ok split: if_splits)

lemma table_match_ok: "table_match line = Some i \<Longrightarrow> is_subtask_id i"
  by (auto simp: table_match_def intro: match_id_ok split: option.splits if_splits list.splits)

lemma bullet_match_ok: "bullet_match line = Some i \<Longrightarrow> is_subtask_id i"
  by (auto simp: bullet_match_def intro: bounded_id_ok split: if_splits list.splits)

lemma plan_line_id_ok: "plan_line_id line = Some i \<Longrightarrow> is_subtask_id i"
  by (auto simp: plan_line_id_def split: option.splits
      intro: heading_match_ok table_match_ok bullet_match_ok)

lemma blueprint_ids_ok: "i \<in> set (blueprint_ids sts) \<Longrightarrow> is_subtask_id i"
  by (induction sts rule: blueprint_ids.induct) (auto split: json.splits option.splits if_splits)

text \<open>
  Whatever the blueprint file and the plan contain, the extracted subtask
  identifiers are pairwise distinct and each has the form \<^verbatim>\<open>ST-<digits>\<close>; a blueprint that
  lists any takes precedence over the plan text.
\<close>

theorem extracted_ids_well_formed:
  "distinct (extract_subtask_ids_from_plan_artifacts content f)
   \<and> list_all is_subtask_id (extract_subtask_ids_from_plan_artifacts content f)
   \<and> (extract_subtask_ids_from_plan_artifacts content f
       = (if extract_subtask_ids_from_blueprint f = [] then extract_subtask_ids_from_plan_markdown content
          else extract_subtask_ids_from_blueprint f))"
proof -
  have "distinct (extract_subtask_ids_from_blueprint f)" "\<forall>i \<in> set (extract_subtask_ids_from_blueprint f). is_subtask_id i"
    by (auto simp: extract_subtask_ids_from_blueprint_def dedupe_ok intro: blueprint_ids_ok
        split: doc_file.splits json.splits option.splits)
  moreover have "distinct (extract_subtask_ids_from_plan_markdown content)"
      "\<forall>i \<in> set (extract_subtask_ids_from_plan_markdown content). is_subtask_id i"
    by (auto simp: extract_subtask_ids_from_plan_markdown_def dedupe_ok set_map_filter intro: plan_line_id_ok)
  ultimately show ?thesis
    by (simp add: extract_subtask_ids_from_plan_artifacts_def Let_def list_all_iff)
qed

end
