(* ===== verification/Orch_Deps.thy ===== *)
theory Orch_Deps
  imports Orch_Validate Orch_Topo
begin

text \<open>
  The dependency-aware advance: the walk finds a ready subtask exactly when there is one, an
  acyclic plan never blocks, and a sorted plan is walked from left to right.
\<close>

section \<open>The walk\<close>

definition is_ready :: "deps \<Rightarrow> step_state \<Rightarrow> nat \<Rightarrow> bool" where
  "is_ready dm st i \<longleftrightarrow> i < length (subtask_sequence st)
     \<and> subtask_sequence st ! i \<notin> set (done_with_current st)
     \<and> set (deps_of dm (subtask_sequence st ! i)) \<subseteq> set (done_with_current st)"

lemma first_ready_Some:
  "first_ready seq dm C is sk = (Some i, sk') \<Longrightarrow>
     i \<in> set is \<and> i < length seq \<and> seq ! i \<notin> set C \<and> set (deps_of dm (seq ! i)) \<subseteq> set C"
  by (induction seq dm C "is" sk rule: first_ready.induct)
    (auto simp: Let_def list_all_iff split: if_splits)

lemma first_ready_None:
  "first_ready seq dm C is sk = (None, sk') \<Longrightarrow> i \<in> set is \<Longrightarrow> i < length seq \<Longrightarrow>
     seq ! i \<in> set C \<or> \<not> set (deps_of dm (seq ! i)) \<subseteq> set C"
  by (induction seq dm C "is" sk rule: first_ready.induct)
    (auto simp: Let_def list_all_iff split: if_splits)

lemma first_ready_skipped:
  "first_ready seq dm C is sk = (r, sk') \<Longrightarrow> x \<in> set sk' \<Longrightarrow>
     x \<in> set sk \<or> x \<in> set seq \<and> x \<notin> set C \<and> \<not> set (deps_of dm x) \<subseteq> set C"
  by (induction seq dm C "is" sk rule: first_ready.induct)
    (auto simp: Let_def list_all_iff split: if_splits)

lemma walk_order_covers: "i < n \<Longrightarrow> i \<in> set (walk_order start n)"
  by (auto simp: walk_order_def)

lemma find_next_ready_Some:
  "find_next_ready_subtask_index dm st k = (Some i, sk) \<Longrightarrow> is_ready dm st i"
  by (auto simp: find_next_ready_subtask_index_def is_ready_def split: if_splits dest: first_ready_Some)

lemma find_next_ready_None:
  assumes "find_next_ready_subtask_index dm st k = (None, sk)"
  shows "\<not> is_ready dm st i"
proof
  assume r: "is_ready dm st i"
  then have "subtask_sequence st \<noteq> []" by (auto simp: is_ready_def)
  with assms r first_ready_None [of "subtask_sequence st" dm "done_with_current st" _ "[]" sk i]
    walk_order_covers [of i "length (subtask_sequence st)" k]
  show False by (auto simp: find_next_ready_subtask_index_def is_ready_def)
qed

lemma find_next_ready_skipped:
  "find_next_ready_subtask_index dm st k = (r, sk) \<Longrightarrow> x \<in> set sk \<Longrightarrow>
     x \<in> set (subtask_sequence st) \<and> x \<notin> set (done_with_current st)
     \<and> \<not> set (deps_of dm x) \<subseteq> set (done_with_current st)"
  using first_ready_skipped [of "subtask_sequence st" dm "done_with_current st" _ "[]" r sk x]
  by (auto simp: find_next_ready_subtask_index_def split: if_splits)

section \<open>Marking does not change what is done\<close>

lemma deferred_not_done: "\<not> done_phase DEFERRED_FOR_DEPS_PHASE"
  by code_simp

lemma fold_mark_get:
  "dict_get (fold (\<lambda>sid. dict_set sid v) sids T) x = (if x \<in> set sids then Some v else dict_get T x)"
  by (induction sids arbitrary: T) (auto simp: alist.get_put)

lemma mark_deferred_frame [simp]:
  "subtask_sequence (mark_deferred sids st) = subtask_sequence st"
  "current_subtask_id (mark_deferred sids st) = current_subtask_id st"
  "subtask_index (mark_deferred sids st) = subtask_index st"
  "subtask_results (mark_deferred sids st) = subtask_results st"
  "tdd_mode (mark_deferred sids st) = tdd_mode st"
  "pending_steps (mark_deferred sids st) = pending_steps st"
  "completed_steps (mark_deferred sids st) = completed_steps st"
  "workflow_status (mark_deferred sids st) = workflow_status st"
  "completed_at (mark_deferred sids st) = completed_at st"
  "scope_feedback_subtasks (mark_deferred sids st) = scope_feedback_subtasks st"
  "progress_feedback_subtasks (mark_deferred sids st) = progress_feedback_subtasks st"
  by (simp_all add: mark_deferred_def)


lemma set_fold_dict_set:
  assumes "\<not> P v" "fst ` {p \<in> set T. P (snd p)} \<inter> set sids = {}"
  shows "fst ` {p \<in> set (fold (\<lambda>sid. dict_set sid v) sids T). P (snd p)} = fst ` {p \<in> set T. P (snd p)}"
  using assms(2)
proof (induction sids arbitrary: T)
  case (Cons s sids)
  have "s \<notin> fst ` {p \<in> set T. P (snd p)}
      \<Longrightarrow> fst ` {p \<in> set (dict_set s v T). P (snd p)} = fst ` {p \<in> set T. P (snd p)}"
  proof (induction T)
    case (Cons q T)
    then show ?case using assms(1) by (cases q) (auto simp: dict_set_def image_iff)
  qed (use assms(1) in \<open>auto simp: dict_set_def\<close>)
  with Cons show ?case by auto
qed simp

text \<open>Subtasks passed over were not done, so marking them leaves the done set as it was.\<close>

lemma done_set:
  "set (done_with_current st) =
     fst ` {p \<in> set (subtask_results st). done_result (snd p)}
     \<union> fst ` {p \<in> set (subtask_phases st). done_phase (snd p)}
     \<union> {x \<in> set (take (subtask_index st) (subtask_sequence st)). \<not> deferred_for_deps st x}
     \<union> set_option (nonempty (current_subtask_id st))"
  by (auto simp: done_with_current_def completed_subtask_ids_for_deps_def split: option.splits)

lemma done_mark_deferred:
  assumes "set sids \<inter> set (done_with_current st) = {}"
  shows "set (done_with_current (mark_deferred sids st)) = set (done_with_current st)"
proof -
  have "fst ` {p \<in> set (subtask_phases (mark_deferred sids st)). done_phase (snd p)}
      = fst ` {p \<in> set (subtask_phases st). done_phase (snd p)}"
  proof -
    have "fst ` {p \<in> set (subtask_phases st). done_phase (snd p)} \<inter> set sids = {}"
      using assms unfolding done_set by blast
    from set_fold_dict_set [of done_phase, OF deferred_not_done this] show ?thesis
      by (simp add: mark_deferred_def)
  qed
  moreover have "deferred_for_deps (mark_deferred sids st) x \<longleftrightarrow> x \<in> set sids \<or> deferred_for_deps st x" for x
    by (simp add: deferred_for_deps_def mark_deferred_def fold_mark_get)
  ultimately show ?thesis using assms unfolding done_set by auto
qed

lemma skipped_not_done:
  "find_next_ready_subtask_index dm st k = (r, sk) \<Longrightarrow> set sk \<inter> set (done_with_current st) = {}"
  using find_next_ready_skipped by blast

lemma remaining_mark_deferred:
  "find_next_ready_subtask_index dm st k = (r, sk) \<Longrightarrow>
     remaining_subtasks (mark_deferred sk st) = remaining_subtasks st"
  by (simp add: remaining_subtasks_def done_mark_deferred [OF skipped_not_done])

section \<open>The advance\<close>

lemma enter_subtask_frame [simp]:
  "subtask_sequence (enter_subtask i st) = subtask_sequence st"
  "subtask_index (enter_subtask i st) = i"
  "current_subtask_id (enter_subtask i st) = Some (subtask_sequence st ! i)"
  "pending_steps (enter_subtask i st) = steps_from_research (tdd_mode st)"
  "completed_steps (enter_subtask i st) = []"
  "current_step_id (enter_subtask i st) = ''2.2''"
  "workflow_status (enter_subtask i st) = workflow_status st"
  "completed_at (enter_subtask i st) = completed_at st"
  "scope_feedback_subtasks (enter_subtask i st) = scope_feedback_subtasks st"
  "progress_feedback_subtasks (enter_subtask i st) = progress_feedback_subtasks st"
  "tdd_mode (enter_subtask i st) = tdd_mode st"
  by (simp_all add: enter_subtask_def Let_def)

lemma advance_search_cases:
  obtains (ready) i sk where "find_next_ready_subtask_index dm st (subtask_index st) = (Some i, sk)"
      "is_ready dm st i"
      "advance_search dm st = (Advanced (current_subtask_id st) (subtask_sequence st ! i) sk,
         enter_subtask i (mark_deferred sk st))"
  | (complete) sk where "remaining_subtasks st = []"
      "find_next_ready_subtask_index dm st (subtask_index st) = (None, sk)"
      "advance_search dm st = (Completed sk, mark_deferred sk st)"
  | (blocked) sk where "remaining_subtasks st \<noteq> []" "\<And>i. \<not> is_ready dm st i"
      "advance_search dm st = (Blocked (remaining_subtasks st) sk,
         (mark_deferred sk st)\<lparr>current_step_id := ''BLOCKED_ON_DEPS'', current_step_phase := ''BLOCKED_ON_DEPS''\<rparr>)"
proof -
  obtain r sk where f: "find_next_ready_subtask_index dm st (subtask_index st) = (r, sk)" by fastforce
  show thesis
  proof (cases r)
    case (Some i)
    with f find_next_ready_Some show ?thesis
      by (intro ready [of i sk]) (auto simp: advance_search_def)
  next
    case None
    note n = f [unfolded None]
    show ?thesis
    proof (cases "remaining_subtasks st")
      case Nil
      then show ?thesis
        by (intro complete [of sk]) (simp_all add: advance_search_def n remaining_mark_deferred [OF n])
    next
      case (Cons x xs)
      then show ?thesis
        by (intro blocked [of sk])
          (simp_all add: advance_search_def n remaining_mark_deferred [OF n] find_next_ready_None [OF n])
    qed
  qed
qed

lemma remaining_Nil: "remaining_subtasks st = [] \<longleftrightarrow> set (subtask_sequence st) \<subseteq> set (done_with_current st)"
  by (auto simp: remaining_subtasks_def filter_empty_conv)

lemma remaining_mem:
  "x \<in> set (remaining_subtasks st) \<longleftrightarrow> x \<in> set (subtask_sequence st) \<and> x \<notin> set (done_with_current st)"
  by (auto simp: remaining_subtasks_def)

text \<open>What a subtask waits for, as a relation on the sequence.\<close>

definition waits_for :: "step_state \<Rightarrow> deps \<Rightarrow> (string \<times> string) set" where
  "waits_for st dm = {(y, x). x \<in> set (subtask_sequence st) \<and> y \<in> set (deps_of dm x)}"

lemma finite_waits_for: "finite (waits_for st dm)"
proof -
  have "waits_for st dm = (\<Union>x \<in> set (subtask_sequence st). (\<lambda>y. (y, x)) ` set (deps_of dm x))"
    by (auto simp: waits_for_def)
  then show ?thesis by simp
qed

lemma acyclic_has_ready:
  assumes "acyclic (waits_for st dm)" "remaining_subtasks st \<noteq> []"
    "\<And>x. x \<in> set (subtask_sequence st) \<Longrightarrow> set (deps_of dm x) \<subseteq> set (subtask_sequence st) \<union> set (done_with_current st)"
  shows "\<exists>i. is_ready dm st i"
proof -
  have wf: "wf (waits_for st dm)" using assms(1) finite_waits_for by (rule finite_acyclic_wf [rotated])
  obtain x where "x \<in> set (remaining_subtasks st)" using assms(2) by (meson list.set_sel(1))
  from wfE_min [OF wf this] obtain z where z: "z \<in> set (remaining_subtasks st)"
    and m: "\<And>y. (y, z) \<in> waits_for st dm \<Longrightarrow> y \<notin> set (remaining_subtasks st)" by blast
  have zs: "z \<in> set (subtask_sequence st)" "z \<notin> set (done_with_current st)" using z by (auto simp: remaining_mem)
  then have "set (deps_of dm z) \<subseteq> set (done_with_current st)"
    using m assms(3) by (fastforce simp: waits_for_def remaining_mem)
  moreover obtain i where "i < length (subtask_sequence st)" "subtask_sequence st ! i = z"
    using zs(1) by (metis in_set_conv_nth)
  ultimately show ?thesis using zs by (auto simp: is_ready_def)
qed

section \<open>Properties\<close>

text \<open>
  Claim C10. The advance past a finished subtask is exact. It enters a subtask that is not
  done and whose dependencies are all done whenever the sequence has one; it reports
  completion exactly when every subtask of the sequence is done; and it reports a deadlock,
  naming precisely the subtasks that are left, only when none of them is ready.
\<close>

theorem advance_is_exact:
  "case advance_search dm st of
     (Advanced prev nxt skipped, st') \<Rightarrow>
       prev = current_subtask_id st \<and> current_subtask_id st' = Some nxt
       \<and> subtask_sequence st' = subtask_sequence st
       \<and> is_ready dm st (subtask_index st') \<and> nxt = subtask_sequence st ! subtask_index st'
   | (Completed skipped, st') \<Rightarrow> set (subtask_sequence st) \<subseteq> set (done_with_current st)
   | (Blocked rem skipped, st') \<Rightarrow>
       rem \<noteq> [] \<and> rem = filter (\<lambda>x. x \<notin> set (done_with_current st)) (subtask_sequence st)
       \<and> \<not> (\<exists>i. is_ready dm st i)"
  by (cases rule: advance_search_cases [of dm st]) (auto simp: remaining_subtasks_def filter_empty_conv)

text \<open>
  Claim C11. An acyclic plan never deadlocks: when no chain of dependencies returns to its
  start and every dependency is a subtask of the sequence or is done already, the advance
  either enters one of the remaining subtasks or finds that none is left.
\<close>

theorem acyclic_plan_never_blocks:
  assumes "acyclic (waits_for st dm)"
    and "\<forall>x \<in> set (subtask_sequence st).
      set (deps_of dm x) \<subseteq> set (subtask_sequence st) \<union> set (done_with_current st)"
  shows "case advance_search dm st of
     (Advanced prev nxt skipped, st') \<Rightarrow> nxt \<in> set (remaining_subtasks st)
   | (Completed skipped, st') \<Rightarrow> remaining_subtasks st = []
   | (Blocked rem skipped, st') \<Rightarrow> False"
proof (cases rule: advance_search_cases [of dm st])
  case (blocked sk)
  with acyclic_has_ready [OF assms(1) blocked(1)] assms(2) show ?thesis by blast
qed (auto simp: remaining_mem is_ready_def)

definition plan_state :: "string list \<Rightarrow> nat \<Rightarrow> step_state" where
  "plan_state ids i = (StepState [])\<lparr>subtask_sequence := ids, subtask_index := i,
     current_subtask_id := Some (ids ! i)\<rparr>"

theorem acyclic_plan_never_blocks_witness:
  "\<exists>st'. advance_search [(''B'', [''C'']), (''C'', [''A''])] (plan_state [''A'', ''B'', ''C''] 0)
     = (Advanced (Some ''A'') ''C'' [''B''], st')"
proof -
  let ?st = "plan_state [''A'', ''B'', ''C''] 0" and ?dm = "[(''B'', [''C'']), (''C'', [''A''])]"
  have "waits_for ?st ?dm \<subseteq> measure (\<lambda>x. if x = ''A'' then 0 else if x = ''C'' then 1 else 2)"
    by (auto simp: waits_for_def plan_state_def deps_of_def split: if_splits)
  then have "acyclic (waits_for ?st ?dm)" by (meson acyclic_subset wf_acyclic wf_measure)
  moreover have "\<forall>x \<in> set (subtask_sequence ?st).
      set (deps_of ?dm x) \<subseteq> set (subtask_sequence ?st) \<union> set (done_with_current ?st)"
    by (auto simp: plan_state_def deps_of_def)
  ultimately have "case advance_search ?dm ?st of (Blocked rem skipped, st') \<Rightarrow> False | _ \<Rightarrow> True"
    using acyclic_plan_never_blocks [of ?st ?dm] by (auto split: advance.splits prod.splits)
  moreover have "fst (advance_search ?dm ?st) = Advanced (Some ''A'') ''C'' [''B'']" by code_simp
  ultimately show ?thesis by (metis prod.collapse)
qed

text \<open>
  A plan in dependency order is walked from left to right: with the cursor on a
  subtask, nothing deferred and the next subtask not done yet, the advance enters the next
  subtask and passes over nothing.
\<close>

theorem sorted_plan_is_walked_in_order:
  assumes "\<forall>k < length (subtask_sequence st).
      set (deps_of dm (subtask_sequence st ! k)) \<subseteq> set (take k (subtask_sequence st))"
    and "Suc (subtask_index st) < length (subtask_sequence st)"
    and "current_subtask_id st = Some (subtask_sequence st ! subtask_index st)"
    and "subtask_sequence st ! subtask_index st \<noteq> []"
    and "\<forall>x \<in> set (subtask_sequence st). \<not> deferred_for_deps st x"
    and "subtask_sequence st ! Suc (subtask_index st) \<notin> set (done_with_current st)"
  shows "advance_search dm st =
    (Advanced (current_subtask_id st) (subtask_sequence st ! Suc (subtask_index st)) [],
     enter_subtask (Suc (subtask_index st)) st)"
proof -
  let ?seq = "subtask_sequence st" and ?i = "subtask_index st"
  have "set (take (Suc ?i) ?seq) = insert (?seq ! ?i) (set (take ?i ?seq))"
    using assms(2) by (simp add: take_Suc_conv_app_nth)
  also have "\<dots> \<subseteq> set (done_with_current st)"
    using assms(3-5) by (auto simp: done_set nonempty_def dest: in_set_takeD)
  finally have d: "set (deps_of dm (?seq ! Suc ?i)) \<subseteq> set (done_with_current st)"
    using assms(1,2) by blast
  have "walk_order ?i (length ?seq) = Suc ?i # [Suc (Suc ?i)..<length ?seq] @ [0..<Suc ?i]"
    using assms(2) by (simp add: walk_order_def upt_conv_Cons)
  then have "find_next_ready_subtask_index dm st ?i = (Some (Suc ?i), [])"
    using assms(2,6) d by (auto simp: find_next_ready_subtask_index_def Let_def list_all_iff)
  then show ?thesis by (simp add: advance_search_def mark_deferred_def)
qed

theorem sorted_plan_is_walked_in_order_witness:
  "advance_search [(''B'', [''A'']), (''C'', [''A'', ''B''])] (plan_state [''A'', ''B'', ''C''] 1)
     = (Advanced (Some ''B'') ''C'' [], enter_subtask 2 (plan_state [''A'', ''B'', ''C''] 1))"
proof -
  let ?st = "plan_state [''A'', ''B'', ''C''] 1" and ?dm = "[(''B'', [''A'']), (''C'', [''A'', ''B''])]"
  have "\<forall>k < length (subtask_sequence ?st).
      set (deps_of ?dm (subtask_sequence ?st ! k)) \<subseteq> set (take k (subtask_sequence ?st))"
    by (auto simp: plan_state_def deps_of_def less_Suc_eq numeral_3_eq_3)
  with sorted_plan_is_walked_in_order [of ?st ?dm] show ?thesis
    by (simp add: plan_state_def StepState_def done_with_current_def completed_subtask_ids_for_deps_def
        nonempty_def deferred_for_deps_def numeral_2_eq_2)
qed

end
