(* ===== verification/Orch_Inv.thy ===== *)
theory Orch_Inv
  imports Orch_Waves Orch_Restore Orch_Deps
begin

text \<open>
  The invariant of the serial workflow: the subtask cursor agrees with the sequence, the step
  cursor is a known pair of step and phase, pending steps follow the step order, a completed
  workflow carries its completion time, and the dictionaries have distinct keys. Every command
  keeps it, as do edits of the blueprint, the plan and the feedback files from outside, with
  one exception that is stated exactly: a change of wave keeps it if and only if the wave it
  enters begins with a subtask of the sequence.
\<close>

section \<open>The invariant\<close>

definition subtask_cursor_ok :: "step_state \<Rightarrow> bool" where
  "subtask_cursor_ok st =
     (if subtask_sequence st = [] then current_subtask_id st = None \<and> subtask_index st = 0
      else subtask_index st < length (subtask_sequence st)
        \<and> current_subtask_id st = Some (subtask_sequence st ! subtask_index st))"

definition CURSORS :: "(string \<times> string) list" where
  "CURSORS = STEP_PHASES @ [(''COMPLETE'', ''COMPLETE''), (''BLOCKED_ON_DEPS'', ''BLOCKED_ON_DEPS''),
     (''CONTRACT_READY'', ''CONTRACT_READY''), (''CONTRACT_READY'', ''UNKNOWN'')]"

definition step_cursor_ok :: "step_state \<Rightarrow> bool" where
  "step_cursor_ok st = ((current_step_id st, current_step_phase st) \<in> set CURSORS)"

definition pending_ok :: "string list \<Rightarrow> bool" where
  "pending_ok ps = (subseq ps TDD_STEP_ORDER \<or> ps = [''CONTRACT_READY''])"

definition completion_ok :: "step_state \<Rightarrow> bool" where
  "completion_ok st = (workflow_status st = ''WORKFLOW_COMPLETE'' \<longrightarrow> completed_at st \<noteq> None)"

definition tables_ok :: "step_state \<Rightarrow> bool" where
  "tables_ok st = (dict_wf (subtask_phases st) \<and> dict_wf (subtask_results st)
     \<and> distinct (scope_feedback_subtasks st) \<and> distinct (progress_feedback_subtasks st))"

definition state_ok :: "step_state \<Rightarrow> bool" where
  "state_ok st = (subtask_cursor_ok st \<and> step_cursor_ok st \<and> pending_ok (pending_steps st)
     \<and> completion_ok st \<and> tables_ok st)"

definition branch_ok :: "branch_dir \<Rightarrow> bool" where
  "branch_ok d = (case step_file d of Parsed st \<Rightarrow> state_ok st | _ \<Rightarrow> True)"

lemmas ok_defs = state_ok_def subtask_cursor_ok_def step_cursor_ok_def completion_ok_def tables_ok_def

section \<open>Pending steps\<close>

lemma pending_Nil [simp]: "pending_ok []"
  by (simp add: pending_ok_def)

lemma subseq_of_one: "subseq qs [x] \<Longrightarrow> qs = [] \<or> qs = [x]"
  by (cases qs) (auto split: if_splits)

lemma pending_sub: "subseq qs ps \<Longrightarrow> pending_ok ps \<Longrightarrow> pending_ok qs"
  using subseq_of_one [of qs "''CONTRACT_READY''"]
  by (auto simp: pending_ok_def intro: subseq_order.order_trans)

lemma pending_step_order: "pending_ok STEP_ORDER" "pending_ok TDD_STEP_ORDER"
  unfolding pending_ok_def by (code_simp, simp)

lemma pending_order [simp]: "pending_ok (get_step_order tdd)"
  by (simp add: get_step_order_def pending_step_order)

lemma subseq_remove1: "subseq (remove1 x xs) xs"
  by (induction xs) auto

lemma subseq_drop: "subseq (drop n xs) xs"
  by (simp add: suffix_drop suffix_imp_subseq)

lemma pending_remove1 [simp]: "pending_ok ps \<Longrightarrow> pending_ok (remove1 x ps)"
  by (rule pending_sub [OF subseq_remove1])

lemma pending_drop [simp]: "pending_ok ps \<Longrightarrow> pending_ok (drop n ps)"
  by (rule pending_sub [OF subseq_drop])

lemma pending_filter [simp]: "pending_ok ps \<Longrightarrow> pending_ok (filter P ps)"
  by (rule pending_sub [OF subseq_filter_left])

lemma pending_research [simp]: "pending_ok (steps_from_research tdd)"
  by (simp add: steps_from_research_def)

lemma steps_research_nonempty [simp]: "steps_from_research tdd \<noteq> []"
  by (simp add: steps_from_research_def get_step_order_def STEP_ORDER_def TDD_STEP_ORDER_def index_of_def)

lemma pending_literals [simp]: "pending_ok [''2.3'', ''2.4'']" "pending_ok [''CONTRACT_READY'']"
  unfolding pending_ok_def by (code_simp, simp)

lemma pending_rebuild [simp]: "pending_ok (rebuild_pending tdd ds ps)"
  by (auto simp: rebuild_pending_def Let_def split: list.splits)

lemma pending_hd: "pending_ok (p # ps) \<Longrightarrow> p \<in> set TDD_STEP_ORDER \<or> p = ''CONTRACT_READY''"
  using subseq_order.dual_order.trans by (auto simp: pending_ok_def dest: list_emb_set)

lemma cursor_hd [simp]: "pending_ok (p # ps) \<Longrightarrow> (p, step_phase ''UNKNOWN'' p) \<in> set CURSORS"
  using pending_hd [of p ps]
  by (auto simp: CURSORS_def TDD_STEP_ORDER_def STEP_PHASES_def step_phase_def)

lemma cursor_literals [simp]:
  "(''2.2'', ''RESEARCH'') \<in> set CURSORS" "(''2.3'', ''ACTOR'') \<in> set CURSORS"
  "(''2.4'', ''MONITOR'') \<in> set CURSORS" "(''1.0'', ''DECOMPOSE'') \<in> set CURSORS"
  "(''COMPLETE'', ''COMPLETE'') \<in> set CURSORS" "(''BLOCKED_ON_DEPS'', ''BLOCKED_ON_DEPS'') \<in> set CURSORS"
  "(''CONTRACT_READY'', ''CONTRACT_READY'') \<in> set CURSORS" "(''1.6'', ''INIT_STATE'') \<in> set CURSORS"
  by (simp_all add: CURSORS_def STEP_PHASES_def)

section \<open>State updates\<close>

lemma nonempty_None [simp]: "nonempty None = None"
  by (simp add: nonempty_def)

lemma StepState_ok [simp]: "state_ok (StepState now)"
  by (simp add: ok_defs StepState_def pending_step_order)

lemma load_ok: "branch_ok d \<Longrightarrow> state_ok (load e d)"
  by (auto simp: branch_ok_def load_def split: doc_file.splits)

lemma save_ok [simp]: "branch_ok (save st d) = state_ok st"
  by (simp add: branch_ok_def save_def)

lemma load_after_save [simp]: "load e (save st d) = st"
  by (simp add: load_def save_def)

lemma save_frame [simp]:
  "blueprint_file (save st d) = blueprint_file d" "plan_file (save st d) = plan_file d"
  "other_files (save st d) = other_files d" "quarantines (save st d) = quarantines d"
  "retired (save st d) = retired d" "step_file (save st d) = Parsed st"
  by (simp_all add: save_def)

lemma wf_dict_set [simp]: "dict_wf T \<Longrightarrow> dict_wf (dict_set k v T)"
  by (rule alist.wf_put)

lemma wf_dict_pop [simp]: "dict_wf T \<Longrightarrow> dict_wf (dict_pop k T)"
  by (rule alist.wf_pop)

lemma wf_fold_set: "dict_wf T \<Longrightarrow> dict_wf (fold (\<lambda>sid. dict_set sid v) sids T)"
  by (induction sids arbitrary: T) auto

text \<open>The first subtask of a new sequence becomes current.\<close>

lemma new_sequence_ok:
  "state_ok st \<Longrightarrow> ids \<noteq> [] \<Longrightarrow>
     state_ok (st\<lparr>subtask_sequence := ids, current_subtask_id := Some (hd ids), subtask_index := 0\<rparr>)"
  by (simp add: ok_defs hd_conv_nth)

lemma mark_deferred_ok: "state_ok st \<Longrightarrow> state_ok (mark_deferred sids st)"
  by (simp add: ok_defs mark_deferred_def wf_fold_set)

lemma enter_subtask_ok: "state_ok st \<Longrightarrow> i < length (subtask_sequence st) \<Longrightarrow> state_ok (enter_subtask i st)"
  by (auto simp: ok_defs enter_subtask_def Let_def)

lemma complete_workflow_ok: "state_ok st \<Longrightarrow> state_ok (complete_workflow e st)"
  by (simp add: ok_defs complete_workflow_def)

lemma clear_pending_ok: "state_ok st \<Longrightarrow> state_ok (st\<lparr>pending_steps := []\<rparr>)"
  by (simp add: ok_defs)

lemma advance_search_ok: "state_ok st \<Longrightarrow> state_ok (snd (advance_search dm st))"
proof (cases rule: advance_search_cases [of dm st])
  case (ready i sk)
  then show "state_ok st \<Longrightarrow> ?thesis" by (simp add: enter_subtask_ok mark_deferred_ok is_ready_def)
next
  case (complete sk)
  then show "state_ok st \<Longrightarrow> ?thesis" by (simp add: mark_deferred_ok)
next
  case (blocked sk)
  then show "state_ok st \<Longrightarrow> ?thesis" using mark_deferred_ok [of st sk] by (simp add: ok_defs)
qed

lemma advance_after_ok: "state_ok st \<Longrightarrow> state_ok (snd (advance_after_terminal_current_subtask e dm st))"
  using advance_search_ok [of st dm]
  by (auto simp: advance_after_terminal_current_subtask_def complete_workflow_ok clear_pending_ok
      split: prod.splits advance.splits)

lemma skip_loops_ok: "state_ok st \<Longrightarrow> state_ok (skip_tdd_phases (skip_choose_mode st))"
  by (simp add: ok_defs skip_tdd_phases_def skip_choose_mode_def Let_def)

lemma record_result_ok: "state_ok st \<Longrightarrow> state_ok (StepState_record_subtask_result sid fs stat summ sha st)"
  by (simp add: ok_defs StepState_record_subtask_result_def Let_def)

lemma note_flaky_ok: "state_ok st \<Longrightarrow> state_ok (note_flaky sid n st)"
  by (auto simp: ok_defs note_flaky_def split: option.splits)

lemma close_actor_ok: "state_ok st \<Longrightarrow> state_ok (close_actor_and_monitor st)"
  by (simp add: ok_defs close_actor_and_monitor_def)

lemma defer_flaky_state_ok: "state_ok st \<Longrightarrow> state_ok (defer_flaky_state e sid path check tr st)"
proof -
  assume "state_ok st"
  then have 1: "state_ok (note_flaky sid n st)" for n by (rule note_flaky_ok)
  have 2: "state_ok s \<Longrightarrow> state_ok (s\<lparr>subtask_phases := dict_set sid v (subtask_phases s)\<rparr>)" for s v
    by (simp add: ok_defs)
  have 3: "state_ok s \<Longrightarrow> state_ok (s\<lparr>subtask_completion_reasons := r\<rparr>)" for s r
    by (simp add: ok_defs)
  show ?thesis unfolding defer_flaky_state_def Let_def
    by (intro 3 close_actor_ok 2 1)
qed

lemma close_pending_actor_ok: "state_ok st \<Longrightarrow> state_ok (close_pending_actor step_id st)"
  by (simp add: ok_defs close_pending_actor_def)

lemma sorted_nonempty: "topological_sort_subtasks ids dm = Sorted out \<Longrightarrow> ids \<noteq> [] \<Longrightarrow> out \<noteq> []"
  by (auto simp: topological_sort_subtasks_def Let_def split: option.splits if_splits)

lemma init_state_gate_ok: "state_ok st \<Longrightarrow> init_state_gate step_id d st = Inr st' \<Longrightarrow> state_ok st'"
  by (auto simp: init_state_gate_def Let_def intro!: new_sequence_ok dest: sorted_nonempty
      split: if_splits option.splits topo.splits)

lemma mark_step_done_ok: "state_ok st \<Longrightarrow> state_ok (mark_step_done step_id st)"
  by (auto simp: ok_defs mark_step_done_def Let_def hd_conv_nth)

lemma finish_step_ok: "state_ok st \<Longrightarrow> finish_step e dmo w st = Some (r, st') \<Longrightarrow> state_ok st'"
proof -
  assume a: "state_ok st" "finish_step e dmo w st = Some (r, st')"
  show "state_ok st'"
  proof (cases "pending_steps st")
    case Nil
    with a show ?thesis
      by (auto simp: finish_step_def complete_workflow_ok dest: advance_search_ok [of st]
          split: if_splits option.splits prod.splits advance.splits)
        (metis advance_search_ok complete_workflow_ok snd_conv)+
  next
    case (Cons p ps)
    then have "pending_ok (p # ps)" using a(1) by (simp add: state_ok_def)
    with a Cons show ?thesis by (auto simp: finish_step_def ok_defs)
  qed
qed

section \<open>Commands\<close>

text \<open>A command on the branch directory that keeps the invariant; such commands compose.\<close>

locale branch_operation =
  fixes run :: "branch_dir \<Rightarrow> branch_dir"
  assumes keeps: "branch_ok d \<Longrightarrow> branch_ok (run d)"
begin

lemma keeps_iter: "branch_ok d \<Longrightarrow> branch_ok ((run ^^ n) d)"
  by (induction n) (auto intro: keeps)

lemma keeps_then: "branch_operation other \<Longrightarrow> branch_operation (\<lambda>d. other (run d))"
  by (auto simp: branch_operation_def intro: keeps)

end

text \<open>Writing a state that some update of the loaded state has made.\<close>

lemma update_keeps:
  "branch_ok d \<Longrightarrow> (\<And>st. state_ok st \<Longrightarrow> state_ok (f st)) \<Longrightarrow> branch_ok (save (f (load e d)) d')"
  by (simp add: load_ok)

lemma write_feedback_ok: "branch_ok (snd (write_feedback_file n h fb d)) = branch_ok d"
  by (simp add: write_feedback_file_def branch_ok_def)

lemma retry_isolation_ok:
  "record_retry_isolation sid n fb feedback st d = (r, st', d') \<Longrightarrow> state_ok st \<Longrightarrow> state_ok st'"
proof -
  have kept: "state_ok (s\<lparr>clean_retry_count := a, retry_isolation_status := q, retry_quarantine_paths := p\<rparr>) = state_ok s"
    "state_ok (s\<lparr>contaminated_retry_count := a, retry_isolation_status := q\<rparr>) = state_ok s" for s a q p
    by (simp_all add: ok_defs)
  assume "record_retry_isolation sid n fb feedback st d = (r, st', d')" "state_ok st"
  then show "state_ok st'" by (cases "2 \<le> n") (auto simp: record_retry_isolation_def Let_def kept)
qed

interpretation approving: branch_operation "\<lambda>d. snd (set_plan_approved e v d)" for e v
  by unfold_locales (auto simp: set_plan_approved_def Let_def ok_defs dest!: load_ok [of _ e])

interpretation choosing_mode: branch_operation "\<lambda>d. snd (set_execution_mode e v d)" for e v
  by unfold_locales (auto simp: set_execution_mode_def Let_def ok_defs dest!: load_ok [of _ e])

interpretation choosing_tdd: branch_operation "\<lambda>d. snd (set_tdd_mode e v d)" for e v
  by unfold_locales (auto simp: set_tdd_mode_def Let_def ok_defs dest!: load_ok [of _ e])

interpretation setting_subtasks: branch_operation "\<lambda>d. snd (set_subtasks e raw d)" for e raw
  by unfold_locales
    (auto simp: set_subtasks_def Let_def load_ok intro!: new_sequence_ok dest: sorted_nonempty
      split: sum.splits option.splits topo.splits if_splits)

interpretation recording: branch_operation "\<lambda>d. snd (record_subtask_result e sid fs stat summ sha d)"
  for e sid fs stat summ sha
  by unfold_locales (simp add: record_subtask_result_def Let_def load_ok record_result_ok)

interpretation completing: branch_operation "\<lambda>d. snd (mark_workflow_complete e d)" for e
  by unfold_locales (simp add: mark_workflow_complete_def Let_def load_ok complete_workflow_ok)

interpretation backfilling: branch_operation "\<lambda>d. snd (backfill_subtask_ids e d)" for e
proof unfold_locales
  fix d assume "branch_ok d"
  then have "state_ok (load e d)" by (rule load_ok)
  then have "state_ok ((load e d)\<lparr>subtask_results := map (\<lambda>(sid, r). (sid, r\<lparr>r_subtask_id := Some sid\<rparr>))
      (subtask_results (load e d))\<rparr>)"
    by (simp add: ok_defs dict_wf_def comp_def case_prod_unfold)
  with \<open>branch_ok d\<close> show "branch_ok (snd (backfill_subtask_ids e d))"
    by (simp add: backfill_subtask_ids_def Let_def)
qed

interpretation retrying: branch_operation "\<lambda>d. snd (monitor_failed e fb d)" for e fb
proof unfold_locales
  fix d assume ok: "branch_ok d"
  then have "state_ok (load e d)" by (rule load_ok)
  then have "state_ok ((load e d)\<lparr>retry_count := n\<rparr>)"
      "state_ok ((load e d)\<lparr>retry_count := n, pending_steps := [''2.3'', ''2.4''], current_step_id := ''2.3'',
         current_step_phase := ''ACTOR''\<rparr>)" for n
    by (simp_all add: ok_defs)
  with ok show "branch_ok (snd (monitor_failed e fb d))"
    by (auto simp: monitor_failed_def Let_def dest: retry_isolation_ok split: prod.splits)
qed

interpretation wave_retrying: branch_operation "\<lambda>d. snd (wave_monitor_failed e sid fb d)" for e sid fb
proof unfold_locales
  fix d assume ok: "branch_ok d"
  then have "state_ok (load e d)" by (rule load_ok)
  then have "state_ok ((load e d)\<lparr>subtask_retry_counts := n\<rparr>)"
      "state_ok ((load e d)\<lparr>subtask_retry_counts := n, subtask_phases := dict_set sid p (subtask_phases (load e d))\<rparr>)"
    for n p by (simp_all add: ok_defs)
  with ok show "branch_ok (snd (wave_monitor_failed e sid fb d))"
    by (auto simp: wave_monitor_failed_def Let_def dest: retry_isolation_ok split: prod.splits)
qed

interpretation wave_stepping: branch_operation "\<lambda>d. snd (validate_wave_step e sid step_id d)" for e sid step_id
  by unfold_locales (auto simp: validate_wave_step_def Let_def ok_defs dest!: load_ok [of _ e])

interpretation skipping: branch_operation "\<lambda>d. snd (skip_step e step_id d)" for e step_id
proof unfold_locales
  fix d assume ok: "branch_ok d"
  define st where "st = (load e d)\<lparr>completed_steps := completed_steps (load e d) @ [step_id],
      pending_steps := remove1 step_id (pending_steps (load e d))\<rparr>"
  have "state_ok st" using load_ok [OF ok, of e] by (simp add: ok_defs st_def)
  then have "state_ok (st\<lparr>current_step_id := ''COMPLETE'', current_step_phase := ''COMPLETE''\<rparr>)"
      "pending_steps st = p # ps \<Longrightarrow>
         state_ok (st\<lparr>current_step_id := p, current_step_phase := step_phase ''UNKNOWN'' p\<rparr>)" for p ps
    by (simp_all add: ok_defs) (metis cursor_hd)
  with ok show "branch_ok (snd (skip_step e step_id d))"
    unfolding skip_step_def Let_def st_def [symmetric] by (simp split: list.splits)
qed

interpretation contracting: branch_operation "\<lambda>d. snd (mark_contract_ready e sid d)" for e sid
  by unfold_locales (auto simp: mark_contract_ready_def Let_def ok_defs dest!: load_ok [of _ e])

lemma shortcut_ok: "state_ok st \<Longrightarrow> state_ok (shortcut_advance e st)"
  by (auto simp: shortcut_advance_def complete_workflow_ok clear_pending_ok) (auto simp: ok_defs)

interpretation shortcutting: branch_operation "\<lambda>d. snd (mark_subtask_complete e sid reason kind d)"
  for e sid reason kind
proof unfold_locales
  fix d assume ok: "branch_ok d"
  have "state_ok (s\<lparr>subtask_phases := dict_set sid v (subtask_phases s), subtask_completion_reasons := r\<rparr>)"
    if "state_ok s" for s v r using that by (simp add: ok_defs)
  with ok load_ok [OF ok, of e] show "branch_ok (snd (mark_subtask_complete e sid reason kind d))"
    by (simp add: mark_subtask_complete_def Let_def shortcut_ok record_result_ok)
qed

interpretation reopening: branch_operation "\<lambda>d. snd (reopen_for_fixes e fb d)" for e fb
proof unfold_locales
  fix d assume ok: "branch_ok d"
  from load_ok [OF ok, of e] have "state_ok ((load e d)\<lparr>current_step_id := ''2.3'', current_step_phase := ''ACTOR'',
      pending_steps := [''2.3'', ''2.4''], retry_count := 0, workflow_status := ''IN_PROGRESS'', completed_at := None\<rparr>)"
    by (simp add: ok_defs)
  with ok show "branch_ok (snd (reopen_for_fixes e fb d))"
    by (simp add: reopen_for_fixes_def Let_def split: prod.splits)
qed

lemma retire_ok: "branch_ok (snd (retire e label d))"
  by (simp add: retire_def Let_def branch_ok_def)

interpretation archiving: branch_operation "\<lambda>d. snd (archive_completed_workflow e d)" for e
  by unfold_locales (simp add: archive_completed_workflow_def Let_def retire_ok case_prod_unfold)

interpretation abandoning: branch_operation "\<lambda>d. snd (abandon_workflow e d)" for e
  by unfold_locales (simp add: abandon_workflow_def Let_def retire_ok archiving.keeps case_prod_unfold)

interpretation initializing: branch_operation "\<lambda>d. snd (initialize_workflow e d)" for e
  by unfold_locales (simp add: initialize_workflow_def Let_def split: prod.splits)

interpretation resuming_contract: branch_operation "\<lambda>d. snd (resume_from_test_contract e sid d)" for e sid
proof unfold_locales
  fix d assume "branch_ok d"
  then show "branch_ok (snd (resume_from_test_contract e sid d))"
    by (auto simp: resume_from_test_contract_def Let_def StepState_def ok_defs split: option.splits)
qed

interpretation resuming_single: branch_operation "\<lambda>d. snd (resume_single_subtask e sid tdd d)" for e sid tdd
  by unfold_locales (auto simp: resume_single_subtask_def Let_def StepState_def ok_defs split: option.splits)

lemma store_waves_ok: "state_ok st \<Longrightarrow> state_ok (store_waves ws st)"
  by (auto simp: store_waves_def Let_def ok_defs hd_conv_nth)

interpretation wave_planning: branch_operation "\<lambda>d. snd (set_waves e d)" for e
proof unfold_locales
  fix d assume "branch_ok d"
  then show "branch_ok (snd (set_waves e d))"
    using store_waves_ok [OF load_ok [of d e]]
    by (simp add: set_waves_def Let_def split: option.splits doc_file.splits json.splits graph_result.splits)
qed

interpretation resuming_plan: branch_operation "\<lambda>d. snd (resume_from_plan e d)" for e
proof unfold_locales
  fix d assume "branch_ok d"
  have "pending_ok (filter P STEP_ORDER)" for P using pending_step_order(1) by simp
  moreover have "hd (filter (\<lambda>s. s \<notin> {''1.0'', ''1.5'', ''1.55'', ''1.56''}) STEP_ORDER) = ''1.6''"
      "step_phase ''INIT_STATE'' ''1.6'' = ''INIT_STATE''" by (code_simp, code_simp)
  ultimately show "branch_ok (snd (resume_from_plan e d))"
    using \<open>branch_ok d\<close>
    by (auto simp: resume_from_plan_def Let_def StepState_def ok_defs hd_conv_nth
        intro!: wave_planning.keeps split: option.splits)
qed

interpretation restoring: branch_operation "\<lambda>d. snd (restore_deferred_yagni e item new_id d)" for e item new_id
proof unfold_locales
  have w: "branch_ok (withdraw_approval e (d\<lparr>blueprint_file := b, plan_file := p\<rparr>))" if "branch_ok d" for d b p
  proof -
    have "branch_ok (d\<lparr>blueprint_file := b, plan_file := p\<rparr>)" using that by (simp add: branch_ok_def)
    from load_ok [OF this, of e] this show ?thesis by (auto simp: withdraw_approval_def ok_defs)
  qed
  fix d assume "branch_ok d"
  with w show "branch_ok (snd (restore_deferred_yagni e item new_id d))"
    by (auto simp: restore_deferred_yagni_def Let_def split: doc_file.splits sum.splits option.splits prod.splits)
qed

lemma return_step_ok:
  "state_ok st \<Longrightarrow> pending_steps st \<noteq> [] \<Longrightarrow> branch_ok (snd (return_step has_artifact st d))"
  by (cases "pending_steps st") (auto simp: return_step_def Let_def ok_defs)

interpretation stepping: branch_operation "\<lambda>d. snd (get_next_step e has_artifact d)" for e has_artifact
proof unfold_locales
  fix d assume ok: "branch_ok d"
  define st where "st = skip_tdd_phases (skip_choose_mode (load e d))"
  define d1 where "d1 = (if st = load e d then d else save st d)"
  have st: "state_ok st" using load_ok [OF ok] by (simp add: st_def skip_loops_ok)
  have d1: "branch_ok d1" using ok st by (simp add: d1_def)
  have "branch_ok (snd (next_of_subtask has_artifact dmo st d1))" for dmo
  proof (cases dmo)
    case (Some dm)
    from advance_search_ok [OF st, of dm] d1 show ?thesis
      by (cases rule: advance_search_cases [of dm st])
        (auto simp: next_of_subtask_def Some intro!: return_step_ok)
  qed (use d1 in \<open>auto simp: next_of_subtask_def\<close>)
  moreover have "state_ok ((load e d)\<lparr>pending_steps := [''CONTRACT_READY'']\<rparr>)"
    using load_ok [OF ok] by (simp add: ok_defs)
  ultimately show "branch_ok (snd (get_next_step e has_artifact d))"
    using ok st return_step_ok [OF st, of has_artifact d1]
    unfolding get_next_step_def Let_def st_def [symmetric] d1_def [symmetric] by simp
qed

interpretation deferring: branch_operation "\<lambda>d. snd (defer_flaky_subtask e sid check path fs summ sha d)"
  for e sid check path fs summ sha
proof unfold_locales
  fix d assume ok: "branch_ok d"
  define d1 where "d1 tr = snd (record_subtask_result e sid fs DEFERRED_NONDETERMINISTIC_STATUS
     (triage_summary summ (strip check) tr) sha d)" for tr
  have d1: "branch_ok (d1 tr)" for tr unfolding d1_def by (rule recording.keeps [OF ok])
  have "state_ok (snd (advance_after_terminal_current_subtask e dm
      (defer_flaky_state e sid p c tr (load e (d1 tr)))))" for dm p c tr
    by (intro advance_after_ok defer_flaky_state_ok load_ok d1)
  with ok d1 show "branch_ok (snd (defer_flaky_subtask e sid check path fs summ sha d))"
    unfolding defer_flaky_subtask_def Let_def d1_def [symmetric]
    by (auto simp: case_prod_unfold split: sum.splits option.splits)
qed

lemma feedback_marks_ok:
  "state_ok st \<Longrightarrow> sid \<notin> set (scope_feedback_subtasks st)
     \<Longrightarrow> state_ok (st\<lparr>scope_feedback_subtasks := scope_feedback_subtasks st @ [sid]\<rparr>)"
  "state_ok st \<Longrightarrow> sid \<notin> set (progress_feedback_subtasks st)
     \<Longrightarrow> state_ok (st\<lparr>progress_feedback_subtasks := progress_feedback_subtasks st @ [sid]\<rparr>)"
  "state_ok st \<Longrightarrow> sid \<notin> set (scope_feedback_subtasks st) \<Longrightarrow> sid \<notin> set (progress_feedback_subtasks st)
     \<Longrightarrow> state_ok (st\<lparr>scope_feedback_subtasks := scope_feedback_subtasks st @ [sid],
                     progress_feedback_subtasks := progress_feedback_subtasks st @ [sid]\<rparr>)"
  by (simp_all add: ok_defs)

lemma scope_gate_ok:
  assumes "state_ok st" "branch_ok d"
  shows "scope_gate e step_id st d = Inl (r, d') \<Longrightarrow> branch_ok d'"
    "scope_gate e step_id st d = Inr (st', d', w) \<Longrightarrow> state_ok st' \<and> branch_ok d'"
  using assms by (auto simp: scope_gate_def Let_def feedback_marks_ok split: option.splits if_splits)

lemma complete_step_ok: "state_ok st \<Longrightarrow> branch_ok d \<Longrightarrow> branch_ok (snd (complete_step e step_id st d w))"
  using finish_step_ok [OF mark_step_done_ok [of st step_id]]
  by (auto simp: complete_step_def split: option.splits prod.splits)

lemma disposition_route_ok:
  "branch_ok d \<Longrightarrow> disposition_route e step_id a st d = Some (r, d') \<Longrightarrow> branch_ok d'"
  using deferring.keeps [of d e]
  by (auto simp: disposition_route_def Let_def split: option.splits if_splits sum.splits prod.splits)
    (metis snd_conv)+

interpretation validating: branch_operation "\<lambda>d. snd (validate_step e step_id a d)" for e step_id a
proof unfold_locales
  fix d assume ok: "branch_ok d"
  have st: "state_ok (close_pending_actor step_id (load e d))"
    by (intro close_pending_actor_ok load_ok ok)
  have "branch_ok (snd (run_gates e step_id a s d))" if s: "state_ok s" for s
    using ok scope_gate_ok [OF init_state_gate_ok [OF s] ok] disposition_route_ok [OF ok] complete_step_ok
    by (auto simp: run_gates_def split: sum.splits option.splits)
  with st ok show "branch_ok (snd (validate_step e step_id a d))"
    by (simp add: validate_step_def Let_def)
qed

section \<open>The change of wave\<close>

text \<open>
  \<^verbatim>\<open>advance_wave\<close> makes the first subtask of the next wave current and moves the index only when
  the sequence lists that subtask. \<open>enters_listed\<close> is this condition on the saved state, true
  also when there is no further wave or it is empty.
\<close>

definition enters_listed :: "step_state \<Rightarrow> bool" where
  "enters_listed st =
     (let i = current_wave_index st + 1
      in i < length (execution_waves st) \<and> execution_waves st ! i \<noteq> []
         \<longrightarrow> hd (execution_waves st ! i) \<in> set (subtask_sequence st))"

lemma enter_wave_ok:
  assumes "state_ok st"
  shows "state_ok (enter_wave wave st) \<longleftrightarrow> wave = [] \<or> hd wave \<in> set (subtask_sequence st)"
proof (cases wave)
  case (Cons sid rest)
  show ?thesis
  proof (cases "sid \<in> set (subtask_sequence st)")
    case True
    then have "subtask_sequence st \<noteq> []" by auto
    with assms Cons True index_of_mem [OF True] show ?thesis by (simp add: enter_wave_def ok_defs)
  next
    case False
    with Cons show ?thesis by (auto simp: enter_wave_def ok_defs)
  qed
qed (use assms in \<open>simp add: enter_wave_def\<close>)

text \<open>The change of wave keeps the invariant in exactly these states.\<close>

lemma advance_wave_keeps_iff:
  assumes "branch_ok d" "execution_waves (load e d) \<noteq> []"
  shows "branch_ok (snd (advance_wave e d)) \<longleftrightarrow> enters_listed (load e d)"
proof -
  let ?st = "load e d" and ?i = "current_wave_index (load e d) + 1"
  let ?st1 = "?st\<lparr>current_wave_index := ?i, subtask_phases := [], subtask_retry_counts := []\<rparr>"
  have "state_ok ?st1" using load_ok [OF assms(1), of e] by (simp add: ok_defs dict_wf_def)
  with assms(2) enter_wave_ok [of ?st1 "execution_waves ?st ! ?i"] show ?thesis
    by (auto simp: advance_wave_def enters_listed_def Let_def)
qed

lemma advance_wave_keeps:
  "branch_ok d \<Longrightarrow> enters_listed (load e d) \<Longrightarrow> branch_ok (snd (advance_wave e d))"
  by (cases "execution_waves (load e d) = []") (simp add: advance_wave_def, simp add: advance_wave_keeps_iff)

text \<open>Waves of another blueprint break the cursor: \<^verbatim>\<open>ST-9\<close> becomes current, the index stays.\<close>

lemma advance_wave_breaks_cursor:
  "let st = (StepState now)\<lparr>subtask_sequence := [''ST-1'', ''ST-2''], current_subtask_id := Some ''ST-1'',
       execution_waves := [[''ST-1''], [''ST-9'']]\<rparr>
   in state_ok st \<and> current_subtask_id (enter_wave [''ST-9''] st) = Some ''ST-9''
      \<and> subtask_index (enter_wave [''ST-9''] st) = 0 \<and> \<not> subtask_cursor_ok (enter_wave [''ST-9''] st)"
  by (simp add: ok_defs StepState_def enter_wave_def pending_step_order)

section \<open>The serial machine\<close>

text \<open>
  A step is any command, in any environment (clock, repository, configuration), or an edit
  from outside of the files the script only reads. Only the change of wave has a condition: the
  wave it enters begins with a listed subtask.
\<close>

inductive orch_step :: "branch_dir \<Rightarrow> branch_dir \<Rightarrow> bool" where
  "orch_step d (snd (initialize_workflow e d))"
| "orch_step d (snd (get_next_step e has_artifact d))"
| "orch_step d (snd (validate_step e step_id a d))"
| "orch_step d (snd (set_plan_approved e v d))"
| "orch_step d (snd (set_execution_mode e v d))"
| "orch_step d (snd (set_tdd_mode e v d))"
| "orch_step d (snd (set_subtasks e raw d))"
| "orch_step d (snd (record_subtask_result e sid fs stat summ sha d))"
| "orch_step d (snd (defer_flaky_subtask e sid check path fs summ sha d))"
| "orch_step d (snd (monitor_failed e fb d))"
| "orch_step d (snd (wave_monitor_failed e sid fb d))"
| "orch_step d (snd (validate_wave_step e sid step_id d))"
| "orch_step d (snd (set_waves e d))"
| "orch_step d (snd (skip_step e step_id d))"
| "orch_step d (snd (mark_workflow_complete e d))"
| "orch_step d (snd (mark_subtask_complete e sid reason kind d))"
| "orch_step d (snd (reopen_for_fixes e fb d))"
| "orch_step d (snd (archive_completed_workflow e d))"
| "orch_step d (snd (abandon_workflow e d))"
| "orch_step d (snd (mark_contract_ready e sid d))"
| "orch_step d (snd (resume_from_test_contract e sid d))"
| "orch_step d (snd (resume_single_subtask e sid tdd d))"
| "orch_step d (snd (resume_from_plan e d))"
| "orch_step d (snd (backfill_subtask_ids e d))"
| "orch_step d (snd (restore_deferred_yagni e item new_id d))"
| "orch_step d (d\<lparr>blueprint_file := bp, plan_file := plan, other_files := other\<rparr>)"
| "enters_listed (load e d) \<Longrightarrow> orch_step d (snd (advance_wave e d))"

definition no_workflow :: "branch_dir \<Rightarrow> bool" where
  "no_workflow d = (step_file d = Absent)"

lemmas commands_keep =
  initializing.keeps stepping.keeps validating.keeps approving.keeps choosing_mode.keeps choosing_tdd.keeps
  setting_subtasks.keeps recording.keeps deferring.keeps retrying.keeps wave_retrying.keeps wave_stepping.keeps
  wave_planning.keeps skipping.keeps completing.keeps shortcutting.keeps reopening.keeps archiving.keeps
  abandoning.keeps contracting.keeps resuming_contract.keeps resuming_single.keeps resuming_plan.keeps
  backfilling.keeps restoring.keeps

lemma orch_step_ok: "orch_step d d' \<Longrightarrow> branch_ok d \<Longrightarrow> branch_ok d'"
  by (induction rule: orch_step.induct) (simp_all add: commands_keep advance_wave_keeps, simp add: branch_ok_def)

lemma no_workflow_ok: "no_workflow d \<Longrightarrow> branch_ok d"
  by (simp add: no_workflow_def branch_ok_def)

interpretation serial: invariant_machine no_workflow orch_step branch_ok
  by unfold_locales (rule no_workflow_ok, assumption, rule orch_step_ok)

section \<open>Property\<close>

text \<open>
  Claim C9. Whatever commands are run, in whatever order, from a branch without a workflow,
  as long as no change of wave enters a wave whose first subtask the sequence does not list,
  a saved state is coherent: with a subtask sequence the current subtask is the one at the
  cursor's position in it, without one there is no current subtask; the current step and phase
  belong together; the pending steps are a part of the step order (or the contract marker);
  and a workflow marked as complete carries the time of its completion.
\<close>

theorem workflow_state_coherent:
  assumes "reachable_from no_workflow orch_step d" and "step_file d = Parsed st"
  shows "(if subtask_sequence st = [] then current_subtask_id st = None \<and> subtask_index st = 0
          else subtask_index st < length (subtask_sequence st)
            \<and> current_subtask_id st = Some (subtask_sequence st ! subtask_index st))
    \<and> (current_step_id st, current_step_phase st) \<in> set CURSORS
    \<and> (subseq (pending_steps st) TDD_STEP_ORDER \<or> pending_steps st = [''CONTRACT_READY''])
    \<and> (workflow_status st = ''WORKFLOW_COMPLETE'' \<longrightarrow> completed_at st \<noteq> None)"
  using serial.reachable_inv [OF assms(1)] assms(2)
  by (simp add: branch_ok_def ok_defs pending_ok_def)

definition bare_env :: orch_env where
  "bare_env = \<lparr>iso_now = ''T0'', utc_timestamp = ''T1'', stamp_seconds = ''S'', stamp_micros = ''U'',
     sequential_only = None, git_head = None, validate_research = Some (\<lambda>_. []),
     validate_mutation_boundary = None, validate_flaky_test_triage = None, read_json = (\<lambda>_. Absent),
     runner_config = None, compute_waves = None, split_wave = (\<lambda>w _. [w])\<rparr>"

definition bare_dir :: branch_dir where
  "bare_dir = \<lparr>step_file = Absent, blueprint_file = Absent, plan_file = None, other_files = [],
     retired = [], quarantines = []\<rparr>"

definition two_subtasks :: branch_dir where
  "two_subtasks = snd (set_subtasks bare_env [''ST-1 ST-2''] (snd (initialize_workflow bare_env bare_dir)))"

theorem workflow_state_coherent_witness:
  "current_subtask_id (load bare_env two_subtasks)
     = Some (subtask_sequence (load bare_env two_subtasks) ! subtask_index (load bare_env two_subtasks))"
proof -
  have "reachable_from no_workflow orch_step bare_dir"
    by (rule reach_start) (simp add: no_workflow_def bare_dir_def)
  then have "reachable_from no_workflow orch_step (snd (initialize_workflow bare_env bare_dir))"
    by (rule reach_step) (rule orch_step.intros(1))
  then have "reachable_from no_workflow orch_step two_subtasks"
    unfolding two_subtasks_def by (rule reach_step) (rule orch_step.intros(7))
  moreover have "case step_file two_subtasks of Parsed _ \<Rightarrow> True | _ \<Rightarrow> False" by code_simp
  then have "step_file two_subtasks = Parsed (load bare_env two_subtasks)"
    by (simp add: load_def split: doc_file.splits)
  moreover have "subtask_sequence (load bare_env two_subtasks) = [''ST-1'', ''ST-2'']" by code_simp
  ultimately show ?thesis
    using workflow_state_coherent [of two_subtasks "load bare_env two_subtasks"] by simp
qed

end
