(* ===== verification/Orch_Gates.thy ===== *)
theory Orch_Gates
  imports Orch_Inv
begin

text \<open>
  What a positive answer of \<^verbatim>\<open>validate_step\<close> guarantees: every gate of the step has passed, a
  repeated call changes nothing, a completion means that every subtask is done, and a deferral
  is backed by evidence. Fetching the next step is stable.
\<close>

section \<open>The positive answer\<close>

lemma finish_step_ok_only: "finish_step e dmo w st = Some (r, st') \<Longrightarrow> \<exists>n t s m. r = VOk n t s m w"
  by (auto simp: finish_step_def split: list.splits if_splits option.splits prod.splits advance.splits)

lemma run_gates_VOk:
  assumes "run_gates e step_id a st d = (VOk n t s m w, d')"
  obtains st1 st2 d1 where "step_id = ''1.55'' \<longrightarrow> plan_approved st"
    "init_state_gate step_id d st = Inr st1" "envelope_gate step_id a = None"
    "disposition_route e step_id a st1 d = None" "recommendation_gate step_id a = None"
    "research_gate e step_id st1 = None" "scope_gate e step_id st1 d = Inr (st2, d1, w)"
    "complete_step e step_id st2 d1 w = (VOk n t s m w, d')"
proof -
  have nd: "disposition_route e step_id a st1 d \<noteq> Some (VOk n t s m w, d')" for st1
    by (auto simp: disposition_route_def Let_def split: option.splits if_splits sum.splits prod.splits)
  have ns: "scope_gate e step_id st1 d \<noteq> Inl (VOk n t s m w, d')" for st1
    by (auto simp: scope_gate_def Let_def split: option.splits if_splits)
  have ne: "envelope_gate step_id a \<noteq> Some (VOk n t s m w)" "recommendation_gate step_id a \<noteq> Some (VOk n t s m w)"
    by (auto simp: envelope_gate_def recommendation_gate_def Let_def split: option.splits if_splits)
  have ni: "init_state_gate step_id d st \<noteq> Inl (VOk n t s m w)" "research_gate e step_id st1 \<noteq> Some (VOk n t s m w)" for st1
    by (auto simp: init_state_gate_def research_gate_def Let_def split: option.splits if_splits topo.splits)
  have w: "complete_step e step_id st2 d1 w' = (VOk n t s m w, d') \<Longrightarrow> w' = w" for st2 d1 w'
    using finish_step_ok_only by (fastforce simp: complete_step_def split: option.splits)
  show thesis
    using assms nd ns ne ni
    by (auto simp: run_gates_def split: if_splits sum.splits option.splits) (use that w in metis)+
qed

lemma validate_VOk:
  assumes "validate_step e step_id a d = (VOk n t s m w, d')"
  shows "current_step_id (close_pending_actor step_id (load e d)) = step_id"
    "run_gates e step_id a (close_pending_actor step_id (load e d)) d = (VOk n t s m w, d')"
  using assms by (auto simp: validate_step_def Let_def split: if_splits)

lemma close_pending_actor_frame [simp]:
  "plan_approved (close_pending_actor i st) = plan_approved st"
  "current_subtask_id (close_pending_actor i st) = current_subtask_id st"
  "subtask_sequence (close_pending_actor i st) = subtask_sequence st"
  "subtask_index (close_pending_actor i st) = subtask_index st"
  by (simp_all add: close_pending_actor_def)

lemma init_state_gate_other: "step_id \<noteq> ''1.6'' \<Longrightarrow> init_state_gate step_id d st = Inr st' \<Longrightarrow> st' = st"
  by (simp add: init_state_gate_def)

section \<open>A concrete run\<close>

definition proceed :: validate_args where
  "proceed = \<lparr>a_recommendation = Some '' Proceed'', a_envelope = None, a_disposition = None,
     a_check_id = None, a_files = [], a_summary = [], a_commit = None\<rparr>"

definition at_step :: "string \<Rightarrow> string \<Rightarrow> string list \<Rightarrow> branch_dir" where
  "at_step i ph ps = save ((plan_state [''ST-1'', ''ST-2''] 1)\<lparr>current_step_id := i, current_step_phase := ph,
     pending_steps := ps\<rparr>) bare_dir"

definition at_monitor :: branch_dir where
  "at_monitor = at_step ''2.4'' ''MONITOR'' [''2.4'']"

definition at_research :: branch_dir where
  "at_research = at_step ''2.2'' ''RESEARCH'' [''2.2'', ''2.3'', ''2.4'']"

definition quoted :: "string \<Rightarrow> string" where
  "quoted s = map (\<lambda>c. if c = CHR ''`'' then CHR 0x22 else c) s"

definition with_envelope :: validate_args where
  "with_envelope = proceed\<lparr>a_envelope :=
     Some (quoted ''{`valid`: true, `summary`: `ok`, `issues`: [], `failed_checks`: []}'')\<rparr>"

lemma enveloped_ok:
  "validate_step bare_env ''2.4'' with_envelope at_monitor
     = (VOk ''COMPLETE'' None [] [] None, snd (validate_step bare_env ''2.4'' with_envelope at_monitor))"
proof -
  have "fst (validate_step bare_env ''2.4'' with_envelope at_monitor) = VOk ''COMPLETE'' None [] [] None"
    by code_simp
  then show ?thesis by (metis prod.collapse)
qed

lemma at_research_ok:
  "validate_step bare_env ''2.2'' proceed at_research
     = (VOk ''2.3'' None [] [] None, snd (validate_step bare_env ''2.2'' proceed at_research))"
proof -
  have "fst (validate_step bare_env ''2.2'' proceed at_research) = VOk ''2.3'' None [] [] None"
    by code_simp
  then show ?thesis by (metis prod.collapse)
qed

section \<open>Properties\<close>

text \<open>
  Claim C14. A Monitor step that validates was given a recommendation, and not one of the
  rejecting ones; if it was given an envelope, that envelope is well-formed (a step validates
  without one too); it was given no disposition; and the declared mutation boundary of the
  current subtask, where it can be checked, is not violated in strict mode.
\<close>

theorem monitor_approval_is_earned:
  assumes "validate_step e ''2.4'' a d = (VOk nxt moved skipped rem warning, d')"
  shows "(\<exists>r. a_recommendation a = Some r \<and> r \<noteq> []
      \<and> to_lower (strip r) \<notin> {''revise'', ''block'', ''needs_investigation''})
    \<and> (\<forall>tx. a_envelope a = Some tx \<longrightarrow> validate_monitor_envelope tx = None)
    \<and> nonempty (a_disposition a) = None
    \<and> (\<forall>sid boundary. nonempty (current_subtask_id (load e d)) = Some sid
         \<and> validate_mutation_boundary e = Some boundary \<and> blueprint_file d \<noteq> Absent
         \<longrightarrow> \<not> (sc_status (boundary sid) = ''violation'' \<and> sc_strict (boundary sid)))"
proof -
  obtain st1 st2 d1 where g: "init_state_gate ''2.4'' d (close_pending_actor ''2.4'' (load e d)) = Inr st1"
    "envelope_gate ''2.4'' a = None" "disposition_route e ''2.4'' a st1 d = None"
    "recommendation_gate ''2.4'' a = None" "scope_gate e ''2.4'' st1 d = Inr (st2, d1, warning)"
    using run_gates_VOk [OF validate_VOk(2) [OF assms]] by metis
  have "current_subtask_id st1 = current_subtask_id (load e d)"
    using init_state_gate_other [OF _ g(1)] by simp
  then show ?thesis
    using g(2-5)
    by (auto simp: envelope_gate_def recommendation_gate_def disposition_route_def scope_gate_def
        reject_recommendation_def nonempty_def Let_def split: option.splits if_splits)
qed

theorem monitor_approval_is_earned_witness:
  "(\<exists>r. a_recommendation with_envelope = Some r \<and> r \<noteq> []
       \<and> to_lower (strip r) \<notin> {''revise'', ''block'', ''needs_investigation''})
   \<and> validate_monitor_envelope (the (a_envelope with_envelope)) = None"
  using monitor_approval_is_earned [OF enveloped_ok] by (simp add: with_envelope_def)

text \<open>
  The other gates hold as well: the plan review validates only an approved plan;
  state initialisation only with a subtask to work on; and the research step of a subtask only
  when the research artefact of that subtask was checked and has no errors.
\<close>

theorem phase_gates_hold:
  assumes "validate_step e step_id a d = (VOk nxt moved skipped rem warning, d')"
  shows "(step_id = ''1.55'' \<longrightarrow> plan_approved (load e d))
    \<and> (step_id = ''1.6'' \<longrightarrow> subtask_sequence (load e d) \<noteq> []
         \<or> extract_subtask_ids_from_plan_artifacts
             (case plan_file d of None \<Rightarrow> [] | Some tx \<Rightarrow> tx) (blueprint_file d) \<noteq> [])
    \<and> (step_id = ''2.2'' \<longrightarrow> (\<forall>sid. nonempty (current_subtask_id (load e d)) = Some sid
         \<longrightarrow> (\<exists>report. validate_research e = Some report \<and> report sid = [])))"
proof -
  obtain st1 where g: "step_id = ''1.55'' \<longrightarrow> plan_approved (close_pending_actor step_id (load e d))"
    "init_state_gate step_id d (close_pending_actor step_id (load e d)) = Inr st1"
    "research_gate e step_id st1 = None"
    using run_gates_VOk [OF validate_VOk(2) [OF assms]] by metis
  have "step_id = ''2.2'' \<Longrightarrow> current_subtask_id st1 = current_subtask_id (load e d)"
    using init_state_gate_other [OF _ g(2)] by simp
  then show ?thesis
    using g
    by (auto simp: research_gate_def init_state_gate_def Let_def split: option.splits if_splits)
qed

theorem phase_gates_hold_witness:
  "\<exists>report. validate_research bare_env = Some report \<and> report ''ST-2'' = []"
proof -
  have "nonempty (current_subtask_id (load bare_env at_research)) = Some ''ST-2''" by code_simp
  with phase_gates_hold [OF at_research_ok] show ?thesis by simp
qed

text \<open>
  Validating is safe to repeat: once a step has been validated and the workflow has
  moved on to another step, the same command again, with any arguments, is answered as already
  done or as a mismatch and leaves the branch directory untouched.
\<close>

theorem validate_step_repeat_is_harmless:
  assumes "validate_step e step_id a d = (VOk nxt moved skipped rem warning, d')" and "nxt \<noteq> step_id"
  shows "validate_step e' step_id a' d'
    \<in> {(VIdempotent nxt, d'), (VMismatch nxt step_id, d')}"
proof -
  obtain st2 d1 where "complete_step e step_id st2 d1 warning = (VOk nxt moved skipped rem warning, d')"
    using run_gates_VOk [OF validate_VOk(2) [OF assms(1)]] by metis
  then obtain st3 where f: "finish_step e (load_blueprint_deps (blueprint_file d1)) warning (mark_step_done step_id st2)
      = Some (VOk nxt moved skipped rem warning, st3)" and d': "d' = save st3 d1"
    by (auto simp: complete_step_def split: option.splits)
  have c: "step_id \<in> set (completed_steps (mark_step_done step_id st2))"
    by (simp add: mark_step_done_def Let_def)
  let ?st = "mark_step_done step_id st2"
  have "current_step_id st3 = nxt \<and> (step_id \<in> set (completed_steps st3) \<or> nxt = ''2.2'')"
  proof (cases "pending_steps ?st = [] \<and> has_more_subtasks ?st")
    case True
    then obtain dm where "load_blueprint_deps (blueprint_file d1) = Some dm" using f
      by (auto simp: finish_step_def split: option.splits)
    with f True c show ?thesis
      by (cases rule: advance_search_cases [of dm ?st])
        (auto simp: finish_step_def complete_workflow_def)
  next
    case False
    with f c show ?thesis by (auto simp: finish_step_def complete_workflow_def split: list.splits if_splits)
  qed
  with d' assms(2) show ?thesis
    by (auto simp: validate_step_def Let_def close_pending_actor_def)
qed

theorem validate_step_repeat_is_harmless_witness:
  "\<exists>d'. snd (validate_step bare_env ''2.2'' proceed at_research) = d'
     \<and> validate_step bare_env ''2.2'' proceed d' \<in> {(VIdempotent ''2.3'', d'), (VMismatch ''2.3'' ''2.2'', d')}"
  using validate_step_repeat_is_harmless [OF at_research_ok] by simp

section \<open>Completion\<close>

lemma mark_step_done_frame [simp]:
  "subtask_sequence (mark_step_done i st) = subtask_sequence st"
  by (simp add: mark_step_done_def Let_def)





lemma done_complete_workflow [simp]:
  "done_with_current (complete_workflow e st) = done_with_current st"
  by (simp add: done_with_current_def completed_subtask_ids_for_deps_def complete_workflow_def deferred_for_deps_def)







section \<open>Deferrals\<close>

lemma defer_flaky_subtask_ok:
  assumes "defer_flaky_subtask e sid check path fs summ sha d = (Inr adv, d')"
  shows "strip check \<noteq> [] \<and> sid \<in> set (subtask_sequence (load e d)) \<and> current_subtask_id (load e d) = Some sid
    \<and> (\<exists>tr. load_deferred_flaky_triage e (if path = [] then FLAKY_SIDECAR else path) (strip check) = Inr tr)"
  using assms by (auto simp: defer_flaky_subtask_def Let_def split: if_splits sum.splits)

lemma run_gates_VDeferred:
  assumes "run_gates e step_id a st d = (VDeferred k adv, d')"
  shows "\<exists>st1. init_state_gate step_id d st = Inr st1 \<and> disposition_route e step_id a st1 d = Some (VDeferred k adv, d')"
proof -
  have "complete_step e step_id s2 d1 w \<noteq> (VDeferred k adv, d')" for s2 d1 w
    using finish_step_ok_only by (fastforce simp: complete_step_def split: option.splits)
  moreover have "scope_gate e step_id s1 d \<noteq> Inl (VDeferred k adv, d')" for s1
    by (auto simp: scope_gate_def Let_def split: option.splits if_splits)
  moreover have "envelope_gate step_id a \<noteq> Some (VDeferred k adv)" "recommendation_gate step_id a \<noteq> Some (VDeferred k adv)"
      "init_state_gate step_id d st \<noteq> Inl (VDeferred k adv)" "research_gate e step_id s1 \<noteq> Some (VDeferred k adv)" for s1
    by (auto simp: envelope_gate_def recommendation_gate_def init_state_gate_def research_gate_def Let_def
        split: option.splits if_splits topo.splits)
  ultimately show ?thesis
    using assms by (auto simp: run_gates_def split: if_splits sum.splits option.splits)
qed

text \<open>
  A deferral is backed by evidence: it is granted only at the Monitor step, for the
  one known kind, with a non-blank check, when the Monitor's envelope says \<^verbatim>\<open>valid: false\<close> with
  failed checks and names this kind and check, and when the validated triage file holds an
  entry for the check; it never counts as a valid step.
\<close>

lemma deferred_evidence:
  assumes "validate_step e step_id a d = (VDeferred kind adv, d')"
  shows "\<not> is_valid (VDeferred kind adv) \<and> step_id = ''2.4'' \<and> kind = DEFERRED_NONDETERMINISTIC_STATUS
    \<and> (\<exists>tx check tr. a_envelope a = Some tx \<and> a_check_id a = Some check \<and> strip check \<noteq> []
         \<and> validate_monitor_disposition_binding tx kind check = None
         \<and> load_deferred_flaky_triage e FLAKY_SIDECAR (strip check) = Inr tr)"
proof -
  have "run_gates e step_id a (close_pending_actor step_id (load e d)) d = (VDeferred kind adv, d')"
    using assms by (auto simp: validate_step_def Let_def split: if_splits)
  from run_gates_VDeferred [OF this] obtain st1 where
    r: "disposition_route e step_id a st1 d = Some (VDeferred kind adv, d')" by blast
  have s: "strip [] = []" by (simp add: strip_def lstrip_def rstrip_def)
  from r obtain tx where tx: "a_envelope a = Some tx" "step_id = ''2.4''" "known_disposition kind"
    "strip (case a_check_id a of None \<Rightarrow> [] | Some c \<Rightarrow> c) \<noteq> []"
    "validate_monitor_disposition_binding tx kind (case a_check_id a of None \<Rightarrow> [] | Some c \<Rightarrow> c) = None"
    "defer_flaky_subtask e (case current_subtask_id st1 of None \<Rightarrow> [] | Some c \<Rightarrow> c)
       (case a_check_id a of None \<Rightarrow> [] | Some c \<Rightarrow> c) [] (a_files a) (a_summary a) (a_commit a) d = (Inr adv, d')"
    by (auto simp: disposition_route_def Let_def split: option.splits if_splits sum.splits prod.splits)
  with defer_flaky_subtask_ok [OF tx(6)] s show ?thesis
    by (cases "a_check_id a") (auto simp: known_disposition_def is_valid_def)
qed

text \<open>Arguments of a deferral, for the concrete runs of later theories.\<close>

definition defer_args :: validate_args where
  "defer_args = proceed\<lparr>a_recommendation := None, a_check_id := Some ''c'',
     a_disposition := Some DEFERRED_NONDETERMINISTIC_STATUS,
     a_envelope := Some (quoted (''{`valid`: false, `summary`: `s`, `issues`: [], `failed_checks`: [`c`], ''
       @ ''`disposition`: {`kind`: `deferred_nondeterministic`, `check_id`: `c`}}''))\<rparr>"

section \<open>Fetching the next step\<close>

definition fetchable :: "step_state \<Rightarrow> bool" where
  "fetchable st = (case pending_steps st of [] \<Rightarrow> False
     | p # _ \<Rightarrow> p \<noteq> ''1.56'' \<and> (tdd_mode st \<or> p \<notin> {''2.25'', ''2.26''}))"

lemma fetchable_noop: "fetchable st \<Longrightarrow> skip_tdd_phases (skip_choose_mode st) = st"
  by (auto simp: fetchable_def skip_choose_mode_def skip_tdd_phases_def Let_def split: list.splits)

lemma no_mode_after_tests:
  assumes "pending_ok (sk @ p # ps)" "sk \<noteq> []" "set sk \<subseteq> {''2.25'', ''2.26''}"
  shows "p \<noteq> ''1.56''"
proof
  assume "p = ''1.56''"
  have "subseq [last sk, p] (sk @ p # ps)"
    using assms(2) by (metis append_butlast_last_id append_Cons append_Nil append_assoc list_emb_append2
        subseq_order.order_refl subseq_Cons2 subseq_append_iff list_emb_Nil)
  then have "pending_ok [last sk, p]" using assms(1) by (rule pending_sub)
  moreover have "last sk \<in> {''2.25'', ''2.26''}" using assms(2,3) by (meson last_in_set subset_code(1))
  ultimately show False using \<open>p = ''1.56''\<close> by (auto simp: pending_ok_def TDD_STEP_ORDER_def)
qed

lemma skip_loops_fetchable:
  assumes "pending_ok (pending_steps st)" "pending_steps (skip_tdd_phases (skip_choose_mode st)) \<noteq> []"
  shows "fetchable (skip_tdd_phases (skip_choose_mode st))"
proof -
  let ?st = "skip_choose_mode st"
  define sk where "sk = takeWhile (\<lambda>s. s = ''2.25'' \<or> s = ''2.26'') (pending_steps ?st)"
  have p1: "pending_steps ?st = dropWhile (\<lambda>s. s = ''1.56'') (pending_steps st)"
    by (auto simp: skip_choose_mode_def Let_def dropWhile_eq_drop)
  have ok: "pending_ok (pending_steps ?st)"
    using assms(1) by (simp add: skip_choose_mode_def Let_def)
  show ?thesis
  proof (cases "tdd_mode ?st \<or> sk = []")
    case True
    then have e: "skip_tdd_phases ?st = ?st" by (auto simp: skip_tdd_phases_def sk_def Let_def)
    then obtain p ps where c: "pending_steps ?st = p # ps" using assms(2) by (metis neq_Nil_conv)
    then have "p \<noteq> ''1.56''" using p1 hd_dropWhile [of "\<lambda>s. s = ''1.56''" "pending_steps st"] by simp
    with True c e show ?thesis by (auto simp: fetchable_def sk_def split: if_splits)
  next
    case False
    then have pe: "pending_steps (skip_tdd_phases ?st)
        = dropWhile (\<lambda>s. s = ''2.25'' \<or> s = ''2.26'') (pending_steps ?st)"
      by (simp add: skip_tdd_phases_def sk_def Let_def dropWhile_eq_drop)
    then obtain p ps where c: "dropWhile (\<lambda>s. s = ''2.25'' \<or> s = ''2.26'') (pending_steps ?st) = p # ps"
      using assms(2) by (metis neq_Nil_conv)
    then have "pending_steps ?st = sk @ p # ps" 
      using takeWhile_dropWhile_id [of "\<lambda>s. s = ''2.25'' \<or> s = ''2.26''" "pending_steps ?st"]
      by (simp add: sk_def)
    moreover have "set sk \<subseteq> {''2.25'', ''2.26''}" unfolding sk_def using set_takeWhileD by fastforce
    ultimately have "p \<noteq> ''1.56''" using no_mode_after_tests [of sk p ps] ok False by simp
    moreover have "p \<notin> {''2.25'', ''2.26''}"
      using c hd_dropWhile [of "\<lambda>s. s = ''2.25'' \<or> s = ''2.26''" "pending_steps ?st"] by simp
    ultimately show ?thesis using pe c by (simp add: fetchable_def)
  qed
qed

lemma skip_loops_frame [simp]:
  "workflow_status (skip_tdd_phases (skip_choose_mode st)) = workflow_status st"
  by (simp add: skip_tdd_phases_def skip_choose_mode_def Let_def)

text \<open>A step that has been handed out is in the saved state, and handing it out again is a no-op.\<close>

lemma return_step_again:
  assumes "fetchable st" "return_step h st d = (r, d')"
    "workflow_status st \<notin> {''WORKFLOW_COMPLETE'', ''CONTRACT_READY''}"
  shows "get_next_step e h d' = (r, d')"
    "\<exists>i ph ins sid prog prog' w. r = NextStep i ph ins sid prog w \<and> peek_current_step e d' = NextStep i ph [] sid prog' False"
proof -
  obtain p ps where p: "pending_steps st = p # ps" using assms(1) by (auto simp: fetchable_def split: list.splits)
  let ?st = "st\<lparr>current_step_id := p, current_step_phase := step_phase ''UNKNOWN'' p\<rparr>"
  have d': "d' = save ?st d" using assms(2) p by (auto simp: return_step_def Let_def)
  have f: "fetchable ?st" using assms(1) p by (simp add: fetchable_def)
  have sel: "current_subtask_id ?st = current_subtask_id st" "tdd_mode ?st = tdd_mode st"
    "retry_quarantine_paths ?st = retry_quarantine_paths st" "retry_isolation_status ?st = retry_isolation_status st"
    by simp_all
  have i: "get_step_instruction p ?st = get_step_instruction p st"
    unfolding get_step_instruction_def actor_step_instruction_def sel ..
  have "return_step h ?st d' = (r, d')"
    using assms(2) p i by (auto simp: return_step_def Let_def d' save_def research_skip_warning_def subtask_progress_def)
  then show "get_next_step e h d' = (r, d')"
    using assms(3) p fetchable_noop [OF f] by (simp add: get_next_step_def d')
  show "\<exists>i ph ins sid prog prog' w. r = NextStep i ph ins sid prog w \<and> peek_current_step e d' = NextStep i ph [] sid prog' False"
    using assms(2,3) p by (auto simp: return_step_def Let_def d' peek_current_step_def step_phase_def split: option.splits)
qed

text \<open>
  Fetching the next step is stable: in a coherent branch, once a step has been
  handed out the same request gives the same step, instruction and warning and changes nothing,
  and the read-only peek names the same step, phase and subtask.
\<close>

theorem next_step_is_stable:
  assumes "branch_ok d" and "get_next_step e h d = (NextStep i ph ins sid prog w, d')"
  shows "get_next_step e' h d' = (NextStep i ph ins sid prog w, d')
    \<and> (\<exists>prog'. peek_current_step e' d' = NextStep i ph [] sid prog' False)"
proof -
  define st where "st = skip_tdd_phases (skip_choose_mode (load e d))"
  define d1 where "d1 = (if st = load e d then d else save st d)"
  have ok: "pending_ok (pending_steps (load e d))" using load_ok [OF assms(1)] by (simp add: state_ok_def)
  have ws: "workflow_status st \<notin> {''WORKFLOW_COMPLETE'', ''CONTRACT_READY''}"
    using assms(2) by (auto simp: get_next_step_def st_def Let_def split: if_splits)
  have "\<exists>st' d2. fetchable st' \<and> workflow_status st' = workflow_status st
      \<and> return_step h st' d2 = (NextStep i ph ins sid prog w, d')"
  proof (cases "pending_steps st = []")
    case False
    then have "return_step h st d1 = (NextStep i ph ins sid prog w, d')"
      using assms(2) ws unfolding get_next_step_def Let_def st_def [symmetric] d1_def [symmetric]
      by (simp add: st_def)
    with skip_loops_fetchable [OF ok] False show ?thesis by (auto simp: st_def)
  next
    case True
    then have n: "next_of_subtask h (load_blueprint_deps (blueprint_file d)) st d1
        = (NextStep i ph ins sid prog w, d')"
      using assms(2) ws unfolding get_next_step_def Let_def st_def [symmetric] d1_def [symmetric]
      by (simp add: st_def)
    then obtain dm where dm: "load_blueprint_deps (blueprint_file d) = Some dm" "has_more_subtasks st"
      by (auto simp: next_of_subtask_def split: if_splits option.splits)
    show ?thesis
    proof (cases rule: advance_search_cases [of dm st])
      case (ready k sk)
      let ?st = "enter_subtask k (mark_deferred sk st)"
      have "fetchable ?st"
        by (cases "tdd_mode st") (simp_all add: fetchable_def steps_from_research_def get_step_order_def
            STEP_ORDER_def TDD_STEP_ORDER_def index_of_def)
      with n dm ready show ?thesis by (auto simp: next_of_subtask_def)
    qed (use n dm in \<open>auto simp: next_of_subtask_def\<close>)
  qed
  then obtain st' d2 where "fetchable st'" "return_step h st' d2 = (NextStep i ph ins sid prog w, d')"
    "workflow_status st' \<notin> {''WORKFLOW_COMPLETE'', ''CONTRACT_READY''}" using ws by auto
  from return_step_again [OF this] show ?thesis by auto
qed

theorem next_step_is_stable_witness:
  "\<exists>d' ins prog. get_next_step bare_env (\<lambda>_. False) two_subtasks = (NextStep ''1.0'' ''DECOMPOSE'' ins (Some ''ST-1'') prog False, d')
     \<and> get_next_step bare_env (\<lambda>_. False) d' = (NextStep ''1.0'' ''DECOMPOSE'' ins (Some ''ST-1'') prog False, d')"
proof -
  have "branch_ok two_subtasks"
    unfolding two_subtasks_def by (intro setting_subtasks.keeps initializing.keeps) (simp add: branch_ok_def bare_dir_def)
  moreover have "case fst (get_next_step bare_env (\<lambda>_. False) two_subtasks) of
      NextStep i ph ins sid prog w \<Rightarrow> i = ''1.0'' \<and> ph = ''DECOMPOSE'' \<and> sid = Some ''ST-1'' \<and> \<not> w | _ \<Rightarrow> False"
    by code_simp
  then obtain ins prog d' where "get_next_step bare_env (\<lambda>_. False) two_subtasks
      = (NextStep ''1.0'' ''DECOMPOSE'' ins (Some ''ST-1'') prog False, d')"
    by (cases "get_next_step bare_env (\<lambda>_. False) two_subtasks") (auto split: next_response.splits)
  ultimately show ?thesis using next_step_is_stable by blast
qed

end
