(* ===== verification/Orch_Retry.thy ===== *)
theory Orch_Retry
  imports Orch_Inv
begin

text \<open>
  Retries after a Monitor failure: every failure is counted, the budget runs out after exactly
  \<^verbatim>\<open>max_retries\<close> of them, the second and later retries are isolated by a quarantine record, and
  the feedback reaches the Actor whole.
\<close>

section \<open>One failure\<close>

definition retryable :: "step_state \<Rightarrow> bool" where
  "retryable st = (current_step_phase st \<in> {''MONITOR'', ''ACTOR'', ''APPLY'', ''TEST_WRITER''})"

lemma isolation_frame:
  assumes "record_retry_isolation sid n fb feedback st d = (r, st', d')"
  shows "retry_count st' = retry_count st" "max_retries st' = max_retries st"
    "pending_steps st' = pending_steps st" "current_step_phase st' = current_step_phase st"
    "current_step_id st' = current_step_id st" "other_files d' = other_files d"
    "subtask_sequence st' = subtask_sequence st" "subtask_index st' = subtask_index st"
  using assms by (auto simp: record_retry_isolation_def write_retry_quarantine_def Let_def split: if_splits)

definition retry_key :: "step_state \<Rightarrow> string" where
  "retry_key st = (case nonempty (current_subtask_id st) of None \<Rightarrow> ''workflow'' | Some s \<Rightarrow> s)"

lemma isolation_quarantine:
  assumes "record_retry_isolation (current_subtask_id st) n fb feedback st1 d = ((level, q), st', d')"
  shows "level = (if 2 \<le> n then ''clean_retry_required'' else ''normal_retry'')
    \<and> q = (if 2 \<le> n then Some QUARANTINE_PATH else None)
    \<and> dict_get (retry_isolation_status st') (retry_key st) = Some level
    \<and> (2 \<le> n \<longrightarrow> (\<exists>summ. \<lparr>q_subtask_id = retry_key st, q_retry_count = n, q_summary = summ, q_feedback_file = fb\<rparr>
          \<in> set (quarantines d')))"
  using assms
  by (auto simp: record_retry_isolation_def write_retry_quarantine_def retry_key_def Let_def alist.get_put split: if_splits)

text \<open>What a failure does to the counters, in both outcomes.\<close>

lemma monitor_failed_counts:
  assumes "retryable (load e d)"
  shows "retry_count (load e' (snd (monitor_failed e fb d))) = retry_count (load e d) + 1"
    "max_retries (load e' (snd (monitor_failed e fb d))) = max_retries (load e d)"
    "retryable (load e' (snd (monitor_failed e fb d)))"
    "(\<exists>n limit f level q. fst (monitor_failed e fb d) = Inr (Retrying n limit f level q))
     \<longleftrightarrow> retry_count (load e d) < max_retries (load e d)"
    "\<exists>st. step_file (snd (monitor_failed e fb d)) = Parsed st"
  using assms
  by (auto simp: monitor_failed_def Let_def retryable_def check_retry_limit_def split: prod.splits
      dest: isolation_frame)

section \<open>Properties\<close>

text \<open>
  Claim C15. A retry is bounded, complete and isolated: an answer to try again stays within the
  limit, sends the workflow back to the Actor and the Monitor, and from the second retry on
  demands a clean context and leaves a quarantine record for the subtask; an answer that the
  limit is reached means the limit is exceeded, and changes nothing but the count.
\<close>

theorem retry_is_bounded_and_isolated:
  assumes "monitor_failed e feedback d = (Inr r, d')"
  shows "case r of
      Retrying n limit fb level q \<Rightarrow>
        n = retry_count (load e d) + 1 \<and> n \<le> limit \<and> limit = max_retries (load e d)
        \<and> retry_count (load e d') = n \<and> pending_steps (load e d') = [''2.3'', ''2.4'']
        \<and> current_step_id (load e d') = ''2.3'' \<and> current_step_phase (load e d') = ''ACTOR''
        \<and> (if 2 \<le> n
           then level = ''clean_retry_required'' \<and> q = Some QUARANTINE_PATH
             \<and> (\<exists>summ. \<lparr>q_subtask_id = retry_key (load e d), q_retry_count = n, q_summary = summ,
                          q_feedback_file = fb\<rparr> \<in> set (quarantines d'))
           else level = ''normal_retry'' \<and> q = None)
    | MaxRetries n limit \<Rightarrow>
        n = retry_count (load e d) + 1 \<and> limit < n \<and> limit = max_retries (load e d)
        \<and> d' = save ((load e d)\<lparr>retry_count := n\<rparr>) d"
proof -
  let ?st = "load e d"
  let ?n = "retry_count ?st + 1"
  let ?st2 = "?st\<lparr>retry_count := ?n, pending_steps := [''2.3'', ''2.4''], current_step_id := ''2.3'',
    current_step_phase := ''ACTOR''\<rparr>"
  show ?thesis
  proof (cases "check_retry_limit ?n (max_retries ?st)")
    case True
    with assms show ?thesis by (auto simp: monitor_failed_def Let_def check_retry_limit_def split: if_splits)
  next
    case False
    obtain f d1 where w: "write_feedback_file (''monitor_feedback_retry'' @ show_nat ?n @ ''.md'')
        (''Monitor Feedback (retry '' @ show_nat ?n @ '')'') (filter_blocker_retry_feedback feedback) d = (f, d1)"
      by fastforce
    obtain level q st3 d2 where i: "record_retry_isolation (current_subtask_id ?st) ?n f
        (filter_blocker_retry_feedback feedback) ?st2 d1 = ((level, q), st3, d2)"
      by (metis prod.collapse)
    have "r = Retrying ?n (max_retries ?st) f level q" "d' = save st3 d2"
      using assms False w i by (auto simp: monitor_failed_def Let_def split: if_splits)
    with isolation_frame [OF i] isolation_quarantine [OF i] False show ?thesis
      by (auto simp: check_retry_limit_def)
  qed
qed

definition failing :: branch_dir where
  "failing = save ((plan_state [''ST-1''] 0)\<lparr>current_step_id := ''2.4'', current_step_phase := ''MONITOR'',
     pending_steps := [''2.4''], retry_count := 1\<rparr>) bare_dir"

theorem retry_is_bounded_and_isolated_witness:
  "\<exists>f d' summ. monitor_failed bare_env ''critical'' failing
      = (Inr (Retrying 2 5 (Some f) ''clean_retry_required'' (Some QUARANTINE_PATH)), d')
    \<and> \<lparr>q_subtask_id = ''ST-1'', q_retry_count = 2, q_summary = summ, q_feedback_file = Some f\<rparr> \<in> set (quarantines d')"
proof -
  have "case fst (monitor_failed bare_env ''critical'' failing) of
      Inr (Retrying n m f l q) \<Rightarrow> n = 2 \<and> m = 5 \<and> f \<noteq> None \<and> l = ''clean_retry_required'' \<and> q = Some QUARANTINE_PATH
    | _ \<Rightarrow> False" by code_simp
  then obtain f d' where m: "monitor_failed bare_env ''critical'' failing
      = (Inr (Retrying 2 5 (Some f) ''clean_retry_required'' (Some QUARANTINE_PATH)), d')"
    by (cases "monitor_failed bare_env ''critical'' failing") (auto split: sum.splits retry_response.splits)
  have "retry_key (load bare_env failing) = ''ST-1''" by code_simp
  with retry_is_bounded_and_isolated [OF m] m show ?thesis by auto
qed

fun failures :: "(orch_env \<times> string) list \<Rightarrow> branch_dir \<Rightarrow> branch_dir" where
  "failures [] d = d"
| "failures ((e, fb) # fs) d = failures fs (snd (monitor_failed e fb d))"

text \<open>
  Claim C16. The retry budget runs out: from a state in a retryable phase, after any number of
  Monitor failures in a row, with any feedback and at any times, the count has grown by that
  number, and the next failure is answered with another retry exactly while the budget of
  \<^verbatim>\<open>max_retries\<close> is not used up.
\<close>

theorem retries_run_out:
  assumes "step_file d = Parsed st" and "retryable st"
  shows "retry_count (load e (failures fs d)) = retry_count st + length fs
    \<and> ((\<exists>n limit f level q. fst (monitor_failed e fb (failures fs d)) = Inr (Retrying n limit f level q))
       \<longleftrightarrow> retry_count st + length fs < max_retries st)"
  using assms
proof (induction fs arbitrary: d st)
  case Nil
  then have "load e d = st" by (simp add: load_def)
  with Nil monitor_failed_counts(4) [of e d fb] show ?case by simp
next
  case (Cons x fs)
  obtain e1 fb1 where x: "x = (e1, fb1)" by fastforce
  have l: "load e1 d = st" using Cons.prems by (simp add: load_def)
  obtain st1 where "step_file (snd (monitor_failed e1 fb1 d)) = Parsed st1"
    using monitor_failed_counts(5) [of e1 d fb1] Cons.prems(2) l by auto
  moreover have "retry_count st1 = retry_count st + 1" "max_retries st1 = max_retries st" "retryable st1"
    using monitor_failed_counts(1,2,3) [of e1 d e1 fb1] Cons.prems(2) l calculation by (auto simp: load_def)
  ultimately show ?case using Cons.IH [of "snd (monitor_failed e1 fb1 d)" st1] x by simp
qed

theorem retries_run_out_witness:
  "(\<exists>n limit f level q. fst (monitor_failed bare_env ''x'' (failures (replicate 3 (bare_env, ''y'')) failing))
      = Inr (Retrying n limit f level q))
   \<and> \<not> (\<exists>n limit f level q. fst (monitor_failed bare_env ''x'' (failures (replicate 4 (bare_env, ''y'')) failing))
      = Inr (Retrying n limit f level q))"
proof -
  let ?st = "(plan_state [''ST-1''] 0)\<lparr>current_step_id := ''2.4'', current_step_phase := ''MONITOR'',
     pending_steps := [''2.4''], retry_count := 1\<rparr>"
  have "step_file failing = Parsed ?st" by (simp add: failing_def)
  moreover have "retryable ?st" by (simp add: retryable_def)
  moreover have "max_retries ?st = 5" by (simp add: plan_state_def StepState_def)
  ultimately show ?thesis
    using retries_run_out [of failing ?st bare_env "replicate 3 (bare_env, ''y'')" "''x''"]
      retries_run_out [of failing ?st bare_env "replicate 4 (bare_env, ''y'')" "''x''"]
    by simp
qed

section \<open>Feedback\<close>

lemma join_last: "\<exists>u. join sep (xs @ [x]) = u @ x"
proof (induction xs)
  case (Cons y ys)
  then obtain u where u: "join sep (ys @ [x]) = u @ x" by blast
  obtain z zs where "ys @ [x] = z # zs" by (cases ys) auto
  with u have "join sep ((y # ys) @ [x]) = (y @ sep @ u) @ x" by simp
  then show ?case by blast
qed simp

lemma filter_feedback_whole:
  assumes "strip fb \<noteq> []"
  shows "\<exists>u v. filter_blocker_retry_feedback fb = u @ rstrip fb @ v"
proof -
  let ?kept = "map rstrip (filter (\<lambda>l. strip l \<noteq> [] \<and> is_blocker_feedback_line l) (splitlines fb))"
  show ?thesis
  proof (cases "?kept = []")
    case True
    then have "filter_blocker_retry_feedback fb
        = (NO_BLOCKER_HEADER @ NEWLINE @ NEWLINE) @ rstrip fb @ (NEWLINE @ NEWLINE @ NO_BLOCKER_FOOTER)"
      using assms by (simp add: filter_blocker_retry_feedback_def)
    then show ?thesis by blast
  next
    case False
    let ?xs = "[''BLOCKER feedback forwarded to Actor retry:''] @ ?kept
      @ [[], ''Actor may re-add or expand code only by naming the BLOCKER item it addresses.'',
         [], ''Full Monitor feedback:'']"
    have "filter_blocker_retry_feedback fb = join NEWLINE (?xs @ [rstrip fb])"
      using assms False unfolding filter_blocker_retry_feedback_def Let_def by (simp only: if_False if_True simp_thms append_assoc append_Cons append_Nil)
    then show ?thesis using join_last [of NEWLINE ?xs "rstrip fb"] by (metis append_Nil2)
  qed
qed

lemma strip_Nil_iff: "strip s = [] \<longleftrightarrow> list_all is_space s"
  by (auto simp: strip_def rstrip_def lstrip_def list_all_iff dropWhile_eq_Nil_conv)
    (metis Un_iff set_append set_takeWhileD takeWhile_dropWhile_id, metis set_dropWhileD)

lemma rstrip_split: "\<exists>w. s = rstrip s @ w \<and> list_all is_space w"
proof -
  have "rev s = takeWhile is_space (rev s) @ dropWhile is_space (rev s)" by simp
  then have "s = rstrip s @ rev (takeWhile is_space (rev s))"
    unfolding rstrip_def by (metis rev_append rev_rev_ident)
  moreover have "list_all is_space (rev (takeWhile is_space (rev s)))"
    by (auto simp: list_all_iff dest: set_takeWhileD)
  ultimately show ?thesis by blast
qed

lemma strip_mono_nonblank: "strip s \<noteq> [] \<Longrightarrow> t = u @ rstrip s @ v \<Longrightarrow> strip t \<noteq> []"
  using rstrip_split [of s] by (auto simp: strip_Nil_iff) (metis list_all_append)

text \<open>
  Feedback reaches the Actor whole: a Monitor failure with non-blank feedback that is
  answered with a retry writes a file for this retry that contains the complete feedback, up
  to white space at its end.
\<close>

theorem feedback_is_forwarded_whole:
  assumes "monitor_failed e feedback d = (Inr (Retrying n limit fb level q), d')" and "strip feedback \<noteq> []"
  shows "\<exists>name u v. fb = Some name \<and> name = ''monitor_feedback_retry'' @ show_nat n @ ''.md''
    \<and> dict_get (other_files d') name = Some (u @ rstrip feedback @ v)"
proof -
  let ?st = "load e d"
  let ?n = "retry_count ?st + 1"
  let ?fb = "filter_blocker_retry_feedback feedback"
  let ?name = "''monitor_feedback_retry'' @ show_nat ?n @ ''.md''"
  let ?st2 = "?st\<lparr>retry_count := ?n, pending_steps := [''2.3'', ''2.4''], current_step_id := ''2.3'',
    current_step_phase := ''ACTOR''\<rparr>"
  obtain f d1 where w: "write_feedback_file ?name (''Monitor Feedback (retry '' @ show_nat ?n @ '')'') ?fb d = (f, d1)"
    by fastforce
  obtain lv qq st3 d2 where i: "record_retry_isolation (current_subtask_id ?st) ?n f ?fb ?st2 d1 = ((lv, qq), st3, d2)"
    by (metis prod.collapse)
  have r: "n = ?n" "fb = f" "d' = save st3 d2"
    using assms(1) w i by (auto simp: monitor_failed_def Let_def split: if_splits)
  obtain u v where uv: "?fb = u @ rstrip feedback @ v" using filter_feedback_whole [OF assms(2)] by blast
  have "strip ?fb \<noteq> []" using strip_mono_nonblank [OF assms(2) uv] .
  then have "f = Some ?name" "dict_get (other_files d1) ?name
      = Some ((''# '' @ (''Monitor Feedback (retry '' @ show_nat ?n @ '')'') @ NEWLINE @ NEWLINE @ u) @ rstrip feedback @ (v @ NEWLINE))"
    using w uv by (auto simp: write_feedback_file_def alist.get_put)
  with r isolation_frame(6) [OF i] show ?thesis by (metis save_frame(3))
qed

theorem feedback_is_forwarded_whole_witness:
  "\<exists>f d' u v. snd (monitor_failed bare_env '' see line 3 '' failing) = d'
     \<and> dict_get (other_files d') f = Some (u @ '' see line 3'' @ v)"
proof -
  have "case fst (monitor_failed bare_env '' see line 3 '' failing) of Inr (Retrying n m f l q) \<Rightarrow> True | _ \<Rightarrow> False"
    by code_simp
  then obtain n m f l q d' where r: "monitor_failed bare_env '' see line 3 '' failing = (Inr (Retrying n m f l q), d')"
    by (cases "monitor_failed bare_env '' see line 3 '' failing") (auto split: sum.splits retry_response.splits)
  have "strip '' see line 3 '' \<noteq> []" "rstrip '' see line 3 '' = '' see line 3''" by (code_simp, code_simp)
  with feedback_is_forwarded_whole [OF r] r show ?thesis by auto
qed

end
