(* ===== verification/Orch_Lifecycle.thy ===== *)
theory Orch_Lifecycle
  imports Orch_Inv
begin

text \<open>
  Setting up, switching, restoring and retiring a workflow: the subtask sequence is sorted or
  the command is refused, concurrency needs every consent, a restored item moves without loss,
  and a finished workflow is archived rather than overwritten.
\<close>

section \<open>The subtask sequence\<close>

lemma no_deps_ordered: "ordered ids [] out" "acyclic (dep_edges ids [])"
  by (simp_all add: ordered_def in_deps_def deps_of_def dep_edges_def acyclic_def)

text \<open>
  Setting the subtasks is all or nothing: from well-formed distinct identifiers and
  acyclic dependencies the command stores a permutation in dependency order, the given order
  when that is one already, with the cursor on its first subtask; with a cycle it reports
  subtasks involved and changes nothing.
\<close>

theorem set_subtasks_sorts:
  assumes "normalize_subtask_ids raw = Inr ids" "ids \<noteq> []" "distinct ids"
    and "load_blueprint_deps (blueprint_file d) = Some dm"
  shows "if acyclic (dep_edges ids dm)
    then \<exists>out. set_subtasks e raw d = (Inr (out, out \<noteq> ids),
           save ((load e d)\<lparr>subtask_sequence := out, current_subtask_id := Some (hd out), subtask_index := 0\<rparr>) d)
         \<and> distinct out \<and> set out = set ids \<and> ordered ids dm out \<and> (ordered ids dm ids \<longrightarrow> out = ids)
    else \<exists>bad. set_subtasks e raw d = (Inl (DependencyCycle bad), d) \<and> bad \<noteq> [] \<and> set bad \<subseteq> set ids"
proof (cases "dm = []")
  case True
  with assms no_deps_ordered show ?thesis by (simp add: set_subtasks_def)
next
  case False
  show ?thesis
  proof (cases rule: topological_sort_cases [OF assms(3), of dm])
    case (1 out)
    then have "ordered ids dm ids \<longrightarrow> out = ids" using sort_stable [OF assms(3), of dm] by auto
    with 1 False assms show ?thesis by (simp add: set_subtasks_def)
  next
    case (2 bad)
    with False assms show ?thesis by (simp add: set_subtasks_def)
  qed
qed

definition forward_dep :: branch_dir where
  "forward_dep = bare_dir\<lparr>blueprint_file := Parsed (JObj [(''subtasks'', JList
     [JObj [(''id'', JStr ''ST-1''), (''dependencies'', JList [JStr ''ST-2''])], JObj [(''id'', JStr ''ST-2'')]])])\<rparr>"

theorem set_subtasks_sorts_witness:
  "if acyclic (dep_edges [''ST-1'', ''ST-2''] [(''ST-1'', [''ST-2'']), (''ST-2'', [])])
   then \<exists>out d'. set_subtasks bare_env [''ST-1 ST-2''] forward_dep = (Inr (out, out \<noteq> [''ST-1'', ''ST-2'']), d')
     \<and> set out = {''ST-1'', ''ST-2''}
   else \<exists>bad. set_subtasks bare_env [''ST-1 ST-2''] forward_dep = (Inl (DependencyCycle bad), forward_dep)"
proof -
  have "normalize_subtask_ids [''ST-1 ST-2''] = Inr [''ST-1'', ''ST-2'']" by code_simp
  moreover have "load_blueprint_deps (blueprint_file forward_dep) = Some [(''ST-1'', [''ST-2'']), (''ST-2'', [])]"
    by code_simp
  ultimately show ?thesis
    using set_subtasks_sorts [of "[''ST-1 ST-2'']" "[''ST-1'', ''ST-2'']" forward_dep _ bare_env]
    by (auto split: if_splits)
qed

section \<open>Concurrency\<close>

text \<open>
  Concurrent dispatch needs every consent at once: no sequential-only switch, a
  configuration that asks for it with waves and worktree isolation on, and a current wave of at
  least two subtasks. Otherwise the answer is sequential or an error, and a batch is reported
  as concurrent only under this gate.
\<close>

theorem concurrency_needs_every_consent:
  "(compute_dispatch_gate e d = Some ConcurrentGated \<longleftrightarrow>
     \<not> sequential_only_env (sequential_only e)
     \<and> (\<exists>wave_mode isolation. runner_config e = Some (wave_mode, isolation, True)
          \<and> wave_mode \<in> {''on'', ''auto''} \<and> isolation \<in> {''auto'', ''required''})
     \<and> current_wave_index (load e d) < length (execution_waves (load e d))
     \<and> 2 \<le> length (execution_waves (load e d) ! current_wave_index (load e d)))
   \<and> (\<forall>par i n subs gate isolated. get_wave_step e d = Some (WaveBatch par i n subs True gate isolated)
        \<longrightarrow> compute_dispatch_gate e d = Some ConcurrentGated)"
proof -
  have "current_wave_index (load e d) < length (execution_waves (load e d)) \<Longrightarrow>
      2 \<le> length (execution_waves (load e d) ! current_wave_index (load e d)) \<Longrightarrow>
      list_ex (\<lambda>g. 2 \<le> length g) (execution_waves (load e d))"
    by (auto simp: list_ex_iff intro: nth_mem bexI [of _ "execution_waves (load e d) ! current_wave_index (load e d)"])
  moreover have "get_wave_step e d = Some (WaveBatch par i n subs True gate isolated) \<Longrightarrow>
      compute_dispatch_gate e d = Some ConcurrentGated" for par i n subs gate isolated
    by (auto simp: get_wave_step_def is_concurrent_def Let_def split: option.splits if_splits)
  ultimately show ?thesis
    by (auto simp: compute_dispatch_gate_def select_execution_strategy_def Let_def not_less not_le
        split: option.splits if_splits prod.splits)
qed

definition parallel_env :: orch_env where
  "parallel_env = bare_env\<lparr>runner_config := Some (''auto'', ''required'', True)\<rparr>"

definition parallel_dir :: branch_dir where
  "parallel_dir = save ((StepState [])\<lparr>execution_waves := [[''ST-1''], [''ST-2'', ''ST-3'']], current_wave_index := 1\<rparr>) bare_dir"

theorem concurrency_needs_every_consent_witness:
  "compute_dispatch_gate parallel_env parallel_dir = Some ConcurrentGated"
proof -
  have "\<not> sequential_only_env (sequential_only parallel_env)" by code_simp
  moreover have "runner_config parallel_env = Some (''auto'', ''required'', True)"
    by (simp add: parallel_env_def)
  ultimately show ?thesis
    using concurrency_needs_every_consent [of parallel_env parallel_dir] by (simp add: parallel_dir_def)
qed

section \<open>Retiring\<close>

text \<open>
  Claim C17. History is kept: archiving refuses a workflow in flight and changes nothing; a
  finished one is moved under a new name, unchanged, every earlier archive stays, and the branch
  is left without an active state. Starting a new workflow archives a finished one in the same
  way first. (The microsecond name is taken to be free, as the source assumes.)
\<close>

theorem archive_keeps_history:
  assumes "step_file d \<noteq> Absent"
    and "dict_get (retired d) (''step_state.completed-'' @ stamp_micros e @ ''.json'') = None"
  shows "if is_workflow_complete (load e d)
    then \<exists>n d1. archive_completed_workflow e d = (Inr (Retired n), d1) \<and> step_file d1 = Absent
         \<and> dict_get (retired d) n = None \<and> dict_get (retired d1) n = Some (step_file d)
         \<and> (\<forall>m v. dict_get (retired d) m = Some v \<longrightarrow> dict_get (retired d1) m = Some v)
         \<and> initialize_workflow e d = (Some n, save (StepState (iso_now e)) d1)
    else archive_completed_workflow e d = (Inl (InFlight (current_step_phase (load e d)) (workflow_status (load e d))), d)"
proof (cases "is_workflow_complete (load e d)")
  case True
  let ?n = "retired_name e ''completed'' d"
  have f: "dict_get (retired d) ?n = None" using assms(2) by (simp add: retired_name_def Let_def)
  have a: "archive_completed_workflow e d
      = (Inr (Retired ?n), d\<lparr>step_file := Absent, retired := dict_set ?n (step_file d) (retired d)\<rparr>)"
    using True assms(1) by (simp add: archive_completed_workflow_def retire_def Let_def)
  with True assms(1) f show ?thesis
    by (auto simp: initialize_workflow_def alist.get_put)
next
  case False
  with assms(1) show ?thesis by (simp add: archive_completed_workflow_def Let_def)
qed

definition finished :: branch_dir where
  "finished = save (complete_workflow bare_env (plan_state [''ST-1''] 0)) bare_dir"

theorem archive_keeps_history_witness:
  "\<exists>n d1. archive_completed_workflow bare_env finished = (Inr (Retired n), d1)
     \<and> dict_get (retired d1) n = Some (step_file finished)"
proof -
  have "step_file finished \<noteq> Absent" "dict_get (retired finished) m = None" for m
    by (simp_all add: finished_def bare_dir_def)
  moreover have "is_workflow_complete (load bare_env finished)" by code_simp
  ultimately show ?thesis using archive_keeps_history [of finished bare_env] by auto
qed

section \<open>Restoring a parked item\<close>

lemma jget_jset: "jget k (jset k' v (JObj kvs)) = (if k = k' then Some v else jget k (JObj kvs))"
  by (simp add: alist.get_put)

lemma first_index_Some: "first_index P xs = Some i \<Longrightarrow> i < length xs \<and> P (xs ! i)"
  using nth_length_takeWhile [of "\<lambda>x. \<not> P x" xs] by (auto simp: first_index_def Let_def split: if_splits)

text \<open>The arrays of the body after both of them have been replaced, wherever the body sits.\<close>

lemma restore_arrays_put:
  assumes "is_obj payload" "restore_arrays (blueprint_body payload) = Inr (sts, items)"
  shows "restore_arrays (blueprint_body (put_body payload
      (jset ''subtasks'' (JList sts') (jset ''deferred_yagni'' (JList items') (blueprint_body payload))))) = Inr (sts', items')"
proof -
  obtain kvs where p: "payload = JObj kvs" using assms(1) by (auto simp: is_obj_def split: json.splits)
  have "\<exists>b. blueprint_body payload = JObj b"
    using p by (simp add: blueprint_body_def split: option.splits json.splits)
  then obtain b where b: "blueprint_body payload = JObj b" ..
  show ?thesis
    using b p
    by (auto simp: put_body_def restore_arrays_def blueprint_body_def alist.get_put split: option.splits json.splits)
qed

lemma restored_has_id: "has_id sid (restored_subtask_from_deferred item sid)"
  by (simp add: has_id_def is_obj_def restored_subtask_from_deferred_def Let_def)

lemma withdraw_frame [simp]:
  "blueprint_file (withdraw_approval e d) = blueprint_file d" "plan_file (withdraw_approval e d) = plan_file d"
  by (simp_all add: withdraw_approval_def)

lemma restore_okE:
  assumes "restore_deferred_yagni e item_id new_id d = (Inr (sid, updated), d')"
  obtains payload sts items i where "blueprint_file d = Parsed payload" "is_obj payload"
    "restore_arrays (blueprint_body payload) = Inr (sts, items)" "first_index (has_id (strip item_id)) items = Some i"
    "id_with_digits ''ST-'' sid" "\<not> list_ex (has_id sid) sts"
    "blueprint_file d' = Parsed (put_body payload (jset ''subtasks'' (JList (sts @ [restored_subtask_from_deferred (items ! i) sid]))
       (jset ''deferred_yagni'' (JList (take i items @ drop (Suc i) items)) (blueprint_body payload))))"
    "d' = withdraw_approval e (d\<lparr>blueprint_file := blueprint_file d', plan_file := plan_file d'\<rparr>)"
  using assms that
  by (auto simp: restore_deferred_yagni_def Let_def
      split: if_splits doc_file.splits sum.splits option.splits prod.splits)

text \<open>
  Restoring a parked item conserves the plan: the item leaves the parking lot, all
  other parked items and all subtasks stay in order, one new subtask with the reported
  identifier, which no subtask had, is appended, and an existing approval of the plan is
  withdrawn.
\<close>

theorem restore_conserves_items:
  assumes "restore_deferred_yagni e item_id new_id d = (Inr (sid, updated), d')"
  shows "\<exists>payload payload' sts before item after new.
    blueprint_file d = Parsed payload \<and> blueprint_file d' = Parsed payload'
    \<and> restore_arrays (blueprint_body payload) = Inr (sts, before @ item # after)
    \<and> restore_arrays (blueprint_body payload') = Inr (sts @ [new], before @ after)
    \<and> has_id (strip item_id) item \<and> has_id sid new \<and> \<not> list_ex (has_id sid) sts
    \<and> (step_file d = Absent \<or> \<not> plan_approved (load e d'))"
proof -
  from assms obtain payload sts items i where r: "blueprint_file d = Parsed payload" "is_obj payload"
    "restore_arrays (blueprint_body payload) = Inr (sts, items)" "first_index (has_id (strip item_id)) items = Some i"
    "\<not> list_ex (has_id sid) sts"
    "blueprint_file d' = Parsed (put_body payload (jset ''subtasks'' (JList (sts @ [restored_subtask_from_deferred (items ! i) sid]))
       (jset ''deferred_yagni'' (JList (take i items @ drop (Suc i) items)) (blueprint_body payload))))"
    "d' = withdraw_approval e (d\<lparr>blueprint_file := blueprint_file d', plan_file := plan_file d'\<rparr>)"
    by (rule restore_okE)
  have i: "i < length items" "has_id (strip item_id) (items ! i)" using first_index_Some [OF r(4)] by auto
  have split: "items = take i items @ items ! i # drop (Suc i) items" using i(1) by (simp add: id_take_nth_drop)
  have "step_file d = Absent \<or> \<not> plan_approved (load e d')"
    by (subst r(7)) (simp add: withdraw_approval_def)
  with r i split restore_arrays_put [OF r(2,3)] restored_has_id [of sid "items ! i"] show ?thesis by metis
qed

definition parked :: branch_dir where
  "parked = (save ((StepState [])\<lparr>plan_approved := True\<rparr>) bare_dir)\<lparr>blueprint_file := Parsed (JObj [(''subtasks'', JList
     [JObj [(''id'', JStr ''ST-007'')]]), (''deferred_yagni'', JList [JObj [(''id'', JStr ''YG-001'')],
       JObj [(''id'', JStr ''YG-002'')]])])\<rparr>"

theorem restore_conserves_items_witness:
  "\<not> plan_approved (load bare_env (snd (restore_deferred_yagni bare_env ''YG-002'' None parked)))"
proof -
  have "fst (restore_deferred_yagni bare_env ''YG-002'' None parked) = Inr (''ST-008'', False)" by code_simp
  then have "restore_deferred_yagni bare_env ''YG-002'' None parked
      = (Inr (''ST-008'', False), snd (restore_deferred_yagni bare_env ''YG-002'' None parked))"
    by (metis prod.collapse)
  moreover have "step_file parked \<noteq> Absent" by (simp add: parked_def)
  ultimately show ?thesis using restore_conserves_items by blast
qed

lemma subtask_number_id: "has_id i st \<Longrightarrow> id_with_digits ''ST-'' i \<Longrightarrow> subtask_number st = read_digits (drop 3 i)"
  by (auto simp: has_id_def is_obj_def subtask_number_def split: json.splits)

lemma foldl_max: "m \<le> foldl (\<lambda>m x. max m (f x)) m xs" "x \<in> set xs \<Longrightarrow> f x \<le> foldl (\<lambda>m x. max m (f x)) (m::nat) xs"
proof (induction xs arbitrary: m)
  case (Cons y ys)
  { case 1 show ?case using Cons.IH(1) [of "max m (f y)"] by auto }
  { case 2 then show ?case using Cons.IH(1) [of "max m (f y)"] Cons.IH(2) [of "max m (f y)"] by auto }
qed auto

lemma next_restored_id_new:
  "id_with_digits ''ST-'' (next_restored_subtask_id sts)" "\<not> list_ex (has_id (next_restored_subtask_id sts)) sts"
proof -
  let ?n = "foldl (\<lambda>m st. max m (subtask_number st)) 0 sts + 1"
  have i: "next_restored_subtask_id sts = ''ST-'' @ zfill 3 ?n" by (simp add: next_restored_subtask_id_def)
  have "3 \<le> length (zfill 3 ?n)" by (simp add: zfill_def)
  with i zfill_ok(1) [of 3 ?n] show id: "id_with_digits ''ST-'' (next_restored_subtask_id sts)"
    by (simp add: id_with_digits_def all_digits_def)
  show "\<not> list_ex (has_id (next_restored_subtask_id sts)) sts"
  proof
    assume "list_ex (has_id (next_restored_subtask_id sts)) sts"
    then obtain st where st: "st \<in> set sts" "has_id (next_restored_subtask_id sts) st" by (auto simp: list_ex_iff)
    have "subtask_number st = ?n" using subtask_number_id [OF st(2) id] i zfill_ok(2) [of 3 ?n] by simp
    with foldl_max(2) [OF st(1), of subtask_number 0] show False by simp
  qed
qed

text \<open>
  Without an explicit identifier a restore never fails for the identifier of the new
  subtask: the minted one is well formed and free, so a refusal is only ever about the item's
  identifier, the blueprint file, its arrays or an item that is not parked, and then nothing
  changes.
\<close>

theorem restore_mints_free_id:
  assumes "restore_deferred_yagni e item_id None d = (Inl er, d')"
  shows "d' = d \<and> er \<in> {BadItemId item_id, NoBlueprintFile, UnreadableBlueprint, BlueprintNotObject,
    SubtasksNotArray, DeferredNotArray, ItemNotFound (strip item_id)}"
  using assms next_restored_id_new
  by (auto simp: restore_deferred_yagni_def restore_arrays_def Let_def
      split: if_splits doc_file.splits sum.splits option.splits json.splits prod.splits)

theorem restore_mints_free_id_witness:
  "snd (restore_deferred_yagni bare_env ''YG-003'' None parked) = parked"
proof -
  have "fst (restore_deferred_yagni bare_env ''YG-003'' None parked) = Inl (ItemNotFound ''YG-003'')" by code_simp
  then have "restore_deferred_yagni bare_env ''YG-003'' None parked
      = (Inl (ItemNotFound ''YG-003''), snd (restore_deferred_yagni bare_env ''YG-003'' None parked))"
    by (metis prod.collapse)
  from restore_mints_free_id [OF this] show ?thesis by simp
qed

section \<open>Switching to tests first\<close>

lemma rebuild_sub: "subseq (rebuild_pending tdd ds ps) (get_step_order tdd)"
  by (auto simp: rebuild_pending_def Let_def intro: subseq_order.order_trans [OF subseq_filter_left subseq_drop]
      split: list.splits)

lemma rebuild_open: "s \<in> set (rebuild_pending tdd ds ps) \<Longrightarrow> s \<notin> set ds"
  by (auto simp: rebuild_pending_def Let_def split: list.splits if_splits)

lemma nth_in_drop: "n \<le> k \<Longrightarrow> k < length xs \<Longrightarrow> xs ! k \<in> set (drop n xs)"
  by (auto simp: in_set_conv_nth intro!: exI [of _ "k - n"])

lemma first_index_le: "k < length xs \<Longrightarrow> P (xs ! k) \<Longrightarrow> \<exists>i \<le> k. first_index P xs = Some i"
proof -
  assume k: "k < length xs" "P (xs ! k)"
  have "length (takeWhile (\<lambda>x. \<not> P x) xs) \<le> k"
  proof (rule ccontr)
    assume "\<not> ?thesis"
    then have l: "k < length (takeWhile (\<lambda>x. \<not> P x) xs)" by simp
    from nth_mem [OF l] have "\<not> P (takeWhile (\<lambda>x. \<not> P x) xs ! k)" by (auto dest: set_takeWhileD)
    with takeWhile_nth [OF l] k(2) show False by simp
  qed
  with k show ?thesis by (simp add: first_index_def Let_def)
qed

lemma rebuild_tests:
  assumes "s \<in> {''2.25'', ''2.26''}" "s \<notin> set ds"
  shows "s \<in> set (rebuild_pending True ds ps)"
proof -
  let ?o = "get_step_order True" and ?P = "\<lambda>s. s \<in> {''2.25'', ''2.26''} \<and> s \<notin> set ds"
  have o: "s \<in> set ?o" using assms(1) by (auto simp: get_step_order_def TDD_STEP_ORDER_def)
  then obtain k where k: "k < length ?o" "?o ! k = s" by (metis in_set_conv_nth)
  have b: "(case first_index ?P (take pos ?o) of None \<Rightarrow> pos | Some i \<Rightarrow> i) \<le> k" for pos
  proof (cases "k < pos")
    case True
    then have "\<exists>i \<le> k. first_index ?P (take pos ?o) = Some i"
      using k assms by (intro first_index_le) auto
    then show ?thesis by auto
  next
    case False
    then show ?thesis using first_index_Some [of ?P "take pos ?o"] by (auto split: option.splits)
  qed
  have "s \<in> set (drop (case first_index ?P (take pos ?o) of None \<Rightarrow> pos | Some i \<Rightarrow> i) ?o)" for pos
    using nth_in_drop [OF b k(1)] k(2) by simp
  with o assms(2) show ?thesis by (auto simp: rebuild_pending_def Let_def split: list.splits)
qed

text \<open>
  Switching the test-first mode rebuilds the pending steps soundly: they follow the
  step order of the new mode, contain no step that is completed or still skipped, and when the
  mode is switched on every test step that is not completed is pending again.
\<close>

theorem tdd_switch_is_sound:
  assumes "set_tdd_mode e v d = (Inr tdd, d')"
  shows "tdd_mode (load e d') = tdd
    \<and> subseq (pending_steps (load e d')) (get_step_order tdd)
    \<and> set (pending_steps (load e d')) \<inter> (set (completed_steps (load e d')) \<union> set (skipped_steps (load e d'))) = {}
    \<and> (tdd \<longrightarrow> {''2.25'', ''2.26''} - set (completed_steps (load e d')) \<subseteq> set (pending_steps (load e d')))"
proof -
  let ?st = "load e d"
  let ?sk = "if tdd then filter (\<lambda>s. s \<notin> {''2.25'', ''2.26''}) (skipped_steps ?st) else skipped_steps ?st"
  let ?p = "rebuild_pending tdd (completed_steps ?st @ ?sk) (pending_steps ?st)"
  have d': "d' = save (?st\<lparr>tdd_mode := tdd, skipped_steps := ?sk, pending_steps := ?p\<rparr>) d"
    using assms by (auto simp: set_tdd_mode_def Let_def split: if_splits)
  have "set ?p \<inter> (set (completed_steps ?st) \<union> set ?sk) = {}"
    using rebuild_open [of _ tdd "completed_steps ?st @ ?sk" "pending_steps ?st"] by (auto simp only: set_append Un_iff)
  moreover have "tdd \<Longrightarrow> {''2.25'', ''2.26''} - set (completed_steps ?st) \<subseteq> set ?p"
    using rebuild_tests [of _ "completed_steps ?st @ ?sk"] by auto
  ultimately show ?thesis using rebuild_sub [of tdd] by (simp add: d')
qed

definition past_tests :: branch_dir where
  "past_tests = save ((plan_state [''ST-1''] 0)\<lparr>current_step_id := ''2.3'', current_step_phase := ''ACTOR'',
     completed_steps := [''2.2''], pending_steps := [''2.3'', ''2.4'']\<rparr>) bare_dir"

theorem tdd_switch_is_sound_witness:
  "{''2.25'', ''2.26''} \<subseteq> set (pending_steps (load bare_env (snd (set_tdd_mode bare_env ''true'' past_tests))))"
proof -
  have "fst (set_tdd_mode bare_env ''true'' past_tests) = Inr True" by code_simp
  then have "set_tdd_mode bare_env ''true'' past_tests = (Inr True, snd (set_tdd_mode bare_env ''true'' past_tests))"
    by (metis prod.collapse)
  from tdd_switch_is_sound [OF this] show ?thesis
    by (auto simp: past_tests_def set_tdd_mode_def Let_def)
qed

section \<open>Corner cases\<close>

text \<open>After a retry the Actor step is pending although it is in the list of completed steps; a
  change of mode then drops it and leaves only the Monitor.\<close>

lemma mode_change_drops_retry:
  "pending_steps (load bare_env (snd (set_tdd_mode bare_env ''false'' (snd (monitor_failed bare_env ''x''
     (save ((plan_state [''ST-1''] 0)\<lparr>current_step_id := ''2.4'', current_step_phase := ''MONITOR'',
        completed_steps := [''2.2'', ''2.3''], pending_steps := [''2.4'']\<rparr>) bare_dir)))))) = [''2.4'']"
  by code_simp

text \<open>The shortcut walks by position and completes a workflow in which a deferred subtask is left.\<close>

lemma shortcut_forgets_deferred:
  "let d = save ((plan_state [''ST-1'', ''ST-2'', ''ST-3''] 2)\<lparr>subtask_phases := [(''ST-2'', DEFERRED_FOR_DEPS_PHASE)]\<rparr>) bare_dir;
       st = load bare_env (snd (mark_subtask_complete bare_env ''ST-3'' [] None d))
   in workflow_status st = ''WORKFLOW_COMPLETE'' \<and> ''ST-2'' \<notin> set (done_with_current st)"
  by code_simp

text \<open>A deadlocked workflow has no pending steps and can be marked as complete.\<close>

lemma blocked_can_complete:
  "let d = save ((plan_state [''ST-1'', ''ST-2''] 0)\<lparr>current_step_id := ''BLOCKED_ON_DEPS'',
         current_step_phase := ''BLOCKED_ON_DEPS'', pending_steps := []\<rparr>) bare_dir;
       st = load bare_env (snd (mark_workflow_complete bare_env d))
   in workflow_status st = ''WORKFLOW_COMPLETE'' \<and> ''ST-2'' \<notin> set (done_with_current st)"
  by code_simp

text \<open>A new workflow overwrites one in flight without keeping it.\<close>

lemma initialize_overwrites_in_flight:
  "let d = save ((plan_state [''ST-1''] 0)\<lparr>pending_steps := [''2.4'']\<rparr>) bare_dir
   in retired (snd (initialize_workflow bare_env d)) = [] \<and> fst (initialize_workflow bare_env d) = None"
  by code_simp

text \<open>A subtask that depends on itself passes the sort and is never ready.\<close>

lemma self_dependency_blocks:
  "topological_sort_subtasks [''ST-1'', ''ST-2''] [(''ST-2'', [''ST-2''])] = Sorted [''ST-1'', ''ST-2'']
   \<and> fst (advance_search [(''ST-2'', [''ST-2''])] (plan_state [''ST-1'', ''ST-2''] 0)) = Blocked [''ST-2''] [''ST-2'']"
  by code_simp

end
