(* ===== verification/Orch_Serial.thy ===== *)
theory Orch_Serial
  imports Orch_State "HOL-Library.Monad_Syntax"
begin

text \<open>
  The file form of the workflow state: \<^verbatim>\<open>StepState.to_dict\<close> and \<^verbatim>\<open>StepState.from_dict\<close> on JSON
  values. Decoding gives \<open>None\<close> for a value the record has no room for (the script would carry
  it along untyped); a missing key takes its default.
\<close>

section \<open>Codecs\<close>

text \<open>A codec encodes values as JSON other than \<^verbatim>\<open>null\<close> and decodes what it has encoded.\<close>

locale codec =
  fixes enc :: "'a \<Rightarrow> json" and dec :: "json \<Rightarrow> 'a option" and ok :: "'a \<Rightarrow> bool"
  assumes dec_enc: "ok x \<Longrightarrow> dec (enc x) = Some x"
    and enc_not_null: "enc x \<noteq> JNull"

definition dec_str :: "json \<Rightarrow> string option" where
  "dec_str j = (case j of JStr s \<Rightarrow> Some s | _ \<Rightarrow> None)"

definition dec_bool :: "json \<Rightarrow> bool option" where
  "dec_bool j = (case j of JBool b \<Rightarrow> Some b | _ \<Rightarrow> None)"

definition enc_nat :: "nat \<Rightarrow> json" where
  "enc_nat n = JInt (int n)"

definition dec_nat :: "json \<Rightarrow> nat option" where
  "dec_nat j = (case j of JInt i \<Rightarrow> if 0 \<le> i then Some (nat i) else None | _ \<Rightarrow> None)"

definition dec_obj :: "json \<Rightarrow> json option" where
  "dec_obj j = (case j of JObj kvs \<Rightarrow> Some j | _ \<Rightarrow> None)"

definition enc_opt :: "('a \<Rightarrow> json) \<Rightarrow> 'a option \<Rightarrow> json" where
  "enc_opt enc v = (case v of None \<Rightarrow> JNull | Some x \<Rightarrow> enc x)"

definition dec_opt :: "(json \<Rightarrow> 'a option) \<Rightarrow> json \<Rightarrow> 'a option option" where
  "dec_opt dec j = (if j = JNull then Some None else map_option Some (dec j))"

fun dec_all :: "('b \<Rightarrow> 'a option) \<Rightarrow> 'b list \<Rightarrow> 'a list option" where
  "dec_all dec [] = Some []"
| "dec_all dec (v # vs) =
     (case dec v of None \<Rightarrow> None | Some x \<Rightarrow> map_option (\<lambda>xs. x # xs) (dec_all dec vs))"

definition enc_list :: "('a \<Rightarrow> json) \<Rightarrow> 'a list \<Rightarrow> json" where
  "enc_list enc xs = JList (map enc xs)"

definition dec_list :: "(json \<Rightarrow> 'a option) \<Rightarrow> json \<Rightarrow> 'a list option" where
  "dec_list dec j = (case j of JList vs \<Rightarrow> dec_all dec vs | _ \<Rightarrow> None)"

definition enc_dict :: "('a \<Rightarrow> json) \<Rightarrow> (string, 'a) dict \<Rightarrow> json" where
  "enc_dict enc d = JObj (map (\<lambda>(k, v). (k, enc v)) d)"

definition dec_dict :: "(json \<Rightarrow> 'a option) \<Rightarrow> json \<Rightarrow> (string, 'a) dict option" where
  "dec_dict dec j =
     (case j of JObj kvs \<Rightarrow> dec_all (\<lambda>(k, v). map_option (\<lambda>x. (k, x)) (dec v)) kvs | _ \<Rightarrow> None)"

lemma dec_all_map: "(\<And>x. x \<in> set xs \<Longrightarrow> dec (enc x) = Some x) \<Longrightarrow> dec_all dec (map enc xs) = Some xs"
  by (induction xs) auto

context codec
begin

lemma dec_enc_opt: "(\<And>x. v = Some x \<Longrightarrow> ok x) \<Longrightarrow> dec_opt dec (enc_opt enc v) = Some v"
  using dec_enc enc_not_null by (auto simp: dec_opt_def enc_opt_def split: option.splits)

lemma list_codec: "codec (enc_list enc) (dec_list dec) (list_all ok)"
  by unfold_locales (auto simp: enc_list_def dec_list_def list_all_iff intro!: dec_all_map dec_enc)

lemma dict_codec: "codec (enc_dict enc) (dec_dict dec) (list_all (\<lambda>p. ok (snd p)))"
  by unfold_locales (auto simp: enc_dict_def dec_dict_def list_all_iff dec_enc intro!: dec_all_map)

end

interpretation str_codec: codec JStr dec_str "\<lambda>_. True"
  by unfold_locales (auto simp: dec_str_def)

interpretation bool_codec: codec JBool dec_bool "\<lambda>_. True"
  by unfold_locales (auto simp: dec_bool_def)

interpretation nat_codec: codec enc_nat dec_nat "\<lambda>_. True"
  by unfold_locales (auto simp: dec_nat_def enc_nat_def)

section \<open>Entries\<close>

definition field :: "string \<Rightarrow> (json \<Rightarrow> 'a option) \<Rightarrow> 'a \<Rightarrow> json \<Rightarrow> 'a option" where
  "field k dec dflt data = (case jget k data of None \<Rightarrow> Some dflt | Some v \<Rightarrow> dec v)"

definition need :: "string \<Rightarrow> (json \<Rightarrow> 'a option) \<Rightarrow> json \<Rightarrow> 'a option" where
  "need k dec data = (case jget k data of None \<Rightarrow> None | Some v \<Rightarrow> dec v)"

definition opt_key :: "string \<Rightarrow> ('a \<Rightarrow> json) \<Rightarrow> 'a option \<Rightarrow> (string \<times> json) list" where
  "opt_key k enc v = (case v of None \<Rightarrow> [] | Some x \<Rightarrow> [(k, enc x)])"

definition enc_note :: "flaky_note \<Rightarrow> json" where
  "enc_note n = JObj [(''path'', JStr (fn_path n)), (''check_id'', JStr (fn_check n)),
     (''disposition'', JStr DEFERRED_NONDETERMINISTIC_STATUS), (''run_count'', fn_run_count n),
     (''pass_count'', fn_pass_count n), (''fail_count'', fn_fail_count n), (''reason'', JStr (fn_reason n)),
     (''command'', fn_command n)]"

definition dec_note :: "json \<Rightarrow> flaky_note option" where
  "dec_note j = do {
     p \<leftarrow> need ''path'' dec_str j; c \<leftarrow> need ''check_id'' dec_str j; r \<leftarrow> need ''reason'' dec_str j;
     n \<leftarrow> jget ''run_count'' j; a \<leftarrow> jget ''pass_count'' j; b \<leftarrow> jget ''fail_count'' j; m \<leftarrow> jget ''command'' j;
     Some \<lparr>fn_path = p, fn_check = c, fn_reason = r, fn_run_count = n, fn_pass_count = a, fn_fail_count = b,
           fn_command = m\<rparr> }"

definition enc_result :: "sub_result \<Rightarrow> json" where
  "enc_result r = JObj (opt_key ''subtask_id'' JStr (r_subtask_id r)
     @ [(''files_changed'', enc_list JStr (r_files r))] @ opt_key ''status'' JStr (r_status r)
     @ [(''summary'', JStr (r_summary r))] @ opt_key ''commit_sha'' JStr (r_commit r)
     @ (case r_flaky r of None \<Rightarrow> []
        | Some n \<Rightarrow> [(''monitor_verdict_policy'', JStr ''not_valid_without_explicit_triage''),
                     (''non_green_outcome'', JBool True), (''flaky_test_triage'', enc_note n)]))"

definition dec_result :: "json \<Rightarrow> sub_result option" where
  "dec_result j = do {
     i \<leftarrow> field ''subtask_id'' (dec_opt dec_str) None j; fs \<leftarrow> need ''files_changed'' (dec_list dec_str) j;
     s \<leftarrow> field ''status'' (dec_opt dec_str) None j; m \<leftarrow> need ''summary'' dec_str j;
     c \<leftarrow> field ''commit_sha'' (dec_opt dec_str) None j; n \<leftarrow> field ''flaky_test_triage'' (dec_opt dec_note) None j;
     Some \<lparr>r_subtask_id = i, r_files = fs, r_status = s, r_summary = m, r_commit = c, r_flaky = n\<rparr> }"

definition enc_contract :: "contract_entry \<Rightarrow> json" where
  "enc_contract c = JObj [(''contract_path'', JStr (ce_contract c)), (''handoff_path'', JStr (ce_handoff c)),
     (''ready_at'', JStr (ce_ready_at c))]"

definition dec_contract :: "json \<Rightarrow> contract_entry option" where
  "dec_contract j = do {
     c \<leftarrow> need ''contract_path'' dec_str j; h \<leftarrow> need ''handoff_path'' dec_str j; r \<leftarrow> need ''ready_at'' dec_str j;
     Some \<lparr>ce_contract = c, ce_handoff = h, ce_ready_at = r\<rparr> }"

definition enc_reason :: "completion_reason \<Rightarrow> json" where
  "enc_reason c = JObj ([(''kind'', JStr (cr_kind c)), (''reason'', JStr (cr_reason c)),
     (''recorded_at'', JStr (cr_recorded_at c))] @ opt_key ''check_id'' JStr (cr_check_id c))"

definition dec_reason :: "json \<Rightarrow> completion_reason option" where
  "dec_reason j = do {
     k \<leftarrow> need ''kind'' dec_str j; r \<leftarrow> need ''reason'' dec_str j; t \<leftarrow> need ''recorded_at'' dec_str j;
     c \<leftarrow> field ''check_id'' (dec_opt dec_str) None j;
     Some \<lparr>cr_kind = k, cr_reason = r, cr_recorded_at = t, cr_check_id = c\<rparr> }"

section \<open>The state\<close>

definition to_dict :: "step_state \<Rightarrow> json" where
  "to_dict st = JObj [
      (''workflow'', JStr (workflow st)),
      (''started_at'', JStr (wf_started_at st)),
      (''current_subtask_id'', enc_opt JStr (current_subtask_id st)),
      (''subtask_index'', enc_nat (subtask_index st)),
      (''subtask_sequence'', enc_list JStr (subtask_sequence st)),
      (''current_step_id'', JStr (current_step_id st)),
      (''current_step_phase'', JStr (current_step_phase st)),
      (''completed_steps'', enc_list JStr (completed_steps st)),
      (''pending_steps'', enc_list JStr (pending_steps st)),
      (''retry_count'', enc_nat (retry_count st)),
      (''max_retries'', enc_nat (max_retries st)),
      (''plan_approved'', JBool (plan_approved st)),
      (''execution_mode'', JStr (execution_mode st)),
      (''tdd_mode'', JBool (tdd_mode st)),
      (''skipped_steps'', enc_list JStr (skipped_steps st)),
      (''execution_waves'', enc_list (enc_list JStr) (execution_waves st)),
      (''current_wave_index'', enc_nat (current_wave_index st)),
      (''subtask_phases'', enc_dict JStr (subtask_phases st)),
      (''subtask_retry_counts'', enc_dict enc_nat (subtask_retry_counts st)),
      (''workflow_status'', JStr (workflow_status st)),
      (''subtask_files_changed'', enc_dict (enc_list JStr) (subtask_files_changed st)),
      (''guard_rework_counts'', enc_dict enc_nat (guard_rework_counts st)),
      (''constraints'', enc_opt id (constraints st)),
      (''subtask_results'', enc_dict enc_result (subtask_results st)),
      (''last_subtask_commit_sha'', enc_opt JStr (last_subtask_commit_sha st)),
      (''contract_ready_subtasks'', enc_dict enc_contract (contract_ready_subtasks st)),
      (''clean_retry_count'', enc_nat (clean_retry_count st)),
      (''contaminated_retry_count'', enc_nat (contaminated_retry_count st)),
      (''scope_feedback_subtasks'', enc_list JStr (scope_feedback_subtasks st)),
      (''progress_feedback_subtasks'', enc_list JStr (progress_feedback_subtasks st)),
      (''retry_isolation_status'', enc_dict JStr (retry_isolation_status st)),
      (''retry_quarantine_paths'', enc_dict JStr (retry_quarantine_paths st)),
      (''completed_at'', enc_opt JStr (completed_at st)),
      (''subtask_completion_reasons'', enc_dict enc_reason (subtask_completion_reasons st))]"

definition from_dict :: "string \<Rightarrow> json \<Rightarrow> step_state option" where
  "from_dict now data = do {
     x0 \<leftarrow> field ''workflow'' dec_str ''map-efficient'' data;
     x1 \<leftarrow> field ''started_at'' dec_str now data;
     x2 \<leftarrow> field ''current_subtask_id'' (dec_opt dec_str) None data;
     x3 \<leftarrow> field ''subtask_index'' dec_nat 0 data;
     x4 \<leftarrow> field ''subtask_sequence'' (dec_list dec_str) [] data;
     x5 \<leftarrow> field ''current_step_id'' dec_str ''1.0'' data;
     x6 \<leftarrow> field ''current_step_phase'' dec_str ''DECOMPOSE'' data;
     x7 \<leftarrow> field ''completed_steps'' (dec_list dec_str) [] data;
     x8 \<leftarrow> field ''pending_steps'' (dec_list dec_str) STEP_ORDER data;
     x9 \<leftarrow> field ''retry_count'' dec_nat 0 data;
     x10 \<leftarrow> field ''max_retries'' dec_nat 5 data;
     x11 \<leftarrow> field ''plan_approved'' dec_bool False data;
     x12 \<leftarrow> field ''execution_mode'' dec_str ''batch'' data;
     x13 \<leftarrow> field ''tdd_mode'' dec_bool False data;
     x14 \<leftarrow> field ''skipped_steps'' (dec_list dec_str) [] data;
     x15 \<leftarrow> field ''execution_waves'' (dec_list (dec_list dec_str)) [] data;
     x16 \<leftarrow> field ''current_wave_index'' dec_nat 0 data;
     x17 \<leftarrow> field ''subtask_phases'' (dec_dict dec_str) [] data;
     x18 \<leftarrow> field ''subtask_retry_counts'' (dec_dict dec_nat) [] data;
     x19 \<leftarrow> field ''workflow_status'' dec_str ''INITIALIZED'' data;
     x20 \<leftarrow> field ''subtask_files_changed'' (dec_dict (dec_list dec_str)) [] data;
     x21 \<leftarrow> field ''guard_rework_counts'' (dec_dict dec_nat) [] data;
     x22 \<leftarrow> field ''constraints'' (dec_opt dec_obj) None data;
     x23 \<leftarrow> field ''subtask_results'' (dec_dict dec_result) [] data;
     x24 \<leftarrow> field ''last_subtask_commit_sha'' (dec_opt dec_str) None data;
     x25 \<leftarrow> field ''contract_ready_subtasks'' (dec_dict dec_contract) [] data;
     x26 \<leftarrow> field ''clean_retry_count'' dec_nat 0 data;
     x27 \<leftarrow> field ''contaminated_retry_count'' dec_nat 0 data;
     x28 \<leftarrow> field ''scope_feedback_subtasks'' (dec_list dec_str) [] data;
     x29 \<leftarrow> field ''progress_feedback_subtasks'' (dec_list dec_str) [] data;
     x30 \<leftarrow> field ''retry_isolation_status'' (dec_dict dec_str) [] data;
     x31 \<leftarrow> field ''retry_quarantine_paths'' (dec_dict dec_str) [] data;
     x32 \<leftarrow> field ''completed_at'' (dec_opt dec_str) None data;
     x33 \<leftarrow> field ''subtask_completion_reasons'' (dec_dict dec_reason) [] data;
     Some \<lparr>workflow = x0, wf_started_at = x1, current_subtask_id = x2, subtask_index = x3,
       subtask_sequence = x4, current_step_id = x5, current_step_phase = x6, completed_steps = x7,
       pending_steps = x8, retry_count = x9, max_retries = x10, plan_approved = x11,
       execution_mode = x12, tdd_mode = x13, skipped_steps = x14, execution_waves = x15,
       current_wave_index = x16, subtask_phases = x17, subtask_retry_counts = x18,
       workflow_status = x19, subtask_files_changed = x20, guard_rework_counts = x21,
       constraints = x22, subtask_results = x23, last_subtask_commit_sha = x24,
       contract_ready_subtasks = x25, clean_retry_count = x26, contaminated_retry_count = x27,
       scope_feedback_subtasks = x28, progress_feedback_subtasks = x29, retry_isolation_status = x30,
       retry_quarantine_paths = x31, completed_at = x32, subtask_completion_reasons = x33\<rparr> }"

section \<open>Round trip\<close>

lemma note_roundtrip: "dec_note (enc_note n) = Some n"
  by (simp add: dec_note_def enc_note_def need_def dec_str_def)

interpretation note_codec: codec enc_note dec_note "\<lambda>_. True"
  by unfold_locales (simp_all add: note_roundtrip, simp add: enc_note_def)

interpretation strs_codec: codec "enc_list JStr" "dec_list dec_str" "list_all (\<lambda>_. True)"
  by (rule str_codec.list_codec)

interpretation waves_codec: codec "enc_list (enc_list JStr)" "dec_list (dec_list dec_str)" "list_all (list_all (\<lambda>_. True))"
  by (rule strs_codec.list_codec)

interpretation contract_codec: codec enc_contract dec_contract "\<lambda>_. True"
  by unfold_locales (simp_all add: enc_contract_def dec_contract_def need_def dec_str_def)

interpretation reason_codec: codec enc_reason dec_reason "\<lambda>_. True"
  by unfold_locales
    (simp_all add: enc_reason_def dec_reason_def need_def field_def opt_key_def dec_str_def dec_opt_def split: option.splits)

lemma list_all_True [simp]: "list_all (\<lambda>_. True) xs"
  by (simp add: list_all_iff)

interpretation result_codec: codec enc_result dec_result "\<lambda>_. True"
proof unfold_locales
  fix r :: sub_result
  have "dec_list dec_str (enc_list JStr (r_files r)) = Some (r_files r)" by (rule strs_codec.dec_enc) simp
  moreover have "dec_opt dec_note (enc_note n) = Some (Some n)" for n
    using note_codec.dec_enc_opt [of "Some n"] by (simp add: enc_opt_def)
  ultimately show "dec_result (enc_result r) = Some r"
    by (simp add: enc_result_def dec_result_def need_def field_def opt_key_def dec_str_def dec_opt_def [of dec_str]
        split: option.splits)
qed (simp add: enc_result_def)

lemmas dict_rules =
  str_codec.dict_codec nat_codec.dict_codec strs_codec.dict_codec result_codec.dict_codec
  contract_codec.dict_codec reason_codec.dict_codec

lemma dict_roundtrips [simp]:
  "dec_dict dec_str (enc_dict JStr a) = Some a" "dec_dict dec_nat (enc_dict enc_nat b) = Some b"
  "dec_dict (dec_list dec_str) (enc_dict (enc_list JStr) c) = Some c"
  "dec_dict dec_result (enc_dict enc_result r) = Some r" "dec_dict dec_contract (enc_dict enc_contract g) = Some g"
  "dec_dict dec_reason (enc_dict enc_reason h) = Some h"
  by (rule codec.dec_enc, rule dict_rules, simp add: list_all_iff)+

lemma plain_roundtrips [simp]:
  "dec_str (JStr s) = Some s" "dec_bool (JBool b) = Some b" "dec_nat (enc_nat n) = Some n"
  "dec_opt dec_str (enc_opt JStr v) = Some v" "dec_list dec_str (enc_list JStr xs) = Some xs"
  "dec_list (dec_list dec_str) (enc_list (enc_list JStr) ws) = Some ws"
  by (simp_all add: str_codec.dec_enc bool_codec.dec_enc nat_codec.dec_enc str_codec.dec_enc_opt
      strs_codec.dec_enc waves_codec.dec_enc list_all_iff)

definition constraints_ok :: "step_state \<Rightarrow> bool" where
  "constraints_ok st = (case constraints st of None \<Rightarrow> True | Some (JObj _) \<Rightarrow> True | Some _ \<Rightarrow> False)"

lemma constraints_roundtrip: "constraints_ok st \<Longrightarrow> dec_opt dec_obj (enc_opt id (constraints st)) = Some (constraints st)"
  by (auto simp: constraints_ok_def dec_opt_def enc_opt_def dec_obj_def split: option.splits json.splits)

text \<open>
  Saving and loading the workflow state loses nothing: decoding the dictionary form
  of a state, whose constraints are an object or absent, gives back the state, whatever the
  clock says; and an empty dictionary decodes to the fresh state.
\<close>

theorem step_state_roundtrip:
  assumes "constraints_ok st"
  shows "from_dict now (to_dict st) = Some st \<and> from_dict now (JObj []) = Some (StepState now)"
proof
  show "from_dict now (to_dict st) = Some st"
    unfolding from_dict_def field_def to_dict_def
    by (simp add: constraints_roundtrip [OF assms])
  show "from_dict now (JObj []) = Some (StepState now)"
    by (simp add: from_dict_def field_def StepState_def)
qed

theorem step_state_roundtrip_witness:
  "from_dict ''later'' (to_dict (StepState_record_subtask_result ''ST-1'' [''a.py''] ''valid'' ''ok'' (Some ''c0ffee'') (StepState ''now'')))
     = Some (StepState_record_subtask_result ''ST-1'' [''a.py''] ''valid'' ''ok'' (Some ''c0ffee'') (StepState ''now''))"
proof -
  have "constraints_ok (StepState_record_subtask_result ''ST-1'' [''a.py''] ''valid'' ''ok'' (Some ''c0ffee'') (StepState ''now''))"
    by (simp add: constraints_ok_def StepState_record_subtask_result_def StepState_def Let_def)
  from step_state_roundtrip [OF this] show ?thesis by simp
qed

end
