(* ===== verification/Scope_Classify.thy ===== *)
theory Scope_Classify
  imports Prelude
begin

text \<open>
  \<^verbatim>\<open>classify_scope.py\<close>: thresholds from the configuration file, and the bracket of a change
  estimate. The warning about a malformed threshold goes to standard error and is left out.
\<close>

section \<open>Configuration\<close>

definition DEFAULTS :: "(string, string) dict" where
  "DEFAULTS = [(''scale.auto'', ''true''),
     (''scale.thresholds.trivial.max_files'', ''3''), (''scale.thresholds.trivial.max_lines'', ''50''),
     (''scale.thresholds.small.max_files'', ''10''), (''scale.thresholds.small.max_lines'', ''200''),
     (''scale.thresholds.medium.max_files'', ''30''), (''scale.thresholds.medium.max_lines'', ''1000'')]"

definition SNAKE_ALIASES :: "(string \<times> string) list" where
  "SNAKE_ALIASES = [(''scale_auto'', ''scale.auto''),
     (''scale_trivial_max_files'', ''scale.thresholds.trivial.max_files''),
     (''scale_trivial_max_lines'', ''scale.thresholds.trivial.max_lines''),
     (''scale_small_max_files'', ''scale.thresholds.small.max_files''),
     (''scale_small_max_lines'', ''scale.thresholds.small.max_lines''),
     (''scale_medium_max_files'', ''scale.thresholds.medium.max_files''),
     (''scale_medium_max_lines'', ''scale.thresholds.medium.max_lines'')]"

definition scale_key_char :: "char \<Rightarrow> bool" where
  "scale_key_char c = (is_word_char c \<or> c = CHR ''.'')"

definition scale_line :: "string \<Rightarrow> (string \<times> string) option" where
  "scale_line raw =
     (let line = strip raw
      in if line = [] \<or> startswith line ''#'' then None
         else (case split_once (CHR '':'') line of
            (_, None) \<Rightarrow> None
          | (k, Some v) \<Rightarrow>
              let key = strip k
              in if key = [] \<or> \<not> list_all scale_key_char key then None
                 else Some (key, unquote (strip (fst (split_once (CHR ''#'') v))))))"

definition add_alias :: "string \<times> string \<Rightarrow> (string, string) dict \<Rightarrow> (string, string) dict" where
  "add_alias a values =
     (case (dict_get values (fst a), dict_get values (snd a)) of
        (Some v, None) \<Rightarrow> dict_set (snd a) v values
      | _ \<Rightarrow> values)"

definition read_config :: "string option \<Rightarrow> (string, string) dict" where
  "read_config file0 =
     (case file0 of
        None \<Rightarrow> []
      | Some tx \<Rightarrow>
          fold add_alias SNAKE_ALIASES
            (fold (\<lambda>(k, v). dict_set k v) (List.map_filter scale_line (splitlines tx)) []))"

definition default_of :: "string \<Rightarrow> string" where
  "default_of key = (case dict_get DEFAULTS key of None \<Rightarrow> [] | Some v \<Rightarrow> v)"

definition raw_value :: "(string, string) dict \<Rightarrow> string \<Rightarrow> string" where
  "raw_value raw key = (case dict_get raw key of None \<Rightarrow> default_of key | Some v \<Rightarrow> v)"

definition int_of :: "string \<Rightarrow> int" where
  "int_of s = (case py_int s of None \<Rightarrow> 0 | Some n \<Rightarrow> n)"

definition config_int :: "(string, string) dict \<Rightarrow> string \<Rightarrow> int" where
  "config_int raw key = (case py_int (raw_value raw key) of None \<Rightarrow> int_of (default_of key) | Some n \<Rightarrow> n)"

definition config_bool :: "(string, string) dict \<Rightarrow> string \<Rightarrow> bool" where
  "config_bool raw key = (to_lower (raw_value raw key) \<notin> {''false'', ''0'', ''no''})"

section \<open>Classification\<close>

datatype bracket = Trivial | Small | Medium | Large

definition BRACKET_WORKFLOW :: "bracket \<Rightarrow> string" where
  "BRACKET_WORKFLOW b = (case b of Trivial \<Rightarrow> ''map-fast'' | Small \<Rightarrow> ''map-plan-light''
     | Medium \<Rightarrow> ''map-efficient'' | Large \<Rightarrow> ''map-efficient+map-tdd'')"

definition fits :: "(string, string) dict \<Rightarrow> string \<Rightarrow> int \<Rightarrow> int \<Rightarrow> bool" where
  "fits raw name files lines =
     (files \<le> config_int raw (''scale.thresholds.'' @ name @ ''.max_files'')
      \<and> lines \<le> config_int raw (''scale.thresholds.'' @ name @ ''.max_lines''))"

definition bracket_of :: "(string, string) dict \<Rightarrow> int \<Rightarrow> int \<Rightarrow> bracket" where
  "bracket_of raw files lines =
     (if fits raw ''trivial'' files lines then Trivial
      else if fits raw ''small'' files lines then Small
      else if fits raw ''medium'' files lines then Medium else Large)"

record classification =
  c_bracket :: bracket
  c_workflow :: string
  c_files :: int
  c_lines :: int
  c_auto :: bool

definition classify :: "string option \<Rightarrow> int \<Rightarrow> int \<Rightarrow> classification" where
  "classify file0 files lines =
     (let raw = read_config file0; b = bracket_of raw files lines
      in \<lparr>c_bracket = b, c_workflow = BRACKET_WORKFLOW b, c_files = files, c_lines = lines,
          c_auto = config_bool raw ''scale.auto''\<rparr>)"

text \<open>The command: \<open>None\<close> is the exit status 1 for a negative estimate.\<close>

definition classify_main :: "string option \<Rightarrow> int \<Rightarrow> int \<Rightarrow> classification option" where
  "classify_main file0 files lines = (if files < 0 \<or> lines < 0 then None else Some (classify file0 files lines))"

section \<open>Brackets in order\<close>

definition rank :: "bracket \<Rightarrow> nat" where
  "rank b = (case b of Trivial \<Rightarrow> 0 | Small \<Rightarrow> 1 | Medium \<Rightarrow> 2 | Large \<Rightarrow> 3)"

instantiation bracket :: linorder
begin

definition less_eq_bracket :: "bracket \<Rightarrow> bracket \<Rightarrow> bool" where
  "less_eq_bracket a b = (rank a \<le> rank b)"

definition less_bracket :: "bracket \<Rightarrow> bracket \<Rightarrow> bool" where
  "less_bracket a b = (rank a < rank b)"

instance
  by standard (auto simp: less_eq_bracket_def less_bracket_def rank_def split: bracket.splits)

end

lemma fits_mono: "files \<le> files' \<Longrightarrow> lines \<le> lines' \<Longrightarrow> fits raw n files' lines' \<Longrightarrow> fits raw n files lines"
  by (simp add: fits_def)

lemma bracket_mono:
  assumes "files \<le> files'" "lines \<le> lines'"
  shows "bracket_of raw files lines \<le> bracket_of raw files' lines'"
  using fits_mono [OF assms] by (auto simp: bracket_of_def less_eq_bracket_def rank_def)

lemma default_thresholds:
  "config_int [] (''scale.thresholds.'' @ ''trivial'' @ ''.max_files'') = 3"
  "config_int [] (''scale.thresholds.'' @ ''trivial'' @ ''.max_lines'') = 50"
  "config_int [] (''scale.thresholds.'' @ ''small'' @ ''.max_files'') = 10"
  "config_int [] (''scale.thresholds.'' @ ''small'' @ ''.max_lines'') = 200"
  "config_int [] (''scale.thresholds.'' @ ''medium'' @ ''.max_files'') = 30"
  "config_int [] (''scale.thresholds.'' @ ''medium'' @ ''.max_lines'') = 1000"
  by code_simp+

lemma fits_default:
  "fits [] ''trivial'' f l \<longleftrightarrow> f \<le> 3 \<and> l \<le> 50"
  "fits [] ''small'' f l \<longleftrightarrow> f \<le> 10 \<and> l \<le> 200"
  "fits [] ''medium'' f l \<longleftrightarrow> f \<le> 30 \<and> l \<le> 1000"
  unfolding fits_def default_thresholds by (rule refl)+

lemma default_brackets:
  "bracket_of [] f l = Trivial \<longleftrightarrow> f \<le> 3 \<and> l \<le> 50"
  "bracket_of [] f l \<le> Small \<longleftrightarrow> f \<le> 10 \<and> l \<le> 200"
  "bracket_of [] f l \<le> Medium \<longleftrightarrow> f \<le> 30 \<and> l \<le> 1000"
  unfolding bracket_of_def fits_default less_eq_bracket_def rank_def by auto

text \<open>
  Classification is monotone under every configuration, also one whose thresholds
  are malformed or out of order: a change with at least as many files and lines never falls into
  a smaller bracket; and without a configuration file the brackets are those of the documented
  defaults.
\<close>

theorem classify_is_monotone:
  assumes "files \<le> files'" "lines \<le> lines'"
  shows "c_bracket (classify file0 files lines) \<le> c_bracket (classify file0 files' lines')
    \<and> (c_bracket (classify None files lines) = Trivial \<longleftrightarrow> files \<le> 3 \<and> lines \<le> 50)
    \<and> (c_bracket (classify None files lines) \<le> Small \<longleftrightarrow> files \<le> 10 \<and> lines \<le> 200)
    \<and> (c_bracket (classify None files lines) \<le> Medium \<longleftrightarrow> files \<le> 30 \<and> lines \<le> 1000)"
  using bracket_mono [OF assms] by (simp add: classify_def Let_def read_config_def default_brackets)

theorem classify_is_monotone_witness:
  "c_bracket (classify None 3 60) \<le> c_bracket (classify None 12 60) \<and> c_bracket (classify None 3 60) = Small"
proof -
  have "c_bracket (classify None 3 60) = Small" by code_simp
  with classify_is_monotone [of 3 12 60 60 None] show ?thesis by simp
qed

end
