(* ===== verification/Branch_Name.thy ===== *)
theory Branch_Name
  imports Prelude
begin

text \<open>
  \<^verbatim>\<open>map_utils.py\<close>: turning a branch name into one safe path component. The parameter of
  \<open>get_branch_name\<close> is what \<^verbatim>\<open>git rev-parse\<close> printed, or \<open>None\<close> when it failed.
\<close>

definition HYPHEN :: char where
  "HYPHEN = CHR ''-''"

definition safe_char :: "char \<Rightarrow> bool" where
  "safe_char c = (is_lower c \<or> is_upper c \<or> is_digit c \<or> c \<in> {CHR ''_'', CHR ''.'', CHR ''-''})"

text \<open>\<^verbatim>\<open>re.sub(r"-+", "-", s)\<close>\<close>

fun collapse_hyphens :: "string \<Rightarrow> string" where
  "collapse_hyphens [] = []"
| "collapse_hyphens (c # cs) =
     (if c = HYPHEN then HYPHEN # collapse_hyphens (dropWhile (\<lambda>d. d = HYPHEN) cs)
      else c # collapse_hyphens cs)"

definition strip_hyphens :: "string \<Rightarrow> string" where
  "strip_hyphens s = rev (dropWhile (\<lambda>c. c = HYPHEN) (rev (dropWhile (\<lambda>c. c = HYPHEN) s)))"

definition replace_unsafe :: "string \<Rightarrow> string" where
  "replace_unsafe s = map (\<lambda>c. if safe_char c then c else HYPHEN) s"

definition sanitize_branch_name :: "string \<Rightarrow> string" where
  "sanitize_branch_name branch =
     (let s = strip_hyphens (collapse_hyphens (replace_unsafe branch))
      in if contains_str s ''..'' \<or> startswith s ''.'' then ''default''
         else if s = [] then ''default'' else s)"

definition get_branch_name :: "string option \<Rightarrow> string" where
  "get_branch_name out = (case out of None \<Rightarrow> ''default'' | Some s \<Rightarrow> sanitize_branch_name (strip s))"

section \<open>Lemmas\<close>

definition no_pair :: "char \<Rightarrow> string \<Rightarrow> bool" where
  "no_pair c s = (\<not> contains_str s [c, c])"

lemma no_pair_Cons: "no_pair c (x # xs) \<longleftrightarrow> (x \<noteq> c \<or> xs = [] \<or> hd xs \<noteq> c) \<and> no_pair c xs"
  by (cases xs) (auto simp: no_pair_def contains_Cons contains_Nil)

lemma hd_collapse: "collapse_hyphens s = [] \<longleftrightarrow> s = []" "s \<noteq> [] \<Longrightarrow> hd (collapse_hyphens s) = hd s"
  by (cases s; simp)+

lemma collapse_no_pair: "no_pair HYPHEN (collapse_hyphens s)"
proof (induction s rule: collapse_hyphens.induct)
  case (2 c cs)
  show ?case
  proof (cases "c = HYPHEN")
    case True
    define r where "r = dropWhile (\<lambda>d. d = HYPHEN) cs"
    have "r = [] \<or> hd r \<noteq> HYPHEN" unfolding r_def using hd_dropWhile [of "\<lambda>d. d = HYPHEN" cs] by blast
    then have "collapse_hyphens r = [] \<or> hd (collapse_hyphens r) \<noteq> HYPHEN" using hd_collapse [of r] by auto
    with 2 True show ?thesis by (simp add: no_pair_Cons flip: r_def)
  next
    case False
    with 2 show ?thesis by (simp add: no_pair_Cons)
  qed
qed (simp add: no_pair_def contains_Nil)

lemma set_collapse: "set (collapse_hyphens s) \<subseteq> set s"
  by (induction s rule: collapse_hyphens.induct) (auto dest: set_dropWhileD)

lemma strip_hyphens_sub: "sublist (strip_hyphens s) s"
proof -
  have "suffix (dropWhile (\<lambda>c. c = HYPHEN) s) s" by (rule suffix_dropWhile)
  moreover have "prefix (strip_hyphens s) (dropWhile (\<lambda>c. c = HYPHEN) s)"
    unfolding strip_hyphens_def by (metis suffix_dropWhile suffix_to_prefix rev_rev_ident)
  ultimately show ?thesis by (meson prefix_imp_sublist sublist_order.order_trans suffix_imp_sublist)
qed

lemma strip_hyphens_ends:
  assumes "strip_hyphens s \<noteq> []"
  shows "hd (strip_hyphens s) \<noteq> HYPHEN" "last (strip_hyphens s) \<noteq> HYPHEN"
proof -
  let ?l = "dropWhile (\<lambda>c. c = HYPHEN) s"
  have r: "dropWhile (\<lambda>c. c = HYPHEN) (rev ?l) \<noteq> []" using assms by (simp add: strip_hyphens_def)
  then have l: "?l \<noteq> []" by (metis dropWhile.simps(1) rev.simps(1))
  show "last (strip_hyphens s) \<noteq> HYPHEN" using hd_dropWhile [OF r] by (simp add: strip_hyphens_def last_rev)
  show "hd (strip_hyphens s) \<noteq> HYPHEN"
    using hd_dropWhile [OF l] dropWhile_rev_hd [OF r l] by (simp add: strip_hyphens_def)
qed

lemma no_pair_sub: "sublist t s \<Longrightarrow> no_pair c s \<Longrightarrow> no_pair c t"
  by (auto simp: no_pair_def contains_sublist intro: sublist_order.order_trans)

lemma set_sub: "sublist t s \<Longrightarrow> set t \<subseteq> set s"
  by (simp add: set_mono_sublist)

text \<open>A string that is already safe is left alone.\<close>

lemma collapse_id: "no_pair HYPHEN s \<Longrightarrow> collapse_hyphens s = s"
proof (induction s)
  case (Cons c s)
  then show ?case by (cases s) (auto simp: no_pair_Cons)
qed simp

lemma strip_hyphens_id: "s = [] \<or> hd s \<noteq> HYPHEN \<and> last s \<noteq> HYPHEN \<Longrightarrow> strip_hyphens s = s"
proof -
  assume a: "s = [] \<or> hd s \<noteq> HYPHEN \<and> last s \<noteq> HYPHEN"
  then have "dropWhile (\<lambda>c. c = HYPHEN) s = s" by (cases s) auto
  moreover have "dropWhile (\<lambda>c. c = HYPHEN) (rev s) = rev s"
    using a by (cases s rule: rev_cases) auto
  ultimately show ?thesis by (simp add: strip_hyphens_def)
qed

definition safe_segment :: "string \<Rightarrow> bool" where
  "safe_segment s = (s \<noteq> [] \<and> list_all safe_char s \<and> \<not> contains_str s ''..'' \<and> \<not> startswith s ''.''
     \<and> no_pair HYPHEN s \<and> hd s \<noteq> HYPHEN \<and> last s \<noteq> HYPHEN)"

lemma default_safe: "safe_segment ''default''"
  by code_simp

lemma sanitize_safe: "safe_segment (sanitize_branch_name b)"
proof -
  let ?c = "collapse_hyphens (replace_unsafe b)" and ?s = "strip_hyphens (collapse_hyphens (replace_unsafe b))"
  have "set (replace_unsafe b) \<subseteq> {c. safe_char c}"
    by (auto simp: replace_unsafe_def safe_char_def HYPHEN_def)
  then have "set ?s \<subseteq> {c. safe_char c}"
    using set_collapse [of "replace_unsafe b"] set_sub [OF strip_hyphens_sub [of ?c]] by blast
  then have "?s \<noteq> [] \<Longrightarrow> \<not> contains_str ?s ''..'' \<Longrightarrow> \<not> startswith ?s ''.'' \<Longrightarrow> safe_segment ?s"
    using strip_hyphens_ends [of ?c] no_pair_sub [OF strip_hyphens_sub collapse_no_pair]
    by (auto simp: safe_segment_def list_all_iff)
  with default_safe show ?thesis by (simp add: sanitize_branch_name_def Let_def)
qed

lemma sanitize_fixed: "safe_segment s \<Longrightarrow> sanitize_branch_name s = s"
proof -
  assume s: "safe_segment s"
  then have "replace_unsafe s = s" by (simp add: safe_segment_def replace_unsafe_def list_all_iff map_idI)
  with s show ?thesis
    by (simp add: sanitize_branch_name_def safe_segment_def collapse_id strip_hyphens_id)
qed

section \<open>Property\<close>

text \<open>
  Claim C21. A sanitised branch name is a safe path component, whatever the input: it is not
  empty, uses only letters, digits and the characters \<^verbatim>\<open>_ . -\<close>, has no \<^verbatim>\<open>..\<close> and no leading dot,
  no repeated and no outer hyphens; sanitising is a projection onto such names.
\<close>

theorem branch_name_is_safe:
  "safe_segment (sanitize_branch_name b) \<and> safe_segment (get_branch_name out)
   \<and> sanitize_branch_name (sanitize_branch_name b) = sanitize_branch_name b"
  using sanitize_safe [of b] sanitize_fixed [OF sanitize_safe] sanitize_safe default_safe
  by (auto simp: get_branch_name_def split: option.splits)

end
