(* ===== verification/Regex_Scan.thy ===== *)
theory Regex_Scan
  imports Prelude
begin

text \<open>
  \<^verbatim>\<open>re.finditer\<close> and \<^verbatim>\<open>re.search\<close> for a pattern given as a matcher: a function that takes the
  character before the current position (what a lookbehind or \<^verbatim>\<open>\b\<close> sees) and the rest of the
  text, and returns the groups and the length of the match there. The locale \<open>matcher\<close> states
  what the scan relies on, and shows that it reports exactly the matches a left-to-right scan
  must report: in order, without overlap, and missing none.
\<close>

type_synonym 'm pattern = "char option \<Rightarrow> string \<Rightarrow> ('m \<times> nat) option"

fun finditer :: "'m pattern \<Rightarrow> nat \<Rightarrow> char option \<Rightarrow> string \<Rightarrow> (nat \<times> nat \<times> 'm) list" where
  "finditer m i p [] = []"
| "finditer m i p (c # cs) =
     (case m p (c # cs) of
        None \<Rightarrow> finditer m (Suc i) (Some c) cs
      | Some (x, n) \<Rightarrow>
          (i, i + n, x) # finditer m (i + n) (Some (last (take n (c # cs)))) (drop (n - 1) cs))"

definition matches :: "'m pattern \<Rightarrow> string \<Rightarrow> (nat \<times> nat \<times> 'm) list" where
  "matches m s = finditer m 0 None s"

definition search_first :: "'m pattern \<Rightarrow> string \<Rightarrow> (nat \<times> nat \<times> 'm) option" where
  "search_first m s = (case matches m s of [] \<Rightarrow> None | h # _ \<Rightarrow> Some h)"

text \<open>\<^verbatim>\<open>re.sub\<close>: every match is replaced by what \<open>rep\<close> makes of its groups.\<close>

fun re_sub :: "'m pattern \<Rightarrow> ('m \<Rightarrow> string) \<Rightarrow> char option \<Rightarrow> string \<Rightarrow> string" where
  "re_sub m rep p [] = []"
| "re_sub m rep p (c # cs) =
     (case m p (c # cs) of
        None \<Rightarrow> c # re_sub m rep (Some c) cs
      | Some (x, n) \<Rightarrow> rep x @ re_sub m rep (Some (last (take n (c # cs)))) (drop (n - 1) cs))"

text \<open>The word boundary \<^verbatim>\<open>\b\<close> between two neighbouring characters, at an end of the text none.\<close>

definition is_word_opt :: "char option \<Rightarrow> bool" where
  "is_word_opt p = (case p of None \<Rightarrow> False | Some c \<Rightarrow> is_word_char c)"

definition head_opt :: "string \<Rightarrow> char option" where
  "head_opt s = (case s of [] \<Rightarrow> None | c # _ \<Rightarrow> Some c)"

definition word_boundary :: "char option \<Rightarrow> char option \<Rightarrow> bool" where
  "word_boundary p q = (is_word_opt p \<noteq> is_word_opt q)"

definition prev_char :: "string \<Rightarrow> nat \<Rightarrow> char option" where
  "prev_char s i = (if i = 0 then None else Some (s ! (i - 1)))"

text \<open>A match of the pattern at position \<open>i\<close> of a text.\<close>

definition match_here :: "'m pattern \<Rightarrow> string \<Rightarrow> nat \<Rightarrow> ('m \<times> nat) option" where
  "match_here m s i = m (prev_char s i) (drop i s)"

locale matcher =
  fixes m :: "'m pattern"
  assumes consumes: "m p s = Some (x, n) \<Longrightarrow> 0 < n \<and> n \<le> length s"
begin

lemma step_prev: "i + n \<le> length t \<Longrightarrow> 0 < n \<Longrightarrow> last (take n (drop i t)) = t ! (i + n - 1)"
proof -
  assume a: "i + n \<le> length t" "0 < n"
  then have "take n (drop i t) \<noteq> []" by auto
  then show ?thesis using a by (simp add: last_conv_nth)
qed

lemma finditer_at:
  "finditer m i (prev_char t i) (drop i t) =
     (if i < length t
      then case match_here m t i of
          None \<Rightarrow> finditer m (Suc i) (prev_char t (Suc i)) (drop (Suc i) t)
        | Some (x, n) \<Rightarrow> (i, i + n, x) # finditer m (i + n) (prev_char t (i + n)) (drop (i + n) t)
      else [])"
proof (cases "i < length t")
  case True
  then obtain cs where d: "drop i t = t ! i # cs" and cs: "cs = drop (Suc i) t"
    by (simp add: Cons_nth_drop_Suc [symmetric])
  show ?thesis
  proof (cases "m (prev_char t i) (drop i t)")
    case None
    with True d show ?thesis by (simp add: match_here_def prev_char_def cs)
  next
    case (Some q)
    obtain x n where q: "q = (x, n)" by (cases q)
    with Some consumes [of "prev_char t i" "drop i t" x n] have n: "0 < n" "i + n \<le> length t" using True by auto
    then have "drop (n - 1) cs = drop (i + n) t" by (simp add: cs add.commute)
    moreover have "last (take n (t ! i # cs)) = t ! (i + n - 1)" using step_prev [OF n(2,1)] d by simp
    ultimately show ?thesis using Some True n q d by (simp add: match_here_def prev_char_def)
  qed
qed simp

lemma match_bounds: "match_here m t i = Some (x, n) \<Longrightarrow> 0 < n \<and> (i + n \<le> length t)"
  using consumes [of "prev_char t i" "drop i t" x n] by (cases "i \<le> length t") (auto simp: match_here_def)

lemma re_sub_none: "matches m s = [] \<Longrightarrow> re_sub m rep None s = s"
proof -
  have "finditer m i p s = [] \<Longrightarrow> re_sub m rep p s = s" for i p
    by (induction m i p s rule: finditer.induct) (auto split: option.splits)
  then show "matches m s = [] \<Longrightarrow> re_sub m rep None s = s" by (simp add: matches_def)
qed

lemma scan_sound:
  "(a, b, x) \<in> set (finditer m i (prev_char t i) (drop i t))
   \<Longrightarrow> i \<le> a \<and> a < b \<and> b \<le> length t \<and> match_here m t a = Some (x, b - a)"
proof (induction "length t - i" arbitrary: i rule: less_induct)
  case less
  show ?case
  proof (cases "match_here m t i")
    case None
    with less.prems have "i < length t" "(a, b, x) \<in> set (finditer m (Suc i) (prev_char t (Suc i)) (drop (Suc i) t))"
      by (subst (asm) finditer_at, simp split: if_splits)+
    with less.hyps [of "Suc i"] show ?thesis by (simp add: diff_less_mono2 Suc_leD)
  next
    case (Some q)
    obtain y n where q: "q = (y, n)" by (cases q)
    note b = match_bounds [OF Some [unfolded q]]
    from less.prems have "(a, b, x) = (i, i + n, y) \<or> (a, b, x) \<in> set (finditer m (i + n) (prev_char t (i + n)) (drop (i + n) t))"
      using Some q by (subst (asm) finditer_at) (auto split: if_splits)
    moreover have "length t - (i + n) < length t - i" using b by linarith
    ultimately show ?thesis using less.hyps [of "i + n"] b Some q by (auto dest: add_leD1)
  qed
qed

lemma scan_ordered:
  "sorted_wrt (\<lambda>(a, b, _) (a', b', _). b \<le> a') (finditer m i (prev_char t i) (drop i t))"
proof (induction "length t - i" arbitrary: i rule: less_induct)
  case less
  show ?case
  proof (cases "match_here m t i")
    case None
    with less.hyps [of "Suc i"] show ?thesis by (subst finditer_at) auto
  next
    case (Some q)
    obtain y n where q: "q = (y, n)" by (cases q)
    note b = match_bounds [OF Some [unfolded q]]
    show ?thesis using less.hyps [of "i + n"] b Some q
      by (subst finditer_at) (auto dest: scan_sound)
  qed
qed

lemma scan_complete:
  "i \<le> k \<Longrightarrow> match_here m t k = Some (y, l)
   \<Longrightarrow> \<exists>a b x. (a, b, x) \<in> set (finditer m i (prev_char t i) (drop i t)) \<and> a \<le> k \<and> k < b"
proof (induction "length t - i" arbitrary: i rule: less_induct)
  case less
  note k = match_bounds [OF less.prems(2)]
  show ?case
  proof (cases "match_here m t i")
    case None
    with less.prems have "Suc i \<le> k" by (cases "i = k") auto
    with less.hyps [of "Suc i"] less.prems k None show ?thesis by (subst finditer_at) auto
  next
    case (Some q)
    obtain z n where q: "q = (z, n)" by (cases q)
    note b = match_bounds [OF Some [unfolded q]]
    show ?thesis
    proof (cases "k < i + n")
      case True
      with Some q less.prems k b show ?thesis by (subst finditer_at) auto
    next
      case False
      then have "length t - (i + n) < length t - i" "i + n \<le> k" using b by linarith+
      with less.hyps [of "i + n"] less.prems(2)
      obtain a e x where "(a, e, x) \<in> set (finditer m (i + n) (prev_char t (i + n)) (drop (i + n) t))" "a \<le> k" "k < e"
        by blast
      with Some q b show ?thesis by (subst finditer_at) auto
    qed
  qed
qed

lemma matches_start: "matches m t = finditer m 0 (prev_char t 0) (drop 0 t)"
  by (simp add: matches_def prev_char_def)

lemma matches_sound:
  "(a, b, x) \<in> set (matches m t) \<Longrightarrow> a < b \<and> b \<le> length t \<and> match_here m t a = Some (x, b - a)"
  using scan_sound [of a b x 0 t] by (simp add: matches_start)

lemma matches_ordered: "sorted_wrt (\<lambda>(a, b, _) (a', b', _). b \<le> a') (matches m t)"
  using scan_ordered [of 0 t] by (simp add: matches_start)

lemma matches_complete:
  "match_here m t k = Some (y, l) \<Longrightarrow> \<exists>a b x. (a, b, x) \<in> set (matches m t) \<and> a \<le> k \<and> k < b"
  using scan_complete [of 0 k t y l] by (simp add: matches_start)

text \<open>A text in which the pattern matches nowhere, and only such a text, has no match to report.\<close>

lemma matches_Nil_iff: "matches m t = [] \<longleftrightarrow> (\<forall>k. match_here m t k = None)"
proof
  assume "matches m t = []"
  then show "\<forall>k. match_here m t k = None"
    using matches_complete [of t] by (metis empty_iff empty_set not_Some_eq old.prod.exhaust)
next
  assume n: "\<forall>k. match_here m t k = None"
  show "matches m t = []"
  proof (cases "matches m t")
    case (Cons h hs)
    then have "h \<in> set (matches m t)" by simp
    moreover obtain a b x where "h = (a, b, x)" by (cases h)
    ultimately have "match_here m t a = Some (x, b - a)" using matches_sound by blast
    with n show ?thesis by simp
  qed simp
qed

end

end
