(* ===== verification/Spec_Citations.thy ===== *)
theory Spec_Citations
  imports Branch_Name Regex_Scan
begin

text \<open>
  \<^verbatim>\<open>validate_spec_citations.py\<close>: the gate that checks every \<^verbatim>\<open>path:line\<close> citation of a plan
  against the repository. The file system and git are parameters (the record \<open>repository\<close>).
  The reason texts are kept as values of a datatype, without their wording.
\<close>

section \<open>Patterns\<close>

definition path_char :: "char \<Rightarrow> bool" where
  "path_char c = (is_word_char c \<or> c \<in> {CHR ''.'', CHR ''/'', CHR ''-''})"

definition EXTENSIONS :: "string list" where
  "EXTENSIONS = [''.py'', ''.md'', ''.sh'', ''.toml'', ''.yaml'', ''.yml'', ''.json'', ''.js'', ''.ts'',
     ''.go'', ''.rs'', ''.tsx'', ''.jsx'', ''.jinja'']"

definition has_extension :: "string \<Rightarrow> bool" where
  "has_extension p = list_ex (\<lambda>e. suffix e p \<and> length e < length p) EXTENSIONS"

definition cite_boundary :: "string \<Rightarrow> bool" where
  "cite_boundary s = (case s of [] \<Rightarrow> True
     | c # _ \<Rightarrow> is_space c \<or> c \<in> {CHR '','', CHR ''.'', CHR '';'', CHR '')'', CHR '']'', CHR 0x27, CHR 0x60, CHR 0x22})"

record cite =
  ct_path :: string
  ct_line :: nat
  ct_end :: "nat option"

text \<open>
  \<open>_CITATION_RE\<close>. A path holds no colon and a boundary is no digit and no hyphen, so the greedy
  runs below are the only way the pattern can match.
\<close>

definition cite_range :: "string \<Rightarrow> string \<Rightarrow> (cite \<times> nat) option" where
  "cite_range path s =
     (let ds = takeWhile is_digit s; r = drop (length ds) s; n = length path + 1 + length ds
      in if ds = [] then None
         else if startswith r ''-''
         then let es = takeWhile is_digit (tl r)
              in if es \<noteq> [] \<and> cite_boundary (drop (length es) (tl r))
                 then Some (\<lparr>ct_path = path, ct_line = read_digits ds, ct_end = Some (read_digits es)\<rparr>, n + 1 + length es)
                 else None
         else if cite_boundary r
         then Some (\<lparr>ct_path = path, ct_line = read_digits ds, ct_end = None\<rparr>, n)
         else None)"

definition CITATION_RE :: "cite pattern" where
  "CITATION_RE prev s =
     (if (case prev of None \<Rightarrow> False | Some c \<Rightarrow> c = CHR '':'' \<or> is_word_char c) then None
      else let path = takeWhile path_char s; r = drop (length path) s
           in if has_extension path \<and> startswith r '':'' then cite_range path (tl r) else None)"

definition IDENT_RE :: "string pattern" where
  "IDENT_RE prev s =
     (case s of
        c # d # r \<Rightarrow>
          let w = takeWhile path_char r
          in if c = CHR 0x60 \<and> (is_lower d \<or> is_upper d \<or> d = CHR ''_'') \<and> 1 \<le> length w \<and> length w \<le> 79
                \<and> startswith (drop (length w) r) [CHR 0x60]
             then Some (d # w, length w + 3) else None
      | _ \<Rightarrow> None)"

definition SKIP_PREFIXES :: "string list" where
  "SKIP_PREFIXES = [''http://'', ''https://'', ''/Users/'', ''/home/'', ''~/'', ''$HOME'']"

definition SKIP_DIRS :: "string list" where
  "SKIP_DIRS = [''.git'', ''__pycache__'', ''node_modules'', ''.tox'', ''.venv'', ''venv'', ''.mypy_cache'']"

section \<open>The repository\<close>

text \<open>
  \<open>resolve_at\<close> resolves a path against the root, \<open>inside_root\<close> is what \<open>relative_to\<close> accepts,
  \<open>r_glob\<close> gives the paths a recursive search for a name finds, relative to the root and in
  parts, and \<open>read_at\<close> is the decoded content or the text of the \<open>OSError\<close>.
\<close>

record repository =
  resolve_at :: "string \<Rightarrow> string"
  inside_root :: "string \<Rightarrow> bool"
  is_file_at :: "string \<Rightarrow> bool"
  r_glob :: "string \<Rightarrow> string list list"
  read_at :: "string \<Rightarrow> string + string"

definition rel_path :: "string list \<Rightarrow> string" where
  "rel_path parts = join ''/'' parts"

definition find_by_basename :: "repository \<Rightarrow> string \<Rightarrow> string list list" where
  "find_by_basename R basename =
     filter (\<lambda>p. is_file_at R (resolve_at R (rel_path p)) \<and> \<not> list_ex (\<lambda>part. part \<in> set SKIP_DIRS) p)
       (r_glob R basename)"

definition branch_slug :: "string option \<Rightarrow> string" where
  "branch_slug out =
     (case out of None \<Rightarrow> []
      | Some raw \<Rightarrow> strip_hyphens (collapse_hyphens (replace_unsafe (strip raw))))"

section \<open>Checking one citation\<close>

definition nearest_identifier :: "string \<Rightarrow> nat \<Rightarrow> string option" where
  "nearest_identifier spec start =
     (let left = last_chars 80 (take start spec); right = take_chars 80 (drop start spec)
      in case matches IDENT_RE left of
           [] \<Rightarrow> map_option (\<lambda>(_, _, w). w) (search_first IDENT_RE right)
         | hs \<Rightarrow> Some (snd (snd (last hs))))"

datatype cite_status = Skipped | Error | Warning | Ok_no_identifier | Ok | Stale_citation

datatype cite_reason = Out_of_repo | Escapes | Ambiguous nat "string list" bool | Nowhere | Missing
  | Unreadable string | Out_of_range nat bool | No_adjacent | Not_in_block | No_reason

record cite_result =
  cr_path :: string
  cr_line :: "nat option"
  cr_end :: "nat option"
  cr_ident :: "string option"
  cr_status :: cite_status
  cr_reason :: cite_reason
  cr_resolved :: "string option"

definition no_range :: "string \<Rightarrow> nat option \<Rightarrow> cite_status \<Rightarrow> cite_reason \<Rightarrow> cite_result" where
  "no_range p l st r = \<lparr>cr_path = p, cr_line = l, cr_end = None, cr_ident = None, cr_status = st,
     cr_reason = r, cr_resolved = None\<rparr>"

definition end_of :: "cite \<Rightarrow> nat" where
  "end_of m = (case ct_end m of None \<Rightarrow> ct_line m | Some e \<Rightarrow> e)"

text \<open>The file a citation means, or the result that ends the check without one.\<close>

definition find_target :: "repository \<Rightarrow> cite \<Rightarrow> cite_result + string \<times> string option" where
  "find_target R m =
     (let raw = ct_path m; target = resolve_at R raw; fail = no_range raw (Some (ct_line m))
      in if \<not> inside_root R target then Inl (fail Error Escapes)
         else if is_file_at R target then Inr (target, None)
         else if CHR ''/'' \<notin> set raw \<and> CHR 0x5C \<notin> set raw
         then case find_by_basename R raw of
               [] \<Rightarrow> Inl (fail Error Nowhere)
             | [p] \<Rightarrow> Inr (resolve_at R (rel_path p), Some (rel_path p))
             | ps \<Rightarrow> Inl (fail Warning (Ambiguous (length ps) (take 3 (sort (map rel_path ps))) (3 < length ps)))
         else Inl (fail Error Missing))"

definition cited_block :: "string list \<Rightarrow> cite \<Rightarrow> string" where
  "cited_block ls m = join [char_of (10::nat)] (take (end_of m - (ct_line m - 1)) (drop (ct_line m - 1) ls))"

definition check_lines :: "string \<Rightarrow> nat \<Rightarrow> cite \<Rightarrow> string option \<Rightarrow> string list \<Rightarrow> cite_result" where
  "check_lines spec start m resolved ls =
     (let l = ct_line m; e = end_of m;
          res = \<lparr>cr_path = ct_path m, cr_line = Some l, cr_end = Some e, cr_ident = None, cr_status = Ok,
                 cr_reason = No_reason, cr_resolved = resolved\<rparr>
      in if l < 1 \<or> e < l \<or> l > length ls \<or> e > length ls
         then res\<lparr>cr_status := Error, cr_reason := Out_of_range (length ls) (e < l), cr_resolved := None\<rparr>
         else case nearest_identifier spec start of
            None \<Rightarrow> res\<lparr>cr_status := Ok_no_identifier, cr_reason := No_adjacent\<rparr>
          | Some w \<Rightarrow>
              if contains_str (cited_block ls m) w then res\<lparr>cr_ident := Some w\<rparr>
              else res\<lparr>cr_ident := Some w, cr_status := Stale_citation, cr_reason := Not_in_block\<rparr>)"

definition check_citation :: "repository \<Rightarrow> string \<Rightarrow> nat \<Rightarrow> cite \<Rightarrow> cite_result" where
  "check_citation R spec start m =
     (if list_ex (\<lambda>p. startswith (ct_path m) p) SKIP_PREFIXES
      then no_range (ct_path m) None Skipped Out_of_repo
      else case find_target R m of
          Inl r \<Rightarrow> r
        | Inr (target, resolved) \<Rightarrow>
            (case read_at R target of
               Inl exc \<Rightarrow> no_range (ct_path m) (Some (ct_line m)) Error (Unreadable exc)
             | Inr tx \<Rightarrow> check_lines spec start m resolved (splitlines tx)))"

section \<open>Checking a plan\<close>

record verdict =
  v_total :: nat
  v_failures :: "cite_result list"
  v_warnings :: "cite_result list"
  v_passed :: bool
  v_details :: "cite_result list option"

definition validate_spec :: "repository \<Rightarrow> string \<Rightarrow> verdict" where
  "validate_spec R spec =
     (let results = map (\<lambda>(a, _, m). check_citation R spec a m) (matches CITATION_RE spec);
          failures = filter (\<lambda>r. cr_status r = Error \<or> cr_status r = Stale_citation) results
      in \<lparr>v_total = length results, v_failures = failures,
          v_warnings = filter (\<lambda>r. cr_status r = Warning) results,
          v_passed = (failures = []), v_details = Some results\<rparr>)"

record cite_args =
  a_branch :: "string option"
  a_spec_path :: "string option"
  a_quiet :: bool

text \<open>
  \<open>main\<close>, for a repository root that is already known: the exit status, and the verdict it
  prints. \<open>read_spec\<close> is the content of a regular file, \<open>None\<close> for anything else; \<open>git\<close> is the
  output of \<^verbatim>\<open>git rev-parse\<close>.
\<close>

definition spec_file :: "cite_args \<Rightarrow> string option \<Rightarrow> string option" where
  "spec_file args git =
     (case a_spec_path args of
        Some (c # cs) \<Rightarrow> Some (c # cs)
      | _ \<Rightarrow>
        let branch = (case a_branch args of Some (c # cs) \<Rightarrow> c # cs | _ \<Rightarrow> branch_slug git)
        in if branch = [] then None else Some (''.map/'' @ branch @ ''/spec_'' @ branch @ ''.md''))"

definition cite_main :: "repository \<Rightarrow> (string \<Rightarrow> string option) \<Rightarrow> cite_args \<Rightarrow> string option \<Rightarrow> nat \<times> verdict option" where
  "cite_main R read_spec args git =
     (case spec_file args git of
        None \<Rightarrow> (2, None)
      | Some f \<Rightarrow>
          (case read_spec f of
             None \<Rightarrow> (2, None)
           | Some spec \<Rightarrow>
               let v = validate_spec R spec;
                   shown = (if a_quiet args \<and> v_passed v then v\<lparr>v_details := None\<rparr> else v)
               in (if v_passed v then 0 else 1, Some shown)))"

section \<open>What the patterns match\<close>

lemma takeWhile_app: "takeWhile P s @ drop (length (takeWhile P s)) s = s"
  by (metis takeWhile_dropWhile_id dropWhile_eq_drop)

lemma take_front: "s = w @ v \<Longrightarrow> n = length w \<Longrightarrow> take n s = w \<and> n \<le> length s"
  by simp

lemma cite_range_shape:
  assumes "cite_range path s = Some (m, n)"
  shows "ct_path m = path \<and> (\<exists>u. prefix u s \<and> n = length path + 1 + length u \<and> list_all path_char u)"
proof -
  let ?ds = "takeWhile is_digit s" and ?r = "drop (length (takeWhile is_digit s)) s"
  let ?es = "takeWhile is_digit (tl ?r)"
  have d: "list_all path_char (takeWhile is_digit t)" for t
    by (auto simp: list_all_iff path_char_def is_word_char_def dest: set_takeWhileD)
  have p1: "prefix ?ds s" by (metis takeWhile_app prefixI)
  have p2: "startswith ?r ''-'' \<Longrightarrow> prefix (?ds @ CHR ''-'' # ?es) s"
  proof -
    assume "startswith ?r ''-''"
    then have "?r = CHR ''-'' # tl ?r" by (cases ?r) (auto simp: startswith_def)
    then have "s = ?ds @ CHR ''-'' # ?es @ drop (length ?es) (tl ?r)" by (metis takeWhile_app)
    then show ?thesis by (metis append_Cons append_assoc prefixI)
  qed
  show ?thesis
  proof (cases "startswith ?r ''-''")
    case True
    with assms have "ct_path m = path" "n = length path + 1 + length (?ds @ CHR ''-'' # ?es)"
      by (auto simp: cite_range_def Let_def split: if_splits)
    moreover have "list_all path_char (?ds @ CHR ''-'' # ?es)" using d by (simp add: path_char_def)
    ultimately show ?thesis using p2 [OF True] by blast
  next
    case False
    with assms have "ct_path m = path" "n = length path + 1 + length ?ds"
      by (auto simp: cite_range_def Let_def split: if_splits)
    then show ?thesis using p1 d by blast
  qed
qed

lemma citation_shape:
  assumes "CITATION_RE prev s = Some (m, n)"
  shows "ct_path m = takeWhile path_char s \<and> has_extension (ct_path m) \<and> 0 < n \<and> n \<le> length s
    \<and> (\<forall>c \<in> set (take n s). path_char c \<or> c = CHR '':'')"
proof -
  let ?p = "takeWhile path_char s" and ?r = "drop (length (takeWhile path_char s)) s"
  from assms have e: "has_extension ?p" "startswith ?r '':''" "cite_range ?p (tl ?r) = Some (m, n)"
    by (auto simp: CITATION_RE_def Let_def split: if_splits)
  obtain u where u: "ct_path m = ?p" "prefix u (tl ?r)" "n = length ?p + 1 + length u" "list_all path_char u"
    using cite_range_shape [OF e(3)] by blast
  from e(2) have "?r = CHR '':'' # tl ?r" by (cases ?r) (auto simp: startswith_def)
  with u(2) obtain v where "s = (?p @ CHR '':'' # u) @ v"
    by (metis takeWhile_app append_Cons append_assoc prefixE)
  moreover have "n = length (?p @ CHR '':'' # u)" using u(3) by simp
  ultimately have "take n s = ?p @ CHR '':'' # u" "n \<le> length s" using take_front by blast+
  with u e show ?thesis by (auto simp: list_all_iff dest: set_takeWhileD)
qed

interpretation cites: matcher CITATION_RE
  by unfold_locales (use citation_shape in blast)

lemma ident_consumes: "IDENT_RE prev s = Some (w, n) \<Longrightarrow> 0 < n \<and> n \<le> length s"
proof -
  assume a: "IDENT_RE prev s = Some (w, n)"
  then obtain c d r where s: "s = c # d # r" by (auto simp: IDENT_RE_def split: list.splits)
  with a have "n = length (takeWhile path_char r) + 3" "drop (length (takeWhile path_char r)) r \<noteq> []"
    by (auto simp: IDENT_RE_def Let_def startswith_def split: if_splits)
  with s show ?thesis by simp
qed

interpretation ident: matcher IDENT_RE
  by unfold_locales (rule ident_consumes)

text \<open>
  The prefixes meant for URLs and for paths in a home directory contain a character no citation
  path can have: those entries of the skip list never apply, and the path that is left of such a
  citation is checked as if it belonged to the repository.
\<close>

lemma skip_prefixes_dead:
  assumes "(a, b, m) \<in> set (matches CITATION_RE spec)" "p \<in> {''http://'', ''https://'', ''~/'', ''$HOME''}"
  shows "\<not> startswith (ct_path m) p"
proof
  assume "startswith (ct_path m) p"
  then have "set p \<subseteq> set (ct_path m)" by (auto simp: startswith_def prefix_def)
  moreover have "\<forall>c \<in> set (ct_path m). path_char c"
    using cites.matches_sound [OF assms(1)] citation_shape by (fastforce simp: match_here_def dest: set_takeWhileD)
  moreover have "\<exists>c \<in> set p. \<not> path_char c" using assms(2)
    by (elim insertE emptyE; simp; code_simp)
  ultimately show False by blast
qed

text \<open>A citation that is written down, at a place where nothing before it can run into it.\<close>

definition cite_text :: "string \<Rightarrow> nat \<Rightarrow> nat option \<Rightarrow> string" where
  "cite_text path l e = path @ '':'' @ show_nat l @ (case e of None \<Rightarrow> [] | Some k \<Rightarrow> ''-'' @ show_nat k)"

lemma takeWhile_end: "list_all P u \<Longrightarrow> r = [] \<or> \<not> P (hd r) \<Longrightarrow> takeWhile P (u @ r) = u"
  by (cases r) (auto simp: list_all_iff takeWhile_append2 takeWhile_tail)

lemma boundary_cases: "cite_boundary r \<Longrightarrow> r = [] \<or> \<not> is_digit (hd r) \<and> hd r \<noteq> CHR ''-''"
  by (cases r) (auto simp: cite_boundary_def is_space_def is_digit_def Let_def)

lemma cite_range_text:
  assumes "cite_boundary r"
  shows "cite_range path (show_nat l @ (case e of None \<Rightarrow> [] | Some k \<Rightarrow> ''-'' @ show_nat k) @ r)
    = Some (\<lparr>ct_path = path, ct_line = l, ct_end = e\<rparr>, length (cite_text path l e))"
proof -
  have n: "list_all is_digit (show_nat k)" "show_nat k \<noteq> []" "read_digits (show_nat k) = k" for k
    using show_nat_ok [of k] by (auto simp: all_digits_def)
  have t: "takeWhile is_digit (show_nat k @ r) = show_nat k" for k
    using n boundary_cases [OF assms] by (intro takeWhile_end) auto
  have t': "takeWhile is_digit (show_nat k @ CHR ''-'' # q) = show_nat k" for k q
    using n by (intro takeWhile_end) (auto simp: is_digit_def)
  have h: "\<not> startswith r ''-''" using boundary_cases [OF assms] by (cases r) (auto simp: startswith_def)
  show ?thesis
  proof (cases e)
    case None
    with assms n h show ?thesis by (simp add: cite_range_def Let_def t cite_text_def)
  next
    case (Some k)
    with assms n show ?thesis by (simp add: cite_range_def Let_def t t' cite_text_def startswith_def)
  qed
qed

lemma cite_match_here:
  assumes "list_all path_char path" "has_extension path" "cite_boundary rest"
    "pre = [] \<or> \<not> path_char (last pre) \<and> last pre \<noteq> CHR '':''"
  shows "match_here CITATION_RE (pre @ cite_text path l e @ rest) (length pre)
    = Some (\<lparr>ct_path = path, ct_line = l, ct_end = e\<rparr>, length (cite_text path l e))"
proof -
  let ?r = "show_nat l @ (case e of None \<Rightarrow> [] | Some k \<Rightarrow> ''-'' @ show_nat k) @ rest"
  have d: "cite_text path l e @ rest = path @ CHR '':'' # ?r" by (simp add: cite_text_def)
  have t: "takeWhile path_char (path @ CHR '':'' # ?r) = path"
    using assms(1) by (intro takeWhile_end) (auto simp: path_char_def is_word_char_def is_lower_def is_upper_def is_digit_def)
  have p: "prev_char (pre @ path @ CHR '':'' # ?r) (length pre) = (if pre = [] then None else Some (last pre))"
    by (cases pre rule: rev_cases) (simp_all add: prev_char_def nth_append)
  have w: "pre \<noteq> [] \<Longrightarrow> \<not> is_word_char (last pre) \<and> last pre \<noteq> CHR '':''" using assms(4) by (auto simp: path_char_def)
  show ?thesis
    unfolding match_here_def d p using w assms(2) cite_range_text [OF assms(3), of path l e]
    by (simp add: CITATION_RE_def Let_def t startswith_def)
qed

lemma in_window: "a \<le> j \<Longrightarrow> j < b \<Longrightarrow> b \<le> length t \<Longrightarrow> t ! j \<in> set (take (b - a) (drop a t))"
  using nth_mem [of "j - a" "take (b - a) (drop a t)"] by simp

section \<open>Properties\<close>

text \<open>
  No citation escapes the gate: a path with one of the known extensions, followed by a
  colon, a line number and an optional end line, is found with exactly that path and range
  wherever it stands in the plan, provided the text before it does not run into the path and the
  text after it ends the number.
\<close>

theorem citation_is_found:
  assumes "list_all path_char path" "has_extension path" "cite_boundary rest"
    "pre = [] \<or> \<not> path_char (last pre) \<and> last pre \<noteq> CHR '':''"
  shows "(length pre, length pre + length (cite_text path l e), \<lparr>ct_path = path, ct_line = l, ct_end = e\<rparr>)
    \<in> set (matches CITATION_RE (pre @ cite_text path l e @ rest))"
proof -
  let ?t = "pre @ cite_text path l e @ rest" and ?k = "length pre"
  note here = cite_match_here [OF assms, of l e]
  obtain a b x where m: "(a, b, x) \<in> set (matches CITATION_RE ?t)" "a \<le> ?k" "?k < b"
    using cites.matches_complete [OF here] by blast
  note s = cites.matches_sound [OF m(1)]
  have "a = ?k"
  proof (rule ccontr)
    assume "a \<noteq> ?k"
    with m(2) have k: "a < ?k" by simp
    then have "last pre = ?t ! (?k - 1)" by (cases pre rule: rev_cases) (auto simp: nth_append)
    also have "\<dots> \<in> set (take (b - a) (drop a ?t))" using k m(3) s by (intro in_window) auto
    finally have "path_char (last pre) \<or> last pre = CHR '':''"
      using s citation_shape by (metis match_here_def)
    with assms(4) k show False by auto
  qed
  with s here have "x = \<lparr>ct_path = path, ct_line = l, ct_end = e\<rparr>" "b - a = length (cite_text path l e)" by auto
  with m(1) s \<open>a = ?k\<close> show ?thesis by (metis le_add_diff_inverse less_imp_le)
qed

theorem citation_is_found_witness:
  "(7, 23, \<lparr>ct_path = ''src/api.go'', ct_line = 12, ct_end = Some 14\<rparr>)
    \<in> set (matches CITATION_RE (''calls ('' @ cite_text ''src/api.go'' 12 (Some 14) @ '') twice''))"
  using citation_is_found [of "''src/api.go''" "'') twice''" "''calls (''" 12 "Some 14"] by code_simp

text \<open>The file a citation names, and what it has to say about it.\<close>

definition cite_names :: "repository \<Rightarrow> cite \<Rightarrow> string \<Rightarrow> bool" where
  "cite_names R m t =
     (inside_root R (resolve_at R (ct_path m))
      \<and> (if is_file_at R (resolve_at R (ct_path m)) then t = resolve_at R (ct_path m)
         else CHR ''/'' \<notin> set (ct_path m) \<and> CHR 0x5C \<notin> set (ct_path m)
              \<and> map (\<lambda>p. resolve_at R (rel_path p)) (find_by_basename R (ct_path m)) = [t]))"

definition cite_ambiguous :: "repository \<Rightarrow> cite \<Rightarrow> bool" where
  "cite_ambiguous R m =
     (inside_root R (resolve_at R (ct_path m)) \<and> \<not> is_file_at R (resolve_at R (ct_path m))
      \<and> CHR ''/'' \<notin> set (ct_path m) \<and> CHR 0x5C \<notin> set (ct_path m) \<and> 1 < length (find_by_basename R (ct_path m)))"

definition cite_holds :: "repository \<Rightarrow> string \<Rightarrow> nat \<Rightarrow> cite \<Rightarrow> string \<Rightarrow> string \<Rightarrow> bool" where
  "cite_holds R spec a m t tx =
     (cite_names R m t \<and> read_at R t = Inr tx
      \<and> 1 \<le> ct_line m \<and> ct_line m \<le> end_of m \<and> end_of m \<le> length (splitlines tx)
      \<and> (case nearest_identifier spec a of None \<Rightarrow> True
         | Some w \<Rightarrow> sublist w (cited_block (splitlines tx) m)))"

definition cite_fails :: "cite_result \<Rightarrow> bool" where
  "cite_fails r = (cr_status r = Error \<or> cr_status r = Stale_citation)"

lemma find_target_iff:
  "find_target R m = Inr (t, res) \<Longrightarrow> cite_names R m t"
  "cite_names R m t \<Longrightarrow> \<exists>res. find_target R m = Inr (t, res)"
  "find_target R m = Inl r \<Longrightarrow> cite_fails r \<longleftrightarrow> \<not> cite_ambiguous R m"
  "cite_ambiguous R m \<Longrightarrow> \<exists>r. find_target R m = Inl r"
  by (auto simp: find_target_def cite_names_def cite_ambiguous_def cite_fails_def no_range_def Let_def
      split: if_splits list.splits)

lemma check_lines_iff:
  "\<not> cite_fails (check_lines spec a m res ls) \<longleftrightarrow>
     1 \<le> ct_line m \<and> ct_line m \<le> end_of m \<and> end_of m \<le> length ls
      \<and> (case nearest_identifier spec a of None \<Rightarrow> True | Some w \<Rightarrow> sublist w (cited_block ls m))"
  by (auto simp: check_lines_def cite_fails_def contains_sublist Let_def split: option.splits)

lemma check_citation_iff:
  "\<not> cite_fails (check_citation R spec a m) \<longleftrightarrow>
     list_ex (startswith (ct_path m)) SKIP_PREFIXES \<or> cite_ambiguous R m \<or> (\<exists>t tx. cite_holds R spec a m t tx)"
proof (cases "list_ex (startswith (ct_path m)) SKIP_PREFIXES")
  case True
  then show ?thesis by (simp add: check_citation_def no_range_def cite_fails_def)
next
  case False
  show ?thesis
  proof (cases "find_target R m")
    case (Inl r)
    with False find_target_iff [of R m] show ?thesis by (auto simp: check_citation_def cite_holds_def)
  next
    case (Inr q)
    obtain t res where q: "q = (t, res)" by (cases q)
    have u: "cite_names R m t' \<longleftrightarrow> t' = t" for t' using find_target_iff(1) [of R m t res] find_target_iff(2) [of R m t'] Inr q by auto
    have "\<not> cite_ambiguous R m" using find_target_iff(4) [of R m] Inr by auto
    with False Inr q u show ?thesis
      by (cases "read_at R t") (simp_all add: check_citation_def cite_holds_def check_lines_iff,
          simp add: cite_fails_def no_range_def)
  qed
qed

text \<open>The paths of another machine: of the documented prefixes these are the ones a path can have.\<close>

definition other_machine :: "cite \<Rightarrow> bool" where
  "other_machine m = (startswith (ct_path m) ''/Users/'' \<or> startswith (ct_path m) ''/home/'')"

lemma skip_is_other_machine:
  "(a, b, m) \<in> set (matches CITATION_RE spec) \<Longrightarrow> list_ex (startswith (ct_path m)) SKIP_PREFIXES = other_machine m"
  using skip_prefixes_dead [of a b m spec] by (simp add: SKIP_PREFIXES_def other_machine_def)

text \<open>
  Claim C20. For ASCII texts the gate opens exactly when it may. The command succeeds if and only
  if the plan can be read and each of its citations (the matches of the pattern in it) is a path
  under \<^verbatim>\<open>/Users/\<close> or \<^verbatim>\<open>/home/\<close>, or a bare name that several files of the repository share, or is
  true: the file exists inside the repository and can be read, the range is one of its lines in
  order, and the identifier next to the citation, when there is one, occurs in the cited lines.
  The other documented exception is not one: the address of a web page is not skipped, the rest of
  it is checked as a path.
\<close>

theorem citation_gate_is_exact:
  assumes "\<And>f spec. read_spec f = Some spec \<Longrightarrow> list_all is_ascii spec"
    and "\<And>t tx. read_at R t = Inr tx \<Longrightarrow> list_all is_ascii tx"
  shows "fst (cite_main R read_spec args git) = 0 \<longleftrightarrow>
     (\<exists>f spec. spec_file args git = Some f \<and> read_spec f = Some spec \<and>
        list_all (\<lambda>(a, _, m). other_machine m \<or> cite_ambiguous R m
           \<or> (\<exists>t tx. cite_holds R spec a m t tx)) (matches CITATION_RE spec))"
proof -
  have "v_passed (validate_spec R spec) \<longleftrightarrow>
      list_all (\<lambda>(a, _, m). \<not> cite_fails (check_citation R spec a m)) (matches CITATION_RE spec)" for spec
    by (auto simp: validate_spec_def Let_def cite_fails_def filter_empty_conv list_all_iff)
  then have "v_passed (validate_spec R spec) \<longleftrightarrow>
      list_all (\<lambda>(a, _, m). other_machine m \<or> cite_ambiguous R m \<or> (\<exists>t tx. cite_holds R spec a m t tx))
        (matches CITATION_RE spec)" for spec
    using skip_is_other_machine [of _ _ _ spec] by (fastforce simp: check_citation_iff list_all_iff)
  then show ?thesis
    by (auto simp: cite_main_def Let_def split: option.splits)
qed

definition small_repository :: repository where
  "small_repository = \<lparr>resolve_at = (\<lambda>p. ''/repo/'' @ p), inside_root = (\<lambda>t. True),
     is_file_at = (\<lambda>t. t = ''/repo/a.py''), r_glob = (\<lambda>b. []),
     read_at = (\<lambda>t. if t = ''/repo/a.py'' then Inr ''def run(x):'' else Inl ''no such file'')\<rparr>"

definition plan_of :: "string \<Rightarrow> string \<Rightarrow> string option" where
  "plan_of tx f = (if f = ''plan.md'' then Some tx else None)"

theorem citation_gate_is_exact_witness:
  "fst (cite_main small_repository (plan_of ''`run` a.py:1 and /home/me/b.py:7'')
      \<lparr>a_branch = None, a_spec_path = Some ''plan.md'', a_quiet = True\<rparr> None) = 0
   \<and> \<not> (\<exists>t tx. cite_holds small_repository ''`walk` a.py:1'' 7 \<lparr>ct_path = ''a.py'', ct_line = 1, ct_end = None\<rparr> t tx)"
proof -
  let ?args = "\<lparr>a_branch = None, a_spec_path = Some ''plan.md'', a_quiet = True\<rparr>"
  have ascii: "list_all is_ascii ''`run` a.py:1 and /home/me/b.py:7''" "list_all is_ascii ''`walk` a.py:1''"
    "list_all is_ascii ''def run(x):''" by code_simp+
  have files: "read_at small_repository t = Inr tx \<Longrightarrow> list_all is_ascii tx" for t tx
    using ascii(3) by (auto simp: small_repository_def split: if_splits)
  have plan: "plan_of tx f = Some spec \<Longrightarrow> list_all is_ascii tx \<Longrightarrow> list_all is_ascii spec" for tx f spec
    by (auto simp: plan_of_def split: if_splits)
  have bad: "fst (cite_main small_repository (plan_of ''`walk` a.py:1'') ?args None) \<noteq> 0" by code_simp
  have "matches CITATION_RE ''`walk` a.py:1'' = [(7, 13, \<lparr>ct_path = ''a.py'', ct_line = 1, ct_end = None\<rparr>)]"
    by code_simp
  moreover have "spec_file ?args None = Some ''plan.md''" "plan_of ''`walk` a.py:1'' ''plan.md'' = Some ''`walk` a.py:1''"
    by (simp_all add: spec_file_def plan_of_def)
  moreover note bad citation_gate_is_exact [of "plan_of ''`walk` a.py:1''" small_repository ?args None, OF plan [OF _ ascii(2)] files]
  ultimately have "\<not> (\<exists>t tx. cite_holds small_repository ''`walk` a.py:1'' 7 \<lparr>ct_path = ''a.py'', ct_line = 1, ct_end = None\<rparr> t tx)"
    by auto
  moreover have "fst (cite_main small_repository (plan_of ''`run` a.py:1 and /home/me/b.py:7'') ?args None) = 0"
    by code_simp
  ultimately show ?thesis by simp
qed

text \<open>
  So a plan that cites a web page by a path and a line is refused, although such citations are
  documented as skipped: what is checked is the rest of the address, as a path from the root of
  the file system.
\<close>

definition empty_repository :: repository where
  "empty_repository = \<lparr>resolve_at = (\<lambda>p. if startswith p ''/'' then p else ''/repo/'' @ p),
     inside_root = (\<lambda>t. startswith t ''/repo/''), is_file_at = (\<lambda>t. False), r_glob = (\<lambda>b. []),
     read_at = (\<lambda>t. Inl ''no such file'')\<rparr>"

lemma url_citation_fails:
  "map (\<lambda>r. (cr_path r, cr_status r)) (v_failures (validate_spec empty_repository ''see https://host/a.py:3 first''))
   = [(''/host/a.py'', Error)]"
  by code_simp

text \<open>
  The slug of this script and the name \<^verbatim>\<open>map_utils.py\<close> gives the branch directory are the same
  for every branch, apart from the names the latter replaces by \<^verbatim>\<open>default\<close>.
\<close>

lemma slug_agrees:
  "branch_slug (Some raw) \<noteq> [] \<Longrightarrow> \<not> contains_str (branch_slug (Some raw)) ''..''
   \<Longrightarrow> \<not> startswith (branch_slug (Some raw)) ''.'' \<Longrightarrow> branch_slug (Some raw) = get_branch_name (Some raw)"
  by (simp add: branch_slug_def get_branch_name_def sanitize_branch_name_def Let_def)

end
