(* ===== verification/Scrub_Line.thy ===== *)
theory Scrub_Line
  imports Regex_Scan "HOL-Library.Multiset"
begin

text \<open>
  \<^verbatim>\<open>scrub_internal_ids.py\<close>, the part that works on one line: the identifier tokens of the
  planning artifacts, the regions of a line under a comment syntax, and stripping tokens from its
  comments.
\<close>

section \<open>Tokens and comment syntax\<close>

definition is_letter :: "char \<Rightarrow> bool" where
  "is_letter c = (is_lower c \<or> is_upper c)"

text \<open>Digits that end at a word boundary, and how many characters they and \<open>k\<close> others take.\<close>

definition digits_token :: "nat \<Rightarrow> string \<Rightarrow> string \<Rightarrow> (string \<times> nat) option" where
  "digits_token k r s =
     (let ds = takeWhile is_digit r; n = k + length ds
      in if ds \<noteq> [] \<and> \<not> is_word_opt (head_opt (drop (length ds) r)) then Some (take n s, n) else None)"

definition ID_FAMILIES :: "string list" where
  "ID_FAMILIES = [''ST-'', ''AC-'', ''INV-'', ''HC-'', ''VC-'']"

definition ID_TOKEN :: "string pattern" where
  "ID_TOKEN prev s =
     (if is_word_opt prev then None
      else case List.find (startswith s) ID_FAMILIES of
          Some f \<Rightarrow>
            let r = drop (length f) s
            in if r \<noteq> [] \<and> is_letter (hd r) then digits_token (length f + 1) (tl r) s
               else digits_token (length f) r s
        | None \<Rightarrow> if startswith s ''VC'' then digits_token 2 (drop 2 s) s else None)"

record comment_syntax =
  line_leaders :: "string list"
  block_starts :: "string list"

definition HASH :: comment_syntax where
  "HASH = \<lparr>line_leaders = [''#''], block_starts = []\<rparr>"

definition SLASH :: comment_syntax where
  "SLASH = \<lparr>line_leaders = [''//''], block_starts = [''/*'']\<rparr>"

definition DASH :: comment_syntax where
  "DASH = \<lparr>line_leaders = [''--''], block_starts = []\<rparr>"

definition HTML :: comment_syntax where
  "HTML = \<lparr>line_leaders = [], block_starts = [''<!--'']\<rparr>"

definition CSS :: comment_syntax where
  "CSS = \<lparr>line_leaders = [], block_starts = [''/*'']\<rparr>"

definition EXT_SYNTAX :: "(string list \<times> comment_syntax) list" where
  "EXT_SYNTAX =
     [([''.py'', ''.pyi'', ''.sh'', ''.bash'', ''.zsh'', ''.yaml'', ''.yml'', ''.toml'', ''.ini'', ''.cfg'',
        ''.conf'', ''.rb'', ''.pl'', ''.r'', ''.tf''], HASH),
      ([''.go'', ''.js'', ''.jsx'', ''.ts'', ''.tsx'', ''.mjs'', ''.cjs'', ''.rs'', ''.c'', ''.h'',
        ''.cc'', ''.cpp'', ''.cxx'', ''.hpp'', ''.java'', ''.kt'', ''.kts'', ''.swift'', ''.scala'', ''.php''], SLASH),
      ([''.sql'', ''.lua'', ''.hs''], DASH),
      ([''.html'', ''.htm'', ''.xml'', ''.vue'', ''.svelte'', ''.md''], HTML),
      ([''.css'', ''.scss'', ''.less''], CSS)]"

definition syntax_for_ext :: "string \<Rightarrow> comment_syntax option" where
  "syntax_for_ext ext = map_option snd (List.find (\<lambda>(es, _). to_lower ext \<in> set es) EXT_SYNTAX)"

definition NAME_SYNTAX :: "(string, comment_syntax) dict" where
  "NAME_SYNTAX = [(''Dockerfile'', HASH), (''Makefile'', HASH)]"

text \<open>\<open>Path.name\<close> is the part after the last slash, \<open>Path.suffix\<close> what follows its last dot,
  unless the name starts or ends there.\<close>

definition path_name :: "string \<Rightarrow> string" where
  "path_name p = last (split_on (CHR ''/'') p)"

definition path_suffix :: "string \<Rightarrow> string" where
  "path_suffix p =
     (let name = path_name p; e = rev (takeWhile (\<lambda>c. c \<noteq> CHR ''.'') (rev name))
      in if e = [] \<or> length e + 1 \<ge> length name then [] else CHR ''.'' # e)"

definition syntax_for_path :: "string \<Rightarrow> comment_syntax option" where
  "syntax_for_path p =
     (case syntax_for_ext (path_suffix p) of None \<Rightarrow> dict_get NAME_SYNTAX (path_name p) | Some s \<Rightarrow> Some s)"

section \<open>Regions of a line\<close>

datatype region_kind = Code | Strng | Comment

type_synonym region = "nat \<times> nat \<times> region_kind"

text \<open>\<open>s.find(pat, k)\<close>\<close>

fun find_in :: "string \<Rightarrow> nat \<Rightarrow> string \<Rightarrow> nat option" where
  "find_in pat k [] = (if pat = [] then Some k else None)"
| "find_in pat k (c # cs) = (if prefix pat (c # cs) then Some k else find_in pat (Suc k) cs)"

definition block_end :: "string \<Rightarrow> string \<Rightarrow> nat \<Rightarrow> nat" where
  "block_end line closer k =
     (case find_in closer k (drop k line) of None \<Rightarrow> length line | Some e \<Rightarrow> e + length closer)"

text \<open>How far the loop over a string literal advances, the closing quote included.\<close>

fun quote_len :: "char \<Rightarrow> string \<Rightarrow> nat" where
  "quote_len q [] = 0"
| "quote_len q [c] = (if c = CHR 0x5C then 2 else 1)"
| "quote_len q (c # d # cs) =
     (if c = CHR 0x5C then 2 + quote_len q cs
      else if c = q then 1 else 1 + quote_len q (d # cs))"

definition flush_code :: "nat \<Rightarrow> nat \<Rightarrow> region list" where
  "flush_code code_start k = (if code_start < k then [(code_start, k, Code)] else [])"

lemma find_in_bounds: "find_in pat k s = Some e \<Longrightarrow> k \<le> e \<and> e + length pat \<le> k + length s"
  by (induction pat k s rule: find_in.induct) (auto split: if_splits dest: prefix_length_le)

lemma block_end_bounds: "k \<le> length line \<Longrightarrow> k \<le> block_end line closer k \<and> block_end line closer k \<le> length line"
  using find_in_bounds [of closer k "drop k line"] by (auto simp: block_end_def split: option.splits)

definition opens :: "string list \<Rightarrow> string \<Rightarrow> string \<Rightarrow> nat \<Rightarrow> bool" where
  "opens starts op line i = (op \<in> set starts \<and> startswith (drop i line) op)"

lemma opens_length: "opens starts op line i \<Longrightarrow> i \<le> length line \<Longrightarrow> i + length op \<le> length line"
  by (auto simp: opens_def startswith_def dest: prefix_length_le)

lemma block_advances:
  assumes "opens starts op line i" "i < length line" "0 < n" "length op = n"
  shows "i < block_end line closer (i + n)" "block_end line closer (i + n) \<le> length line"
  using opens_length [OF assms(1)] block_end_bounds [of "i + n" line closer] assms
  by (auto intro: less_le_trans [of i "i + n"])

lemmas slash_advances = block_advances [where op = "''/*''" and n = 2, simplified]
lemmas html_advances = block_advances [where op = "''<!--''" and n = 4, simplified]

function scan_regions :: "comment_syntax \<Rightarrow> string \<Rightarrow> nat \<Rightarrow> nat \<Rightarrow> region list" where
  "scan_regions syn line code_start i =
     (if length line \<le> i then flush_code code_start (length line)
      else if list_ex (\<lambda>l. startswith (drop i line) l) (line_leaders syn)
      then flush_code code_start i @ [(i, length line, Comment)]
      else if opens (block_starts syn) ''/*'' line i
      then let e = block_end line ''*/'' (i + 2) in flush_code code_start i @ (i, e, Comment) # scan_regions syn line e e
      else if opens (block_starts syn) ''<!--'' line i
      then let e = block_end line ''-->'' (i + 4) in flush_code code_start i @ (i, e, Comment) # scan_regions syn line e e
      else if line ! i = CHR 0x27 \<or> line ! i = CHR 0x22
      then let e = min (i + 1 + quote_len (line ! i) (drop (i + 1) line)) (length line)
           in flush_code code_start i @ (i, e, Strng) # scan_regions syn line e e
      else scan_regions syn line code_start (i + 1))"
  by pat_completeness auto

termination
proof (relation "measure (\<lambda>(_, line, _, i). length line - i)", goal_cases)
  case (2 syn line cs i x)
  then show ?case using slash_advances [of "block_starts syn" line i "''*/''"] by (simp add: diff_less_mono2)
next
  case (3 syn line cs i x)
  then show ?case using html_advances [of "block_starts syn" line i "''-->''"] by (simp add: diff_less_mono2)
qed auto

declare scan_regions.simps [simp del]

definition line_regions :: "string \<Rightarrow> comment_syntax option \<Rightarrow> region list" where
  "line_regions line syn =
     scan_regions (case syn of None \<Rightarrow> \<lparr>line_leaders = [], block_starts = []\<rparr> | Some s \<Rightarrow> s) line 0 0"

definition region_kind_at :: "region list \<Rightarrow> nat \<Rightarrow> region_kind" where
  "region_kind_at rs pos =
     (case List.find (\<lambda>(a, b, _). a \<le> pos \<and> pos < b) rs of None \<Rightarrow> Code | Some (_, _, k) \<Rightarrow> k)"

section \<open>Stripping a line\<close>

definition EMPTY_BRACKETS :: "unit pattern" where
  "EMPTY_BRACKETS prev s =
     (case s of [] \<Rightarrow> None
      | c # cs \<Rightarrow>
          let sp = takeWhile is_space cs; r = drop (length sp) cs
          in if c \<in> {CHR ''('', CHR ''['', CHR ''{''} \<and> r \<noteq> [] \<and> hd r \<in> {CHR '')'', CHR '']'', CHR ''}''}
             then Some ((), length sp + 2) else None)"

definition is_blank :: "char \<Rightarrow> bool" where
  "is_blank c = (c = CHR '' '' \<or> c = CHR 0x09)"

text \<open>A run of at least two characters of a kind, as in \<^verbatim>\<open>[ \t]{2,}\<close> or \<^verbatim>\<open>__+\<close>.\<close>

definition RUN2 :: "(char \<Rightarrow> bool) \<Rightarrow> unit pattern" where
  "RUN2 P prev s = (let w = takeWhile P s in if 2 \<le> length w then Some ((), length w) else None)"

definition tidy_comment_payload :: "string \<Rightarrow> string" where
  "tidy_comment_payload tx =
     (let t1 = re_sub EMPTY_BRACKETS (\<lambda>_. []) None tx;
          t2 = re_sub (RUN2 is_blank) (\<lambda>_. '' '') None t1
      in strip (dropWhile (\<lambda>c. c \<in> {CHR '':'', CHR '';'', CHR '','', CHR ''-'', CHR '' '', CHR 0x09}) (strip t2)))"

definition COMMENT_LEADERS :: "string list" where
  "COMMENT_LEADERS = [''//'', ''--'', ''<!--'', ''/*'', ''#'', '';'']"

definition drop_closer :: "string \<Rightarrow> string \<Rightarrow> string" where
  "drop_closer closer payload =
     (if suffix closer (rstrip payload) then take (length (rstrip payload) - length closer) (rstrip payload) else payload)"

definition comment_leader :: "string \<Rightarrow> string \<times> string" where
  "comment_leader tx =
     (case List.find (startswith (lstrip tx)) COMMENT_LEADERS of
        None \<Rightarrow> ([], tx)
      | Some l \<Rightarrow>
          let payload = drop (length l) (lstrip tx)
          in (l, if l = ''/*'' then drop_closer ''*/'' payload
                 else if l = ''<!--'' then drop_closer ''-->'' payload else payload))"

definition cut_span :: "nat \<times> nat \<Rightarrow> string \<Rightarrow> string" where
  "cut_span sp line = take (fst sp) line @ drop (snd sp) line"

definition slice :: "nat \<Rightarrow> nat \<Rightarrow> string \<Rightarrow> string" where
  "slice a b s = drop a (take b s)"

text \<open>The end of \<open>scrub_line\<close>: what becomes of the first comment once the tokens are cut out.\<close>

definition rebuild_line :: "comment_syntax option \<Rightarrow> string \<Rightarrow> string option" where
  "rebuild_line syn line =
     (case filter (\<lambda>(_, _, k). k = Comment) (line_regions line syn) of
        [] \<Rightarrow> Some line
      | (cstart, cend, _) # _ \<Rightarrow>
          let (leader, payload) = comment_leader (slice cstart cend line);
              tidied = tidy_comment_payload payload;
              head = take cstart line
          in if tidied = [] then (if strip head = [] then None else Some (rstrip head))
             else Some (head @ leader @ '' '' @ tidied @
                    (if leader = ''<!--'' then '' -->'' else if leader = ''/*'' then '' */'' else [])))"

definition scrub_line :: "string \<Rightarrow> comment_syntax option \<Rightarrow> string option \<times> string list \<times> string list" where
  "scrub_line line syn =
     (let found = matches ID_TOKEN line
      in if found = [] then (Some line, [], [])
         else
           let regions = line_regions line syn;
               eligible = filter (\<lambda>(a, _, _). region_kind_at regions a = Comment) found;
               removed = map (\<lambda>(_, _, t). t) eligible;
               residual = map (\<lambda>(_, _, t). t) (filter (\<lambda>(a, _, _). region_kind_at regions a \<noteq> Comment) found);
               spans = map (\<lambda>(a, b, _). (a, b)) eligible
           in if spans = [] then (Some line, removed, residual)
              else (rebuild_line syn (fold cut_span (rev (sort_key fst spans)) line), removed, residual))"

lemma scrub_block_drops_code:
  "fst (scrub_line ''/* ST-1 */ int x = 1;'' (Some SLASH)) = None"
  "fst (scrub_line ''f(); /* AC-2 why */ g();'' (Some SLASH)) = Some ''f(); /* why */''"
  by (code_simp, code_simp)

lemma scrub_line_example:
  "scrub_line ''x = 1  # The rule (INV-7) is: y'' (Some HASH) = (Some ''x = 1  # The rule is: y'', [''INV-7''], [])"
  by code_simp

section \<open>Regions partition a line\<close>

fun chain :: "nat \<Rightarrow> nat \<Rightarrow> region list \<Rightarrow> bool" where
  "chain a n [] \<longleftrightarrow> a = n"
| "chain a n ((x, y, k) # rs) \<longleftrightarrow> x = a \<and> x < y \<and> chain y n rs"

lemma chain_le: "chain a n rs \<Longrightarrow> a \<le> n"
  by (induction a n rs rule: chain.induct) auto

lemma chain_append: "chain a n (xs @ ys) \<longleftrightarrow> (\<exists>m. chain a m xs \<and> chain m n ys)"
  by (induction a n xs rule: chain.induct) auto

lemma chain_flush: "a \<le> b \<Longrightarrow> chain a m (flush_code a b) \<longleftrightarrow> m = b"
  by (auto simp: flush_code_def)

lemma scan_chain:
  "cs \<le> i \<Longrightarrow> i \<le> length line \<Longrightarrow> chain cs (length line) (scan_regions syn line cs i)"
proof (induction syn line cs i rule: scan_regions.induct)
  case (1 syn line cs i)
  show ?case
    using "1.prems" "1.IH" slash_advances [of "block_starts syn" line i "''*/''"] html_advances [of "block_starts syn" line i "''-->''"]
    by (subst scan_regions.simps) (auto simp: chain_append chain_flush Let_def min_def)
qed

section \<open>The code before a comment\<close>

definition comments :: "region list \<Rightarrow> region list" where
  "comments rs = filter (\<lambda>(_, _, k). k = Comment) rs"

definition comment_start :: "region list \<Rightarrow> nat option" where
  "comment_start rs = (case comments rs of [] \<Rightarrow> None | (a, _, _) # _ \<Rightarrow> Some a)"

text \<open>
  What the syntaxes of the table have in common: the leaders have one length, and none of their
  characters can begin a token.
\<close>

definition uniform :: "nat \<Rightarrow> comment_syntax \<Rightarrow> bool" where
  "uniform L syn =
     (0 < L \<and> list_all (\<lambda>l. length l = L \<and> list_all (\<lambda>c. \<not> is_letter c) l) (line_leaders syn @ block_starts syn))"

lemma uniform_syntax:
  assumes "syntax_for_path p = Some syn"
  shows "\<exists>L. uniform L syn"
proof -
  have "syn \<in> snd ` set EXT_SYNTAX \<or> syn \<in> snd ` set NAME_SYNTAX"
    using assms by (auto simp: syntax_for_path_def syntax_for_ext_def find_Some_iff image_iff
        split: option.splits dest!: dict_get_mem) (metis nth_mem snd_conv)+
  then have "syn \<in> {HASH, SLASH, DASH, HTML, CSS}" by (auto simp: EXT_SYNTAX_def NAME_SYNTAX_def)
  moreover have "uniform 1 HASH" "uniform 2 SLASH" "uniform 2 DASH" "uniform 4 HTML" "uniform 2 CSS"
    by code_simp+
  ultimately show ?thesis by blast
qed

lemma comment_start_flush [simp]: "comment_start (flush_code a b @ rs) = comment_start rs"
  by (simp add: comment_start_def comments_def flush_code_def)

lemma comment_start_Cons [simp]:
  "comment_start ((a, b, k) # rs) = (if k = Comment then Some a else comment_start rs)"
  by (simp add: comment_start_def comments_def)

lemma comment_start_Nil [simp]: "comment_start [] = None" "comment_start (flush_code a b) = None"
  by (simp_all add: comment_start_def comments_def flush_code_def)

lemma chain_start: "chain a n rs \<Longrightarrow> comment_start rs = Some c \<Longrightarrow> a \<le> c \<and> c < n"
proof (induction a n rs rule: chain.induct)
  case (2 a n x y k rs)
  then show ?case using chain_le [of y n rs] by (fastforce split: if_splits)
qed simp

lemma quote_len_local:
  "quote_len q u < length u \<Longrightarrow> take (quote_len q u) v = take (quote_len q u) u \<Longrightarrow> quote_len q v = quote_len q u"
proof (induction q u arbitrary: v rule: quote_len.induct)
  case (3 q c d cs)
  show ?case
  proof (cases "c = CHR 0x5C")
    case True
    with "3.prems"(2) have t: "take (Suc (Suc (quote_len q cs))) v = c # d # take (quote_len q cs) cs" by simp
    then obtain v' where v: "v = c # d # v'" "take (quote_len q cs) v' = take (quote_len q cs) cs"
      by (cases v; cases "tl v") simp_all
    moreover have "quote_len q cs < length cs" using True "3.prems"(1) by simp
    ultimately show ?thesis using "3.IH"(1) [OF True, of v'] True by simp
  next
    case False
    note c = False
    show ?thesis
    proof (cases "c = q")
      case True
      with c "3.prems"(2) obtain v' where "v = c # v'" by (cases v) simp_all
      with c True show ?thesis by (cases v') simp_all
    next
      case False
      with c "3.prems"(2) obtain v' where v: "v = c # v'" "take (quote_len q (d # cs)) v' = take (quote_len q (d # cs)) (d # cs)"
        by (cases v) simp_all
      moreover have "quote_len q (d # cs) < length (d # cs)" using c False "3.prems"(1) by simp
      ultimately have e: "quote_len q v' = quote_len q (d # cs)" using "3.IH"(2) [OF c False, of v'] by blast
      have "0 < quote_len q (d # cs)" by (cases cs) simp_all
      with e have "v' \<noteq> []" by auto
      with e c False v show ?thesis by (cases v') simp_all
    qed
  qed
qed (auto split: if_splits)

lemma prefix_local:
  assumes "take k v = take k u" "length l \<le> k"
  shows "prefix l v \<longleftrightarrow> prefix l u"
proof -
  have p: "prefix l w \<longleftrightarrow> take (length l) w = l" for w
    by (auto simp: prefix_def) (metis append_take_drop_id)
  have "take (length l) w = take (length l) (take k w)" for w using assms(2) by simp
  with assms(1) show ?thesis unfolding p by metis
qed

lemma take_drop_agree:
  assumes "take k v = take k u" "i + j \<le> k"
  shows "take j (drop i v) = take j (drop i u)"
proof -
  have "take j (drop i w) = drop i (take (i + j) (take k w))" for w using assms(2) by (simp add: take_drop add.commute)
  with assms(1) show ?thesis by metis
qed

lemma leader_local:
  assumes "uniform L syn" "take (c + L) v = take (c + L) u" "i \<le> c"
  shows "list_ex (\<lambda>l. startswith (drop i v) l) (line_leaders syn) = list_ex (\<lambda>l. startswith (drop i u) l) (line_leaders syn)"
    "opens (block_starts syn) p v i = opens (block_starts syn) p u i"
proof -
  have "l \<in> set (line_leaders syn @ block_starts syn) \<Longrightarrow> startswith (drop i v) l = startswith (drop i u) l" for l
    unfolding startswith_def using assms
    by (intro prefix_local [OF take_drop_agree [where j = L]]) (auto simp: uniform_def list_all_iff)
  then show "list_ex (\<lambda>l. startswith (drop i v) l) (line_leaders syn) = list_ex (\<lambda>l. startswith (drop i u) l) (line_leaders syn)"
    "opens (block_starts syn) p v i = opens (block_starts syn) p u i"
    by (auto simp: list_ex_iff opens_def)
qed

text \<open>Scanning up to the first comment reads no further than its leader.\<close>

lemma scan_leader:
  assumes "uniform L syn" "comment_start (scan_regions syn u cs i) = Some c" "cs \<le> i" "i \<le> length u"
  shows "i \<le> c \<and> (\<exists>l \<in> set (line_leaders syn @ block_starts syn). startswith (drop c u) l)"
  using assms
proof (induction syn u cs i rule: scan_regions.induct)
  case (1 syn u cs i)
  let ?e = "min (i + 1 + quote_len (u ! i) (drop (i + 1) u)) (length u)"
  show ?case
  proof (cases "length u \<le> i \<or> list_ex (\<lambda>l. startswith (drop i u) l) (line_leaders syn)
      \<or> opens (block_starts syn) ''/*'' u i \<or> opens (block_starts syn) ''<!--'' u i")
    case True
    with "1.prems"(2) show ?thesis
      by (subst (asm) scan_regions.simps) (auto simp: Let_def opens_def list_ex_iff split: if_splits)
  next
    case False
    show ?thesis
    proof (cases "u ! i = CHR 0x27 \<or> u ! i = CHR 0x22")
      case True
      have "comment_start (scan_regions syn u ?e ?e) = Some c"
        using "1.prems"(2) False True by (subst (asm) scan_regions.simps) (simp add: Let_def)
      moreover have "i \<le> ?e" using False by simp
      ultimately show ?thesis using "1.IH"(3) [OF _ _ _ _ True refl "1.prems"(1)] False by (auto simp del: min_less_iff_conj)
    next
      case nq: False
      have "comment_start (scan_regions syn u cs (i + 1)) = Some c"
        using "1.prems"(2) False nq by (subst (asm) scan_regions.simps) (simp add: Let_def)
      with "1.IH"(4) [OF _ _ _ _ nq "1.prems"(1)] False "1.prems"(3) show ?thesis by simp
    qed
  qed
qed

lemma first_comment_local:
  assumes "uniform L syn" "comment_start (scan_regions syn u cs i) = Some c" "cs \<le> i" "i \<le> length u"
    "take (c + L) v = take (c + L) u" "c + L \<le> length u" "c + L \<le> length v"
  shows "comment_start (scan_regions syn v cs' i) = Some c"
  using assms
proof (induction syn u cs i arbitrary: cs' rule: scan_regions.induct)
  case (1 syn u cs i)
  note c = scan_leader [OF "1.prems"(1-4)] and loc = leader_local [OF "1.prems"(1,5)]
  have iv: "i < length u" "i < length v" using c "1.prems"(1,6,7) by (auto simp: uniform_def)
  have nth: "v ! i = u ! i" using c "1.prems"(1,5) by (metis (no_types) uniform_def le_neq_implies_less less_add_same_cancel1 less_le_trans nth_take order_le_less_trans)
  have ic: "i \<le> c" using c by simp
  let ?lead = "\<lambda>w. list_ex (\<lambda>l. startswith (drop i w) l) (line_leaders syn)
      \<or> opens (block_starts syn) ''/*'' w i \<or> opens (block_starts syn) ''<!--'' w i"
  show ?case
  proof (cases "?lead u")
    case True
    with "1.prems"(2) iv have "c = i" by (subst (asm) scan_regions.simps) (auto simp: Let_def split: if_splits)
    with True iv show ?thesis by (subst scan_regions.simps) (auto simp: Let_def loc [OF ic])
  next
    case False
    then have v: "\<not> ?lead v" by (simp add: loc [OF ic])
    show ?thesis
    proof (cases "u ! i = CHR 0x27 \<or> u ! i = CHR 0x22")
      case True
      let ?q = "quote_len (u ! i) (drop (i + 1) u)"
      let ?e = "min (i + 1 + ?q) (length u)"
      have s: "comment_start (scan_regions syn u ?e ?e) = Some c"
        using "1.prems"(2) False True iv by (subst (asm) scan_regions.simps) (auto simp: Let_def)
      have e: "?e = i + 1 + ?q" "i + 1 + ?q \<le> c"
        using scan_leader [OF "1.prems"(1) s] "1.prems"(1,6) by (auto simp: uniform_def)
      have "take ?q (drop (i + 1) v) = take ?q (drop (i + 1) u)"
        using e by (intro take_drop_agree [OF "1.prems"(5)]) auto
      moreover have "?q < length (drop (i + 1) u)" using e "1.prems"(1,6) by (auto simp: uniform_def)
      ultimately have "quote_len (u ! i) (drop (i + 1) v) = ?q" by (rule quote_len_local [rotated])
      moreover have "i + 1 + ?q \<le> length v" using e "1.prems"(7) by simp
      ultimately have "scan_regions syn v cs' i = flush_code cs' i @ (i, ?e, Strng) # scan_regions syn v ?e ?e"
        using v iv True nth e by (subst scan_regions.simps) (simp add: Let_def)
      moreover have "comment_start (scan_regions syn v ?e ?e) = Some c"
        using "1.IH"(3) [OF _ _ _ _ True refl "1.prems"(1) s] False iv "1.prems"(5-7) by simp
      ultimately show ?thesis by simp
    next
      case nq: False
      have "comment_start (scan_regions syn u cs (i + 1)) = Some c"
        using "1.prems"(2) False nq iv by (subst (asm) scan_regions.simps) (auto simp: Let_def)
      then have "comment_start (scan_regions syn v cs' (i + 1)) = Some c"
        using "1.IH"(4) [OF _ _ _ _ nq "1.prems"(1)] False iv "1.prems"(3,5-7) by simp
      with v iv nq nth show ?thesis by (subst scan_regions.simps) (simp add: Let_def)
    qed
  qed
qed

section \<open>Tokens\<close>

lemma digits_token_shape:
  assumes "digits_token k r s = Some (t, n)" "r = drop k s" "k \<le> length s"
  shows "k < n \<and> n \<le> length s \<and> t = take n s"
proof -
  have "length (takeWhile is_digit r) \<le> length r" by (rule length_takeWhile_le)
  with assms show ?thesis by (auto simp: digits_token_def Let_def split: if_splits)
qed

lemma token_shape:
  assumes "ID_TOKEN prev s = Some (t, n)"
  shows "0 < n \<and> n \<le> length s \<and> t = take n s \<and> is_letter (hd s)"
proof (cases "List.find (startswith s) ID_FAMILIES")
  case None
  with assms have v: "startswith s ''VC''" "digits_token 2 (drop 2 s) s = Some (t, n)"
    by (auto simp: ID_TOKEN_def split: if_splits)
  then obtain s' where "s = ''VC'' @ s'" by (auto simp: startswith_def elim: prefixE)
  with digits_token_shape [OF v(2)] show ?thesis by (auto simp: is_letter_def is_upper_def)
next
  case (Some f)
  then have f: "f \<in> set ID_FAMILIES" "startswith s f" by (auto simp: find_Some_iff)
  then obtain s' where s': "s = f @ s'" by (auto simp: startswith_def elim: prefixE)
  have "is_letter (hd f) \<and> f \<noteq> []" using f(1) by (auto simp: ID_FAMILIES_def is_letter_def is_upper_def)
  then have l: "is_letter (hd s)" using s' by simp
  show ?thesis
  proof (cases "s' \<noteq> [] \<and> is_letter (hd s')")
    case True
    then have "digits_token (length f + 1) (tl s') s = Some (t, n)" using assms Some s'
      by (auto simp: ID_TOKEN_def Let_def split: if_splits)
    from digits_token_shape [OF this] True s' l show ?thesis by (cases s') auto
  next
    case False
    then have "digits_token (length f) s' s = Some (t, n)" using assms Some s'
      by (auto simp: ID_TOKEN_def Let_def split: if_splits)
    from digits_token_shape [OF this] s' l show ?thesis by auto
  qed
qed

interpretation id_token: matcher ID_TOKEN
  by unfold_locales (use token_shape in blast)

lemma token_in_text:
  "(a, b, t) \<in> set (matches ID_TOKEN line) \<Longrightarrow> a < b \<and> b \<le> length line \<and> t = slice a b line \<and> is_letter (line ! a)"
  using id_token.matches_sound [of a b t line] token_shape [of "prev_char line a" "drop a line" t "b - a"]
  by (auto simp: match_here_def slice_def hd_drop_conv_nth take_drop)

lemma kind_at_comment:
  assumes "chain k n rs" "region_kind_at rs a = Comment"
  shows "\<exists>c. comment_start rs = Some c \<and> c \<le> a"
  using assms
proof (induction k n rs rule: chain.induct)
  case (2 k n x y kd rs)
  then show ?case
  proof (cases "x \<le> a \<and> a < y")
    case True
    with 2 have "kd = Comment" by (auto simp: region_kind_at_def)
    with True show ?thesis by simp
  next
    case False
    with 2 have "region_kind_at rs a = Comment" by (auto simp: region_kind_at_def)
    with 2 obtain c where c: "comment_start rs = Some c" "c \<le> a" by auto
    then have "y \<le> c" using chain_start "2.prems"(1) by auto
    with c "2.prems"(1) show ?thesis by (cases "kd = Comment") auto
  qed
qed (simp add: region_kind_at_def)

lemma cut_keeps:
  assumes "list_all (\<lambda>sp. k \<le> fst sp \<and> fst sp \<le> snd sp) sps" "k \<le> length line"
  shows "take k (fold cut_span sps line) = take k line \<and> k \<le> length (fold cut_span sps line)"
  using assms
proof (induction sps arbitrary: line)
  case (Cons sp sps)
  then have "take k (cut_span sp line) = take k line \<and> k \<le> length (cut_span sp line)"
    by (auto simp: cut_span_def min_def)
  with Cons show ?case by auto
qed simp

lemma regions_chain: "chain 0 (length line) (line_regions line syn)"
  by (simp add: line_regions_def scan_chain)

lemma slice_join:
  assumes "a \<le> b" "b \<le> n" "n \<le> length s"
  shows "slice a b s @ slice b n s = slice a n s"
proof -
  have "take n s = take b s @ slice b n s" using assms by (simp add: slice_def) (metis append_take_drop_id min.absorb1 take_take)
  then have "slice a n s = drop a (take b s @ slice b n s)" by (simp add: slice_def)
  with assms show ?thesis by (simp add: slice_def)
qed

lemma chain_text: "chain a n rs \<Longrightarrow> n \<le> length line \<Longrightarrow> concat (map (\<lambda>(x, y, _). slice x y line) rs) = slice a n line"
proof (induction a n rs rule: chain.induct)
  case (2 a n x y k rs)
  then show ?case using chain_le [of y n rs] by (auto intro: slice_join)
qed (simp add: slice_def)

lemma mset_parts: "mset (map f (filter P xs) @ map f (filter (\<lambda>x. \<not> P x) xs)) = mset (map f xs)"
  by (induction xs) auto

lemma cut_line_comment:
  assumes "uniform L syn" "comment_start (line_regions line (Some syn)) = Some c"
    "list_all (\<lambda>sp. region_kind_at (line_regions line (Some syn)) (fst sp) = Comment \<and> fst sp < snd sp
        \<and> snd sp \<le> length line \<and> is_letter (line ! fst sp)) sps"
  shows "comment_start (line_regions (fold cut_span sps line) (Some syn)) = Some c
    \<and> take c (fold cut_span sps line) = take c line"
proof -
  note sc = assms(2) [unfolded line_regions_def, simplified]
  obtain l where l: "l \<in> set (line_leaders syn @ block_starts syn)" "startswith (drop c line) l"
    using scan_leader [OF assms(1) sc] by auto
  then have len: "length l = L" "\<forall>ch \<in> set l. \<not> is_letter ch" using assms(1) by (auto simp: uniform_def list_all_iff)
  have cl: "c < length line" using chain_start [OF regions_chain assms(2)] by simp
  then have cL: "c + L \<le> length line" using l(2) len by (auto simp: startswith_def dest: prefix_length_le)
  have late: "c + L \<le> a" if a: "region_kind_at (line_regions line (Some syn)) a = Comment" "is_letter (line ! a)" for a
  proof (rule ccontr)
    assume "\<not> c + L \<le> a"
    moreover have "c \<le> a" using kind_at_comment [OF regions_chain a(1)] assms(2) by auto
    ultimately obtain j where j: "a = c + j" "j < L" by (metis add.commute le_Suc_ex nat_add_left_cancel_less not_le)
    obtain w where "drop c line = l @ w" using l(2) by (auto simp: startswith_def elim: prefixE)
    then have "line ! a = l ! j" using j len cl by (metis nth_append nth_drop less_imp_le)
    with len j a(2) show False by auto
  qed
  have k: "take (c + L) (fold cut_span sps line) = take (c + L) line" "c + L \<le> length (fold cut_span sps line)"
    using cut_keeps [OF _ cL, of sps] assms(3) late by (auto simp: list_all_iff less_imp_le)
  then have "comment_start (scan_regions syn (fold cut_span sps line) 0 0) = Some c"
    using first_comment_local [OF assms(1) sc _ _ k(1) cL k(2)] by simp
  moreover have "take c (fold cut_span sps line) = take c line"
    using k(1) by (metis le_add1 min.absorb1 take_take)
  ultimately show ?thesis by (simp add: line_regions_def)
qed

section \<open>The line without its tokens\<close>

text \<open>What the cuts are meant to leave: the characters whose position lies in none of the spans.\<close>

definition without :: "(nat \<times> nat) list \<Rightarrow> string \<Rightarrow> string" where
  "without sps line =
     map snd (filter (\<lambda>(i, _). list_all (\<lambda>(a, b). i < a \<or> b \<le> i) sps) (enumerate 0 line))"

definition ascending :: "(nat \<times> nat) list \<Rightarrow> bool" where
  "ascending sps = (sorted_wrt (\<lambda>(_, b) (a, _). b \<le> a) sps \<and> (\<forall>(a, b) \<in> set sps. a < b))"

lemma filter_enumerate:
  assumes "\<And>i. n \<le> i \<Longrightarrow> i < n + length xs \<Longrightarrow> P i = Q i"
  shows "filter (\<lambda>(i, _). P i) (enumerate n xs) = filter (\<lambda>(i, _). Q i) (enumerate n xs)"
  by (intro filter_cong refl) (auto simp: in_set_enumerate_eq assms)

lemma without_Cons:
  assumes "ascending ((a, b) # sps)" "b \<le> length line"
  shows "without ((a, b) # sps) line = cut_span (a, b) (without sps line)"
proof -
  have ab: "a < b" and late: "\<forall>(a', b') \<in> set sps. b \<le> a' \<and> a' < b'" using assms(1) by (auto simp: ascending_def)
  let ?P = "\<lambda>i. list_all (\<lambda>(a, b). i < a \<or> b \<le> i) sps" and ?Q = "\<lambda>i. list_all (\<lambda>(a, b). i < a \<or> b \<le> i) ((a, b) # sps)"
  define u v w where "u = take a line" "v = take (b - a) (drop a line)" "w = drop b line"
  have line: "line = u @ v @ w" and lens: "length u = a" "length v = b - a"
    using ab assms(2) by (auto simp: u_v_w_def) (metis append_take_drop_id drop_drop le_add_diff_inverse2 less_imp_le)
  have early: "?P i" if "i < b" for i using late that by (auto simp: list_all_iff)
  have pu: "filter (\<lambda>(i, _). ?P i) (enumerate 0 u) = enumerate 0 u" "filter (\<lambda>(i, _). ?Q i) (enumerate 0 u) = enumerate 0 u"
    and pv: "filter (\<lambda>(i, _). ?P i) (enumerate a v) = enumerate a v" "filter (\<lambda>(i, _). ?Q i) (enumerate a v) = []"
    using early ab lens by (auto simp: filter_id_conv filter_empty_conv in_set_enumerate_eq)
  have pw: "filter (\<lambda>(i, _). ?Q i) (enumerate b w) = filter (\<lambda>(i, _). ?P i) (enumerate b w)"
    using ab by (intro filter_enumerate) auto
  have "without sps line = u @ v @ map snd (filter (\<lambda>(i, _). ?P i) (enumerate b w))"
    and "without ((a, b) # sps) line = u @ map snd (filter (\<lambda>(i, _). ?P i) (enumerate b w))"
    using pu pv pw ab lens unfolding without_def by (simp_all add: line enumerate_append_eq)
  then show ?thesis using lens ab by (simp add: cut_span_def)
qed

text \<open>Cutting from the right takes out exactly the spans.\<close>

lemma cuts_are_without:
  "ascending sps \<Longrightarrow> \<forall>(a, b) \<in> set sps. b \<le> length line \<Longrightarrow> fold cut_span (rev sps) line = without sps line"
proof (induction sps)
  case Nil
  show ?case by (simp add: without_def)
next
  case (Cons sp sps)
  then have "fold cut_span (rev sps) line = without sps line" by (auto simp: ascending_def)
  with Cons.prems show ?case using without_Cons [of "fst sp" "snd sp" sps line] by (cases sp) simp
qed

definition comment_spans :: "string \<Rightarrow> comment_syntax option \<Rightarrow> (nat \<times> nat) list" where
  "comment_spans line syn = map (\<lambda>(a, b, _). (a, b))
     (filter (\<lambda>(a, _, _). region_kind_at (line_regions line syn) a = Comment) (matches ID_TOKEN line))"

lemma comment_spans_ok:
  "ascending (comment_spans line syn)" "\<forall>(a, b) \<in> set (comment_spans line syn). b \<le> length line"
proof -
  let ?P = "\<lambda>(a, _, _). region_kind_at (line_regions line syn) a = Comment"
  have "sorted_wrt (\<lambda>(a, b, _) (a', b', _). b \<le> a') (filter ?P (matches ID_TOKEN line))"
    by (rule sorted_wrt_filter [OF id_token.matches_ordered])
  then have "sorted_wrt (\<lambda>(_, b) (a, _). b \<le> a) (comment_spans line syn)"
    by (simp add: comment_spans_def sorted_wrt_map case_prod_unfold)
  moreover have bounds: "\<forall>(a, b) \<in> set (comment_spans line syn). a < b \<and> b \<le> length line"
    using token_in_text [of _ _ _ line] by (force simp: comment_spans_def)
  ultimately show "ascending (comment_spans line syn)" by (auto simp: ascending_def)
  show "\<forall>(a, b) \<in> set (comment_spans line syn). b \<le> length line" using bounds by auto
qed

lemma ascending_sorted: "ascending sps \<Longrightarrow> sorted (map fst sps)"
  by (induction sps) (fastforce simp: ascending_def)+

lemma sorted_spans: "ascending sps \<Longrightarrow> sort_key fst sps = sps"
  by (rule sort_key_id_if_sorted [OF ascending_sorted])

lemma scrub_line_result:
  assumes "scrub_line line syn = (result, removed, residual)"
  shows "result = (if removed = [] then Some line else rebuild_line syn (without (comment_spans line syn) line))"
  using assms sorted_spans [OF comment_spans_ok(1), of line syn] cuts_are_without [OF comment_spans_ok, of line syn]
  by (auto simp: scrub_line_def Let_def comment_spans_def split: if_splits)

lemma comment_spans_text:
  "list_all (\<lambda>sp. region_kind_at (line_regions line syn) (fst sp) = Comment \<and> fst sp < snd sp
     \<and> snd sp \<le> length line \<and> is_letter (line ! fst sp)) (rev (comment_spans line syn))"
  using token_in_text [of _ _ _ line] by (force simp: comment_spans_def list_all_iff)

text \<open>The rebuilt line, from its text before the comment and the payload that is left.\<close>

definition rebuilt :: "nat \<Rightarrow> string \<Rightarrow> string \<Rightarrow> string \<Rightarrow> string option" where
  "rebuilt c line leader payload =
     (if tidy_comment_payload payload \<noteq> []
      then Some (take c line @ leader @ '' '' @ tidy_comment_payload payload
        @ (if leader = ''<!--'' then '' -->'' else if leader = ''/*'' then '' */'' else []))
      else if strip (take c line) = [] then None else Some (rstrip (take c line)))"

lemma rebuild_spelled:
  assumes "comment_start (line_regions line syn) = Some c"
  shows "\<exists>e rest leader payload. comments (line_regions line syn) = (c, e, Comment) # rest
     \<and> comment_leader (slice c e line) = (leader, payload) \<and> rebuild_line syn line = rebuilt c line leader payload"
proof -
  obtain e k rest where cs: "comments (line_regions line syn) = (c, e, k) # rest"
    using assms by (auto simp: comment_start_def split: list.splits prod.splits)
  then have "(c, e, k) \<in> set (comments (line_regions line syn))" by simp
  then have "k = Comment" by (auto simp: comments_def)
  obtain leader payload where cl: "comment_leader (slice c e line) = (leader, payload)" by fastforce
  have "rebuild_line syn line = rebuilt c line leader payload"
    using cs cl by (simp add: rebuild_line_def comments_def rebuilt_def Let_def)
  with cs cl \<open>k = Comment\<close> show ?thesis by blast
qed

section \<open>Properties\<close>

text \<open>
  The regions of a line are a partition of it under every comment syntax, also with
  unterminated strings and comments: they start at its beginning, follow each other without gap
  or overlap, none is empty, and put together they are the line.
\<close>

theorem regions_partition_line:
  "chain 0 (length line) (line_regions line syn)
   \<and> concat (map (\<lambda>(a, b, _). slice a b line) (line_regions line syn)) = line"
  using regions_chain [of line syn] chain_text [OF regions_chain, of line line syn] by (simp add: slice_def)

text \<open>
  Claim C18. Stripping a line is accounted for, cuts exactly the tokens it counts as removed, and
  leaves the text before the first comment alone. For every file type of the table, each token of
  the line is counted either as removed or as residual, as removed exactly when it starts in a
  comment. A line with nothing to remove is returned as it was. Otherwise let \<open>cut\<close> be the line
  without the characters of the removed tokens: its first comment starts where that of the line
  does, and the result is the unchanged text before it, the comment leader, what the tidying
  leaves of the payload of that comment in \<open>cut\<close>, and the closer; when nothing is left of the
  payload the comment disappears and the text before it loses its trailing white space, and the
  line is deleted exactly when that text is blank. So whatever follows the first comment of such a
  line is dropped, code and residual tokens included.
\<close>

theorem scrub_line_is_sound:
  assumes "syntax_for_path p = Some syn" "scrub_line line (Some syn) = (result, removed, residual)"
  shows "mset (removed @ residual) = mset (map (\<lambda>(_, _, t). t) (matches ID_TOKEN line))
    \<and> removed = map (\<lambda>(a, b). slice a b line) (comment_spans line (Some syn))
    \<and> (if removed = [] then result = Some line
       else let cut = without (comment_spans line (Some syn)) line
         in \<exists>c e rest leader payload.
              comment_start (line_regions line (Some syn)) = Some c
            \<and> comments (line_regions cut (Some syn)) = (c, e, Comment) # rest
            \<and> comment_leader (slice c e cut) = (leader, payload)
            \<and> result = (if tidy_comment_payload payload \<noteq> []
                 then Some (take c line @ leader @ '' '' @ tidy_comment_payload payload
                   @ (if leader = ''<!--'' then '' -->'' else if leader = ''/*'' then '' */'' else []))
                 else if strip (take c line) = [] then None else Some (rstrip (take c line))))"
proof -
  let ?rs = "line_regions line (Some syn)" and ?ms = "matches ID_TOKEN line"
  let ?el = "filter (\<lambda>(a, _, _). region_kind_at ?rs a = Comment) ?ms"
  let ?cut = "without (comment_spans line (Some syn)) line"
  have rem: "removed = map (\<lambda>(_, _, t). t) ?el" and res: "residual = map (\<lambda>(_, _, t). t) (filter (\<lambda>(a, _, _). region_kind_at ?rs a \<noteq> Comment) ?ms)"
    using assms(2) by (auto simp: scrub_line_def Let_def split: if_splits)
  have acc: "mset (removed @ residual) = mset (map (\<lambda>(_, _, t). t) ?ms)"
    unfolding rem res
    using mset_parts [of "\<lambda>(_, _, t). t" "\<lambda>(a, _, _). region_kind_at ?rs a = Comment" ?ms]
    by (simp add: case_prod_unfold)
  have slices: "removed = map (\<lambda>(a, b). slice a b line) (comment_spans line (Some syn))"
    unfolding rem comment_spans_def using token_in_text [of _ _ _ line] by auto
  have "\<exists>c e rest leader payload. comment_start ?rs = Some c
      \<and> comments (line_regions ?cut (Some syn)) = (c, e, Comment) # rest
      \<and> comment_leader (slice c e ?cut) = (leader, payload) \<and> result = rebuilt c line leader payload"
    if ne: "removed \<noteq> []"
  proof -
    obtain a b t where "(a, b, t) \<in> set ?el" using ne rem by (cases ?el) auto
    then obtain c where c: "comment_start ?rs = Some c"
      using kind_at_comment [OF regions_chain, of line "Some syn" a] by auto
    obtain L where L: "uniform L syn" using uniform_syntax [OF assms(1)] by blast
    note cut = cut_line_comment [OF L c comment_spans_text, unfolded cuts_are_without [OF comment_spans_ok]]
    have "result = rebuild_line (Some syn) ?cut" using scrub_line_result [OF assms(2)] ne by simp
    moreover obtain e rest leader payload where
      "comments (line_regions ?cut (Some syn)) = (c, e, Comment) # rest"
      "comment_leader (slice c e ?cut) = (leader, payload)"
      "rebuild_line (Some syn) ?cut = rebuilt c ?cut leader payload"
      using rebuild_spelled [OF cut [THEN conjunct1]] by blast
    moreover have "rebuilt c ?cut leader payload = rebuilt c line leader payload"
      unfolding rebuilt_def cut [THEN conjunct2] ..
    ultimately show ?thesis using c by (intro exI conjI) simp_all
  qed
  with acc slices scrub_line_result [OF assms(2)] show ?thesis by (simp add: rebuilt_def Let_def)
qed

theorem scrub_line_is_sound_witness:
  "without (comment_spans ''x = 1  # the AC-2 rule'' (Some HASH)) ''x = 1  # the AC-2 rule'' = ''x = 1  # the  rule''
   \<and> (\<exists>c. comment_start (line_regions ''x = 1  # the AC-2 rule'' (Some HASH)) = Some c
        \<and> prefix (take c ''x = 1  # the AC-2 rule'') ''x = 1  # the rule'')"
proof -
  let ?l = "''x = 1  # the AC-2 rule''"
  have p: "syntax_for_path ''a.py'' = Some HASH" by code_simp
  have r: "scrub_line ?l (Some HASH) = (Some ''x = 1  # the rule'', [''AC-2''], [])" by code_simp
  have s: "comment_start (line_regions ?l (Some HASH)) = Some 7" by code_simp
  have w: "without (comment_spans ?l (Some HASH)) ?l = ''x = 1  # the  rule''" by code_simp
  from scrub_line_is_sound [OF p r] obtain c where "comment_start (line_regions ?l (Some HASH)) = Some c"
    by (auto simp: Let_def)
  with s have "c = 7" by simp
  with s w show ?thesis by (simp add: prefix_def)
qed

end
