(* ===== verification/Scrub_Run.thy ===== *)
theory Scrub_Run
  imports Scrub_Line Json
begin

text \<open>
  \<^verbatim>\<open>scrub_internal_ids.py\<close>, the part that works on whole files: test renames, the two passes over
  a text, the git-derived scope, and the driver. Git is a parameter (a function of its argument
  list), the file system is an explicit state.
\<close>

section \<open>Test identifiers\<close>

definition VC_SEGMENT :: "unit pattern" where
  "VC_SEGMENT prev s =
     (case s of
        c # d # r \<Rightarrow>
          let ds = takeWhile is_digit r
          in if to_lower [c, d] = ''vc'' \<and> ds \<noteq> [] then Some ((), length ds + 2) else None
      | _ \<Rightarrow> None)"

text \<open>\<^verbatim>\<open>(?<=[A-Za-z])_(?=[A-Z])\<close>\<close>

definition INNER_UNDERSCORE :: "unit pattern" where
  "INNER_UNDERSCORE prev s =
     (case (prev, s) of
        (Some p, c # d # _) \<Rightarrow> if is_letter p \<and> c = CHR ''_'' \<and> is_upper d then Some ((), 1) else None
      | _ \<Rightarrow> None)"

definition renamed_test_identifier :: "string \<Rightarrow> string option" where
  "renamed_test_identifier name =
     (if search_first VC_SEGMENT name = None then None
      else
        let n1 = re_sub VC_SEGMENT (\<lambda>_. []) None name;
            n2 = re_sub (RUN2 (\<lambda>c. c = CHR ''_'')) (\<lambda>_. ''_'') None n1;
            n3 = rev (dropWhile (\<lambda>c. c = CHR ''_'') (rev n2));
            n4 = re_sub INNER_UNDERSCORE (\<lambda>_. []) None n3
        in if n4 = [] \<or> n4 \<in> {''test'', ''test_'', ''Test''} then None
           else if n4 = name then None else Some n4)"

text \<open>An identifier at the start of a text.\<close>

definition ident_at :: "string \<Rightarrow> string option" where
  "ident_at s =
     (case s of [] \<Rightarrow> None
      | c # cs \<Rightarrow> if is_letter c \<or> c = CHR ''_'' then Some (c # takeWhile is_word_char cs) else None)"

text \<open>A keyword followed by white space: what comes after.\<close>

definition after_word :: "string \<Rightarrow> string \<Rightarrow> string option" where
  "after_word w s =
     (if startswith s w \<and> drop (length w) s \<noteq> [] \<and> is_space (hd (drop (length w) s))
      then Some (lstrip (drop (length w) s)) else None)"

definition PY_DEF :: "string \<Rightarrow> string option" where
  "PY_DEF line =
     (let s = lstrip line;
          after_def = (case after_word ''async'' s of
             Some r \<Rightarrow> after_word ''def'' r
           | None \<Rightarrow> (case after_word ''def'' s of Some r \<Rightarrow> Some r | None \<Rightarrow> after_word ''class'' s))
      in case after_def of None \<Rightarrow> None | Some r \<Rightarrow> ident_at r)"

definition skip_receiver :: "string \<Rightarrow> string" where
  "skip_receiver s =
     (if startswith s ''(''
      then (case dropWhile (\<lambda>c. c \<noteq> CHR '')'') s of [] \<Rightarrow> s | _ # r \<Rightarrow> lstrip r)
      else s)"

definition GO_DEF :: "string \<Rightarrow> string option" where
  "GO_DEF line = (case after_word ''func'' (lstrip line) of None \<Rightarrow> None | Some r \<Rightarrow> ident_at (skip_receiver r))"

datatype def_kind = Py | Go

definition is_test_def :: "string \<Rightarrow> (def_kind \<times> string) option" where
  "is_test_def line =
     (let go = (case GO_DEF line of Some w \<Rightarrow> if startswith w ''Test'' then Some (Go, w) else None | None \<Rightarrow> None)
      in case PY_DEF line of
           Some w \<Rightarrow> if startswith w ''test'' \<or> startswith w ''Test'' then Some (Py, w) else go
         | None \<Rightarrow> go)"

text \<open>The pattern that finds one identifier between word boundaries.\<close>

definition WORD :: "string \<Rightarrow> unit pattern" where
  "WORD w prev s =
     (if w \<noteq> [] \<and> startswith s w \<and> word_boundary prev (head_opt s)
         \<and> word_boundary (Some (last w)) (head_opt (drop (length w) s))
      then Some ((), length w) else None)"

section \<open>A whole text\<close>

fun splitlines_keep_aux :: "string \<Rightarrow> string \<Rightarrow> string list" where
  "splitlines_keep_aux w [] = (if w = [] then [] else [rev w])"
| "splitlines_keep_aux w (c # cs) =
     (if is_linebreak c
      then let rest = skip_lf c cs
           in (rev w @ c # take (length cs - length rest) cs) # splitlines_keep_aux [] rest
      else splitlines_keep_aux (c # w) cs)"

definition splitlines_keep :: "string \<Rightarrow> string list" where
  "splitlines_keep s = splitlines_keep_aux [] s"

definition rstrip_lf :: "string \<Rightarrow> string" where
  "rstrip_lf s = rev (dropWhile (\<lambda>c. c = CHR 0x0A) (rev s))"

datatype residual_reason = Rename_collision | Outside_comment

record text_report =
  t_removed :: nat
  t_deleted :: nat
  t_renames :: "(string \<times> string) list"
  t_residual :: "(nat \<times> string \<times> residual_reason) list"

type_synonym line_scope = "nat list option"

definition in_scope :: "line_scope \<Rightarrow> nat \<Rightarrow> bool" where
  "in_scope scope idx0 = (case scope of None \<Rightarrow> True | Some ls \<Rightarrow> idx0 + 1 \<in> set ls)"

text \<open>Pass 1, one line: the rename it asks for, or the collision it is refused for.\<close>

definition collect_rename :: "string \<Rightarrow> line_scope \<Rightarrow> nat \<times> string
    \<Rightarrow> (string, string) dict \<times> (nat \<times> string \<times> residual_reason) list
    \<Rightarrow> (string, string) dict \<times> (nat \<times> string \<times> residual_reason) list" where
  "collect_rename tx scope ln acc =
     (let (idx0, raw) = ln; (renames, residual) = acc
      in if \<not> in_scope scope idx0 then acc
         else case is_test_def (rstrip_lf raw) of
            None \<Rightarrow> acc
          | Some (_, w) \<Rightarrow>
              (case renamed_test_identifier w of
                 None \<Rightarrow> acc
               | Some new \<Rightarrow>
                   if search_first (WORD new) tx \<noteq> None
                   then (renames, residual @ [(idx0 + 1, w, Rename_collision)])
                   else (dict_set w new renames, residual)))"

definition collect_renames :: "string \<Rightarrow> line_scope \<Rightarrow> (string, string) dict \<times> (nat \<times> string \<times> residual_reason) list" where
  "collect_renames tx scope = fold (collect_rename tx scope) (enumerate 0 (splitlines_keep tx)) ([], [])"

text \<open>Pass 2, one line: its new text, and what is to be reported of it.\<close>

definition scrub_one :: "line_scope \<Rightarrow> comment_syntax option \<Rightarrow> nat \<times> string \<Rightarrow> string option \<times> string list \<times> string list" where
  "scrub_one scope syn ln =
     (let (idx0, raw) = ln
      in if \<not> in_scope scope idx0 then (Some raw, [], [])
         else let body = rstrip_lf raw; (new_body, removed, residual) = scrub_line body syn
              in (map_option (\<lambda>b. b @ drop (length body) raw) new_body, removed, residual))"

definition scrub_text :: "string \<Rightarrow> line_scope \<Rightarrow> comment_syntax option \<Rightarrow> string \<times> text_report" where
  "scrub_text tx scope syn =
     (let (renames, collisions) = collect_renames tx scope;
          working = fold (\<lambda>(old, new) w. re_sub (WORD old) (\<lambda>_. new) None w) renames tx;
          done = map (\<lambda>ln. (fst ln, scrub_one scope syn ln)) (enumerate 0 (splitlines_keep working))
      in (concat (List.map_filter (\<lambda>(_, out, _). out) done),
          \<lparr>t_removed = sum_list (map (\<lambda>(_, _, removed, _). length removed) done),
           t_deleted = length (filter (\<lambda>(_, out, _). out = None) done),
           t_renames = renames,
           t_residual = collisions @ concat (map (\<lambda>(i, _, _, residual). map (\<lambda>t. (i + 1, t, Outside_comment)) residual) done)\<rparr>))"

text \<open>
  The collision guard looks for the new name in the original text only: two test functions whose
  names differ in the removed segment both get the same name.
\<close>

lemma two_tests_one_name:
  "fst (scrub_text (''def test_vc1_f(): a'' @ [CHR 0x0A] @ ''def test_vc2_f(): b'') None (Some HASH))
   = ''def test_f(): a'' @ [CHR 0x0A] @ ''def test_f(): b''"
  by code_simp

section \<open>Scope from git\<close>

text \<open>
  \<open>git args\<close> is whether the command succeeded and what it printed; \<open>Git_failed\<close> stands for an
  \<open>OSError\<close> or a time-out, which \<open>main\<close> catches, \<open>Crash\<close> for the exceptions nothing catches.
\<close>

datatype scrub_exn = Git_failed | Crash

type_synonym git = "string list \<Rightarrow> (bool \<times> string) option"

definition and_then :: "'e + 'a \<Rightarrow> ('a \<Rightarrow> 'e + 'b) \<Rightarrow> 'e + 'b" where
  "and_then r f = (case r of Inl e \<Rightarrow> Inl e | Inr x \<Rightarrow> f x)"

definition run_git :: "git \<Rightarrow> string list \<Rightarrow> scrub_exn + bool \<times> string" where
  "run_git git args = (case git args of None \<Rightarrow> Inl Git_failed | Some r \<Rightarrow> Inr r)"

definition default_branch :: "git \<Rightarrow> scrub_exn + string" where
  "default_branch git =
     and_then (run_git git [''symbolic-ref'', ''--quiet'', ''refs/remotes/origin/HEAD'']) (\<lambda>(ok, out).
       if ok \<and> strip out \<noteq> [] then Inr (last (split_on (CHR ''/'') (strip out)))
       else and_then (run_git git [''rev-parse'', ''--verify'', ''main'']) (\<lambda>(main, _).
         if main then Inr ''main''
         else and_then (run_git git [''rev-parse'', ''--verify'', ''master'']) (\<lambda>(master, _).
           Inr (if master then ''master'' else ''main''))))"

definition resolve_run_base :: "git \<Rightarrow> string option \<Rightarrow> scrub_exn + string option" where
  "resolve_run_base git explicit =
     (case explicit of
        Some (c # cs) \<Rightarrow>
          and_then (run_git git [''rev-parse'', ''--verify'', c # cs]) (\<lambda>(ok, _).
            Inr (if ok then Some (c # cs) else None))
      | _ \<Rightarrow>
          and_then (default_branch git) (\<lambda>d.
            and_then (run_git git [''merge-base'', ''HEAD'', d]) (\<lambda>(ok, out).
              Inr (if ok \<and> strip out \<noteq> [] then Some (strip out) else None))))"

definition listed :: "bool \<times> string \<Rightarrow> string list" where
  "listed r = (if fst r then filter (\<lambda>p. strip p \<noteq> []) (splitlines (snd r)) else [])"

definition changed_files :: "git \<Rightarrow> string \<Rightarrow> scrub_exn + string list" where
  "changed_files git base =
     and_then (run_git git [''diff'', ''--name-only'', base]) (\<lambda>a.
       and_then (run_git git [''diff'', ''--name-only'', ''--cached'', base]) (\<lambda>b.
         and_then (run_git git [''ls-files'', ''--others'', ''--exclude-standard'']) (\<lambda>c.
           Inr (sort (remdups (listed a @ listed b @ listed c))))))"

text \<open>A number with an optional count behind a comma, in a hunk header.\<close>

definition hunk_range :: "string \<Rightarrow> (nat \<times> string) option" where
  "hunk_range s =
     (let ds = takeWhile is_digit s; r = drop (length ds) s; es = takeWhile is_digit (tl r)
      in if ds = [] then None
         else if startswith r '','' \<and> es \<noteq> [] then Some (read_digits ds, drop (length es) (tl r))
         else Some (read_digits ds, r))"

definition hunk_start :: "string \<Rightarrow> nat option" where
  "hunk_start line =
     (if \<not> startswith line ''@@ -'' then None
      else case hunk_range (drop 4 line) of
          None \<Rightarrow> None
        | Some (_, r) \<Rightarrow>
            if \<not> startswith r '' +'' then None
            else (case hunk_range (drop 2 r) of
                None \<Rightarrow> None
              | Some (n, r') \<Rightarrow> if startswith r' '' @@'' then Some n else None))"

definition diff_line :: "string \<Rightarrow> nat \<times> nat list \<Rightarrow> nat \<times> nat list" where
  "diff_line line acc =
     (let (new_ln, added) = acc
      in if startswith line ''@@'' then (case hunk_start line of None \<Rightarrow> acc | Some n \<Rightarrow> (n, added))
         else if startswith line ''+++'' \<or> startswith line ''---'' then acc
         else if startswith line ''+'' then (new_ln + 1, List.insert new_ln added)
         else if startswith line '' '' then (new_ln + 1, added)
         else acc)"

definition added_in_diff :: "string \<Rightarrow> nat list" where
  "added_in_diff out = snd (fold diff_line (splitlines out) (0, []))"

definition added_line_numbers :: "git \<Rightarrow> string \<Rightarrow> string \<Rightarrow> scrub_exn + line_scope" where
  "added_line_numbers git base rel =
     and_then (run_git git [''ls-files'', ''--error-unmatch'', rel]) (\<lambda>(tracked, _).
       and_then (run_git git [''cat-file'', ''-e'', base @ '':'' @ rel]) (\<lambda>(in_base, _).
         if \<not> in_base \<and> \<not> tracked then Inr None
         else and_then (run_git git [''diff'', ''--unified=0'', base, ''--'', rel]) (\<lambda>(ok, out).
           Inr (Some (if ok then added_in_diff out else [])))))"

text \<open>\<open>st.get("affected_files", []) or []\<close>, iterated: the strings among the items.\<close>

definition affected_of :: "json \<Rightarrow> string list option" where
  "affected_of st =
     (case st of
        JObj _ \<Rightarrow>
          (case jget ''affected_files'' st of
             None \<Rightarrow> Some []
           | Some v \<Rightarrow>
               if falsy v then Some []
               else (case v of
                   JList vs \<Rightarrow> Some (List.map_filter (\<lambda>v. case v of JStr p \<Rightarrow> Some p | _ \<Rightarrow> None) vs)
                 | JStr p \<Rightarrow> Some (map (\<lambda>c. [c]) p)
                 | JObj kvs \<Rightarrow> Some (map fst kvs)
                 | _ \<Rightarrow> None))
      | _ \<Rightarrow> Some [])"

text \<open>
  \<open>blueprint\<close> is the parsed plan of a branch, \<open>None\<close> when it is missing, unreadable or no JSON.
  A plan that is no object is a \<open>Crash\<close>.
\<close>

definition affected_files :: "(string \<Rightarrow> json option) \<Rightarrow> string option \<Rightarrow> scrub_exn + string list option" where
  "affected_files blueprint branch =
     (case branch of
        Some (c # cs) \<Rightarrow>
          (case blueprint (c # cs) of
             None \<Rightarrow> Inr None
           | Some (JObj kvs) \<Rightarrow>
               (case dict_get kvs ''subtasks'' of
                  Some (JObj sts) \<Rightarrow>
                    let parts = map (affected_of \<circ> snd) sts
                    in if list_ex (\<lambda>p. p = None) parts then Inl Crash
                       else let fs = concat (List.map_filter id parts) in Inr (if fs = [] then None else Some fs)
                | _ \<Rightarrow> Inr None)
           | Some _ \<Rightarrow> Inl Crash)
      | _ \<Rightarrow> Inr None)"

section \<open>The driver\<close>

datatype entry = Plain string | Unreadable_entry

type_synonym files = "string \<Rightarrow> entry option"

datatype scrub_mode = Scan | Clean

record scrub_report =
  r_status :: string
  r_base :: "string option"
  r_files :: "string list"
  r_tokens :: nat
  r_lines :: nat
  r_renamed :: "(string \<times> string \<times> string) list"
  r_residual :: "(string \<times> nat \<times> string \<times> residual_reason) list"

definition empty_report :: scrub_report where
  "empty_report = \<lparr>r_status = ''no_base'', r_base = None, r_files = [], r_tokens = 0, r_lines = 0, r_renamed = [], r_residual = []\<rparr>"

definition record_file :: "string \<Rightarrow> text_report \<Rightarrow> bool \<Rightarrow> scrub_report \<Rightarrow> scrub_report" where
  "record_file rel rep changed acc =
     (let acc1 = acc\<lparr>r_residual := r_residual acc @ map (\<lambda>r. (rel, r)) (t_residual rep)\<rparr>
      in if changed
         then acc1\<lparr>r_tokens := r_tokens acc + t_removed rep, r_lines := r_lines acc + t_deleted rep,
                   r_renamed := r_renamed acc @ map (\<lambda>r. (rel, r)) (t_renames rep), r_files := r_files acc @ [rel]\<rparr>
         else acc1)"

text \<open>One round of the loop over the changed files.\<close>

definition scrub_file :: "git \<Rightarrow> scrub_mode \<Rightarrow> string \<Rightarrow> string \<Rightarrow> files \<times> scrub_report \<Rightarrow> files \<times> (scrub_exn + scrub_report)" where
  "scrub_file git mode base rel st =
     (let (fs, acc) = st
      in case (fs rel, syntax_for_path rel) of
           (Some (Plain raw), Some syn) \<Rightarrow>
             (case added_line_numbers git base rel of
                Inl e \<Rightarrow> (fs, Inl e)
              | Inr scope \<Rightarrow>
                  if scope = Some [] then (fs, Inr acc)
                  else let tx = universal_newlines raw; (new, rep) = scrub_text tx scope (Some syn)
                       in (if new \<noteq> tx \<and> mode = Clean then fs(rel := Some (Plain new)) else fs,
                           Inr (record_file rel rep (new \<noteq> tx) acc)))
         | _ \<Rightarrow> (fs, Inr acc))"

fun scrub_files :: "git \<Rightarrow> scrub_mode \<Rightarrow> string \<Rightarrow> string list \<Rightarrow> files \<times> scrub_report \<Rightarrow> files \<times> (scrub_exn + scrub_report)" where
  "scrub_files git mode base [] (fs, acc) = (fs, Inr acc)"
| "scrub_files git mode base (rel # rels) st =
     (case scrub_file git mode base rel st of
        (fs, Inl e) \<Rightarrow> (fs, Inl e)
      | (fs, Inr acc) \<Rightarrow> scrub_files git mode base rels (fs, acc))"

definition files_in_scope :: "git \<Rightarrow> (string \<Rightarrow> json option) \<Rightarrow> string \<Rightarrow> string option \<Rightarrow> scrub_exn + string list" where
  "files_in_scope git blueprint base branch =
     and_then (affected_files blueprint branch) (\<lambda>affected.
       and_then (changed_files git base) (\<lambda>changed.
         Inr (case affected of None \<Rightarrow> changed | Some fs \<Rightarrow> filter (\<lambda>f. f \<in> set fs) changed)))"

definition scrub_run :: "git \<Rightarrow> (string \<Rightarrow> json option) \<Rightarrow> scrub_mode \<Rightarrow> string option \<Rightarrow> string option \<Rightarrow> files
    \<Rightarrow> files \<times> (scrub_exn + scrub_report)" where
  "scrub_run git blueprint mode base branch fs =
     (case resolve_run_base git base of
        Inl e \<Rightarrow> (fs, Inl e)
      | Inr None \<Rightarrow> (fs, Inr empty_report)
      | Inr (Some b) \<Rightarrow>
          (case files_in_scope git blueprint b branch of
             Inl e \<Rightarrow> (fs, Inl e)
           | Inr changed \<Rightarrow>
               (case scrub_files git mode b changed (fs, empty_report\<lparr>r_base := Some b\<rparr>) of
                  (fs', Inl e) \<Rightarrow> (fs', Inl e)
                | (fs', Inr acc) \<Rightarrow>
                    (fs', Inr (acc\<lparr>r_status := (if r_files acc = [] then ''clean'' else ''modified'')\<rparr>)))))"

text \<open>\<open>main\<close>: the exit status and the printed report, \<open>None\<close> for the one of a caught exception.\<close>

definition scrub_main :: "git \<Rightarrow> (string \<Rightarrow> json option) \<Rightarrow> scrub_mode \<Rightarrow> string option \<Rightarrow> string option \<Rightarrow> files
    \<Rightarrow> files \<times> nat \<times> scrub_report option" where
  "scrub_main git blueprint mode base branch fs =
     (case scrub_run git blueprint mode base branch fs of
        (fs', Inr rep) \<Rightarrow> (fs', 0, Some rep)
      | (fs', Inl Git_failed) \<Rightarrow> (fs', 0, None)
      | (fs', Inl Crash) \<Rightarrow> (fs', 1, None))"

section \<open>What modelling showed\<close>

text \<open>
  An added line that itself starts with two plus signs looks like the file header of the diff: it
  is not counted, and the added lines behind it are one too low.
\<close>

lemma plus_plus_line_shifts:
  "added_in_diff (join [CHR 0x0A] [''@@ -4,0 +5,3 @@'', ''+a'', ''+++i;'', ''+b'']) = [6, 5]"
  by code_simp

text \<open>Plans written by the orchestrator list their subtasks; only an object of subtasks narrows the scope.\<close>

lemma plan_list_does_not_narrow:
  "dict_get kvs ''subtasks'' = Some (JList sts) \<Longrightarrow> affected_files (\<lambda>_. Some (JObj kvs)) (Some branch) = Inr None"
  by (cases branch) (simp_all add: affected_files_def)

text \<open>There is no second scan after cleaning, and tidying a comment can put a token together.\<close>

lemma tidying_makes_token:
  "scrub_line ''# VC1 ST-()1'' (Some HASH) = (Some ''# ST-1'', [''VC1''], [])"
  by code_simp

text \<open>A rename also reaches lines outside the scope.\<close>

lemma rename_leaves_scope:
  "fst (scrub_text (''test_vc1_f'' @ [CHR 0x0A] @ ''def test_vc1_f(): b'') (Some [2]) (Some HASH))
   = ''test_f'' @ [CHR 0x0A] @ ''def test_f(): b''"
  by code_simp

section \<open>Lines that are left alone\<close>

lemma skip_lf_take: "take (length cs - length (skip_lf c cs)) cs @ skip_lf c cs = cs"
  by (cases cs) (auto simp: Suc_diff_le)

lemma splitlines_keep_concat: "concat (splitlines_keep s) = s"
proof -
  have "concat (splitlines_keep_aux w s) = rev w @ s" for w
    by (induction w s rule: splitlines_keep_aux.induct) (auto simp: Let_def skip_lf_take)
  then show ?thesis by (simp add: splitlines_keep_def)
qed

lemma rstrip_lf_prefix: "rstrip_lf raw @ drop (length (rstrip_lf raw)) raw = raw"
proof -
  have "prefix (rstrip_lf raw) raw" unfolding rstrip_lf_def by (metis suffix_dropWhile suffix_to_prefix rev_rev_ident)
  then show ?thesis by (metis append_eq_conv_conj prefixE)
qed

lemma scrub_one_untouched:
  "\<not> in_scope scope i \<or> matches ID_TOKEN (rstrip_lf raw) = [] \<Longrightarrow> fst (scrub_one scope syn (i, raw)) = Some raw"
  by (auto simp: scrub_one_def scrub_line_def rstrip_lf_prefix)

lemma scrub_piece:
  "(case fst (scrub_one scope syn ln) of None \<Rightarrow> [] | Some l \<Rightarrow> l) = snd ln
   \<or> in_scope scope (fst ln) \<and> matches ID_TOKEN (rstrip_lf (snd ln)) \<noteq> []"
  using scrub_one_untouched [of scope "fst ln" "snd ln" syn] by (cases "in_scope scope (fst ln)") auto

lemma concat_map_filter: "concat (List.map_filter f xs) = concat (map (\<lambda>x. case f x of None \<Rightarrow> [] | Some y \<Rightarrow> y) xs)"
  by (induction xs) (auto simp: map_filter_simps split: option.splits)

text \<open>
  Scrubbing a text changes only lines it may change. When no test is renamed, the new
  text consists of one piece per line of the old one, in order, and the piece of every line that
  is outside the scope or has no token is that line, byte for byte, its line end included.
\<close>

theorem scrub_text_touches_scope_only:
  assumes "scrub_text tx scope syn = (tx', rep)" "t_renames rep = []"
  shows "concat (splitlines_keep tx) = tx
    \<and> (\<exists>pieces. tx' = concat pieces
        \<and> list_all2 (\<lambda>(i, raw) new. new = raw \<or> in_scope scope i \<and> matches ID_TOKEN (rstrip_lf raw) \<noteq> [])
            (enumerate 0 (splitlines_keep tx)) pieces)"
proof -
  let ?new = "\<lambda>ln. case fst (scrub_one scope syn ln) of None \<Rightarrow> [] | Some l \<Rightarrow> l"
  let ?pieces = "map ?new (enumerate 0 (splitlines_keep tx))"
  obtain col where "collect_renames tx scope = ([], col)"
    using assms by (auto simp: scrub_text_def Let_def split: prod.splits)
  then have "tx' = concat ?pieces"
    using assms(1) by (auto simp: scrub_text_def Let_def concat_map_filter case_prod_unfold o_def)
  moreover have "list_all2 (\<lambda>(i, raw) new. new = raw \<or> in_scope scope i \<and> matches ID_TOKEN (rstrip_lf raw) \<noteq> [])
      (enumerate 0 (splitlines_keep tx)) ?pieces"
    using scrub_piece [of scope syn] by (simp add: list_all2_map2 list_all2_same case_prod_unfold)
  ultimately show ?thesis using splitlines_keep_concat by blast
qed

theorem scrub_text_touches_scope_only_witness:
  "fst (scrub_text (''a # AC-1'' @ [CHR 0x0A] @ ''b # AC-2'') (Some [2]) (Some HASH)) = ''a # AC-1'' @ [CHR 0x0A] @ ''b''
   \<and> (\<exists>pieces. ''a # AC-1'' @ [CHR 0x0A] @ ''b'' = concat pieces
        \<and> list_all2 (\<lambda>(i, raw) new. new = raw \<or> in_scope (Some [2]) i \<and> matches ID_TOKEN (rstrip_lf raw) \<noteq> [])
            (enumerate 0 (splitlines_keep (''a # AC-1'' @ [CHR 0x0A] @ ''b # AC-2''))) pieces)"
proof -
  let ?r = "scrub_text (''a # AC-1'' @ [CHR 0x0A] @ ''b # AC-2'') (Some [2]) (Some HASH)"
  have f: "fst ?r = ''a # AC-1'' @ [CHR 0x0A] @ ''b''" by code_simp
  have "t_renames (snd ?r) = []" by code_simp
  with scrub_text_touches_scope_only [of _ _ _ "fst ?r" "snd ?r"] f show ?thesis by simp
qed

section \<open>Files that are left alone\<close>

definition scrubs_to :: "git \<Rightarrow> string \<Rightarrow> string \<Rightarrow> entry option \<Rightarrow> entry option \<Rightarrow> bool" where
  "scrubs_to git b p old new =
     (\<exists>raw scope syn. old = Some (Plain raw) \<and> syntax_for_path p = Some syn
        \<and> added_line_numbers git b p = Inr scope \<and> scope \<noteq> Some []
        \<and> new = Some (Plain (fst (scrub_text (universal_newlines raw) scope (Some syn)))))"

lemma scrub_file_effect:
  assumes "scrub_file git mode b rel (fs, acc) = (fs', r)"
  shows "(\<forall>p. fs' p \<noteq> fs p \<longrightarrow> p = rel \<and> mode = Clean \<and> scrubs_to git b rel (fs rel) (fs' rel)
            \<and> (\<forall>rep. r = Inr rep \<longrightarrow> rel \<in> set (r_files rep)))
    \<and> (\<forall>rep. r = Inr rep \<longrightarrow> set (r_files acc) \<subseteq> set (r_files rep))"
  using assms
  by (auto simp: scrub_file_def scrubs_to_def record_file_def Let_def
      split: option.splits entry.splits sum.splits if_splits prod.splits)

lemma scrub_files_effect:
  assumes "scrub_files git mode b rels (fs, acc) = (fs', r)" "distinct rels"
  shows "(\<forall>p. fs' p \<noteq> fs p \<longrightarrow> p \<in> set rels \<and> mode = Clean \<and> scrubs_to git b p (fs p) (fs' p)
            \<and> (\<forall>rep. r = Inr rep \<longrightarrow> p \<in> set (r_files rep)))
    \<and> (\<forall>rep. r = Inr rep \<longrightarrow> set (r_files acc) \<subseteq> set (r_files rep))"
  using assms
proof (induction rels arbitrary: fs acc)
  case (Cons rel rels)
  obtain fs1 r1 where one: "scrub_file git mode b rel (fs, acc) = (fs1, r1)" by fastforce
  note e = scrub_file_effect [OF one]
  show ?case
  proof (cases r1)
    case (Inl x)
    with Cons.prems(1) one have "fs' = fs1" "r = Inl x" by auto
    with e show ?thesis by auto
  next
    case (Inr acc1)
    with Cons.prems one have rest: "scrub_files git mode b rels (fs1, acc1) = (fs', r)" "distinct rels" "rel \<notin> set rels" by auto
    note ih = Cons.IH [OF rest(1,2)]
    have "p \<in> set (rel # rels) \<and> mode = Clean \<and> scrubs_to git b p (fs p) (fs' p) \<and> (\<forall>rep. r = Inr rep \<longrightarrow> p \<in> set (r_files rep))"
      if p: "fs' p \<noteq> fs p" for p
    proof (cases "fs' p = fs1 p")
      case True
      with p e Inr have "p = rel" "mode = Clean" "scrubs_to git b p (fs p) (fs' p)" "rel \<in> set (r_files acc1)" by auto
      then show ?thesis using ih by auto
    next
      case False
      with ih have i: "p \<in> set rels" "mode = Clean" "scrubs_to git b p (fs1 p) (fs' p)" "\<forall>rep. r = Inr rep \<longrightarrow> p \<in> set (r_files rep)"
        by blast+
      with rest(3) e have "fs1 p = fs p" by metis
      with i show ?thesis by simp
    qed
    moreover have "\<forall>rep. r = Inr rep \<longrightarrow> set (r_files acc) \<subseteq> set (r_files rep)" using ih e Inr by blast
    ultimately show ?thesis by blast
  qed
qed auto

lemma scope_distinct: "files_in_scope git bp b branch = Inr changed \<Longrightarrow> distinct changed"
  by (auto simp: files_in_scope_def changed_files_def and_then_def split: sum.splits option.splits)

text \<open>
  Claim C19. The scrub stays inside the run. A file it changes, even when git fails half way, is
  one that git lists as changed since the base and that the plan's affected files admit, of a
  known source type and with lines added by the run; the mode is \<open>clean\<close>; its new content is the
  scrubbed old one under the scope git gives; and the report lists it. Without a base, and in a
  scan, nothing is written.
\<close>

theorem scrub_run_is_confined:
  assumes "scrub_run git blueprint mode base branch fs = (fs', r)" "fs' p \<noteq> fs p"
  shows "mode = Clean \<and> (\<forall>rep. r = Inr rep \<longrightarrow> p \<in> set (r_files rep) \<and> r_status rep = ''modified'')
    \<and> (\<exists>b changed. resolve_run_base git base = Inr (Some b) \<and> files_in_scope git blueprint b branch = Inr changed
        \<and> p \<in> set changed \<and> scrubs_to git b p (fs p) (fs' p))"
proof -
  obtain b changed where b: "resolve_run_base git base = Inr (Some b)" "files_in_scope git blueprint b branch = Inr changed"
    using assms by (auto simp: scrub_run_def split: sum.splits option.splits)
  obtain r0 where r0: "scrub_files git mode b changed (fs, empty_report\<lparr>r_base := Some b\<rparr>) = (fs', r0)"
    and r: "\<And>rep. r = Inr rep \<Longrightarrow> \<exists>acc. r0 = Inr acc \<and> rep = acc\<lparr>r_status := (if r_files acc = [] then ''clean'' else ''modified'')\<rparr>"
    using assms(1) b by (auto simp: scrub_run_def split: sum.splits prod.splits)
  note e = scrub_files_effect [OF r0 scope_distinct [OF b(2)]]
  then have "r = Inr rep \<Longrightarrow> p \<in> set (r_files rep) \<and> r_status rep = ''modified''" for rep
    using r [of rep] assms(2) by fastforce
  with e b assms(2) show ?thesis by blast
qed

definition one_change :: git where
  "one_change args =
     Some (if args = [''diff'', ''--name-only'', ''B''] then (True, ''a.py'')
           else if hd args \<in> {''ls-files'', ''cat-file''} then (False, []) else (True, []))"

definition one_file :: files where
  "one_file p = (if p = ''a.py'' then Some (Plain ''x # AC-1'') else None)"

theorem scrub_run_is_confined_witness:
  "fst (scrub_run one_change (\<lambda>_. None) Clean (Some ''B'') None one_file) ''a.py'' = Some (Plain ''x'')
   \<and> (\<exists>b changed. resolve_run_base one_change (Some ''B'') = Inr (Some b)
        \<and> files_in_scope one_change (\<lambda>_. None) b None = Inr changed \<and> ''a.py'' \<in> set changed)"
proof -
  let ?run = "scrub_run one_change (\<lambda>_. None) Clean (Some ''B'') None one_file"
  have f: "fst ?run ''a.py'' = Some (Plain ''x'')" by code_simp
  moreover have "one_file ''a.py'' \<noteq> Some (Plain ''x'')" by code_simp
  ultimately have "fst ?run ''a.py'' \<noteq> one_file ''a.py''" by metis
  from scrub_run_is_confined [OF prod.collapse [symmetric] this] f show ?thesis by blast
qed

text \<open>
  The line ends of a whole file change with its first scrubbed line: the text is read with every
  line end turned into a line feed, and is written back that way.
\<close>

lemma line_ends_are_rewritten:
  "fst (scrub_text (universal_newlines (''a'' @ [CHR 0x0D, CHR 0x0A] @ ''b # AC-2'')) (Some [2]) (Some HASH)) = ''a'' @ [CHR 0x0A] @ ''b''"
  by code_simp

end
