(* ===== verification/Runner_Manifest.thy ===== *)
theory Runner_Manifest
  imports Json
begin

text \<open>
  The shared base of \<^verbatim>\<open>map_step_runner.py\<close>: JSON files of a branch directory and the artifact
  manifest, in which the commands of the runner record the stage they have reached. A JSON file is
  its parsed content; the files are UTF-8. The clock is read once per command.
\<close>

section \<open>Files and values\<close>

datatype jfile = No_file | Bad_json | Json json

text \<open>\<open>_read_json_file\<close>: the members of an object, nothing for any other content.\<close>

definition read_json_file :: "jfile \<Rightarrow> (string, json) dict option" where
  "read_json_file f = (case f of Json (JObj kvs) \<Rightarrow> Some kvs | _ \<Rightarrow> None)"

definition get_or :: "(string, json) dict \<Rightarrow> string \<Rightarrow> json \<Rightarrow> json" where
  "get_or d k dflt = (case dict_get d k of None \<Rightarrow> dflt | Some v \<Rightarrow> v)"

definition setdefault :: "string \<Rightarrow> json \<Rightarrow> (string, json) dict \<Rightarrow> (string, json) dict" where
  "setdefault k v d = (case dict_get d k of None \<Rightarrow> dict_set k v d | Some _ \<Rightarrow> d)"

section \<open>The manifest\<close>

definition ARTIFACT_STAGE_NAMES :: "string list" where
  "ARTIFACT_STAGE_NAMES = [''workflow_fit'', ''spec'', ''plan'', ''auto_route'', ''test_contract'', ''repro_probe'',
     ''implementation'', ''review'', ''verification'', ''retry_quarantine'', ''flaky_test_triage'',
     ''qualitative_convergence'', ''anti_repeat'', ''escalation'', ''approval_hold'', ''worktree'', ''token_budget'',
     ''run_health'', ''learn_handoff'', ''implementer_readiness'', ''context_usefulness'', ''wayfind_handoff'',
     ''review_verdict_ledger'', ''prd_review'']"

definition default_stage_payload :: json where
  "default_stage_payload =
     JObj [(''status'', JStr ''not_started''), (''updated_at'', JStr []), (''artifacts'', JList []), (''metadata'', JObj [])]"

definition default_artifact_manifest :: "string \<Rightarrow> string \<Rightarrow> (string, json) dict" where
  "default_artifact_manifest now branch =
     [(''schema_version'', JStr ''1.0''), (''branch'', JStr branch), (''updated_at'', JStr now),
      (''stages'', JObj (map (\<lambda>s. (s, default_stage_payload)) ARTIFACT_STAGE_NAMES))]"

definition loaded_stage :: "json \<Rightarrow> json" where
  "loaded_stage payload =
     (case payload of
        JObj p \<Rightarrow> JObj [(''status'', get_or p ''status'' (JStr ''not_started'')), (''updated_at'', get_or p ''updated_at'' (JStr [])),
           (''artifacts'', get_or p ''artifacts'' (JList [])), (''metadata'', get_or p ''metadata'' (JObj []))]
      | _ \<Rightarrow> default_stage_payload)"

text \<open>The payload of a stage in a manifest file, with the defaults for what is missing.\<close>

definition stage_in_file :: "jfile \<Rightarrow> string \<Rightarrow> json" where
  "stage_in_file f s =
     (case read_json_file f of
        None \<Rightarrow> default_stage_payload
      | Some loaded \<Rightarrow>
          (case get_or loaded ''stages'' (JObj []) of
             JObj stages \<Rightarrow> loaded_stage (get_or stages s default_stage_payload)
           | _ \<Rightarrow> default_stage_payload))"

definition load_artifact_manifest :: "string \<Rightarrow> string \<Rightarrow> jfile \<Rightarrow> (string, json) dict" where
  "load_artifact_manifest now branch f =
     (case read_json_file f of
        Some loaded \<Rightarrow>
          [(''schema_version'', get_or loaded ''schema_version'' (JStr ''1.0'')), (''branch'', JStr branch),
           (''updated_at'', get_or loaded ''updated_at'' (JStr now)),
           (''stages'', JObj (map (\<lambda>s. (s, stage_in_file f s)) ARTIFACT_STAGE_NAMES))]
      | None \<Rightarrow> default_artifact_manifest now branch)"

text \<open>\<open>None\<close> is the \<open>ValueError\<close> for a stage that does not exist.\<close>

definition set_manifest_stage ::
  "string \<Rightarrow> string \<Rightarrow> string \<Rightarrow> json list \<Rightarrow> (string, json) dict \<Rightarrow> (string, json) dict \<Rightarrow> (string, json) dict option" where
  "set_manifest_stage now stage stat artifacts metadata manifest =
     (if stage \<notin> set ARTIFACT_STAGE_NAMES then None
      else case get_or manifest ''stages'' (JObj []) of
          JObj stages \<Rightarrow>
            Some (dict_set ''stages''
              (JObj (dict_set stage (JObj [(''status'', JStr stat), (''updated_at'', JStr now),
                 (''artifacts'', JList artifacts), (''metadata'', JObj metadata)]) stages)) manifest)
        | _ \<Rightarrow> None)"

definition save_artifact_manifest :: "string \<Rightarrow> string \<Rightarrow> (string, json) dict \<Rightarrow> jfile" where
  "save_artifact_manifest now branch manifest =
     Json (JObj (dict_set ''updated_at'' (JStr now) (dict_set ''branch'' (JStr branch) manifest)))"

definition artifact_ref :: "string \<Rightarrow> string \<Rightarrow> json" where
  "artifact_ref path kind = JObj [(''path'', JStr path), (''kind'', JStr kind)]"

text \<open>What every command that reaches a stage does: load, set the stage, save.\<close>

definition record_stage :: "string \<Rightarrow> string \<Rightarrow> string \<Rightarrow> string \<Rightarrow> json list \<Rightarrow> (string, json) dict \<Rightarrow> jfile \<Rightarrow> jfile option" where
  "record_stage now branch stage stat artifacts metadata f =
     map_option (save_artifact_manifest now branch)
       (set_manifest_stage now stage stat artifacts metadata (load_artifact_manifest now branch f))"

section \<open>What is recorded\<close>

lemma dict_get_map: "dict_get (map (\<lambda>s. (s, F s)) xs) k = (if k \<in> set xs then Some (F k) else None)"
  by (induction xs) auto

lemma get_or_set [simp]: "get_or (dict_set k v d) k' x = (if k' = k then v else get_or d k' x)"
  by (simp add: get_or_def alist_laws)

lemma loaded_stage_fixed [simp]:
  "loaded_stage default_stage_payload = default_stage_payload" "loaded_stage (loaded_stage v) = loaded_stage v"
  by (cases v; simp add: loaded_stage_def default_stage_payload_def get_or_def)+

lemma loaded_stage_in_file [simp]: "loaded_stage (stage_in_file f s) = stage_in_file f s"
  by (auto simp: stage_in_file_def split: option.splits json.splits)

lemma loaded_stages:
  "get_or (load_artifact_manifest now b f) ''stages'' x = JObj (map (\<lambda>s. (s, stage_in_file f s)) ARTIFACT_STAGE_NAMES)"
  by (cases "read_json_file f") (simp_all add: load_artifact_manifest_def default_artifact_manifest_def stage_in_file_def get_or_def)

text \<open>A recorded stage reads back as it was written, and the other stages keep what they had.\<close>

lemma record_stage_frame:
  assumes "stage \<in> set ARTIFACT_STAGE_NAMES"
  shows "\<exists>f'. record_stage now b stage stat artifacts metadata f = Some f'
    \<and> jget ''status'' (stage_in_file f' stage) = Some (JStr stat)
    \<and> (\<forall>s \<in> set ARTIFACT_STAGE_NAMES. s \<noteq> stage \<longrightarrow> stage_in_file f' s = stage_in_file f s)"
proof -
  let ?new = "JObj [(''status'', JStr stat), (''updated_at'', JStr now), (''artifacts'', JList artifacts), (''metadata'', JObj metadata)]"
  let ?stages = "dict_set stage ?new (map (\<lambda>s. (s, stage_in_file f s)) ARTIFACT_STAGE_NAMES)"
  let ?m = "dict_set ''stages'' (JObj ?stages) (load_artifact_manifest now b f)"
  have r: "record_stage now b stage stat artifacts metadata f = Some (save_artifact_manifest now b ?m)"
    using assms by (simp add: record_stage_def set_manifest_stage_def loaded_stages)
  have "stage_in_file (save_artifact_manifest now b ?m) s = loaded_stage (get_or ?stages s default_stage_payload)" for s
    by (simp add: stage_in_file_def save_artifact_manifest_def read_json_file_def)
  moreover have "loaded_stage ?new = ?new" by (simp add: loaded_stage_def get_or_def)
  ultimately show ?thesis unfolding r by (auto simp: get_or_def dict_get_map alist_laws)
qed

end
