(* ===== verification/Runner_Holds.thy ===== *)
theory Runner_Holds
  imports Runner_Manifest
begin

text \<open>
  Approval holds of \<^verbatim>\<open>map_step_runner.py\<close>: durable records of risky actions that wait for a decision.
  The operations work on the JSON of the store, whatever it contains; \<open>None\<close> as an answer is an
  exception of Python, which leaves behind what was written before it. \<open>h_trunc\<close> is \<open>int\<close> of a
  floating-point number given by its text, the one piece of float arithmetic the code uses.
\<close>

section \<open>Constants and files\<close>

definition APPROVAL_HOLD_KINDS :: "string list" where
  "APPROVAL_HOLD_KINDS = [''safety_guardrail'', ''autonomy_posture'', ''template_overwrite'', ''plan_approval'', ''dangerous_action'']"

definition APPROVAL_HOLD_TERMINAL_STATES :: "string list" where
  "APPROVAL_HOLD_TERMINAL_STATES = [''approved'', ''denied'', ''expired'', ''cancelled'']"

definition APPROVAL_HOLD_ALL_STATES :: "string list" where
  "APPROVAL_HOLD_ALL_STATES = ''pending'' # APPROVAL_HOLD_TERMINAL_STATES"

definition HARD_STOP_HOLD_KINDS :: "string list" where
  "HARD_STOP_HOLD_KINDS = [''dangerous_action'', ''safety_guardrail'']"

definition AUTO_APPROVABLE_HOLD_KINDS :: "string list" where
  "AUTO_APPROVABLE_HOLD_KINDS = [''autonomy_posture'', ''plan_approval'', ''template_overwrite'']"

record hold_env =
  h_branch :: string
  h_now :: string
  h_trunc :: "string \<Rightarrow> int option"

record hold_files =
  holds_file :: jfile
  manifest_file :: jfile
  hold_reports :: "(string, string) dict"

definition load_approval_holds :: "string \<Rightarrow> jfile \<Rightarrow> (string, json) dict" where
  "load_approval_holds branch f =
     (case read_json_file f of
        Some loaded \<Rightarrow>
          if dict_get loaded ''branch'' = Some (JStr branch)
          then setdefault ''next_id'' (JInt 1) (setdefault ''holds'' (JObj []) loaded)
          else [(''branch'', JStr branch), (''holds'', JObj []), (''next_id'', JInt 1), (''updated_at'', JStr [])]
      | None \<Rightarrow> [(''branch'', JStr branch), (''holds'', JObj []), (''next_id'', JInt 1), (''updated_at'', JStr [])])"

text \<open>\<open>store["holds"]\<close>, of which the code calls methods of a dictionary.\<close>

definition holds_of :: "(string, json) dict \<Rightarrow> (string, json) dict option" where
  "holds_of store = (case dict_get store ''holds'' of Some (JObj hs) \<Rightarrow> Some hs | _ \<Rightarrow> None)"

definition is_safe_char :: "char \<Rightarrow> bool" where
  "is_safe_char c = (is_word_char c \<or> c = CHR ''.'' \<or> c = CHR ''-'')"

definition approval_hold_report_path :: "string \<Rightarrow> string \<Rightarrow> string" where
  "approval_hold_report_path branch hold_id =
     (let safe = map (\<lambda>c. if is_safe_char c then c else CHR ''_'') (strip (if hold_id = [] then ''hold'' else hold_id))
      in ''.map/'' @ branch @ ''/approval_hold_'' @ (if safe = [] then ''hold'' else safe) @ ''.md'')"

section \<open>The report\<close>

text \<open>A value that \<open>join\<close> accepts, and one that has to be there.\<close>

definition text_or :: "(string, json) dict \<Rightarrow> string \<Rightarrow> string \<Rightarrow> string option" where
  "text_or h k dflt = (case dict_get h k of None \<Rightarrow> Some dflt | Some (JStr s) \<Rightarrow> Some s | Some _ \<Rightarrow> None)"

definition source_text :: "(string, json) dict \<Rightarrow> string option" where
  "source_text h =
     (case dict_get h ''source'' of
        None \<Rightarrow> Some ''(not specified)''
      | Some v \<Rightarrow> if falsy v then Some ''(not specified)'' else (case v of JStr s \<Rightarrow> Some s | _ \<Rightarrow> None))"

definition continuation_lines :: "(string, json) dict \<Rightarrow> string list option" where
  "continuation_lines h =
     (case dict_get h ''safe_continuation'' of
        None \<Rightarrow> Some []
      | Some v \<Rightarrow> if falsy v then Some []
          else (case v of JStr s \<Rightarrow> Some [''## Safe Continuation'', [], s, []] | _ \<Rightarrow> None))"

definition decision_lines :: "(string, json) dict \<Rightarrow> string list" where
  "decision_lines h =
     (case dict_get h ''decision'' of
        None \<Rightarrow> []
      | Some v \<Rightarrow> if falsy v then []
          else [''## Decision'', [], ''- **Verdict:** '' @ py_str v,
            ''- **Decided At:** '' @ py_str (get_or h ''decided_at'' (JStr [])),
            ''- **Note:** '' @ py_str (get_or h ''decision_note'' (JStr [])), []])"

definition head_lines :: "(string, json) dict \<Rightarrow> string list option" where
  "head_lines h =
     (case (dict_get h ''id'', dict_get h ''kind'', dict_get h ''state'', dict_get h ''branch'', dict_get h ''created_at'') of
        (Some i, Some k, Some s, Some b, Some c) \<Rightarrow>
          Some [''# Approval Hold: '' @ py_str i, [], ''- **Kind:** '' @ py_str k, ''- **State:** '' @ py_str s,
            ''- **Branch:** '' @ py_str b, ''- **Created:** '' @ py_str c, []]
      | _ \<Rightarrow> None)"

definition render_approval_hold_report :: "(string, json) dict \<Rightarrow> string option" where
  "render_approval_hold_report h =
     (case (head_lines h, text_or h ''reason'' [], text_or h ''request_summary'' [], source_text h, continuation_lines h) of
        (Some front, Some reason, Some req, Some src, Some cont) \<Rightarrow>
          Some (join [CHR 0x0A] (front @ [''## Policy Reason'', [], reason, [], ''## Requested Action'', [], req, [],
            ''## Source'', [], src, []] @ cont @ decision_lines h))
      | _ \<Rightarrow> None)"

section \<open>Operations\<close>

datatype hold_error = Bad_kind | Reason_required | Summary_required | Bad_decision | Hold_not_found
  | Already_decided json | Bad_state

datatype hold_response = Hold_error hold_error | Hold_ok json json bool

text \<open>\<open>int(v or 1)\<close>\<close>

definition py_int_of :: "hold_env \<Rightarrow> json option \<Rightarrow> int option" where
  "py_int_of e v =
     (if falsy_opt v then Some 1
      else case v of
          Some (JInt n) \<Rightarrow> Some n
        | Some (JBool _) \<Rightarrow> Some 1
        | Some (JStr s) \<Rightarrow> py_int s
        | Some (JFloat t) \<Rightarrow> h_trunc e t
        | _ \<Rightarrow> None)"

text \<open>The format \<^verbatim>\<open>03d\<close>.\<close>

definition fmt03 :: "int \<Rightarrow> string" where
  "fmt03 n = (if n < 0 then CHR ''-'' # zfill 2 (nat (- n)) else zfill 3 (nat n))"

definition hold_name :: "int \<Rightarrow> string" where
  "hold_name n = ''hold-'' @ fmt03 n"

definition write_report :: "hold_env \<Rightarrow> string \<Rightarrow> (string, json) dict \<Rightarrow> hold_files \<Rightarrow> hold_files option" where
  "write_report e hold_id hold fs =
     map_option (\<lambda>tx. fs\<lparr>hold_reports := dict_set (approval_hold_report_path (h_branch e) hold_id) tx (hold_reports fs)\<rparr>)
       (render_approval_hold_report hold)"

definition write_stage :: "hold_env \<Rightarrow> string \<Rightarrow> json list \<Rightarrow> (string, json) dict \<Rightarrow> hold_files \<Rightarrow> hold_files option" where
  "write_stage e stat artifacts metadata fs =
     map_option (\<lambda>m. fs\<lparr>manifest_file := m\<rparr>)
       (record_stage (h_now e) (h_branch e) ''approval_hold'' stat artifacts metadata (manifest_file fs))"

text \<open>The report and the manifest, after the store has been written.\<close>

definition publish :: "hold_env \<Rightarrow> string \<Rightarrow> (string, json) dict \<Rightarrow> string \<Rightarrow> json list \<Rightarrow> (string, json) dict
    \<Rightarrow> hold_response \<Rightarrow> hold_files \<Rightarrow> hold_response option \<times> hold_files" where
  "publish e hold_id hold stat artifacts metadata answer fs =
     (case write_report e hold_id hold fs of
        None \<Rightarrow> (None, fs)
      | Some fs1 \<Rightarrow>
          (case write_stage e stat artifacts metadata fs1 of
             None \<Rightarrow> (None, fs1)
           | Some fs2 \<Rightarrow> (Some answer, fs2)))"

definition new_hold :: "hold_env \<Rightarrow> string \<Rightarrow> string \<Rightarrow> string \<Rightarrow> string \<Rightarrow> string \<Rightarrow> string \<Rightarrow> (string, json) dict" where
  "new_hold e hold_id kind reason request_summary source safe_continuation =
     [(''id'', JStr hold_id), (''kind'', JStr kind), (''reason'', JStr (strip reason)),
      (''request_summary'', JStr (strip request_summary)), (''source'', JStr (strip source)),
      (''branch'', JStr (h_branch e)), (''state'', JStr ''pending''), (''created_at'', JStr (h_now e)),
      (''decision'', JNull), (''decision_note'', JStr []), (''decided_at'', JNull),
      (''safe_continuation'', JStr (strip safe_continuation))]"

definition hold_pending :: "json \<Rightarrow> bool" where
  "hold_pending v = (jget ''state'' v = Some (JStr ''pending''))"

definition same_request :: "string \<Rightarrow> string \<Rightarrow> json \<Rightarrow> bool" where
  "same_request kind request_summary v =
     (jget ''kind'' v = Some (JStr kind) \<and> jget ''request_summary'' v = Some (JStr (strip request_summary)) \<and> hold_pending v)"

definition create_approval_hold :: "hold_env \<Rightarrow> string \<Rightarrow> string \<Rightarrow> string \<Rightarrow> string \<Rightarrow> string \<Rightarrow> hold_files
    \<Rightarrow> hold_response option \<times> hold_files" where
  "create_approval_hold e kind reason request_summary source safe_continuation fs =
     (if kind \<notin> set APPROVAL_HOLD_KINDS then (Some (Hold_error Bad_kind), fs)
      else if strip reason = [] then (Some (Hold_error Reason_required), fs)
      else if strip request_summary = [] then (Some (Hold_error Summary_required), fs)
      else
        let store = load_approval_holds (h_branch e) (holds_file fs)
        in case holds_of store of
             None \<Rightarrow> (None, fs)
           | Some holds \<Rightarrow>
               (case List.find (same_request kind request_summary) (map snd holds) of
                  Some existing \<Rightarrow>
                    (case jget ''id'' existing of None \<Rightarrow> (None, fs) | Some i \<Rightarrow> (Some (Hold_ok i existing True), fs))
                | None \<Rightarrow>
                    (case py_int_of e (dict_get store ''next_id'') of
                       None \<Rightarrow> (None, fs)
                     | Some n \<Rightarrow>
                         let hold_id = hold_name n;
                             hold = new_hold e hold_id kind reason request_summary source safe_continuation;
                             store' = dict_set ''updated_at'' (JStr (h_now e)) (dict_set ''next_id'' (JInt (n + 1))
                                (dict_set ''holds'' (JObj (dict_set hold_id (JObj hold) holds)) store));
                             fs1 = fs\<lparr>holds_file := Json (JObj store')\<rparr>
                         in publish e hold_id hold ''pending''
                              [artifact_ref (approval_hold_report_path (h_branch e) hold_id) ''approval_hold'']
                              [(''hold_id'', JStr hold_id), (''kind'', JStr kind)]
                              (Hold_ok (JStr hold_id) (JObj hold) False) fs1)))"

definition decided_hold :: "hold_env \<Rightarrow> string \<Rightarrow> string \<Rightarrow> (string, json) dict \<Rightarrow> (string, json) dict" where
  "decided_hold e decision note_text hold =
     dict_set ''decided_at'' (JStr (h_now e)) (dict_set ''decision_note'' (JStr (strip note_text))
       (dict_set ''decision'' (JStr decision) (dict_set ''state'' (JStr decision) hold)))"

definition decide_approval_hold :: "hold_env \<Rightarrow> string \<Rightarrow> string \<Rightarrow> string \<Rightarrow> hold_files
    \<Rightarrow> hold_response option \<times> hold_files" where
  "decide_approval_hold e hold_id decision note_text fs =
     (if decision \<notin> set APPROVAL_HOLD_TERMINAL_STATES then (Some (Hold_error Bad_decision), fs)
      else
        let store = load_approval_holds (h_branch e) (holds_file fs)
        in case holds_of store of
             None \<Rightarrow> (None, fs)
           | Some holds \<Rightarrow>
               (case dict_get holds hold_id of
                  Some (JObj hold) \<Rightarrow>
                    let current = get_or hold ''state'' (JStr [])
                    in if current \<noteq> JStr ''pending''
                       then if current = JStr decision then (Some (Hold_ok (JStr hold_id) (JObj hold) True), fs)
                            else (Some (Hold_error (Already_decided current)), fs)
                       else
                         let hold' = decided_hold e decision note_text hold;
                             holds' = dict_set hold_id (JObj hold') holds;
                             store' = dict_set ''updated_at'' (JStr (h_now e)) (dict_set ''holds'' (JObj holds') store);
                             fs1 = fs\<lparr>holds_file := Json (JObj store')\<rparr>
                         in publish e hold_id hold'
                              (if list_ex hold_pending (map snd holds') then ''pending'' else ''decided'') []
                              [(''last_decided'', JStr hold_id), (''decision'', JStr decision)]
                              (Hold_ok (JStr hold_id) (JObj hold') False) fs1
                | _ \<Rightarrow> (Some (Hold_error Hold_not_found), fs)))"

definition is_jobj :: "json \<Rightarrow> bool" where
  "is_jobj v = (case v of JObj _ \<Rightarrow> True | _ \<Rightarrow> False)"

text \<open>The listing, in the order of creation: an error, or the holds; \<open>None\<close> is an exception.\<close>

definition list_approval_holds :: "hold_env \<Rightarrow> string option \<Rightarrow> hold_files \<Rightarrow> (hold_error + json list) option" where
  "list_approval_holds e stat fs =
     (if (case stat of None \<Rightarrow> False | Some s \<Rightarrow> s \<notin> set APPROVAL_HOLD_ALL_STATES) then Some (Inl Bad_state)
      else case holds_of (load_approval_holds (h_branch e) (holds_file fs)) of
          None \<Rightarrow> None
        | Some holds \<Rightarrow>
            let result = filter is_jobj (map snd holds);
                wanted = (case stat of None \<Rightarrow> result | Some s \<Rightarrow> filter (\<lambda>h. jget ''state'' h = Some (JStr s)) result)
            in Some (Inr (sort_key (\<lambda>h. py_str (case jget ''created_at'' h of None \<Rightarrow> JStr [] | Some v \<Rightarrow> v)) wanted)))"

record pending_report =
  p_holds :: "json list"
  p_has_pending :: bool
  p_count :: nat
  p_resume_blocked :: bool

definition get_pending_holds :: "hold_env \<Rightarrow> hold_files \<Rightarrow> pending_report option" where
  "get_pending_holds e fs =
     (case list_approval_holds e (Some ''pending'') fs of
        Some (Inr hs) \<Rightarrow> Some \<lparr>p_holds = hs, p_has_pending = (hs \<noteq> []), p_count = length hs, p_resume_blocked = (hs \<noteq> [])\<rparr>
      | Some (Inl _) \<Rightarrow> Some \<lparr>p_holds = [], p_has_pending = False, p_count = 0, p_resume_blocked = False\<rparr>
      | None \<Rightarrow> None)"

definition field_str :: "string \<Rightarrow> json \<Rightarrow> string" where
  "field_str k v = py_str (case jget k v of None \<Rightarrow> JStr [] | Some x \<Rightarrow> x)"

text \<open>The loop of \<open>auto_decide_holds\<close>: identifiers and kinds of the approved and of the stopped holds.\<close>

fun auto_loop :: "hold_env \<Rightarrow> json list \<Rightarrow> (string \<times> string) list \<times> (string \<times> string) list \<Rightarrow> hold_files
    \<Rightarrow> ((string \<times> string) list \<times> (string \<times> string) list) option \<times> hold_files" where
  "auto_loop e [] acc fs = (Some acc, fs)"
| "auto_loop e (h # hs) (approved, stops) fs =
     (let hold_id = field_str ''id'' h; kind = field_str ''kind'' h
      in if kind \<in> set AUTO_APPROVABLE_HOLD_KINDS
         then (case decide_approval_hold e hold_id ''approved'' ''auto-approved by map-auto'' fs of
             (None, fs') \<Rightarrow> (None, fs')
           | (Some _, fs') \<Rightarrow> auto_loop e hs (approved @ [(hold_id, kind)], stops) fs')
         else if kind \<in> set HARD_STOP_HOLD_KINDS then auto_loop e hs (approved, stops @ [(hold_id, kind)]) fs
         else auto_loop e hs (approved, stops) fs)"

definition auto_decide_holds :: "hold_env \<Rightarrow> hold_files \<Rightarrow> ((string \<times> string) list \<times> (string \<times> string) list) option \<times> hold_files" where
  "auto_decide_holds e fs =
     (case get_pending_holds e fs of
        None \<Rightarrow> (None, fs)
      | Some p \<Rightarrow> auto_loop e (p_holds p) ([], []) fs)"

end
