(* ===== verification/Runner_Holds_Props.thy ===== *)
theory Runner_Holds_Props
  imports Runner_Holds "HOL-Library.Multiset"
begin

text \<open>
  What approval holds promise: a typed state machine that the operations on the JSON store
  refine, and the agreement of store, manifest and resume check in every reachable state.
\<close>

section \<open>The specification\<close>

text \<open>A decision is its verdict, its note and its time; a hold without one is pending.\<close>

record hold =
  t_kind :: string
  t_reason :: string
  t_request :: string
  t_source :: string
  t_created :: string
  t_cont :: string
  t_decision :: "(string \<times> string \<times> string) option"

record hold_store =
  a_holds :: "(string \<times> hold) list"
  a_next :: int

definition t_state :: "hold \<Rightarrow> string" where
  "t_state h = (case t_decision h of None \<Rightarrow> ''pending'' | Some (v, _, _) \<Rightarrow> v)"

definition hold_members :: "string \<Rightarrow> string \<Rightarrow> hold \<Rightarrow> (string, json) dict" where
  "hold_members b i h =
     [(''id'', JStr i), (''kind'', JStr (t_kind h)), (''reason'', JStr (t_reason h)),
      (''request_summary'', JStr (t_request h)), (''source'', JStr (t_source h)),
      (''branch'', JStr b), (''state'', JStr (t_state h)), (''created_at'', JStr (t_created h)),
      (''decision'', case t_decision h of None \<Rightarrow> JNull | Some (v, _, _) \<Rightarrow> JStr v),
      (''decision_note'', case t_decision h of None \<Rightarrow> JStr [] | Some (_, n, _) \<Rightarrow> JStr n),
      (''decided_at'', case t_decision h of None \<Rightarrow> JNull | Some (_, _, t) \<Rightarrow> JStr t),
      (''safe_continuation'', JStr (t_cont h))]"

definition hold_json :: "string \<Rightarrow> string \<Rightarrow> hold \<Rightarrow> json" where
  "hold_json b i h = JObj (hold_members b i h)"

definition asks :: "string \<Rightarrow> string \<Rightarrow> string \<times> hold \<Rightarrow> bool" where
  "asks kind req p = (t_kind (snd p) = kind \<and> t_request (snd p) = strip req \<and> t_decision (snd p) = None)"

definition spec_create :: "hold_env \<Rightarrow> string \<Rightarrow> string \<Rightarrow> string \<Rightarrow> string \<Rightarrow> string \<Rightarrow> hold_store \<Rightarrow> hold_response \<times> hold_store" where
  "spec_create e kind reason req src cont A =
     (if kind \<notin> set APPROVAL_HOLD_KINDS then (Hold_error Bad_kind, A)
      else if strip reason = [] then (Hold_error Reason_required, A)
      else if strip req = [] then (Hold_error Summary_required, A)
      else case List.find (asks kind req) (a_holds A) of
          Some (i, h) \<Rightarrow> (Hold_ok (JStr i) (hold_json (h_branch e) i h) True, A)
        | None \<Rightarrow>
            let i = hold_name (a_next A);
                h = \<lparr>t_kind = kind, t_reason = strip reason, t_request = strip req, t_source = strip src,
                     t_created = h_now e, t_cont = strip cont, t_decision = None\<rparr>
            in (Hold_ok (JStr i) (hold_json (h_branch e) i h) False, \<lparr>a_holds = a_holds A @ [(i, h)], a_next = a_next A + 1\<rparr>))"

definition spec_decide :: "hold_env \<Rightarrow> string \<Rightarrow> string \<Rightarrow> string \<Rightarrow> hold_store \<Rightarrow> hold_response \<times> hold_store" where
  "spec_decide e i d nt A =
     (if d \<notin> set APPROVAL_HOLD_TERMINAL_STATES then (Hold_error Bad_decision, A)
      else case dict_get (a_holds A) i of
          None \<Rightarrow> (Hold_error Hold_not_found, A)
        | Some h \<Rightarrow>
            (case t_decision h of
               Some (v, _, _) \<Rightarrow>
                 (if v = d then Hold_ok (JStr i) (hold_json (h_branch e) i h) True else Hold_error (Already_decided (JStr v)), A)
             | None \<Rightarrow>
                 let h' = h\<lparr>t_decision := Some (d, strip nt, h_now e)\<rparr>
                 in (Hold_ok (JStr i) (hold_json (h_branch e) i h') False, A\<lparr>a_holds := dict_set i h' (a_holds A)\<rparr>)))"

definition auto_approved :: "hold_env \<Rightarrow> hold \<Rightarrow> hold" where
  "auto_approved e h =
     (if t_decision h = None \<and> t_kind h \<in> set AUTO_APPROVABLE_HOLD_KINDS
      then h\<lparr>t_decision := Some (''approved'', ''auto-approved by map-auto'', h_now e)\<rparr> else h)"

definition spec_auto :: "hold_env \<Rightarrow> hold_store \<Rightarrow> hold_store" where
  "spec_auto e A = A\<lparr>a_holds := map (\<lambda>(i, h). (i, auto_approved e h)) (a_holds A)\<rparr>"

section \<open>The JSON of a typed hold\<close>

lemma hold_field [simp]:
  "dict_get (hold_members b i h) ''id'' = Some (JStr i)"
  "dict_get (hold_members b i h) ''kind'' = Some (JStr (t_kind h))"
  "dict_get (hold_members b i h) ''reason'' = Some (JStr (t_reason h))"
  "dict_get (hold_members b i h) ''request_summary'' = Some (JStr (t_request h))"
  "dict_get (hold_members b i h) ''source'' = Some (JStr (t_source h))"
  "dict_get (hold_members b i h) ''branch'' = Some (JStr b)"
  "dict_get (hold_members b i h) ''state'' = Some (JStr (t_state h))"
  "dict_get (hold_members b i h) ''created_at'' = Some (JStr (t_created h))"
  "dict_get (hold_members b i h) ''safe_continuation'' = Some (JStr (t_cont h))"
  by (simp_all add: hold_members_def)

lemma new_hold_typed:
  "new_hold e i kind reason req src cont = hold_members (h_branch e) i
     \<lparr>t_kind = kind, t_reason = strip reason, t_request = strip req, t_source = strip src,
      t_created = h_now e, t_cont = strip cont, t_decision = None\<rparr>"
  by (simp add: new_hold_def hold_members_def t_state_def)

lemma decided_hold_typed:
  "decided_hold e d nt (hold_members b i h) = hold_members b i (h\<lparr>t_decision := Some (d, strip nt, h_now e)\<rparr>)"
  by (simp add: decided_hold_def hold_members_def t_state_def dict_set_def)

lemma render_typed: "\<exists>tx. render_approval_hold_report (hold_members b i h) = Some tx"
  by (simp add: render_approval_hold_report_def head_lines_def text_or_def source_text_def continuation_lines_def falsy_def)

definition hold_ok :: "hold \<Rightarrow> bool" where
  "hold_ok h = (t_kind h \<in> set APPROVAL_HOLD_KINDS
     \<and> (case t_decision h of None \<Rightarrow> True | Some (v, _, _) \<Rightarrow> v \<in> set APPROVAL_HOLD_TERMINAL_STATES))"

lemma terminal_not_pending: "v \<in> set APPROVAL_HOLD_TERMINAL_STATES \<Longrightarrow> v \<noteq> ''pending''"
  by (auto simp: APPROVAL_HOLD_TERMINAL_STATES_def)

lemma state_pending: "hold_ok h \<Longrightarrow> t_state h = ''pending'' \<longleftrightarrow> t_decision h = None"
  by (auto simp: hold_ok_def t_state_def split: option.splits dest: terminal_not_pending)

lemma pending_typed: "hold_ok h \<Longrightarrow> hold_pending (hold_json b i h) \<longleftrightarrow> t_decision h = None"
  by (simp add: hold_pending_def hold_json_def state_pending)

lemma same_request_typed: "hold_ok h \<Longrightarrow> same_request kind req (hold_json b i h) \<longleftrightarrow> asks kind req (i, h)"
  by (auto simp: same_request_def asks_def pending_typed) (auto simp: hold_json_def)

section \<open>The representation\<close>

definition enc_holds :: "string \<Rightarrow> (string \<times> hold) list \<Rightarrow> (string, json) dict" where
  "enc_holds b hs = map (\<lambda>(i, h). (i, hold_json b i h)) hs"

definition enc_store :: "string \<Rightarrow> hold_store \<Rightarrow> json \<Rightarrow> (string, json) dict" where
  "enc_store b A u =
     [(''branch'', JStr b), (''holds'', JObj (enc_holds b (a_holds A))), (''next_id'', JInt (a_next A)), (''updated_at'', u)]"

definition store_ok :: "hold_store \<Rightarrow> bool" where
  "store_ok A = (1 \<le> a_next A \<and> dict_wf (a_holds A)
     \<and> (\<forall>(i, h) \<in> set (a_holds A). hold_ok h \<and> (\<exists>m. 1 \<le> m \<and> m < a_next A \<and> i = hold_name m)))"

definition pending_in :: "hold_store \<Rightarrow> bool" where
  "pending_in A = list_ex (\<lambda>(_, h). t_decision h = None) (a_holds A)"

definition no_holds :: hold_store where
  "no_holds = \<lparr>a_holds = [], a_next = 1\<rparr>"

text \<open>
  The store on disk stands for \<open>A\<close>, and the manifest shows the stage of the holds once there is one.
\<close>

definition represents :: "string \<Rightarrow> hold_files \<Rightarrow> hold_store \<Rightarrow> bool" where
  "represents b fs A =
     (store_ok A
      \<and> (holds_file fs = No_file \<and> A = no_holds \<or> (\<exists>u. holds_file fs = Json (JObj (enc_store b A u))))
      \<and> (a_holds A \<noteq> [] \<longrightarrow> jget ''status'' (stage_in_file (manifest_file fs) ''approval_hold'')
           = Some (JStr (if pending_in A then ''pending'' else ''decided''))))"

lemma load_represented:
  assumes "represents b fs A"
  shows "\<exists>u. load_approval_holds b (holds_file fs) = enc_store b A u"
proof -
  have "load_approval_holds b (Json (JObj (enc_store b A u))) = enc_store b A u" for u
    by (simp add: load_approval_holds_def read_json_file_def enc_store_def setdefault_def)
  moreover have "load_approval_holds b No_file = enc_store b no_holds (JStr [])"
    by (simp add: load_approval_holds_def read_json_file_def enc_store_def no_holds_def enc_holds_def)
  ultimately show ?thesis using assms by (auto simp: represents_def)
qed

lemma holds_of_enc [simp]: "holds_of (enc_store b A u) = Some (enc_holds b (a_holds A))"
  by (simp add: holds_of_def enc_store_def)

lemma dict_get_enc: "dict_get (enc_holds b hs) i = map_option (hold_json b i) (dict_get hs i)"
  by (induction hs) (auto simp: enc_holds_def)

lemma dict_set_enc: "dict_set i (hold_json b i h) (enc_holds b hs) = enc_holds b (dict_set i h hs)"
  by (induction hs) (auto simp: enc_holds_def dict_set_def)

lemma dict_set_fresh: "dict_get d k = None \<Longrightarrow> dict_set k v d = d @ [(k, v)]"
  by (induction d) (auto simp: dict_set_def split: if_splits)

lemma enc_store_update:
  "dict_set ''updated_at'' v (dict_set ''next_id'' (JInt n) (dict_set ''holds'' (JObj (enc_holds b hs)) (enc_store b A u)))
     = enc_store b \<lparr>a_holds = hs, a_next = n\<rparr> v"
  "dict_set ''updated_at'' v (dict_set ''holds'' (JObj (enc_holds b hs)) (enc_store b A u)) = enc_store b (A\<lparr>a_holds := hs\<rparr>) v"
  by (simp_all add: enc_store_def dict_set_def)

lemma find_map: "List.find P (map f xs) = map_option f (List.find (P \<circ> f) xs)"
  by (induction xs) auto

lemma find_cong: "(\<And>x. x \<in> set xs \<Longrightarrow> P x = Q x) \<Longrightarrow> List.find P xs = List.find Q xs"
  by (induction xs) auto

lemma hold_name_inj:
  assumes "0 \<le> m" "0 \<le> n" "hold_name m = hold_name n"
  shows "m = n"
proof -
  have "fmt03 m = zfill 3 (nat m)" "fmt03 n = zfill 3 (nat n)" using assms(1,2) by (simp_all add: fmt03_def)
  moreover have "fmt03 m = fmt03 n" using assms(3) unfolding hold_name_def by (rule append_eq_append_conv [THEN iffD1, THEN conjunct2, rotated]) simp
  ultimately have "read_digits (zfill 3 (nat m)) = read_digits (zfill 3 (nat n))" by simp
  then have "nat m = nat n" by (simp only: zfill_ok)
  with assms show ?thesis by simp
qed

lemma fresh_name: "store_ok A \<Longrightarrow> dict_get (a_holds A) (hold_name (a_next A)) = None"
proof (rule ccontr)
  assume A: "store_ok A" and "dict_get (a_holds A) (hold_name (a_next A)) \<noteq> None"
  then obtain h where "(hold_name (a_next A), h) \<in> set (a_holds A)" using dict_get_mem by fastforce
  with A obtain m where "1 \<le> m" "m < a_next A" "hold_name (a_next A) = hold_name m" by (auto simp: store_ok_def)
  with hold_name_inj [of "a_next A" m] show False by simp
qed

text \<open>Publishing cannot fail, and writes the stage it is given.\<close>

lemma publish_typed:
  "\<exists>fs'. publish e i (hold_members b i' h) stat arts md r fs = (Some r, fs') \<and> holds_file fs' = holds_file fs
     \<and> jget ''status'' (stage_in_file (manifest_file fs') ''approval_hold'') = Some (JStr stat)"
proof -
  obtain tx where tx: "render_approval_hold_report (hold_members b i' h) = Some tx" using render_typed by blast
  have "''approval_hold'' \<in> set ARTIFACT_STAGE_NAMES" by (simp add: ARTIFACT_STAGE_NAMES_def)
  from record_stage_frame [OF this, of "h_now e" "h_branch e" stat arts md "manifest_file fs"]
  show ?thesis using tx by (auto simp: publish_def write_report_def write_stage_def)
qed

section \<open>Refinement\<close>

lemma store_ok_snoc:
  assumes "store_ok A" "hold_ok h"
  shows "store_ok \<lparr>a_holds = a_holds A @ [(hold_name (a_next A), h)], a_next = a_next A + 1\<rparr>"
proof -
  have "dict_wf (a_holds A @ [(hold_name (a_next A), h)])"
    using alist.wf_put [of "a_holds A" "hold_name (a_next A)" h] fresh_name [OF assms(1)] assms(1)
    by (simp add: dict_set_fresh store_ok_def)
  with assms show ?thesis by (force simp: store_ok_def)
qed

lemma create_refines:
  assumes "represents (h_branch e) fs A"
  shows "\<exists>fs'. create_approval_hold e kind reason req src cont fs = (Some (fst (spec_create e kind reason req src cont A)), fs')
    \<and> represents (h_branch e) fs' (snd (spec_create e kind reason req src cont A))"
proof (cases "kind \<notin> set APPROVAL_HOLD_KINDS \<or> strip reason = [] \<or> strip req = []")
  case True
  with assms show ?thesis by (auto simp: create_approval_hold_def spec_create_def)
next
  case False
  let ?b = "h_branch e"
  obtain u where u: "load_approval_holds ?b (holds_file fs) = enc_store ?b A u" using load_represented [OF assms] by blast
  have ok: "store_ok A" using assms by (simp add: represents_def)
  have "List.find (same_request kind req) (map snd (enc_holds ?b (a_holds A)))
      = map_option (\<lambda>(i, h). hold_json ?b i h) (List.find (asks kind req) (a_holds A))"
  proof -
    have "List.find (same_request kind req \<circ> (\<lambda>(i, h). hold_json ?b i h)) (a_holds A) = List.find (asks kind req) (a_holds A)"
      using ok by (intro find_cong) (auto simp: store_ok_def same_request_typed)
    then show ?thesis by (simp add: enc_holds_def case_prod_unfold find_map comp_def)
  qed
  note f = this
  show ?thesis
  proof (cases "List.find (asks kind req) (a_holds A)")
    case (Some p)
    with False u f assms show ?thesis
      by (cases p) (auto simp: create_approval_hold_def spec_create_def Let_def hold_json_def)
  next
    case None
    let ?i = "hold_name (a_next A)"
    let ?h = "\<lparr>t_kind = kind, t_reason = strip reason, t_request = strip req, t_source = strip src,
                     t_created = h_now e, t_cont = strip cont, t_decision = None\<rparr>"
    let ?A = "\<lparr>a_holds = a_holds A @ [(?i, ?h)], a_next = a_next A + 1\<rparr>"
    have n: "py_int_of e (dict_get (enc_store ?b A u) ''next_id'') = Some (a_next A)"
      using ok by (simp add: enc_store_def py_int_of_def falsy_opt_def falsy_def store_ok_def)
    have s: "dict_set ''updated_at'' (JStr (h_now e)) (dict_set ''next_id'' (JInt (a_next A + 1))
        (dict_set ''holds'' (JObj (dict_set ?i (JObj (hold_members ?b ?i ?h)) (enc_holds ?b (a_holds A)))) (enc_store ?b A u)))
        = enc_store ?b ?A (JStr (h_now e))"
      using fresh_name [OF ok] by (simp add: dict_set_enc [unfolded hold_json_def] enc_store_update dict_set_fresh)
    have "store_ok ?A" using store_ok_snoc [OF ok, of ?h] False by (simp add: hold_ok_def)
    moreover have "pending_in ?A" by (simp add: pending_in_def)
    moreover obtain fs' where p: "publish e ?i (hold_members ?b ?i ?h) ''pending''
        [artifact_ref (approval_hold_report_path ?b ?i) ''approval_hold''] [(''hold_id'', JStr ?i), (''kind'', JStr kind)]
        (Hold_ok (JStr ?i) (JObj (hold_members ?b ?i ?h)) False) (fs\<lparr>holds_file := Json (JObj (enc_store ?b ?A (JStr (h_now e))))\<rparr>)
        = (Some (Hold_ok (JStr ?i) (JObj (hold_members ?b ?i ?h)) False), fs')"
      "holds_file fs' = Json (JObj (enc_store ?b ?A (JStr (h_now e))))"
      "jget ''status'' (stage_in_file (manifest_file fs') ''approval_hold'') = Some (JStr ''pending'')"
      using publish_typed [of e ?i ?b ?i ?h] by force
    ultimately have "represents ?b fs' ?A" by (auto simp: represents_def)
    with False u f None n s p(1) show ?thesis
      by (auto simp: create_approval_hold_def spec_create_def Let_def new_hold_typed hold_json_def)
  qed
qed

lemma store_ok_set:
  assumes "store_ok A" "dict_get (a_holds A) i = Some h" "hold_ok h'"
  shows "store_ok (A\<lparr>a_holds := dict_set i h' (a_holds A)\<rparr>)"
  using assms alist.wf_put [of "a_holds A" i h'] dict_get_mem [OF assms(2)]
  by (auto simp: store_ok_def set_dict_set)

lemma pending_enc: "store_ok A \<Longrightarrow> list_ex hold_pending (map snd (enc_holds b (a_holds A))) = pending_in A"
  by (auto simp: pending_in_def enc_holds_def list_ex_iff store_ok_def pending_typed) (force simp: pending_typed)+

lemma decide_refines:
  assumes "represents (h_branch e) fs A"
  shows "\<exists>fs'. decide_approval_hold e i d nt fs = (Some (fst (spec_decide e i d nt A)), fs')
    \<and> represents (h_branch e) fs' (snd (spec_decide e i d nt A))"
proof (cases "d \<in> set APPROVAL_HOLD_TERMINAL_STATES")
  case False
  with assms show ?thesis by (auto simp: decide_approval_hold_def spec_decide_def)
next
  case d: True
  let ?b = "h_branch e"
  obtain u where u: "load_approval_holds ?b (holds_file fs) = enc_store ?b A u" using load_represented [OF assms] by blast
  have ok: "store_ok A" using assms by (simp add: represents_def)
  show ?thesis
  proof (cases "dict_get (a_holds A) i")
    case None
    with d u assms show ?thesis by (auto simp: decide_approval_hold_def spec_decide_def dict_get_enc Let_def)
  next
    case (Some h)
    then have h: "hold_ok h" using ok dict_get_mem [OF Some] by (auto simp: store_ok_def)
    have g: "dict_get (enc_holds ?b (a_holds A)) i = Some (JObj (hold_members ?b i h))"
      using Some by (simp add: dict_get_enc hold_json_def)
    have st: "get_or (hold_members ?b i h) ''state'' x = JStr (t_state h)" for x by (simp add: get_or_def)
    show ?thesis
    proof (cases "t_decision h")
      case (Some v)
      then have "t_state h = fst v" "t_state h \<noteq> ''pending''" using state_pending [OF h] by (auto simp: t_state_def split: prod.splits)
      with Some d u g st \<open>dict_get (a_holds A) i = Some h\<close> assms show ?thesis
        by (cases v) (auto simp: decide_approval_hold_def spec_decide_def Let_def hold_json_def)
    next
      case None
      let ?h = "h\<lparr>t_decision := Some (d, strip nt, h_now e)\<rparr>"
      let ?A = "A\<lparr>a_holds := dict_set i ?h (a_holds A)\<rparr>"
      let ?fs = "fs\<lparr>holds_file := Json (JObj (enc_store ?b ?A (JStr (h_now e))))\<rparr>"
      let ?r = "Hold_ok (JStr i) (JObj (hold_members ?b i ?h)) False"
      have pend: "t_state h = ''pending''" using None by (simp add: t_state_def)
      have ok': "store_ok ?A" using store_ok_set [OF ok Some, of ?h] h d by (simp add: hold_ok_def)
      have s: "dict_set ''updated_at'' (JStr (h_now e)) (dict_set ''holds''
          (JObj (dict_set i (JObj (hold_members ?b i ?h)) (enc_holds ?b (a_holds A)))) (enc_store ?b A u)) = enc_store ?b ?A (JStr (h_now e))"
        by (simp add: dict_set_enc [unfolded hold_json_def] enc_store_update)
      have x: "list_ex hold_pending (map snd (dict_set i (JObj (hold_members ?b i ?h)) (enc_holds ?b (a_holds A)))) = pending_in ?A"
        using pending_enc [OF ok', of ?b] by (simp add: dict_set_enc [unfolded hold_json_def])
      obtain fs' where p: "publish e i (hold_members ?b i ?h) (if pending_in ?A then ''pending'' else ''decided'') []
          [(''last_decided'', JStr i), (''decision'', JStr d)] ?r ?fs = (Some ?r, fs')"
        "holds_file fs' = Json (JObj (enc_store ?b ?A (JStr (h_now e))))"
        "jget ''status'' (stage_in_file (manifest_file fs') ''approval_hold'') = Some (JStr (if pending_in ?A then ''pending'' else ''decided''))"
        using publish_typed [of e i ?b i ?h] by force
      then have "represents ?b fs' ?A" using ok' unfolding represents_def by blast
      moreover have "decide_approval_hold e i d nt fs = (Some ?r, fs')"
        unfolding decide_approval_hold_def Let_def u holds_of_enc option.case g json.case st pend decided_hold_typed s x p(1)
        using d by simp
      moreover have "spec_decide e i d nt A = (?r, ?A)" using d Some None by (simp add: spec_decide_def hold_json_def Let_def)
      ultimately show ?thesis by simp
    qed
  qed
qed

lemma dict_set_map:
  assumes "dict_wf hs" "dict_get hs i = Some h"
  shows "dict_set i v hs = map (\<lambda>(j, x). (j, if j = i then v else x)) hs"
  using assms
proof (induction hs)
  case (Cons p hs)
  obtain j x where p: "p = (j, x)" by (cases p)
  have "j \<notin> fst ` set hs" using Cons.prems(1) p by (simp add: dict_wf_def)
  then have "j = i \<Longrightarrow> map (\<lambda>(j, x). (j, if j = i then v else x)) hs = hs" by (intro map_idI) force
  with Cons p show ?case by (auto simp: dict_set_def dict_wf_def)
qed simp

lemma mem_dict: "dict_wf hs \<Longrightarrow> dict_get hs i = Some h \<Longrightarrow> (i, x) \<in> set hs \<longleftrightarrow> x = h"
  using dict_mem_get [of hs i x] by (auto dest: dict_get_mem)

lemma auto_note: "strip ''auto-approved by map-auto'' = ''auto-approved by map-auto''"
  by code_simp

lemma approved_terminal: "''approved'' \<in> set APPROVAL_HOLD_TERMINAL_STATES"
  by (simp add: APPROVAL_HOLD_TERMINAL_STATES_def)

lemma auto_spec:
  assumes "dict_get (a_holds A) i = Some h" "t_decision h = None" "t_kind h \<in> set AUTO_APPROVABLE_HOLD_KINDS"
  shows "snd (spec_decide e i ''approved'' ''auto-approved by map-auto'' A) = A\<lparr>a_holds := dict_set i (auto_approved e h) (a_holds A)\<rparr>"
  using assms by (simp add: spec_decide_def approved_terminal auto_approved_def auto_note Let_def)

definition ids_of_kind :: "string list \<Rightarrow> (string \<times> hold) list \<Rightarrow> (string \<times> string) list" where
  "ids_of_kind ks ps = map (\<lambda>(i, h). (i, t_kind h)) (filter (\<lambda>(_, h). t_kind h \<in> set ks) ps)"

definition approve_all :: "hold_env \<Rightarrow> string set \<Rightarrow> (string \<times> hold) list \<Rightarrow> (string \<times> hold) list" where
  "approve_all e I hs = map (\<lambda>(i, h). (i, if i \<in> I then auto_approved e h else h)) hs"

lemma approve_all_insert:
  assumes "dict_wf hs" "dict_get hs i = Some h" "i \<notin> I"
  shows "approve_all e I (dict_set i (auto_approved e h) hs) = approve_all e (insert i I) hs"
  using assms mem_dict [OF assms(1,2)] by (auto simp: approve_all_def dict_set_map)

lemma kinds_disjoint: "k \<in> set AUTO_APPROVABLE_HOLD_KINDS \<Longrightarrow> k \<notin> set HARD_STOP_HOLD_KINDS"
  by (auto simp: AUTO_APPROVABLE_HOLD_KINDS_def HARD_STOP_HOLD_KINDS_def)

lemma field_typed [simp]:
  "field_str ''id'' (hold_json b i h) = i" "field_str ''kind'' (hold_json b i h) = t_kind h"
  by (simp_all add: field_str_def hold_json_def py_str_def)

lemma auto_loop_refines:
  assumes "represents (h_branch e) fs A" "distinct (map fst ps)"
    "\<forall>(i, h) \<in> set ps. dict_get (a_holds A) i = Some h \<and> t_decision h = None"
  shows "\<exists>fs'. auto_loop e (map (\<lambda>(i, h). hold_json (h_branch e) i h) ps) (ap, st) fs
      = (Some (ap @ ids_of_kind AUTO_APPROVABLE_HOLD_KINDS ps, st @ ids_of_kind HARD_STOP_HOLD_KINDS ps), fs')
    \<and> represents (h_branch e) fs' (A\<lparr>a_holds := approve_all e (fst ` set ps) (a_holds A)\<rparr>)"
  using assms
proof (induction ps arbitrary: A fs ap st)
  case Nil
  have "approve_all e {} (a_holds A) = a_holds A" by (simp add: approve_all_def map_idI)
  with Nil show ?case by (simp add: ids_of_kind_def)
next
  case (Cons p ps)
  obtain i h where p: "p = (i, h)" by (cases p)
  have i: "dict_get (a_holds A) i = Some h" "t_decision h = None" "i \<notin> fst ` set ps" "distinct (map fst ps)"
    using Cons.prems p by auto
  have wf: "dict_wf (a_holds A)" using Cons.prems(1) by (simp add: represents_def store_ok_def)
  show ?case
  proof (cases "t_kind h \<in> set AUTO_APPROVABLE_HOLD_KINDS")
    case True
    let ?A = "A\<lparr>a_holds := dict_set i (auto_approved e h) (a_holds A)\<rparr>"
    obtain fs1 where one: "decide_approval_hold e i ''approved'' ''auto-approved by map-auto'' fs
        = (Some (fst (spec_decide e i ''approved'' ''auto-approved by map-auto'' A)), fs1)" "represents (h_branch e) fs1 ?A"
      using decide_refines [OF Cons.prems(1)] auto_spec [OF i(1,2) True] by metis
    have "\<forall>(j, x) \<in> set ps. dict_get (a_holds ?A) j = Some x \<and> t_decision x = None"
      using Cons.prems(3) i(3) by (force simp: alist_laws)
    from Cons.IH [OF one(2) i(4) this, of "ap @ [(i, t_kind h)]" st] True p one(1) kinds_disjoint [OF True]
    show ?thesis by (auto simp: ids_of_kind_def approve_all_insert [OF wf i(1,3)])
  next
    case False
    then have "auto_approved e h = h" by (simp add: auto_approved_def)
    then have "approve_all e (insert i (fst ` set ps)) (a_holds A) = approve_all e (fst ` set ps) (a_holds A)"
      using mem_dict [OF wf i(1)] by (auto simp: approve_all_def)
    moreover have "\<forall>(j, x) \<in> set ps. dict_get (a_holds A) j = Some x \<and> t_decision x = None" using Cons.prems(3) by auto
    ultimately show ?thesis
      using Cons.IH [OF Cons.prems(1) i(4), of ap "st @ (if t_kind h \<in> set HARD_STOP_HOLD_KINDS then [(i, t_kind h)] else [])"] False p
      by (auto simp: ids_of_kind_def)
  qed
qed

lemma sort_key_map: "sort_key k (map f xs) = map f (sort_key (k \<circ> f) xs)"
proof -
  have "insort_key k (f x) (map f ys) = map f (insort_key (k \<circ> f) x ys)" for x ys by (induction ys) auto
  then show ?thesis by (induction xs) simp_all
qed

definition pending_holds :: "hold_store \<Rightarrow> (string \<times> hold) list" where
  "pending_holds A = sort_key (t_created \<circ> snd) (filter (\<lambda>(_, h). t_decision h = None) (a_holds A))"

lemma pending_refines:
  assumes "represents (h_branch e) fs A"
  shows "get_pending_holds e fs = Some \<lparr>p_holds = map (\<lambda>(i, h). hold_json (h_branch e) i h) (pending_holds A),
    p_has_pending = pending_in A, p_count = length (pending_holds A), p_resume_blocked = pending_in A\<rparr>"
proof -
  let ?b = "h_branch e"
  obtain u where u: "load_approval_holds ?b (holds_file fs) = enc_store ?b A u" using load_represented [OF assms] by blast
  let ?enc = "\<lambda>(i, h). hold_json ?b i h"
  have ok: "\<forall>(i, h) \<in> set (a_holds A). hold_ok h" using assms by (auto simp: represents_def store_ok_def)
  have j: "filter is_jobj (map snd (enc_holds ?b (a_holds A))) = map ?enc (a_holds A)"
    by (auto simp: enc_holds_def is_jobj_def hold_json_def filter_map o_def case_prod_unfold)
  have f: "filter (\<lambda>h. jget ''state'' h = Some (JStr ''pending'')) (map ?enc (a_holds A))
      = map ?enc (filter (\<lambda>(_, h). t_decision h = None) (a_holds A))"
    using ok by (auto simp: filter_map o_def hold_json_def state_pending intro!: arg_cong [where f = "map _"] filter_cong)
  have k: "(\<lambda>h. py_str (case jget ''created_at'' h of None \<Rightarrow> JStr [] | Some v \<Rightarrow> v)) \<circ> ?enc = t_created \<circ> snd"
    by (auto simp: fun_eq_iff hold_json_def py_str_def)
  have "list_approval_holds e (Some ''pending'') fs = Some (Inr (map ?enc (pending_holds A)))"
    unfolding list_approval_holds_def u holds_of_enc
    by (simp add: Let_def j f sort_key_map k pending_holds_def APPROVAL_HOLD_ALL_STATES_def)
  moreover have "pending_holds A \<noteq> [] \<longleftrightarrow> pending_in A"
    by (auto simp: pending_holds_def pending_in_def list_ex_iff filter_empty_conv simp flip: length_greater_0_conv)
  ultimately show ?thesis by (simp add: get_pending_holds_def)
qed

lemma auto_refines:
  assumes "represents (h_branch e) fs A"
  shows "\<exists>fs'. auto_decide_holds e fs = (Some (ids_of_kind AUTO_APPROVABLE_HOLD_KINDS (pending_holds A),
      ids_of_kind HARD_STOP_HOLD_KINDS (pending_holds A)), fs') \<and> represents (h_branch e) fs' (spec_auto e A)"
proof -
  have wf: "dict_wf (a_holds A)" using assms by (simp add: represents_def store_ok_def)
  have set: "set (pending_holds A) = {p \<in> set (a_holds A). t_decision (snd p) = None}"
    by (auto simp: pending_holds_def)
  have d: "distinct (map fst (pending_holds A))"
  proof -
    have "mset (map fst (pending_holds A)) = mset (map fst (filter (\<lambda>(_, h). t_decision h = None) (a_holds A)))"
      by (simp add: pending_holds_def)
    moreover have "distinct (map fst (filter (\<lambda>(_, h). t_decision h = None) (a_holds A)))"
      using wf by (simp add: dict_wf_def distinct_map_filter)
    ultimately show ?thesis using mset_eq_imp_distinct_iff by blast
  qed
  have g: "\<forall>(i, h) \<in> set (pending_holds A). dict_get (a_holds A) i = Some h \<and> t_decision h = None"
    using set dict_mem_get [OF wf] by auto
  have "approve_all e (fst ` set (pending_holds A)) (a_holds A) = a_holds (spec_auto e A)"
    using set dict_mem_get [OF wf] unfolding approve_all_def spec_auto_def
    by (auto simp: auto_approved_def image_iff)
  then have "A\<lparr>a_holds := approve_all e (fst ` set (pending_holds A)) (a_holds A)\<rparr> = spec_auto e A"
    by (simp add: spec_auto_def)
  with auto_loop_refines [OF assms d g, of "[]" "[]"] pending_refines [OF assms]
  show ?thesis by (simp add: auto_decide_holds_def)
qed

section \<open>Runs\<close>

text \<open>Commands on one branch, each with the time it runs at; \<open>trunc\<close> is the float parameter.\<close>

datatype hold_cmd =
    Create string string string string string string
  | Decide string string string string
  | Auto_decide string

datatype hold_answer = Answer hold_response | Split "(string \<times> string) list" "(string \<times> string) list"

definition env_at :: "string \<Rightarrow> (string \<Rightarrow> int option) \<Rightarrow> string \<Rightarrow> hold_env" where
  "env_at b trunc now = \<lparr>h_branch = b, h_now = now, h_trunc = trunc\<rparr>"

definition exec_hold :: "string \<Rightarrow> (string \<Rightarrow> int option) \<Rightarrow> hold_cmd \<Rightarrow> hold_files \<Rightarrow> hold_answer option \<times> hold_files" where
  "exec_hold b trunc c fs =
     (case c of
        Create now kind reason req src cont \<Rightarrow> apfst (map_option Answer) (create_approval_hold (env_at b trunc now) kind reason req src cont fs)
      | Decide now i d nt \<Rightarrow> apfst (map_option Answer) (decide_approval_hold (env_at b trunc now) i d nt fs)
      | Auto_decide now \<Rightarrow> apfst (map_option (\<lambda>(ap, st). Split ap st)) (auto_decide_holds (env_at b trunc now) fs))"

definition spec_hold :: "string \<Rightarrow> (string \<Rightarrow> int option) \<Rightarrow> hold_cmd \<Rightarrow> hold_store \<Rightarrow> hold_answer \<times> hold_store" where
  "spec_hold b trunc c A =
     (case c of
        Create now kind reason req src cont \<Rightarrow> apfst Answer (spec_create (env_at b trunc now) kind reason req src cont A)
      | Decide now i d nt \<Rightarrow> apfst Answer (spec_decide (env_at b trunc now) i d nt A)
      | Auto_decide now \<Rightarrow> (Split (ids_of_kind AUTO_APPROVABLE_HOLD_KINDS (pending_holds A)) (ids_of_kind HARD_STOP_HOLD_KINDS (pending_holds A)),
          spec_auto (env_at b trunc now) A))"

text \<open>A run of deterministic steps: the answers, and the state it ends in.\<close>

fun run_all :: "('c \<Rightarrow> 's \<Rightarrow> 'a \<times> 's) \<Rightarrow> 'c list \<Rightarrow> 's \<Rightarrow> 'a list \<times> 's" where
  "run_all f [] s = ([], s)"
| "run_all f (c # cs) s = (let (a, s1) = f c s; (as, s2) = run_all f cs s1 in (a # as, s2))"

locale run_refinement =
  fixes conc :: "'c \<Rightarrow> 's \<Rightarrow> 'a option \<times> 's" and abst :: "'c \<Rightarrow> 't \<Rightarrow> 'a \<times> 't" and rep :: "'s \<Rightarrow> 't \<Rightarrow> bool"
  assumes step_refines: "rep s t \<Longrightarrow> fst (conc c s) = Some (fst (abst c t)) \<and> rep (snd (conc c s)) (snd (abst c t))"
begin

lemma run_refines:
  "rep s t \<Longrightarrow> fst (run_all conc cs s) = map Some (fst (run_all abst cs t)) \<and> rep (snd (run_all conc cs s)) (snd (run_all abst cs t))"
proof (induction cs arbitrary: s t)
  case (Cons c cs)
  from step_refines [OF Cons.prems, of c] Cons.IH [of "snd (conc c s)" "snd (abst c t)"]
  show ?case by (simp add: Let_def case_prod_unfold)
qed simp

end

lemma exec_refines:
  assumes "represents b fs A"
  shows "fst (exec_hold b trunc c fs) = Some (fst (spec_hold b trunc c A)) \<and> represents b (snd (exec_hold b trunc c fs)) (snd (spec_hold b trunc c A))"
proof -
  have b: "h_branch (env_at b trunc now) = b" for now by (simp add: env_at_def)
  note r = create_refines [of "env_at b trunc _", unfolded b, OF assms] decide_refines [of "env_at b trunc _", unfolded b, OF assms]
    auto_refines [of "env_at b trunc _", unfolded b, OF assms]
  show ?thesis
  proof (cases c)
    case (Create now kind reason req src cont)
    with r(1) [of now kind reason req src cont] show ?thesis by (auto simp: exec_hold_def spec_hold_def)
  next
    case (Decide now i d nt)
    with r(2) [of now i d nt] show ?thesis by (auto simp: exec_hold_def spec_hold_def)
  next
    case (Auto_decide now)
    with r(3) [of now] show ?thesis by (auto simp: exec_hold_def spec_hold_def)
  qed
qed

interpretation holds: run_refinement "exec_hold b trunc" "spec_hold b trunc" "represents b" for b trunc
  by unfold_locales (rule exec_refines)

lemma represents_start: "represents b (fs\<lparr>holds_file := No_file\<rparr>) no_holds"
  by (simp add: represents_def store_ok_def no_holds_def)

section \<open>Decisions in a run\<close>

text \<open>The commands that can have decided a hold: an explicit decision, or the automatic one for the kinds it may decide.\<close>

definition decided_by :: "hold_cmd list \<Rightarrow> string \<Rightarrow> hold \<Rightarrow> bool" where
  "decided_by cs i h =
     (case t_decision h of
        None \<Rightarrow> True
      | Some (v, n, t) \<Rightarrow>
          (\<exists>nt. Decide t i v nt \<in> set cs \<and> n = strip nt)
          \<or> t_kind h \<in> set AUTO_APPROVABLE_HOLD_KINDS \<and> Auto_decide t \<in> set cs \<and> v = ''approved'')"

definition all_decided_by :: "hold_cmd list \<Rightarrow> hold_store \<Rightarrow> bool" where
  "all_decided_by cs A = (\<forall>(i, h) \<in> set (a_holds A). decided_by cs i h)"

lemma decided_by_more: "decided_by cs i h \<Longrightarrow> decided_by (cs @ ds) i h"
  by (auto simp: decided_by_def split: option.splits)

lemma auto_decided:
  assumes "decided_by cs i h"
  shows "decided_by (cs @ [Auto_decide now]) i (auto_approved (env_at b trunc now) h)"
proof (cases "t_decision h = None \<and> t_kind h \<in> set AUTO_APPROVABLE_HOLD_KINDS")
  case True
  then show ?thesis by (simp add: auto_approved_def decided_by_def env_at_def)
next
  case False
  then have "auto_approved (env_at b trunc now) h = h" by (auto simp: auto_approved_def)
  with decided_by_more [OF assms] show ?thesis by simp
qed

lemma spec_step_decided:
  assumes "all_decided_by cs A" "dict_wf (a_holds A)"
  shows "all_decided_by (cs @ [c]) (snd (spec_hold b trunc c A))"
proof (cases c)
  case (Create now kind reason req src cont)
  with assms show ?thesis
    by (auto simp: spec_hold_def spec_create_def all_decided_by_def Let_def split: option.splits intro: decided_by_more)
      (auto simp: decided_by_def)
next
  case (Decide now i d nt)
  with assms show ?thesis
    by (auto simp: spec_hold_def spec_decide_def all_decided_by_def Let_def set_dict_set split: option.splits intro: decided_by_more)
      (auto simp: decided_by_def env_at_def)
next
  case (Auto_decide now)
  with assms show ?thesis
    by (auto simp: spec_hold_def spec_auto_def all_decided_by_def intro: auto_decided)
qed

lemma run_snoc: "snd (run_all f (cs @ [c]) s) = snd (f c (snd (run_all f cs s)))"
  by (induction cs arbitrary: s) (simp_all add: Let_def case_prod_unfold)

lemma run_append: "snd (run_all f (cs @ ds) s) = snd (run_all f ds (snd (run_all f cs s)))"
  by (induction cs arbitrary: s) (simp_all add: Let_def case_prod_unfold)

lemma run_represents:
  "represents b (snd (run_all (exec_hold b trunc) cs (fs\<lparr>holds_file := No_file\<rparr>))) (snd (run_all (spec_hold b trunc) cs no_holds))"
  using holds.run_refines [OF represents_start] by blast

lemma run_decided: "all_decided_by cs (snd (run_all (spec_hold b trunc) cs no_holds))"
proof (induction cs rule: rev_induct)
  case Nil
  then show ?case by (simp add: all_decided_by_def no_holds_def)
next
  case (snoc c cs)
  moreover have "dict_wf (a_holds (snd (run_all (spec_hold b trunc) cs no_holds)))"
    using run_represents [of b trunc cs] by (auto simp: represents_def store_ok_def)
  ultimately show ?case unfolding run_snoc by (rule spec_step_decided)
qed

lemma approve_map_get: "dict_get (map (\<lambda>(i, h). (i, f h)) hs) i = map_option f (dict_get hs i)"
  by (induction hs) auto

lemma spec_step_final:
  assumes "dict_get (a_holds A) i = Some h" "t_decision h \<noteq> None"
  shows "dict_get (a_holds (snd (spec_hold b trunc c A))) i = Some h"
proof (cases c)
  case (Create now kind reason req src cont)
  with assms show ?thesis
    by (auto simp: spec_hold_def spec_create_def Let_def dict_get_def split: option.splits)
next
  case (Decide now j d nt)
  with assms show ?thesis
    by (auto simp: spec_hold_def spec_decide_def Let_def alist_laws split: option.splits)
next
  case (Auto_decide now)
  with assms show ?thesis by (simp add: spec_hold_def spec_auto_def approve_map_get auto_approved_def)
qed

lemma spec_run_final:
  "dict_get (a_holds A) i = Some h \<Longrightarrow> t_decision h \<noteq> None \<Longrightarrow> dict_get (a_holds (snd (run_all (spec_hold b trunc) cs A))) i = Some h"
  by (induction cs arbitrary: A) (simp_all add: Let_def case_prod_unfold spec_step_final)

definition stored_holds :: "string \<Rightarrow> hold_files \<Rightarrow> (string, json) dict" where
  "stored_holds b fs = (case holds_of (load_approval_holds b (holds_file fs)) of None \<Rightarrow> [] | Some hs \<Rightarrow> hs)"

lemma stored_represented: "represents b fs A \<Longrightarrow> stored_holds b fs = enc_holds b (a_holds A)"
  using load_represented [of b fs A] by (auto simp: stored_holds_def)

section \<open>Properties\<close>

text \<open>
  Claim C27. The operations on the JSON store refine the typed state machine of approval holds.
  Starting without a store, every sequence of creations, decisions and automatic decisions runs
  without an exception, answers each command as the specification does, and leaves a store that
  encodes the state of the specification, with the manifest stage to match.
\<close>

theorem holds_refine_specification:
  "fst (run_all (exec_hold b trunc) cs (fs\<lparr>holds_file := No_file\<rparr>)) = map Some (fst (run_all (spec_hold b trunc) cs no_holds))
   \<and> represents b (snd (run_all (exec_hold b trunc) cs (fs\<lparr>holds_file := No_file\<rparr>))) (snd (run_all (spec_hold b trunc) cs no_holds))"
  by (rule holds.run_refines [OF represents_start])

text \<open>
  Claim C28. Decisions on holds are accounted for and final. In the store left by any run that
  started without one, a hold that is no longer pending was decided by a command that named it
  and its verdict, or was approved automatically, which happens only to the kinds that may be
  approved without a human; and no later command changes that hold in any field.
\<close>

theorem hold_decisions_are_final:
  assumes "snd (run_all (exec_hold b trunc) cs (fs\<lparr>holds_file := No_file\<rparr>)) = fs1"
    and "dict_get (stored_holds b fs1) i = Some m" "jget ''state'' m = Some (JStr v)" "v \<noteq> ''pending''"
  shows "((\<exists>t nt. Decide t i v nt \<in> set cs)
      \<or> v = ''approved'' \<and> (\<exists>t. Auto_decide t \<in> set cs) \<and> (\<exists>k \<in> set AUTO_APPROVABLE_HOLD_KINDS. jget ''kind'' m = Some (JStr k)))
    \<and> dict_get (stored_holds b (snd (run_all (exec_hold b trunc) ds fs1))) i = Some m"
proof -
  let ?A = "snd (run_all (spec_hold b trunc) cs no_holds)"
  note rep = run_represents [of b trunc cs fs, unfolded assms(1)]
  obtain h where h: "dict_get (a_holds ?A) i = Some h" "m = hold_json b i h"
    using assms(2) by (auto simp: stored_represented [OF rep] dict_get_enc)
  have v: "v = t_state h" using assms(3) by (simp add: h(2) hold_json_def)
  then obtain n t where d: "t_decision h = Some (v, n, t)" using assms(4) by (auto simp: t_state_def split: option.splits)
  have "decided_by cs i h" using run_decided [of cs b trunc] dict_get_mem [OF h(1)] by (auto simp: all_decided_by_def)
  then have one: "(\<exists>t nt. Decide t i v nt \<in> set cs)
      \<or> v = ''approved'' \<and> (\<exists>t. Auto_decide t \<in> set cs) \<and> (\<exists>k \<in> set AUTO_APPROVABLE_HOLD_KINDS. jget ''kind'' m = Some (JStr k))"
    by (auto simp: decided_by_def d h(2) hold_json_def)
  have "represents b (snd (run_all (exec_hold b trunc) ds fs1)) (snd (run_all (spec_hold b trunc) ds ?A))"
    using holds.run_refines [OF rep] by blast
  then have "dict_get (stored_holds b (snd (run_all (exec_hold b trunc) ds fs1))) i = Some m"
    using spec_run_final [OF h(1)] d by (simp add: stored_represented dict_get_enc h(2))
  with one show ?thesis by blast
qed

definition one_hold :: "hold_cmd list" where
  "one_hold = [Create ''t1'' ''plan_approval'' ''r'' ''q'' [] [], Auto_decide ''t2'']"

definition after_one_hold :: hold_files where
  "after_one_hold = snd (run_all (exec_hold ''b'' (\<lambda>_. None)) one_hold
     (\<lparr>holds_file = No_file, manifest_file = No_file, hold_reports = []\<rparr>\<lparr>holds_file := No_file\<rparr>))"

theorem hold_decisions_are_final_witness:
  "\<exists>m. dict_get (stored_holds ''b'' after_one_hold) ''hold-001'' = Some m \<and> jget ''state'' m = Some (JStr ''approved'')
     \<and> dict_get (stored_holds ''b'' (snd (run_all (exec_hold ''b'' (\<lambda>_. None)) [Decide ''t3'' ''hold-001'' ''denied'' []] after_one_hold))) ''hold-001'' = Some m"
proof -
  let ?m = "dict_get (stored_holds ''b'' after_one_hold) ''hold-001''"
  have "?m \<noteq> None \<and> jget ''state'' (the ?m) = Some (JStr ''approved'')" by code_simp
  then obtain m where m: "?m = Some m" "jget ''state'' m = Some (JStr ''approved'')" by auto
  have "''approved'' \<noteq> ''pending''" by simp
  from hold_decisions_are_final [OF after_one_hold_def [symmetric] m this] m show ?thesis by blast
qed

text \<open>
  The resume check, the store and the manifest agree after every run that started
  without a store: resuming is reported as blocked exactly when a pending hold is stored, and
  once there is a hold the manifest stage says \<open>pending\<close> in exactly that case.
\<close>

theorem resume_check_agrees:
  "let fs1 = snd (run_all (exec_hold b trunc) cs (fs\<lparr>holds_file := No_file\<rparr>));
       pending = list_ex hold_pending (map snd (stored_holds b fs1))
   in map_option p_resume_blocked (get_pending_holds (env_at b trunc now) fs1) = Some pending
    \<and> (stored_holds b fs1 = [] \<or> jget ''status'' (stage_in_file (manifest_file fs1) ''approval_hold'')
         = Some (JStr (if pending then ''pending'' else ''decided'')))"
proof -
  note rep = run_represents [of b trunc cs fs]
  have b: "h_branch (env_at b trunc now) = b" by (simp add: env_at_def)
  note p = pending_refines [of "env_at b trunc now", unfolded b, OF rep]
  have "store_ok (snd (run_all (spec_hold b trunc) cs no_holds))" using rep by (simp add: represents_def)
  note q = pending_enc [OF this, of b]
  have e: "enc_holds b hs = [] \<longleftrightarrow> hs = []" for hs by (simp add: enc_holds_def)
  have m: "a_holds (snd (run_all (spec_hold b trunc) cs no_holds)) = []
      \<or> jget ''status'' (stage_in_file (manifest_file (snd (run_all (exec_hold b trunc) cs (fs\<lparr>holds_file := No_file\<rparr>)))) ''approval_hold'')
        = Some (JStr (if pending_in (snd (run_all (spec_hold b trunc) cs no_holds)) then ''pending'' else ''decided''))"
    using rep unfolding represents_def by blast
  show ?thesis
    unfolding Let_def stored_represented [OF rep] q e p using m by simp
qed

end
