(* ===== verification/Runner_Common.thy ===== *)
theory Runner_Common
  imports Runner_Manifest
begin

text \<open>
  What the parts of \<^verbatim>\<open>map_step_runner.py\<close> share: reading values of a JSON object, collecting the
  errors of a check, and shortening texts.
\<close>

section \<open>Values and errors\<close>

text \<open>A requirement, and the error that is recorded when it does not hold.\<close>

definition need :: "bool \<Rightarrow> string \<Rightarrow> string list" where
  "need c msg = (if c then [] else [msg])"

lemma need_Nil [simp]: "need c msg = [] \<longleftrightarrow> c"
  by (simp add: need_def)

definition one_of :: "string list \<Rightarrow> string" where
  "one_of xs = py_repr (JList (map JStr xs))"

definition nonblank :: "json option \<Rightarrow> bool" where
  "nonblank v = (case v of Some (JStr s) \<Rightarrow> strip s \<noteq> [] | _ \<Rightarrow> False)"

definition str_or_blank :: "json option \<Rightarrow> string" where
  "str_or_blank v = (if falsy_opt v then [] else case v of None \<Rightarrow> [] | Some x \<Rightarrow> py_str x)"

definition shorten_retry_text :: "string \<Rightarrow> nat \<Rightarrow> string" where
  "shorten_retry_text tx max_chars =
     (let compact = join [CHR 0x0A] (map rstrip (filter (\<lambda>l. strip l \<noteq> []) (splitlines tx)))
      in if length_chars compact \<le> max_chars then compact
         else rstrip (take_chars (max_chars - 15) compact) @ [CHR 0x0A] @ ''[truncated]'')"

definition bounded_positive_int :: "int option \<Rightarrow> int \<Rightarrow> int \<Rightarrow> int option" where
  "bounded_positive_int v dflt maximum =
     (case v of None \<Rightarrow> Some dflt | Some n \<Rightarrow> if n < 1 then None else Some (min n maximum))"

definition index_label :: "string \<Rightarrow> nat \<Rightarrow> string" where
  "index_label prefix0 i = prefix0 @ ''['' @ show_nat i @ '']''"

definition list_of :: "json option \<Rightarrow> json list" where
  "list_of v = (case v of Some (JList vs) \<Rightarrow> vs | _ \<Rightarrow> [])"

definition is_list :: "json option \<Rightarrow> bool" where
  "is_list v = (case v of Some (JList _) \<Rightarrow> True | _ \<Rightarrow> False)"

definition is_bool :: "json option \<Rightarrow> bool" where
  "is_bool v = (case v of Some (JBool _) \<Rightarrow> True | _ \<Rightarrow> False)"

definition objects_of :: "json list \<Rightarrow> (string, json) dict list" where
  "objects_of vs = List.map_filter (\<lambda>v. case v of JObj p \<Rightarrow> Some p | _ \<Rightarrow> None) vs"

definition is_one_of :: "json option \<Rightarrow> string list \<Rightarrow> bool" where
  "is_one_of v xs = (case v of Some (JStr s) \<Rightarrow> s \<in> set xs | _ \<Rightarrow> False)"

text \<open>Iterating over a value: the members of a list, the keys of an object, the characters of a text.\<close>

definition py_iter :: "json \<Rightarrow> json list option" where
  "py_iter j =
     (case j of
        JList vs \<Rightarrow> Some vs
      | JObj ms \<Rightarrow> Some (map (JStr \<circ> fst) ms)
      | JStr s \<Rightarrow> Some (map (\<lambda>c. JStr [c]) s)
      | _ \<Rightarrow> None)"

text \<open>\<open>PurePosixPath(s).parts\<close> of a relative path: empty parts and single dots are dropped.\<close>

definition posix_parts :: "string \<Rightarrow> string list" where
  "posix_parts s = filter (\<lambda>p. p \<noteq> [] \<and> p \<noteq> ''.'') (split_on (CHR ''/'') s)"

section \<open>Texts that are not blank\<close>

lemma strip_blank: "strip s = [] \<longleftrightarrow> list_all is_space s"
proof -
  have r: "rstrip t = [] \<longleftrightarrow> list_all is_space t" for t by (simp add: rstrip_def list_all_iff)
  have "list_all is_space (lstrip s) \<longleftrightarrow> list_all is_space s"
    by (induction s) (auto simp: lstrip_def)
  with r show ?thesis by (simp add: strip_def)
qed

lemma rstrip_blank: "list_all is_space (rstrip s) \<longleftrightarrow> list_all is_space s"
proof -
  have "list_all is_space (dropWhile is_space t) \<longleftrightarrow> list_all is_space t" for t by (induction t) auto
  from this [of "rev s"] show ?thesis by (simp add: rstrip_def)
qed

lemma strip_strip_blank: "strip (strip s) = [] \<longleftrightarrow> strip s = []"
proof -
  have "list_all is_space (lstrip s) \<longleftrightarrow> list_all is_space s" by (induction s) (auto simp: lstrip_def)
  then show ?thesis by (simp add: strip_blank) (simp add: strip_def rstrip_blank)
qed

lemma linebreak_space: "is_linebreak c \<Longrightarrow> is_space c"
  by (auto simp: is_linebreak_def is_space_def Let_def)

lemma splitlines_keeps: "c \<in> set s \<Longrightarrow> \<not> is_linebreak c \<Longrightarrow> \<exists>l \<in> set (splitlines s). c \<in> set l"
proof -
  have "c \<in> set w \<or> c \<in> set s \<Longrightarrow> \<not> is_linebreak c \<Longrightarrow> \<exists>l \<in> set (splitlines_aux w s). c \<in> set l" for w
  proof (induction w s rule: splitlines_aux.induct)
    case (2 w d s)
    have lf: "is_linebreak d \<Longrightarrow> c \<in> set s \<Longrightarrow> c \<in> set (skip_lf d s)"
      using "2.prems"(2) by (cases s) (auto simp: is_linebreak_def Let_def)
    show ?case
    proof (cases "is_linebreak d")
      case True
      with 2 lf show ?thesis by auto
    next
      case False
      with 2 show ?thesis by auto
    qed
  qed auto
  then show "c \<in> set s \<Longrightarrow> \<not> is_linebreak c \<Longrightarrow> \<exists>l \<in> set (splitlines s). c \<in> set l" by (simp add: splitlines_def)
qed

lemma set_join: "set (join sep xs) \<supseteq> \<Union> (set ` set xs)"
  by (induction sep xs rule: join.induct) auto

lemma shorten_nonblank:
  assumes "\<exists>l \<in> set (splitlines tx). strip l \<noteq> []"
  shows "strip (shorten_retry_text tx n) \<noteq> []"
proof -
  let ?ls = "map rstrip (filter (\<lambda>l. strip l \<noteq> []) (splitlines tx))"
  obtain l where "l \<in> set (splitlines tx)" "strip l \<noteq> []" using assms by blast
  then have "rstrip l \<in> set ?ls" "\<not> list_all is_space (rstrip l)" by (auto simp: rstrip_blank strip_blank)
  then have "\<not> list_all is_space (join [CHR 0x0A] ?ls)"
    using set_join [of ?ls "[CHR 0x0A]"] by (fastforce simp: list_all_iff)
  moreover have "\<not> is_space (CHR ''['')" by (simp add: is_space_def)
  ultimately show ?thesis by (auto simp: shorten_retry_text_def strip_blank Let_def)
qed

lemma shorten_nonempty: "shorten_retry_text tx n \<noteq> [] \<Longrightarrow> strip (shorten_retry_text tx n) \<noteq> []"
proof (cases "\<exists>l \<in> set (splitlines tx). strip l \<noteq> []")
  case False
  then have "filter (\<lambda>l. strip l \<noteq> []) (splitlines tx) = []" by (simp add: filter_empty_conv)
  then show "shorten_retry_text tx n \<noteq> [] \<Longrightarrow> ?thesis" by (simp add: shorten_retry_text_def)
qed (simp add: shorten_nonblank)

lemma shorten_of_nonblank: "strip tx \<noteq> [] \<Longrightarrow> strip (shorten_retry_text tx n) \<noteq> []"
proof -
  assume "strip tx \<noteq> []"
  then obtain c where c: "c \<in> set tx" "\<not> is_space c" by (auto simp: strip_blank list_all_iff)
  then obtain l where "l \<in> set (splitlines tx)" "c \<in> set l" using splitlines_keeps linebreak_space by blast
  with c show ?thesis by (intro shorten_nonblank) (auto simp: strip_blank list_all_iff)
qed

section \<open>Reading back what was written\<close>

lemma dict_get_append: "dict_get (xs @ ys) k = (case dict_get xs k of None \<Rightarrow> dict_get ys k | Some v \<Rightarrow> Some v)"
  by (induction xs) auto

lemma objects_of_map [simp]: "objects_of (map JObj ps) = ps"
  by (induction ps) (simp_all add: objects_of_def map_filter_simps)

lemma list_of_JList [simp]: "list_of (Some (JList vs)) = vs"
  by (simp add: list_of_def)

end
