(* ===== verification/Runner_Converge.thy ===== *)
theory Runner_Converge
  imports Runner_Common Orch_Text
begin

text \<open>
  Qualitative convergence in \<^verbatim>\<open>map_step_runner.py\<close>: an append-only log of review passes per gate, the
  tail streak of clean passes that decides convergence, and the validator of the artifact. The
  error texts are those of the code. \<open>None\<close> as a result is an exception (a list or an object where
  Python needs a hashable value). \<open>q_feq\<close> compares a floating-point number, given by its text, with
  an integer.
\<close>

section \<open>Constants and shared checks\<close>

definition QC_SCOPES :: "string list" where
  "QC_SCOPES = [''monitor'', ''self_review'']"

definition QC_INVOCATIONS :: "string list" where
  "QC_INVOCATIONS = [''operator_loop'', ''template_loop'']"

definition QC_CAVEAT :: string where
  "QC_CAVEAT = ''Convergence means no critical findings in the required consecutive '' @
     ''qualitative review passes. It is not proof of correctness and does not '' @
     ''replace deterministic build/test/lint gates.''"

record qc_env =
  q_branch :: string
  q_now :: string
  q_config :: "string option"
  q_feq :: "string \<Rightarrow> int \<Rightarrow> bool"

record qc_files =
  qc_file :: jfile
  qc_manifest :: jfile

definition num_eq :: "qc_env \<Rightarrow> json option \<Rightarrow> int \<Rightarrow> bool" where
  "num_eq e v k =
     (case v of
        Some (JInt n) \<Rightarrow> n = k
      | Some (JBool b) \<Rightarrow> (if b then 1 else 0) = k
      | Some (JFloat t) \<Rightarrow> q_feq e t k
      | _ \<Rightarrow> False)"

definition default_required_clean_passes :: "qc_env \<Rightarrow> int" where
  "default_required_clean_passes e = min (map_config_int (q_config e) ''qualitative_convergence.required_clean_passes'' 2) 5"

definition default_max_passes :: "qc_env \<Rightarrow> int" where
  "default_max_passes e = min (map_config_int (q_config e) ''qualitative_convergence.max_passes'' 4) 10"

section \<open>One pass\<close>

text \<open>One finding: the value that is kept, or the error.\<close>

definition normalize_finding :: "string \<Rightarrow> json \<Rightarrow> string + json" where
  "normalize_finding label raw =
     (case raw of
        JStr s \<Rightarrow>
          let tx = shorten_retry_text s 1200
          in if tx = [] then Inl (label @ '' must not be empty'') else Inr (JStr tx)
      | JObj kvs \<Rightarrow> if kvs = [] then Inl (label @ '' must not be an empty object'') else Inr raw
      | _ \<Rightarrow> Inl (label @ '' must be a string or object''))"

definition normalize_qualitative_findings :: "json option \<Rightarrow> string \<Rightarrow> string list \<times> json list" where
  "normalize_qualitative_findings raw prefix0 =
     (case raw of
        Some (JList vs) \<Rightarrow>
          let rs = map (\<lambda>(i, v). normalize_finding (index_label prefix0 i) v) (enumerate 0 vs) in (lefts rs, rights rs)
      | _ \<Rightarrow> ([prefix0 @ '' must be an array''], []))"

definition normalize_evidence_item :: "string \<Rightarrow> json \<Rightarrow> string + json" where
  "normalize_evidence_item label raw =
     (case raw of
        JStr s \<Rightarrow> if strip s = [] then Inl (label @ '' must be a non-empty string'') else Inr (JStr (shorten_retry_text s 400))
      | _ \<Rightarrow> Inl (label @ '' must be a non-empty string''))"

definition normalize_qualitative_evidence :: "json option \<Rightarrow> string \<Rightarrow> string list \<times> json list" where
  "normalize_qualitative_evidence raw prefix0 =
     (case raw of
        Some (JList (v # vs)) \<Rightarrow>
          let rs = map (\<lambda>(i, v). normalize_evidence_item (index_label prefix0 i) v) (enumerate 0 (v # vs)) in (lefts rs, rights rs)
      | _ \<Rightarrow> ([prefix0 @ '' must be a non-empty array of strings''], []))"

definition PASS_FIELDS :: "string list" where
  "PASS_FIELDS = [''model'', ''prompt_hash'', ''run_id'', ''template_version'']"

definition pass_field :: "(string, json) dict \<Rightarrow> string \<Rightarrow> (string + string \<times> json) option" where
  "pass_field raw f =
     (case dict_get raw f of
        None \<Rightarrow> None
      | Some v \<Rightarrow>
          Some (if nonblank (Some v) then Inr (f, JStr (strip (case v of JStr s \<Rightarrow> s | _ \<Rightarrow> [])))
                else Inl (''pass.'' @ f @ '' must be a non-empty string'')))"

definition pass_number_errors :: "json option \<Rightarrow> int \<Rightarrow> string list" where
  "pass_number_errors v expected =
     (case v of
        Some (JInt n) \<Rightarrow>
          if n < 1 then [''pass.pass_number must be a positive integer'']
          else need (n = expected) (''pass.pass_number must be '' @ show_int expected @ '' (append-only contiguous pass log)'')
      | _ \<Rightarrow> [''pass.pass_number must be a positive integer''])"

definition pass_number_of :: "json option \<Rightarrow> int \<Rightarrow> json" where
  "pass_number_of v expected = (case v of Some (JInt n) \<Rightarrow> JInt (if n < 1 then expected else n) | _ \<Rightarrow> JInt expected)"

definition normalize_qualitative_pass :: "qc_env \<Rightarrow> (string, json) dict \<Rightarrow> int \<Rightarrow> string list \<times> (string, json) dict" where
  "normalize_qualitative_pass e raw expected =
     (let reviewer = strip (str_or_blank (dict_get raw ''reviewer''));
          summary = shorten_retry_text (str_or_blank (dict_get raw ''summary'')) 1200;
          (clean_errors, clean) = (case dict_get raw ''clean'' of Some (JBool b) \<Rightarrow> ([], b)
             | _ \<Rightarrow> ([''pass.clean must be a boolean''], False));
          (critical_errors, critical) = normalize_qualitative_findings (dict_get raw ''critical_findings'') ''pass.critical_findings'';
          (evidence_errors, evidence) = normalize_qualitative_evidence (dict_get raw ''evidence'') ''pass.evidence'';
          stamp = strip (str_or_blank (dict_get raw ''timestamp''));
          (nb_errors, nb) = (case dict_get raw ''non_blocking_findings'' of
             None \<Rightarrow> ([], []) | Some JNull \<Rightarrow> ([], [])
           | v \<Rightarrow> let (es, fs) = normalize_qualitative_findings v ''pass.non_blocking_findings''
                  in (es, [(''non_blocking_findings'', JList fs)]));
          fields = List.map_filter (pass_field raw) PASS_FIELDS
      in (pass_number_errors (dict_get raw ''pass_number'') expected
          @ need (reviewer \<noteq> []) ''pass.reviewer must be a non-empty string''
          @ need (summary \<noteq> []) ''pass.summary must be a non-empty string''
          @ clean_errors @ critical_errors
          @ need (\<not> (clean \<and> critical \<noteq> [])) ''pass.clean=true requires zero critical_findings''
          @ need (clean \<or> critical \<noteq> []) ''pass.clean=false requires at least one critical finding''
          @ evidence_errors @ nb_errors @ lefts fields,
          [(''pass_number'', pass_number_of (dict_get raw ''pass_number'') expected), (''reviewer'', JStr reviewer),
           (''clean'', JBool clean), (''critical_findings'', JList critical), (''summary'', JStr summary),
           (''evidence'', JList evidence), (''timestamp'', JStr (if stamp = [] then q_now e else stamp))]
          @ nb @ rights fields))"

section \<open>Convergence\<close>

definition is_clean :: "(string, json) dict \<Rightarrow> bool" where
  "is_clean p = (dict_get p ''clean'' = Some (JBool True))"

definition qualitative_tail_clean_streak :: "(string, json) dict list \<Rightarrow> nat" where
  "qualitative_tail_clean_streak passes = length (takeWhile is_clean (rev passes))"

definition qualitative_convergence_status :: "nat \<Rightarrow> nat \<Rightarrow> int \<Rightarrow> int \<Rightarrow> string" where
  "qualitative_convergence_status pass_count streak required_clean max_passes =
     (if required_clean \<le> int streak then ''converged''
      else if max_passes \<le> int pass_count then ''max_passes_exceeded''
      else if pass_count = 0 then ''pending'' else ''needs_more_passes'')"

definition qc_policy :: "int \<Rightarrow> int \<Rightarrow> string \<Rightarrow> (string, json) dict" where
  "qc_policy required_clean max_passes invocation =
     [(''required_clean_passes'', JInt required_clean), (''max_passes'', JInt max_passes),
      (''invocation'', JStr invocation), (''hard_cap'', JBool True)]"

definition qualitative_gate_payload ::
  "string \<Rightarrow> string \<Rightarrow> string \<Rightarrow> (string, json) dict list \<Rightarrow> int \<Rightarrow> int \<Rightarrow> string \<Rightarrow> string \<Rightarrow> (string, json) dict" where
  "qualitative_gate_payload gate_id scope branch passes required_clean max_passes invocation risk_ref =
     (let streak = qualitative_tail_clean_streak passes;
          stat = qualitative_convergence_status (length passes) streak required_clean max_passes
      in [(''gate_id'', JStr gate_id), (''scope'', JStr scope), (''branch'', JStr branch), (''risk_ref'', JStr risk_ref),
          (''policy'', JObj (qc_policy required_clean max_passes invocation)), (''status'', JStr stat),
          (''converged'', JBool (stat = ''converged'')), (''consecutive_clean_passes'', JInt (int streak)),
          (''pass_count'', JInt (int (length passes))), (''caveat'', JStr QC_CAVEAT), (''passes'', JList (map JObj passes))])"

section \<open>The validator\<close>

definition evidence_errors :: "json option \<Rightarrow> string \<Rightarrow> string list" where
  "evidence_errors v pp =
     (if list_of v = [] then [pp @ ''.evidence must be a non-empty array'']
      else need (list_all (\<lambda>x. nonblank (Some x)) (list_of v)) (pp @ ''.evidence entries must be non-empty strings''))"

definition pass_errors :: "qc_env \<Rightarrow> string \<Rightarrow> nat \<Rightarrow> (string, json) dict \<Rightarrow> string list" where
  "pass_errors e pp idx p =
     (let clean = dict_get p ''clean''; critical = dict_get p ''critical_findings''; nb = dict_get p ''non_blocking_findings''
      in need (num_eq e (dict_get p ''pass_number'') (int idx + 1)) (pp @ ''.pass_number must be '' @ show_nat (idx + 1))
         @ need (nonblank (dict_get p ''reviewer'')) (pp @ ''.reviewer must be a non-empty string'')
         @ need (is_bool clean) (pp @ ''.clean must be a boolean'')
         @ need (is_list critical) (pp @ ''.critical_findings must be an array'')
         @ need (\<not> (clean = Some (JBool True) \<and> list_of critical \<noteq> [])) (pp @ ''.clean=true requires zero critical_findings'')
         @ need (\<not> (clean = Some (JBool False) \<and> list_of critical = [])) (pp @ ''.clean=false requires at least one critical finding'')
         @ evidence_errors (dict_get p ''evidence'') pp
         @ need (nonblank (dict_get p ''summary'')) (pp @ ''.summary must be a non-empty string'')
         @ need (nonblank (dict_get p ''timestamp'')) (pp @ ''.timestamp must be a non-empty string'')
         @ need (nb = None \<or> nb = Some JNull \<or> is_list nb) (pp @ ''.non_blocking_findings must be an array'')
         @ concat (map (\<lambda>f. need (dict_get p f = None \<or> nonblank (dict_get p f)) (pp @ ''.'' @ f @ '' must be a non-empty string'')) PASS_FIELDS))"

text \<open>The loop over the passes: errors, and warnings for a repeated prompt.\<close>

fun check_passes :: "qc_env \<Rightarrow> string \<Rightarrow> nat \<Rightarrow> string list \<Rightarrow> json list \<Rightarrow> string list \<times> string list" where
  "check_passes e prefix0 idx seen [] = ([], [])"
| "check_passes e prefix0 idx seen (v # vs) =
     (let pp = index_label (prefix0 @ ''.passes'') idx
      in case v of
           JObj p \<Rightarrow>
             let hash = dict_get p ''prompt_hash'';
                 (seen', warns) = (case hash of
                    Some (JStr h) \<Rightarrow> (h # seen, if h \<in> set seen
                       then [pp @ ''.prompt_hash duplicates an earlier pass; reviewer diversity may be low''] else [])
                  | _ \<Rightarrow> (seen, []));
                 (es, ws) = check_passes e prefix0 (Suc idx) seen' vs
             in (pass_errors e pp idx p @ es, warns @ ws)
         | _ \<Rightarrow>
             let (es, ws) = check_passes e prefix0 (Suc idx) seen vs
             in ((pp @ '' must be an object'') # es, ws))"

definition int_at_least_one :: "json option \<Rightarrow> int option" where
  "int_at_least_one v = (case v of Some (JInt n) \<Rightarrow> if n < 1 then None else Some n | _ \<Rightarrow> None)"

definition or_one :: "int option \<Rightarrow> int" where
  "or_one v = (case v of None \<Rightarrow> 1 | Some n \<Rightarrow> n)"

definition policy_errors :: "(string, json) dict \<Rightarrow> string \<Rightarrow> string list" where
  "policy_errors policy pp =
     (let req = int_at_least_one (dict_get policy ''required_clean_passes'');
          mx = int_at_least_one (dict_get policy ''max_passes'')
      in need (req \<noteq> None) (pp @ ''.policy.required_clean_passes must be an integer >= 1'')
         @ need (mx \<noteq> None) (pp @ ''.policy.max_passes must be an integer >= 1'')
         @ need (or_one req \<le> 5) (pp @ ''.policy.required_clean_passes exceeds 5'')
         @ need (or_one mx \<le> 10) (pp @ ''.policy.max_passes exceeds 10'')
         @ need (or_one req \<le> or_one mx) (pp @ ''.policy.max_passes must be >= required_clean_passes'')
         @ need (is_one_of (dict_get policy ''invocation'') QC_INVOCATIONS) (pp @ ''.policy.invocation must be one of '' @ one_of QC_INVOCATIONS)
         @ need (dict_get policy ''hard_cap'' = Some (JBool True)) (pp @ ''.policy.hard_cap must be true''))"

record gate_summary =
  g_id :: string
  g_scope :: string
  g_status :: string

definition opt_hashable :: "json option \<Rightarrow> bool" where
  "opt_hashable v = (case v of None \<Rightarrow> True | Some x \<Rightarrow> hashable x)"

definition policy_of :: "(string, json) dict \<Rightarrow> (string, json) dict" where
  "policy_of gate = (case dict_get gate ''policy'' of Some (JObj p) \<Rightarrow> p | _ \<Rightarrow> [])"

definition expected_gate_status :: "(string, json) dict \<Rightarrow> string" where
  "expected_gate_status gate =
     (let passes = objects_of (list_of (dict_get gate ''passes''))
      in qualitative_convergence_status (length passes) (qualitative_tail_clean_streak passes)
           (or_one (int_at_least_one (dict_get (policy_of gate) ''required_clean_passes'')))
           (or_one (int_at_least_one (dict_get (policy_of gate) ''max_passes''))))"

definition gate_errors :: "qc_env \<Rightarrow> nat \<Rightarrow> (string, json) dict \<Rightarrow> string list" where
  "gate_errors e idx gate =
     (let pp = index_label ''gates'' idx; policy = policy_of gate;
          raw = list_of (dict_get gate ''passes''); passes = objects_of raw;
          mx = or_one (int_at_least_one (dict_get policy ''max_passes''));
          streak = qualitative_tail_clean_streak passes; stat = expected_gate_status gate
      in need (nonblank (dict_get gate ''gate_id'')) (pp @ ''.gate_id must be a non-empty string'')
         @ need (is_one_of (dict_get gate ''scope'') QC_SCOPES) (pp @ ''.scope must be one of '' @ one_of QC_SCOPES)
         @ need (dict_get gate ''branch'' = Some (JStr (q_branch e))) (pp @ ''.branch must equal artifact branch '' @ py_repr_str (q_branch e))
         @ need (case dict_get gate ''risk_ref'' of Some (JStr _) \<Rightarrow> True | _ \<Rightarrow> False) (pp @ ''.risk_ref must be a string'')
         @ need (dict_get gate ''caveat'' = Some (JStr QC_CAVEAT)) (pp @ ''.caveat is required and must match the convergence caveat'')
         @ need (case dict_get gate ''policy'' of Some (JObj _) \<Rightarrow> True | _ \<Rightarrow> False) (pp @ ''.policy must be an object'')
         @ policy_errors policy pp
         @ need (is_list (dict_get gate ''passes'')) (pp @ ''.passes must be an array'')
         @ fst (check_passes e pp 0 [] raw)
         @ need (int (length passes) \<le> mx) (pp @ ''.passes length exceeds policy.max_passes'')
         @ need (num_eq e (dict_get gate ''consecutive_clean_passes'') (int streak)) (pp @ ''.consecutive_clean_passes must be '' @ show_nat streak)
         @ need (num_eq e (dict_get gate ''pass_count'') (int (length passes))) (pp @ ''.pass_count must be '' @ show_nat (length passes))
         @ need (dict_get gate ''status'' = Some (JStr stat)) (pp @ ''.status must be '' @ py_repr_str stat)
         @ need (dict_get gate ''converged'' = Some (JBool (stat = ''converged''))) (pp @ ''.converged disagrees with computed tail streak''))"

definition summarize_gate :: "(string, json) dict \<Rightarrow> gate_summary" where
  "summarize_gate gate =
     \<lparr>g_id = (case dict_get gate ''gate_id'' of Some (JStr s) \<Rightarrow> if strip s = [] then [] else s | _ \<Rightarrow> []),
      g_scope = (case dict_get gate ''scope'' of Some (JStr s) \<Rightarrow> if s \<in> set QC_SCOPES then s else [] | _ \<Rightarrow> []),
      g_status = expected_gate_status gate\<rparr>"

text \<open>The gates of the artifact, with \<open>None\<close> where a scope or an invocation cannot be hashed.\<close>

definition gate_hashable :: "json \<Rightarrow> bool" where
  "gate_hashable v =
     (case v of JObj g \<Rightarrow> opt_hashable (dict_get g ''scope'') \<and> opt_hashable (dict_get (policy_of g) ''invocation'') | _ \<Rightarrow> True)"

definition check_gate :: "qc_env \<Rightarrow> nat \<times> json \<Rightarrow> string list \<times> string list \<times> gate_summary list" where
  "check_gate e ig =
     (case ig of
        (i, JObj g) \<Rightarrow> (gate_errors e i g, snd (check_passes e (index_label ''gates'' i) 0 [] (list_of (dict_get g ''passes''))), [summarize_gate g])
      | (i, _) \<Rightarrow> ([index_label ''gates'' i @ '' must be an object''], [], []))"

record qc_validation =
  qv_valid :: bool
  qv_gates :: "gate_summary list"
  qv_errors :: "string list"
  qv_warnings :: "string list"

definition count_status :: "string \<Rightarrow> gate_summary list \<Rightarrow> nat" where
  "count_status stat gs = length (filter (\<lambda>g. g_status g = stat) gs)"

definition qc_stage_status :: "gate_summary list \<Rightarrow> string" where
  "qc_stage_status gs =
     (if 0 < count_status ''max_passes_exceeded'' gs then ''max_passes_exceeded''
      else if 0 < count_status ''needs_more_passes'' gs \<or> 0 < count_status ''pending'' gs then ''needs_more_passes''
      else ''converged'')"

definition qc_path :: "qc_env \<Rightarrow> string" where
  "qc_path e = ''.map/'' @ q_branch e @ ''/qualitative_convergence.json''"

definition qc_metadata :: "gate_summary list \<Rightarrow> (string, json) dict" where
  "qc_metadata gs =
     [(''gate_count'', JInt (int (length gs))), (''converged_count'', JInt (int (count_status ''converged'' gs))),
      (''max_passes_exceeded_count'', JInt (int (count_status ''max_passes_exceeded'' gs))),
      (''needs_more_passes_count'', JInt (int (count_status ''needs_more_passes'' gs))),
      (''pending_count'', JInt (int (count_status ''pending'' gs))),
      (''scopes'', JList (map JStr (sort (remdups (map g_scope gs)))))]"

definition invalid_artifact :: "string \<Rightarrow> qc_validation" where
  "invalid_artifact msg = \<lparr>qv_valid = False, qv_gates = [], qv_errors = [msg], qv_warnings = []\<rparr>"

definition artifact_checks :: "qc_env \<Rightarrow> (string, json) dict \<Rightarrow> qc_validation" where
  "artifact_checks e payload =
     (let gates = list_of (dict_get payload ''gates'');
          rs = map (check_gate e) (enumerate 0 gates);
          errors = need (dict_get payload ''schema_version'' = Some (JStr ''1.0'')) ''schema_version must be 1.0''
            @ need (dict_get payload ''branch'' = Some (JStr (q_branch e))) (''branch must equal '' @ py_repr_str (q_branch e))
            @ need (gates \<noteq> []) ''gates must be a non-empty array''
            @ concat (map fst rs)
      in \<lparr>qv_valid = (errors = []), qv_gates = concat (map (snd \<circ> snd) rs), qv_errors = errors, qv_warnings = concat (map (fst \<circ> snd) rs)\<rparr>)"

definition validate_qualitative_convergence :: "qc_env \<Rightarrow> qc_files \<Rightarrow> qc_validation option \<times> qc_files" where
  "validate_qualitative_convergence e fs =
     (case qc_file fs of
        No_file \<Rightarrow> (Some (invalid_artifact (''qualitative convergence artifact not found: '' @ qc_path e)), fs)
      | Bad_json \<Rightarrow> (Some (invalid_artifact ''cannot read qualitative convergence artifact''), fs)
      | Json (JObj payload) \<Rightarrow>
          if \<not> list_all gate_hashable (list_of (dict_get payload ''gates'')) then (None, fs)
          else let v = artifact_checks e payload
               in if qv_valid v
                  then (case record_stage (q_now e) (q_branch e) ''qualitative_convergence'' (qc_stage_status (qv_gates v))
                            [artifact_ref (qc_path e) ''qualitative-convergence''] (qc_metadata (qv_gates v)) (qc_manifest fs) of
                      None \<Rightarrow> (None, fs)
                    | Some m \<Rightarrow> (Some v, fs\<lparr>qc_manifest := m\<rparr>))
                  else (Some v, fs)
      | Json _ \<Rightarrow> (Some (invalid_artifact ''qualitative convergence artifact must be a JSON object''), fs))"

section \<open>Recording a pass\<close>

record qc_args =
  a_gate :: string
  a_pass :: "(string, json) dict"
  a_scope :: string
  a_required :: "int option"
  a_max :: "int option"
  a_invocation :: string
  a_risk :: string

definition qc_bounds :: "qc_env \<Rightarrow> qc_args \<Rightarrow> (int \<times> int) option" where
  "qc_bounds e a =
     (case (bounded_positive_int (a_required a) (default_required_clean_passes e) 5, bounded_positive_int (a_max a) (default_max_passes e) 10) of
        (Some r, Some m) \<Rightarrow> Some (r, m)
      | _ \<Rightarrow> None)"

definition arg_errors :: "qc_env \<Rightarrow> qc_args \<Rightarrow> string list" where
  "arg_errors e a =
     need (strip (a_gate a) \<noteq> []) ''gate_id must be a non-empty string''
     @ need (a_scope a \<in> set QC_SCOPES) (''scope must be one of '' @ one_of QC_SCOPES)
     @ need (a_invocation a \<in> set QC_INVOCATIONS) (''invocation must be one of '' @ one_of QC_INVOCATIONS)
     @ (case qc_bounds e a of
          None \<Rightarrow> [''value must be >= 1'']
        | Some (r, m) \<Rightarrow> need (r \<le> m) ''max_passes must be >= required_clean_passes'')"

definition same_gate :: "string \<Rightarrow> string \<Rightarrow> json \<Rightarrow> bool" where
  "same_gate gate scope v = (jget ''gate_id'' v = Some (JStr gate) \<and> jget ''scope'' v = Some (JStr scope))"

definition same_policy :: "qc_env \<Rightarrow> (string, json) dict \<Rightarrow> int \<Rightarrow> int \<Rightarrow> string \<Rightarrow> bool" where
  "same_policy e policy r m invocation =
     (length policy = 4 \<and> num_eq e (dict_get policy ''required_clean_passes'') r \<and> num_eq e (dict_get policy ''max_passes'') m
      \<and> dict_get policy ''invocation'' = Some (JStr invocation) \<and> num_eq e (dict_get policy ''hard_cap'') 1)"

text \<open>
  The passes a gate has so far, or the error that refuses another one. The outer \<open>None\<close> is the
  exception for a status that cannot be hashed.
\<close>

definition existing_passes :: "qc_env \<Rightarrow> string \<Rightarrow> (string, json) dict \<Rightarrow> int \<Rightarrow> int \<Rightarrow> string \<Rightarrow> (string + (string, json) dict list) option" where
  "existing_passes e gate g r m invocation =
     (if \<not> opt_hashable (dict_get g ''status'') then None
      else Some
        (if is_one_of (dict_get g ''status'') [''converged'', ''max_passes_exceeded'']
         then Inl (''gate '' @ py_repr_str gate @ '' is terminal ('' @ str_or_blank (dict_get g ''status'')
                @ ''); start a new gate_id for a new convergence loop'')
         else case dict_get g ''policy'' of
             Some (JObj policy) \<Rightarrow>
               if \<not> same_policy e policy r m invocation
               then Inl (''gate '' @ py_repr_str gate @ '' policy is append-only and cannot change'')
               else if \<not> is_list (dict_get g ''passes'') \<or> \<not> list_all (\<lambda>v. case v of JObj _ \<Rightarrow> True | _ \<Rightarrow> False) (list_of (dict_get g ''passes''))
               then Inl (''gate '' @ py_repr_str gate @ '' passes must be an array of objects'')
               else let ps = objects_of (list_of (dict_get g ''passes''))
                    in if m \<le> int (length ps) then Inl (''gate '' @ py_repr_str gate @ '' already reached max_passes'') else Inr ps
           | _ \<Rightarrow> Inl (''gate '' @ py_repr_str gate @ '' has invalid policy'')))"

datatype qc_response =
    Refused "string list"
  | Recorded bool "(string, json) dict" qc_validation

definition existing_gates :: "jfile \<Rightarrow> json list option" where
  "existing_gates f =
     (case dict_get (case read_json_file f of None \<Rightarrow> [] | Some d \<Rightarrow> d) ''gates'' of
        None \<Rightarrow> Some [] | Some JNull \<Rightarrow> Some []
      | Some (JList gs) \<Rightarrow> if list_all (\<lambda>v. case v of JObj _ \<Rightarrow> True | _ \<Rightarrow> False) gs then Some gs else None
      | _ \<Rightarrow> None)"

fun find_index :: "('a \<Rightarrow> bool) \<Rightarrow> 'a list \<Rightarrow> nat option" where
  "find_index P [] = None"
| "find_index P (x # xs) = (if P x then Some 0 else map_option Suc (find_index P xs))"

definition members :: "json \<Rightarrow> (string, json) dict" where
  "members v = (case v of JObj d \<Rightarrow> d | _ \<Rightarrow> [])"

definition put_gate :: "nat option \<Rightarrow> json \<Rightarrow> json list \<Rightarrow> json list" where
  "put_gate at0 g gs = (case at0 of None \<Rightarrow> gs @ [g] | Some i \<Rightarrow> gs[i := g])"

definition record_qualitative_convergence :: "qc_env \<Rightarrow> qc_args \<Rightarrow> qc_files \<Rightarrow> qc_response option \<times> qc_files" where
  "record_qualitative_convergence e a fs =
     (let gate = strip (a_gate a); errs = arg_errors e a; (r, m) = (case qc_bounds e a of None \<Rightarrow> (2, 4) | Some b \<Rightarrow> b)
      in if errs \<noteq> [] then (Some (Refused errs), fs)
         else case existing_gates (qc_file fs) of
             None \<Rightarrow> (Some (Refused [''existing qualitative convergence gates must be an array'']), fs)
           | Some gates \<Rightarrow>
               (let at0 = find_index (same_gate gate (a_scope a)) gates
                in case (case at0 of None \<Rightarrow> Some (Inr []) | Some i \<Rightarrow> existing_passes e gate (members (gates ! i)) r m (a_invocation a)) of
                     None \<Rightarrow> (None, fs)
                   | Some (Inl msg) \<Rightarrow> (Some (Refused [msg]), fs)
                   | Some (Inr ps) \<Rightarrow>
                       (let (perrs, p) = normalize_qualitative_pass e (a_pass a) (int (length ps) + 1)
                        in if perrs \<noteq> [] then (Some (Refused perrs), fs)
                           else
                             let g = qualitative_gate_payload gate (a_scope a) (q_branch e) (ps @ [p]) r m (a_invocation a) (strip (a_risk a));
                                 fs1 = fs\<lparr>qc_file := Json (JObj [(''schema_version'', JStr ''1.0''), (''branch'', JStr (q_branch e)),
                                    (''updated_at'', JStr (q_now e)), (''gates'', JList (put_gate at0 (JObj g) gates))])\<rparr>
                             in case validate_qualitative_convergence e fs1 of
                                  (None, fs2) \<Rightarrow> (None, fs2)
                                | (Some v, fs2) \<Rightarrow> (Some (Recorded (qv_valid v) g v), fs2))))"

end
