(* ===== verification/Runner_Converge_Props.thy ===== *)
theory Runner_Converge_Props
  imports Runner_Converge
begin

text \<open>
  What the convergence log promises: whatever is recorded passes the validator, and the status of
  a gate means what the policy says.
\<close>

section \<open>A normalised pass is valid\<close>

lemma evidence_valid:
  assumes "normalize_qualitative_evidence raw l = ([], ev)"
  shows "evidence_errors (Some (JList ev)) pp = []"
proof -
  obtain vs where vs: "raw = Some (JList vs)" "vs \<noteq> []"
    using assms by (auto simp: normalize_qualitative_evidence_def split: option.splits json.splits list.splits)
  let ?rs = "map (\<lambda>(i, v). normalize_evidence_item (index_label l i) v) (enumerate 0 vs)"
  have "lefts ?rs = []" "ev = rights ?rs"
    using assms vs by (auto simp: normalize_qualitative_evidence_def Let_def split: list.splits)
  then have "ev \<noteq> []" "\<And>x. x \<in> set ev \<Longrightarrow> Inr x \<in> set ?rs"
    using lefts_length [of ?rs] mem_rights [of _ ?rs] vs(2) by auto
  moreover have "Inr x \<in> set ?rs \<Longrightarrow> nonblank (Some x)" for x
    by (auto simp: normalize_evidence_item_def nonblank_def shorten_of_nonblank split: json.splits if_splits)
  ultimately show ?thesis by (auto simp: evidence_errors_def list_of_def list_all_iff)
qed

lemma pass_field_ok: "pass_field raw f = Some (Inr (k, v)) \<Longrightarrow> k = f \<and> nonblank (Some v)"
proof -
  assume a: "pass_field raw f = Some (Inr (k, v))"
  then obtain w where w: "dict_get raw f = Some w" "nonblank (Some w)" by (auto simp: pass_field_def split: option.splits if_splits)
  then obtain s where "w = JStr s" "strip s \<noteq> []" by (cases w) (auto simp: nonblank_def)
  with a w show ?thesis by (auto simp: pass_field_def nonblank_def strip_strip_blank)
qed

lemma field_mem: "(k, v) \<in> set (rights (List.map_filter (pass_field raw) fs)) \<Longrightarrow> k \<in> set fs \<and> nonblank (Some v)"
  unfolding mem_rights set_map_filter using pass_field_ok by blast

lemma fields_nonblank:
  "dict_get (rights (List.map_filter (pass_field raw) fs)) k = None \<or> nonblank (dict_get (rights (List.map_filter (pass_field raw) fs)) k)"
  using field_mem by (metis dict_get_mem not_None_eq)

definition pass_keys :: "string list" where
  "pass_keys = [''pass_number'', ''reviewer'', ''clean'', ''critical_findings'', ''summary'', ''evidence'', ''timestamp'', ''non_blocking_findings'']"

lemma fields_not_keys: "f \<in> set PASS_FIELDS \<Longrightarrow> f \<notin> set pass_keys"
  by (auto simp: PASS_FIELDS_def pass_keys_def)

lemma field_lookup:
  assumes "f \<in> set PASS_FIELDS" "fst ` set xs \<subseteq> set pass_keys"
  shows "dict_get (xs @ ys) f = dict_get ys f"
proof -
  have "dict_get xs f = None"
    using assms fields_not_keys by (metis dict_get_mem fst_conv image_eqI not_None_eq subsetD)
  then show ?thesis by (simp add: dict_get_append)
qed

lemma rights_keys: "dict_get (rights (List.map_filter (pass_field raw) PASS_FIELDS)) ''non_blocking_findings'' = None"
proof -
  have "''non_blocking_findings'' \<notin> set PASS_FIELDS" by (simp add: PASS_FIELDS_def)
  then show ?thesis using field_mem by (metis dict_get_mem not_None_eq)
qed

lemma pass_number_valid:
  "pass_number_errors v n = [] \<Longrightarrow> num_eq e (Some (pass_number_of v n)) n"
  by (auto simp: pass_number_errors_def pass_number_of_def num_eq_def split: option.splits json.splits if_splits)

lemma normalized_pass_valid:
  assumes "normalize_qualitative_pass e raw (int idx + 1) = ([], p)" "strip (q_now e) \<noteq> []"
  shows "pass_errors e' pp idx p = []"
proof -
  let ?reviewer = "strip (str_or_blank (dict_get raw ''reviewer''))" and ?stamp = "strip (str_or_blank (dict_get raw ''timestamp''))"
  let ?summary = "shorten_retry_text (str_or_blank (dict_get raw ''summary'')) 1200"
  let ?fields = "List.map_filter (pass_field raw) PASS_FIELDS"
  obtain ce clean where cl: "(case dict_get raw ''clean'' of Some (JBool b) \<Rightarrow> ([], b)
      | _ \<Rightarrow> ([''pass.clean must be a boolean''], False)) = (ce, clean)" by (metis surj_pair)
  obtain ke crit where cr: "normalize_qualitative_findings (dict_get raw ''critical_findings'') ''pass.critical_findings'' = (ke, crit)" by (metis surj_pair)
  obtain ee ev where ev: "normalize_qualitative_evidence (dict_get raw ''evidence'') ''pass.evidence'' = (ee, ev)" by (metis surj_pair)
  obtain ne nb where nb: "(case dict_get raw ''non_blocking_findings'' of
      None \<Rightarrow> ([], []) | Some JNull \<Rightarrow> ([], [])
    | v \<Rightarrow> let (es, fs) = normalize_qualitative_findings v ''pass.non_blocking_findings''
           in (es, [(''non_blocking_findings'', JList fs)])) = (ne, nb)" by (metis surj_pair)
  let ?base = "[(''pass_number'', pass_number_of (dict_get raw ''pass_number'') (int idx + 1)), (''reviewer'', JStr ?reviewer),
           (''clean'', JBool clean), (''critical_findings'', JList crit), (''summary'', JStr ?summary),
           (''evidence'', JList ev), (''timestamp'', JStr (if ?stamp = [] then q_now e else ?stamp))]"
  have p: "p = ?base @ nb @ rights ?fields"
    and num: "pass_number_errors (dict_get raw ''pass_number'') (int idx + 1) = []"
    and ok: "?reviewer \<noteq> []" "?summary \<noteq> []" "\<not> (clean \<and> crit \<noteq> [])" "clean \<or> crit \<noteq> []" "ee = []"
    using assms(1) unfolding normalize_qualitative_pass_def Let_def cl [unfolded Let_def] cr ev nb [unfolded Let_def] prod.case by simp_all
  have nbs: "nb = [] \<or> (\<exists>fs. nb = [(''non_blocking_findings'', JList fs)])"
    using nb by (auto simp: Let_def split: option.splits json.splits prod.splits)
  then have nbk: "fst ` set (?base @ nb) \<subseteq> set pass_keys" by (auto simp: pass_keys_def)
  have f: "dict_get p f = None \<or> nonblank (dict_get p f)" if "f \<in> set PASS_FIELDS" for f
    using fields_nonblank field_lookup [OF that nbk] by (simp add: p)
  have "dict_get p ''non_blocking_findings'' = None \<or> is_list (dict_get p ''non_blocking_findings'')"
    using nbs rights_keys [of raw] by (auto simp: p is_list_def)
  moreover have "nonblank (Some (JStr ?reviewer))" "nonblank (Some (JStr ?summary))"
      "nonblank (Some (JStr (if ?stamp = [] then q_now e else ?stamp)))"
    using ok assms(2) shorten_nonempty by (auto simp: nonblank_def strip_strip_blank)
  moreover have "evidence_errors (Some (JList ev)) pp = []" using ev ok(5) evidence_valid by auto
  moreover have "num_eq e' (Some (pass_number_of (dict_get raw ''pass_number'') (int idx + 1))) (int idx + 1)"
    using pass_number_valid [OF num] .
  moreover have "dict_get p ''pass_number'' = Some (pass_number_of (dict_get raw ''pass_number'') (int idx + 1))"
    "dict_get p ''reviewer'' = Some (JStr ?reviewer)" "dict_get p ''clean'' = Some (JBool clean)"
    "dict_get p ''critical_findings'' = Some (JList crit)" "dict_get p ''summary'' = Some (JStr ?summary)"
    "dict_get p ''evidence'' = Some (JList ev)" "dict_get p ''timestamp'' = Some (JStr (if ?stamp = [] then q_now e else ?stamp))"
    by (simp_all add: p)
  ultimately show ?thesis
    using ok f by (auto simp: pass_errors_def Let_def is_bool_def is_list_def list_of_def)
qed

section \<open>Gates the code writes are valid\<close>

definition pass_ok :: "nat \<Rightarrow> (string, json) dict \<Rightarrow> bool" where
  "pass_ok k p = (\<forall>e pp. pass_errors e pp k p = [])"

record gate =
  t_id :: string
  t_scope :: string
  t_passes :: "(string, json) dict list"
  t_required :: int
  t_max :: int
  t_invocation :: string
  t_risk :: string

definition gate_members :: "string \<Rightarrow> gate \<Rightarrow> (string, json) dict" where
  "gate_members b g = qualitative_gate_payload (t_id g) (t_scope g) b (t_passes g) (t_required g) (t_max g) (t_invocation g) (t_risk g)"

definition gate_state :: "gate \<Rightarrow> string" where
  "gate_state g = qualitative_convergence_status (length (t_passes g)) (qualitative_tail_clean_streak (t_passes g)) (t_required g) (t_max g)"

definition gate_ok :: "gate \<Rightarrow> bool" where
  "gate_ok g = (strip (t_id g) \<noteq> [] \<and> t_scope g \<in> set QC_SCOPES \<and> t_invocation g \<in> set QC_INVOCATIONS
     \<and> 1 \<le> t_required g \<and> t_required g \<le> 5 \<and> t_required g \<le> t_max g \<and> t_max g \<le> 10
     \<and> int (length (t_passes g)) \<le> t_max g \<and> (\<forall>k < length (t_passes g). pass_ok k (t_passes g ! k)))"

lemma gate_field [simp]:
  "dict_get (gate_members b g) ''gate_id'' = Some (JStr (t_id g))"
  "dict_get (gate_members b g) ''scope'' = Some (JStr (t_scope g))"
  "dict_get (gate_members b g) ''branch'' = Some (JStr b)"
  "dict_get (gate_members b g) ''risk_ref'' = Some (JStr (t_risk g))"
  "dict_get (gate_members b g) ''policy'' = Some (JObj (qc_policy (t_required g) (t_max g) (t_invocation g)))"
  "dict_get (gate_members b g) ''status'' = Some (JStr (gate_state g))"
  "dict_get (gate_members b g) ''converged'' = Some (JBool (gate_state g = ''converged''))"
  "dict_get (gate_members b g) ''consecutive_clean_passes'' = Some (JInt (int (qualitative_tail_clean_streak (t_passes g))))"
  "dict_get (gate_members b g) ''pass_count'' = Some (JInt (int (length (t_passes g))))"
  "dict_get (gate_members b g) ''caveat'' = Some (JStr QC_CAVEAT)"
  "dict_get (gate_members b g) ''passes'' = Some (JList (map JObj (t_passes g)))"
  by (simp_all add: gate_members_def qualitative_gate_payload_def gate_state_def Let_def)

lemma policy_field [simp]:
  "dict_get (qc_policy r m i) ''required_clean_passes'' = Some (JInt r)"
  "dict_get (qc_policy r m i) ''max_passes'' = Some (JInt m)"
  "dict_get (qc_policy r m i) ''invocation'' = Some (JStr i)"
  "dict_get (qc_policy r m i) ''hard_cap'' = Some (JBool True)"
  "length (qc_policy r m i) = 4"
  by (simp_all add: qc_policy_def)

lemma policy_of_gate [simp]: "policy_of (gate_members b g) = qc_policy (t_required g) (t_max g) (t_invocation g)"
  by (simp add: policy_of_def)

lemma check_passes_ok:
  "\<forall>k < length ps. pass_ok (idx + k) (ps ! k) \<Longrightarrow> fst (check_passes e pp idx seen (map JObj ps)) = []"
proof (induction ps arbitrary: idx seen)
  case (Cons p ps)
  have "\<forall>k < length ps. pass_ok (Suc idx + k) (ps ! k)" using Cons.prems by auto
  then have "fst (check_passes e pp (Suc idx) s (map JObj ps)) = []" for s by (rule Cons.IH)
  moreover have "pass_errors e l idx p = []" for l using Cons.prems by (auto simp: pass_ok_def dest: spec [of _ 0])
  ultimately show ?case by (simp add: Let_def case_prod_unfold split: option.splits json.splits)
qed simp

lemma int_at_least_one_JInt [simp]: "1 \<le> n \<Longrightarrow> int_at_least_one (Some (JInt n)) = Some n" "or_one (Some n) = n"
  by (simp_all add: int_at_least_one_def or_one_def)

lemma expected_status [simp]: "gate_ok g \<Longrightarrow> expected_gate_status (gate_members b g) = gate_state g"
  by (simp add: expected_gate_status_def gate_state_def gate_ok_def Let_def)

lemma written_gate_valid:
  assumes "gate_ok g" "q_branch e = b"
  shows "gate_errors e i (gate_members b g) = []"
proof -
  have "fst (check_passes e pp 0 [] (map JObj (t_passes g))) = []" for pp
    using assms(1) by (intro check_passes_ok) (simp add: gate_ok_def)
  moreover have "policy_errors (qc_policy (t_required g) (t_max g) (t_invocation g)) pp = []" for pp
    using assms(1) by (simp add: policy_errors_def gate_ok_def is_one_of_def)
  ultimately show ?thesis
    using assms by (simp add: gate_errors_def nonblank_def is_one_of_def is_list_def num_eq_def Let_def) (simp add: gate_ok_def)
qed

section \<open>The log\<close>

definition log_json :: "string \<Rightarrow> gate list \<Rightarrow> json \<Rightarrow> json" where
  "log_json b L u = JObj [(''schema_version'', JStr ''1.0''), (''branch'', JStr b), (''updated_at'', u),
     (''gates'', JList (map (JObj \<circ> gate_members b) L))]"

definition log_rep :: "string \<Rightarrow> qc_files \<Rightarrow> gate list \<Rightarrow> bool" where
  "log_rep b fs L =
     (list_all gate_ok L \<and> (qc_file fs = No_file \<and> L = [] \<or> L \<noteq> [] \<and> (\<exists>u. qc_file fs = Json (log_json b L u))))"

lemma log_valid:
  assumes "log_rep b fs L" "L \<noteq> []" "q_branch e = b"
  shows "\<exists>v m. validate_qualitative_convergence e fs = (Some v, fs\<lparr>qc_manifest := m\<rparr>) \<and> qv_valid v"
proof -
  obtain u where u: "qc_file fs = Json (log_json b L u)" using assms by (auto simp: log_rep_def)
  let ?d = "[(''schema_version'', JStr ''1.0''), (''branch'', JStr b), (''updated_at'', u), (''gates'', JList (map (JObj \<circ> gate_members b) L))]"
  have g: "list_of (dict_get ?d ''gates'') = map (JObj \<circ> gate_members b) L" by simp
  have h: "list_all gate_hashable (map (JObj \<circ> gate_members b) L)"
    by (auto simp: list_all_iff gate_hashable_def opt_hashable_def hashable_def)
  have "fst (check_gate e (i, v)) = []" if "(i, v) \<in> set (enumerate 0 (map (JObj \<circ> gate_members b) L))" for i v
  proof -
    from that have "v \<in> set (map (JObj \<circ> gate_members b) L)" by (auto simp: enumerate_eq_zip dest: set_zip_rightD)
    then obtain g where "g \<in> set L" "v = JObj (gate_members b g)" by auto
    with assms written_gate_valid show ?thesis by (auto simp: check_gate_def log_rep_def list_all_iff)
  qed
  then have "concat (map fst (map (check_gate e) (enumerate 0 (map (JObj \<circ> gate_members b) L)))) = []" by auto
  then have ok: "qv_valid (artifact_checks e ?d)"
    using assms(2,3) by (simp add: artifact_checks_def Let_def)
  have "''qualitative_convergence'' \<in> set ARTIFACT_STAGE_NAMES" by (simp add: ARTIFACT_STAGE_NAMES_def)
  from record_stage_frame [OF this] obtain m where m: "record_stage (q_now e) (q_branch e) ''qualitative_convergence''
      (qc_stage_status (qv_gates (artifact_checks e ?d))) [artifact_ref (qc_path e) ''qualitative-convergence'']
      (qc_metadata (qv_gates (artifact_checks e ?d))) (qc_manifest fs) = Some m" by blast
  have "validate_qualitative_convergence e fs = (Some (artifact_checks e ?d), fs\<lparr>qc_manifest := m\<rparr>)"
    unfolding validate_qualitative_convergence_def u log_json_def jfile.case json.case g using h ok m by (simp add: Let_def)
  with ok show ?thesis by blast
qed

lemma existing_gates_log: "log_rep b fs L \<Longrightarrow> existing_gates (qc_file fs) = Some (map (JObj \<circ> gate_members b) L)"
  by (auto simp: log_rep_def existing_gates_def read_json_file_def log_json_def list_all_iff)

lemma config_positive: "0 < dflt \<Longrightarrow> 1 \<le> map_config_int f k dflt"
  by (auto simp: map_config_int_def split: option.splits)

lemma bounded_ok:
  assumes "bounded_positive_int v (min (map_config_int f k d) n) n = Some x" "0 < d" "1 \<le> n"
  shows "1 \<le> x \<and> x \<le> n"
  using assms config_positive [OF assms(2), of f k] by (auto simp: bounded_positive_int_def split: option.splits if_splits)

lemma bounds_ok:
  assumes "arg_errors e a = []"
  shows "\<exists>r m. qc_bounds e a = Some (r, m) \<and> 1 \<le> r \<and> r \<le> 5 \<and> r \<le> m \<and> m \<le> 10"
proof -
  obtain r m where rm: "qc_bounds e a = Some (r, m)" "r \<le> m" using assms by (auto simp: arg_errors_def split: option.splits)
  then have "bounded_positive_int (a_required a) (default_required_clean_passes e) 5 = Some r"
    "bounded_positive_int (a_max a) (default_max_passes e) 10 = Some m"
    by (auto simp: qc_bounds_def split: option.splits)
  then have "1 \<le> r \<and> r \<le> 5" "m \<le> 10"
    unfolding default_required_clean_passes_def default_max_passes_def by (auto dest!: bounded_ok)
  with rm show ?thesis by blast
qed

lemma find_index_nth: "find_index P xs = Some i \<Longrightarrow> i < length xs \<and> P (xs ! i)"
  by (induction xs arbitrary: i) (auto split: if_splits)

text \<open>One more pass on a gate that is still open.\<close>

definition extends :: "gate list \<Rightarrow> gate \<Rightarrow> gate list \<Rightarrow> bool" where
  "extends L g L' =
     (\<exists>p. t_passes g = [p] \<and> L' = L @ [g]
        \<or> (\<exists>i < length L. L' = L[i := g] \<and> gate_state (L ! i) \<in> {''pending'', ''needs_more_passes''}
            \<and> (\<exists>risk. g = (L ! i)\<lparr>t_passes := t_passes (L ! i) @ [p], t_risk := risk\<rparr>)))"

lemma existing_passes_log:
  assumes "gate_ok g" "existing_passes e i (gate_members b g) r m iv = Some (Inr ps)"
  shows "ps = t_passes g \<and> r = t_required g \<and> m = t_max g \<and> iv = t_invocation g \<and> int (length ps) < m
    \<and> gate_state g \<in> {''pending'', ''needs_more_passes''}"
proof -
  have "list_all (\<lambda>v. case v of JObj _ \<Rightarrow> True | _ \<Rightarrow> False) (map JObj (t_passes g))" by (simp add: list_all_iff)
  with assms(2) have "\<not> is_one_of (Some (JStr (gate_state g))) [''converged'', ''max_passes_exceeded'']"
    "same_policy e (qc_policy (t_required g) (t_max g) (t_invocation g)) r m iv" "ps = t_passes g" "\<not> m \<le> int (length (t_passes g))"
    by (auto simp: existing_passes_def is_list_def Let_def split: if_splits)
  then show ?thesis by (auto simp: same_policy_def num_eq_def is_one_of_def gate_state_def qualitative_convergence_status_def split: if_splits)
qed

lemma existing_passes_answers: "existing_passes e i (gate_members b g) r m iv \<noteq> None"
  by (simp add: existing_passes_def opt_hashable_def hashable_def)

lemma record_step:
  assumes rep: "log_rep b fs L" and e: "q_branch e = b" "strip (q_now e) \<noteq> []"
  shows "(\<exists>errs. record_qualitative_convergence e a fs = (Some (Refused errs), fs))
    \<or> (\<exists>fs' g L' v. record_qualitative_convergence e a fs = (Some (Recorded True (gate_members b g) v), fs')
         \<and> log_rep b fs' L' \<and> extends L g L')"
proof (cases "arg_errors e a = []")
  case False
  then show ?thesis by (auto simp: record_qualitative_convergence_def Let_def split: prod.splits)
next
  case True
  obtain r m where rm: "qc_bounds e a = Some (r, m)" "1 \<le> r" "r \<le> 5" "r \<le> m" "m \<le> 10" using bounds_ok [OF True] by blast
  let ?gs = "map (JObj \<circ> gate_members b) L" and ?id = "strip (a_gate a)"
  let ?at = "find_index (same_gate ?id (a_scope a)) ?gs"
  let ?ex = "case ?at of None \<Rightarrow> Some (Inr []) | Some i \<Rightarrow> existing_passes e ?id (members (?gs ! i)) r m (a_invocation a)"
  note ex = existing_gates_log [OF rep]
  have mem: "i < length L \<Longrightarrow> members (?gs ! i) = gate_members b (L ! i)" for i by (simp add: members_def)
  have at: "?at = Some i \<Longrightarrow> i < length L \<and> t_id (L ! i) = ?id \<and> t_scope (L ! i) = a_scope a" for i
    using find_index_nth [of "same_gate ?id (a_scope a)" ?gs i] by (auto simp: same_gate_def)
  have "?ex \<noteq> None" using at mem existing_passes_answers by (auto split: option.splits)
  then consider msg where "?ex = Some (Inl msg)" | ps where "?ex = Some (Inr ps)" by (cases ?ex; cases "the ?ex") auto
  then show ?thesis
  proof cases
    case 1
    then show ?thesis using True rm ex by (simp add: record_qualitative_convergence_def Let_def)
  next
    case 2
    obtain perrs p where n: "normalize_qualitative_pass e (a_pass a) (int (length ps) + 1) = (perrs, p)" by (metis surj_pair)
    let ?g = "\<lparr>t_id = ?id, t_scope = a_scope a, t_passes = ps @ [p], t_required = r, t_max = m, t_invocation = a_invocation a, t_risk = strip (a_risk a)\<rparr>"
    let ?L = "case ?at of None \<Rightarrow> L @ [?g] | Some i \<Rightarrow> L[i := ?g]"
    let ?fs = "fs\<lparr>qc_file := Json (log_json b ?L (JStr (q_now e)))\<rparr>"
    show ?thesis
    proof (cases "perrs = []")
      case False
      then show ?thesis using True rm ex 2 n by (simp add: record_qualitative_convergence_def Let_def)
    next
      case ok: True
      have gok: "list_all gate_ok L" using rep by (simp add: log_rep_def)
      have old: "?at = Some i \<Longrightarrow> ps = t_passes (L ! i) \<and> r = t_required (L ! i) \<and> m = t_max (L ! i)
          \<and> a_invocation a = t_invocation (L ! i) \<and> int (length ps) < m \<and> gate_state (L ! i) \<in> {''pending'', ''needs_more_passes''} \<and> gate_ok (L ! i)" for i
        using 2 at [of i] mem [of i] existing_passes_log [of "L ! i"] gok by (force simp: list_all_length)
      have new: "?at = None \<Longrightarrow> ps = []" using 2 by simp
      have "pass_ok (length ps) p" unfolding pass_ok_def using normalized_pass_valid [of e "a_pass a"] n ok e(2) by auto
      moreover have "\<forall>k < length ps. pass_ok k (ps ! k)" using old new by (cases ?at) (auto simp: gate_ok_def)
      ultimately have passes: "\<forall>k < length (ps @ [p]). pass_ok k ((ps @ [p]) ! k)" by (auto simp: nth_append less_Suc_eq)
      have "int (length ps) < m" using old new rm by (cases ?at) auto
      then have g: "gate_ok ?g" using True rm passes by (simp add: gate_ok_def arg_errors_def strip_strip_blank)
      have L: "list_all gate_ok ?L" "?L \<noteq> []"
        using gok g at by (auto simp: list_all_iff split: option.splits dest!: set_update_subset_insert [THEN subsetD])
      have ext: "extends L ?g ?L"
      proof (cases ?at)
        case None
        with new show ?thesis by (auto simp: extends_def)
      next
        case (Some i)
        have "?g = (L ! i)\<lparr>t_passes := t_passes (L ! i) @ [p], t_risk := strip (a_risk a)\<rparr>"
          using old [OF Some] at [OF Some] by (intro gate.equality) simp_all
        then have "\<exists>risk. ?g = (L ! i)\<lparr>t_passes := t_passes (L ! i) @ [p], t_risk := risk\<rparr>" by blast
        then show ?thesis unfolding extends_def Some option.case using old [OF Some] at [OF Some] by blast
      qed
      have put: "put_gate ?at (JObj (gate_members b ?g)) ?gs = map (JObj \<circ> gate_members b) ?L"
        by (auto simp: put_gate_def map_update split: option.splits)
      have "log_rep b ?fs ?L" using L by (auto simp: log_rep_def)
      from log_valid [OF this L(2) e(1)] obtain v mf where v: "validate_qualitative_convergence e ?fs = (Some v, ?fs\<lparr>qc_manifest := mf\<rparr>)" "qv_valid v" by blast
      have "record_qualitative_convergence e a fs = (Some (Recorded True (gate_members b ?g) v), ?fs\<lparr>qc_manifest := mf\<rparr>)"
      proof -
        have gm: "qualitative_gate_payload ?id (a_scope a) b (ps @ [p]) r m (a_invocation a) (strip (a_risk a)) = gate_members b ?g"
          by (simp add: gate_members_def)
        show ?thesis
          unfolding record_qualitative_convergence_def Let_def rm(1) option.case ex 2 sum.case prod.case n gm put e(1)
          using True ok v by (simp add: log_json_def)
      qed
      moreover have "log_rep b (?fs\<lparr>qc_manifest := mf\<rparr>) ?L" using L by (auto simp: log_rep_def)
      ultimately show ?thesis using ext by blast
    qed
  qed
qed

section \<open>Reachable logs\<close>

definition no_log :: "qc_files \<Rightarrow> bool" where
  "no_log fs = (qc_file fs = No_file)"

definition qc_step :: "string \<Rightarrow> qc_files \<Rightarrow> qc_files \<Rightarrow> bool" where
  "qc_step b fs fs' = (\<exists>e a. q_branch e = b \<and> strip (q_now e) \<noteq> [] \<and> snd (record_qualitative_convergence e a fs) = fs')"

interpretation qc: invariant_machine no_log "qc_step b" "\<lambda>fs. \<exists>L. log_rep b fs L" for b
proof
  show "no_log fs \<Longrightarrow> \<exists>L. log_rep b fs L" for fs by (auto simp: no_log_def log_rep_def)
  show "\<exists>L. log_rep b fs L \<Longrightarrow> qc_step b fs fs' \<Longrightarrow> \<exists>L. log_rep b fs' L" for fs fs'
  proof (elim exE)
    fix L assume L: "log_rep b fs L" and "qc_step b fs fs'"
    then obtain e a where "q_branch e = b" "strip (q_now e) \<noteq> []" "snd (record_qualitative_convergence e a fs) = fs'"
      by (auto simp: qc_step_def)
    with record_step [OF L this(1,2), of a] L show "\<exists>L. log_rep b fs' L" by (metis snd_conv)
  qed
qed

text \<open>The gates of the artifact, as the JSON objects they are.\<close>

definition logged_gates :: "qc_files \<Rightarrow> (string, json) dict list" where
  "logged_gates fs = (case existing_gates (qc_file fs) of None \<Rightarrow> [] | Some gs \<Rightarrow> map members gs)"

lemma logged_gates_rep: "log_rep b fs L \<Longrightarrow> logged_gates fs = map (gate_members b) L"
  using existing_gates_log [of b fs L] by (simp add: logged_gates_def members_def o_def)

definition logged_passes :: "(string, json) dict \<Rightarrow> (string, json) dict list" where
  "logged_passes g = objects_of (list_of (dict_get g ''passes''))"

lemma logged_passes_rep [simp]: "logged_passes (gate_members b g) = t_passes g"
  by (simp add: logged_passes_def)

lemma takeWhile_prefix: "n \<le> length (takeWhile P xs) \<longleftrightarrow> n \<le> length xs \<and> list_all P (take n xs)"
proof (induction xs arbitrary: n)
  case (Cons x xs)
  then show ?case by (cases n) auto
qed simp

lemma tail_streak:
  "n \<le> qualitative_tail_clean_streak ps \<longleftrightarrow> n \<le> length ps \<and> list_all is_clean (drop (length ps - n) ps)"
proof -
  have "n \<le> length (takeWhile is_clean (rev ps)) \<longleftrightarrow> n \<le> length ps \<and> list_all is_clean (take n (rev ps))"
    by (simp add: takeWhile_prefix)
  then show ?thesis by (simp add: qualitative_tail_clean_streak_def take_rev)
qed

lemma extends_logged:
  assumes "extends L g L'"
  shows "\<exists>i p. i \<le> length L \<and> L' = take i L @ g # drop (Suc i) L
    \<and> t_passes g = (if i < length L then t_passes (L ! i) else []) @ [p]
    \<and> (i < length L \<longrightarrow> gate_state (L ! i) \<in> {''pending'', ''needs_more_passes''})"
  using assms unfolding extends_def
proof (elim exE disjE conjE)
  fix p assume "t_passes g = [p]" "L' = L @ [g]"
  then show ?thesis by (intro exI [of _ "length L"] exI [of _ p]) simp
next
  fix p i risk assume "i < length L" "L' = L[i := g]" "gate_state (L ! i) \<in> {''pending'', ''needs_more_passes''}"
    "g = (L ! i)\<lparr>t_passes := t_passes (L ! i) @ [p], t_risk := risk\<rparr>"
  then show ?thesis by (intro exI [of _ i] exI [of _ p]) (simp add: upd_conv_take_nth_drop)
qed

section \<open>Properties\<close>

text \<open>
  In every convergence log that recording can lead to, recording one more review pass
  either is refused with a list of errors and changes no file, or answers with a record that the
  validator accepts; it is never left without an answer. When it is accepted, exactly one gate
  differs, it is new or was still open, and it has exactly one pass more. A gate that has converged
  or run out of passes therefore never changes again.
\<close>
theorem record_is_accepted:
  assumes "reachable_from no_log (qc_step b) fs" "q_branch e = b" "strip (q_now e) \<noteq> []"
  shows "(\<exists>errs. record_qualitative_convergence e a fs = (Some (Refused errs), fs))
    \<or> (\<exists>fs' g v i p. record_qualitative_convergence e a fs = (Some (Recorded True g v), fs')
         \<and> i \<le> length (logged_gates fs)
         \<and> logged_gates fs' = take i (logged_gates fs) @ g # drop (Suc i) (logged_gates fs)
         \<and> logged_passes g = (if i < length (logged_gates fs) then logged_passes (logged_gates fs ! i) else []) @ [p]
         \<and> (i < length (logged_gates fs) \<longrightarrow>
             dict_get (logged_gates fs ! i) ''status'' \<in> {Some (JStr ''pending''), Some (JStr ''needs_more_passes'')}))"
proof -
  obtain L where L: "log_rep b fs L" using qc.reachable_inv [OF assms(1)] by blast
  from record_step [OF L assms(2,3), of a] show ?thesis
  proof
    assume "\<exists>fs' g L' v. record_qualitative_convergence e a fs = (Some (Recorded True (gate_members b g) v), fs')
         \<and> log_rep b fs' L' \<and> extends L g L'"
    then obtain fs' g L' v where r: "record_qualitative_convergence e a fs = (Some (Recorded True (gate_members b g) v), fs')"
      "log_rep b fs' L'" "extends L g L'" by blast
    from extends_logged [OF r(3)] obtain i p where i: "i \<le> length L" "L' = take i L @ g # drop (Suc i) L"
      "t_passes g = (if i < length L then t_passes (L ! i) else []) @ [p]"
      "i < length L \<longrightarrow> gate_state (L ! i) \<in> {''pending'', ''needs_more_passes''}" by blast
    note gates = logged_gates_rep [OF L] logged_gates_rep [OF r(2)]
    show ?thesis
      by (rule disjI2, intro exI [of _ fs'] exI [of _ "gate_members b g"] exI [of _ v] exI [of _ i] exI [of _ p] conjI)
        (use r(1) i in \<open>auto simp: gates take_map drop_map\<close>)
  qed blast
qed

definition sample_pass :: "int \<Rightarrow> (string, json) dict" where
  "sample_pass n = [(''pass_number'', JInt n), (''reviewer'', JStr ''r''), (''clean'', JBool True), (''critical_findings'', JList []),
     (''summary'', JStr ''ok''), (''evidence'', JList [JStr ''e''])]"

definition sample_env :: qc_env where
  "sample_env = \<lparr>q_branch = ''b'', q_now = ''t'', q_config = None, q_feq = (\<lambda>_ _. False)\<rparr>"

definition sample_args :: "int \<Rightarrow> qc_args" where
  "sample_args n = \<lparr>a_gate = ''g'', a_pass = sample_pass n, a_scope = hd QC_SCOPES, a_required = Some 1, a_max = None,
     a_invocation = hd QC_INVOCATIONS, a_risk = []\<rparr>"

definition sample_log :: qc_files where
  "sample_log = snd (record_qualitative_convergence sample_env (sample_args 1) \<lparr>qc_file = No_file, qc_manifest = No_file\<rparr>)"

lemma sample_reachable: "reachable_from no_log (qc_step ''b'') sample_log"
proof -
  have e: "q_branch sample_env = ''b''" "strip (q_now sample_env) \<noteq> []" by code_simp+
  have "qc_step ''b'' fs (snd (record_qualitative_convergence sample_env (sample_args n) fs))" for fs n
    unfolding qc_step_def using e by blast
  then show ?thesis unfolding sample_log_def
    by (intro reachable_from.intros) (auto simp: no_log_def)
qed

theorem record_is_accepted_witness:
  "\<exists>errs. record_qualitative_convergence sample_env (sample_args 2) sample_log = (Some (Refused errs), sample_log)"
proof -
  have e: "q_branch sample_env = ''b''" "strip (q_now sample_env) \<noteq> []" by code_simp+
  have "case fst (record_qualitative_convergence sample_env (sample_args 2) sample_log) of Some (Refused _) \<Rightarrow> True | _ \<Rightarrow> False"
    by code_simp
  with record_is_accepted [OF sample_reachable e, of "sample_args 2"] show ?thesis by auto
qed

text \<open>
  Claim C29. The status of a gate means what its policy says. In every convergence log that
  recording can lead to, a gate requires between one and five clean passes, allows at least that
  many and at most ten, holds no more passes than it allows, and is marked converged exactly when
  its last required passes are all clean.
\<close>
theorem convergence_means_clean_tail:
  assumes "reachable_from no_log (qc_step b) fs" "g \<in> set (logged_gates fs)"
  shows "\<exists>pol r m. dict_get g ''policy'' = Some (JObj pol)
    \<and> dict_get pol ''required_clean_passes'' = Some (JInt (int r)) \<and> dict_get pol ''max_passes'' = Some (JInt (int m))
    \<and> 1 \<le> r \<and> r \<le> 5 \<and> r \<le> m \<and> m \<le> 10 \<and> length (logged_passes g) \<le> m
    \<and> (dict_get g ''status'' = Some (JStr ''converged'') \<longleftrightarrow>
        r \<le> length (logged_passes g) \<and> list_all is_clean (drop (length (logged_passes g) - r) (logged_passes g)))"
proof -
  obtain L where L: "log_rep b fs L" using qc.reachable_inv [OF assms(1)] by blast
  then obtain t where t: "t \<in> set L" "g = gate_members b t" "gate_ok t"
    using assms(2) by (auto simp: logged_gates_rep log_rep_def list_all_iff)
  have b: "1 \<le> t_required t" "t_required t \<le> 5" "t_required t \<le> t_max t" "t_max t \<le> 10" "int (length (t_passes t)) \<le> t_max t"
    using t(3) by (simp_all add: gate_ok_def)
  have "gate_state t = ''converged'' \<longleftrightarrow> nat (t_required t) \<le> qualitative_tail_clean_streak (t_passes t)"
    using b(1) by (auto simp: gate_state_def qualitative_convergence_status_def)
  then show ?thesis
    by (intro exI [of _ "qc_policy (t_required t) (t_max t) (t_invocation t)"] exI [of _ "nat (t_required t)"] exI [of _ "nat (t_max t)"])
      (use b t(2) in \<open>auto simp: tail_streak nat_le_iff\<close>)
qed

theorem convergence_means_clean_tail_witness:
  "\<exists>g. logged_gates sample_log = [g] \<and> dict_get g ''status'' = Some (JStr ''converged'')
     \<and> (\<exists>r \<ge> 1. r \<le> length (logged_passes g) \<and> list_all is_clean (drop (length (logged_passes g) - r) (logged_passes g)))"
proof -
  have "map (\<lambda>g. dict_get g ''status'') (logged_gates sample_log) = [Some (JStr ''converged'')]"
    by code_simp
  then obtain g where g: "logged_gates sample_log = [g]" "dict_get g ''status'' = Some (JStr ''converged'')"
    by auto
  with convergence_means_clean_tail [OF sample_reachable, of g] show ?thesis by auto
qed

end
