(* ===== verification/Json_Number.thy ===== *)
theory Json_Number
  imports Json
begin

text \<open>
  Comparisons of the floating-point numbers of a JSON text. A number is kept as its text (see
  \<^verbatim>\<open>Json\<close>); the comparisons are those of the nearest double.
\<close>

text \<open>\<open>m * 10 ^ e * den <= num\<close>, and the sign, digits and exponent of a literal; \<open>NaN\<close> and the
  infinities have none.\<close>

definition scaled_le :: "nat \<Rightarrow> int \<Rightarrow> nat \<Rightarrow> nat \<Rightarrow> bool" where
  "scaled_le m e den num =
     (if 0 \<le> e then m * 10 ^ nat e * den \<le> num else m * den \<le> num * 10 ^ nat (- e))"

definition float_parts :: "string \<Rightarrow> (bool \<times> nat \<times> int) option" where
  "float_parts t =
     (let (neg, body) = (case t of c # cs \<Rightarrow> if c = CHR ''-'' then (True, cs) else (False, t) | [] \<Rightarrow> (False, []));
          mant = takeWhile (\<lambda>c. c \<notin> {CHR ''e'', CHR ''E''}) body;
          expo = drop (Suc (length mant)) body;
          (ip, fp) = split_once (CHR ''.'') mant;
          frac = (case fp of None \<Rightarrow> [] | Some f \<Rightarrow> f)
      in if \<not> all_digits ip \<or> \<not> list_all is_digit frac then None
         else map_option (\<lambda>x. (neg, read_digits (ip @ frac), x - int (length frac))) (if expo = [] then Some 0 else py_int expo))"

text \<open>
  \<open>0 <= x <= 1\<close> for the float nearest to a literal with digits \<open>m\<close> and exponent \<open>e\<close>: a value up to
  \<open>1 + 2 ^ -53\<close> is rounded to one, and a negative value down to \<open>- 2 ^ -1075\<close> to minus zero, which
  compares as zero.
\<close>

definition unit_float :: "string \<Rightarrow> bool" where
  "unit_float t =
     (case float_parts t of None \<Rightarrow> False
      | Some (neg, m, e) \<Rightarrow> if neg then scaled_le m e (2 ^ 1075) 1 else scaled_le m e (2 ^ 53) (2 ^ 53 + 1))"

text \<open>\<open>float(n)\<close> overflows from the midpoint above the largest finite number on.\<close>

definition float_overflows :: "int \<Rightarrow> bool" where
  "float_overflows n = (2 ^ 1024 - 2 ^ 970 \<le> \<bar>n\<bar>)"

text \<open>\<open>x < 0\<close>: minus zero and a number that is not a number are not negative.\<close>

definition float_negative :: "string \<Rightarrow> bool" where
  "float_negative t =
     (case float_parts t of None \<Rightarrow> t = ''-Infinity''
      | Some (neg, m, e) \<Rightarrow> neg \<and> \<not> scaled_le m e (2 ^ 1075) 1)"

end
