(* ===== verification/Runner_Research.thy ===== *)
theory Runner_Research
  imports Json_Number Runner_Common Branch_Name "HOL-Library.List_Lexorder" "HOL-Library.Char_ord"
begin

text \<open>
  Research artefacts of the step runner: the machine-checkable contract of one artefact and the
  check of all artefacts of a subtask, which guards the research step of the orchestrator. The
  project tree is a field of the environment; a text is its UTF-8 bytes. \<open>None\<close> stands for an
  exception the code does not catch.
\<close>

section \<open>The environment\<close>

text \<open>What a path names; a file that cannot be read as UTF-8 has no text.\<close>

datatype node = Dir_node | File_node "string option"

record research_env =
  project_node :: "string list \<Rightarrow> node option" \<comment> \<open>below the project directory, by the parts of the path\<close>
  research_dir :: "string \<Rightarrow> (string, node) dict option" \<comment> \<open>\<^verbatim>\<open>.map/<branch>/research\<close>, when it is a directory\<close>
  loads_msg :: "string \<Rightarrow> string" \<comment> \<open>the message of a \<^verbatim>\<open>JSONDecodeError\<close>\<close>
  read_msg :: "string \<Rightarrow> string" \<comment> \<open>why a file could not be read, by its name\<close>

definition RESEARCH_STATUS_VALUES :: "string list" where
  "RESEARCH_STATUS_VALUES = [''NO_RESULTS'', ''OK'', ''PARTIAL_RESULTS'', ''SEARCH_FAILED'']"

definition RESEARCH_MAX_ARTIFACT_BYTES :: int where
  "RESEARCH_MAX_ARTIFACT_BYTES = 65536"

definition RESEARCH_MAX_LOCATIONS :: nat where
  "RESEARCH_MAX_LOCATIONS = 5"

definition RESEARCH_MAX_LINE_SPAN :: int where
  "RESEARCH_MAX_LINE_SPAN = 200"

definition RESEARCH_ABSENT_LOCATION_STATUSES :: "string list" where
  "RESEARCH_ABSENT_LOCATION_STATUSES = [''absent'', ''missing'', ''new'', ''not_found'']"

section \<open>Names\<close>

definition RESEARCH_KIND_RE :: "string \<Rightarrow> bool" where
  "RESEARCH_KIND_RE s =
     (case chop_newline s of [] \<Rightarrow> False
      | c # cs \<Rightarrow> is_lower c \<and> list_all (\<lambda>d. is_lower d \<or> is_digit d \<or> d = CHR ''_'') cs)"

definition is_alnum :: "char \<Rightarrow> bool" where
  "is_alnum c = (is_lower c \<or> is_upper c \<or> is_digit c)"

definition RESEARCH_SUBTASK_ID_RE :: "string \<Rightarrow> bool" where
  "RESEARCH_SUBTASK_ID_RE s =
     (case chop_newline s of [] \<Rightarrow> False
      | c # cs \<Rightarrow> is_alnum c \<and> length cs \<le> 63 \<and> list_all (\<lambda>d. is_alnum d \<or> d \<in> {CHR ''_'', CHR ''.'', CHR ''-''}) cs)"

text \<open>The directory and the name of an artefact; \<open>None\<close> is the \<^verbatim>\<open>ValueError\<close>.\<close>

definition research_path :: "string \<Rightarrow> string \<Rightarrow> string \<Rightarrow> (string \<times> string) option" where
  "research_path branch subtask_id kind =
     (if RESEARCH_SUBTASK_ID_RE subtask_id \<and> RESEARCH_KIND_RE kind
      then Some (sanitize_branch_name branch, subtask_id @ ''__'' @ kind @ ''.md'') else None)"

text \<open>What follows the last \<open>__\<close>.\<close>

fun after_last_marker :: "string \<Rightarrow> string option" where
  "after_last_marker [] = None"
| "after_last_marker (c # cs) =
     (case after_last_marker cs of Some r \<Rightarrow> Some r
      | None \<Rightarrow> if startswith (c # cs) ''__'' then Some (drop 2 (c # cs)) else None)"

section \<open>Confidence\<close>

definition confidence_errors :: "json option \<Rightarrow> string list option" where
  "confidence_errors v =
     (let err = [''confidence must be a number between 0 and 1'']
      in case v of
           Some (JInt n) \<Rightarrow> if float_overflows n then None else Some (if 0 \<le> n \<and> n \<le> 1 then [] else err)
         | Some (JFloat t) \<Rightarrow> Some (if unit_float t then [] else err)
         | _ \<Rightarrow> Some err)"

section \<open>One location\<close>

definition location_marks_absent :: "(string, json) dict \<Rightarrow> bool" where
  "location_marks_absent location =
     (dict_get location ''exists'' = Some (JBool False) \<or> dict_get location ''absent'' = Some (JBool True)
      \<or> (case dict_get location ''status'' of Some (JStr s) \<Rightarrow> to_lower (strip s) \<in> set RESEARCH_ABSENT_LOCATION_STATUSES | _ \<Rightarrow> False))"

definition filled :: "json option \<Rightarrow> string option" where
  "filled v = (case v of Some (JStr s) \<Rightarrow> if strip s = [] then None else Some (strip s) | _ \<Rightarrow> None)"

definition location_prefix :: "nat \<Rightarrow> string" where
  "location_prefix i = ''relevant_locations['' @ show_nat i @ '']''"

text \<open>A path that leaves the project, by its parts or by its first character.\<close>

definition has_backslash :: "string \<Rightarrow> bool" where
  "has_backslash s = (CHR 0x5C \<in> set s)"

definition safe_relative :: "string \<Rightarrow> bool" where
  "safe_relative p = (\<not> startswith p ''/'' \<and> \<not> startswith p ''~'' \<and> \<not> has_backslash p \<and> ''..'' \<notin> set (posix_parts p))"

definition path_errors :: "research_env \<Rightarrow> (string, json) dict \<Rightarrow> string \<Rightarrow> string list" where
  "path_errors e location pre =
     (case filled (dict_get location ''path'') of
        None \<Rightarrow> [pre @ ''.path must be a non-empty relative path'']
      | Some p \<Rightarrow>
          if \<not> safe_relative p then [pre @ ''.path must be a safe relative repo path'']
          else (case project_node e (posix_parts p) of
                  Some Dir_node \<Rightarrow> [pre @ ''.path points to a directory, not a file'']
                | Some (File_node _) \<Rightarrow> []
                | None \<Rightarrow> if location_marks_absent location then []
                          else [pre @ ''.path does not exist; mark the location absent/new if intentional'']))"

definition line_count :: "node option \<Rightarrow> int" where
  "line_count n = (case n of Some (File_node (Some tx)) \<Rightarrow> int (length (splitlines (universal_newlines tx))) | _ \<Rightarrow> 0)"

definition end_errors :: "research_env \<Rightarrow> (string, json) dict \<Rightarrow> int \<Rightarrow> string \<Rightarrow> string list" where
  "end_errors e location stop pre =
     (case (filled (dict_get location ''path''), dict_get location ''path'') of
        (Some p, Some (JStr raw)) \<Rightarrow>
          if startswith p ''/'' \<or> has_backslash raw \<or> ''..'' \<in> set (posix_parts p) then []
          else (let n = line_count (project_node e (posix_parts p))
                in if n \<noteq> 0 \<and> n < stop then [pre @ ''.lines end exceeds file length ('' @ show_int n @ '')''] else [])
      | _ \<Rightarrow> [])"

definition lines_errors :: "research_env \<Rightarrow> (string, json) dict \<Rightarrow> string \<Rightarrow> string list" where
  "lines_errors e location pre =
     (case (case dict_get location ''lines'' of Some v \<Rightarrow> Some v | None \<Rightarrow> dict_get location ''line_range'') of
        Some (JList [JInt start, JInt stop]) \<Rightarrow>
          if start < 1 \<or> stop < 1 \<or> stop < start then [pre @ ''.lines must be a positive inclusive range'']
          else if RESEARCH_MAX_LINE_SPAN < stop - start + 1 then [pre @ ''.lines spans more than 200 lines'']
          else end_errors e location stop pre
      | Some (JList [_, _]) \<Rightarrow> [pre @ ''.lines values must be positive integers'']
      | _ \<Rightarrow> [pre @ ''.lines must be [start, end]''])"

definition RAW_KEYS :: "string list" where
  "RAW_KEYS = [''content'', ''file_contents'', ''raw_code'']"

definition validate_research_location :: "research_env \<Rightarrow> nat \<Rightarrow> json \<Rightarrow> string list" where
  "validate_research_location e i v =
     (let pre = location_prefix i
      in case v of
           JObj location \<Rightarrow>
             path_errors e location pre @ lines_errors e location pre
             @ (if filled (dict_get location ''relevance'') = None then [pre @ ''.relevance must explain why the location matters''] else [])
             @ List.map_filter (\<lambda>k. if dict_get location k \<noteq> None then Some (pre @ ''.'' @ k @ '' is not allowed; cite paths and ranges only'') else None) RAW_KEYS
         | _ \<Rightarrow> [pre @ '' must be an object''])"

section \<open>One artefact\<close>

definition non_negative :: "json option \<Rightarrow> bool" where
  "non_negative v = (case v of Some (JInt n) \<Rightarrow> 0 \<le> n | _ \<Rightarrow> False)"

definition stats_errors :: "json option \<Rightarrow> string list" where
  "stats_errors v =
     (case v of
        Some (JObj stats) \<Rightarrow>
          List.map_filter (\<lambda>k. if non_negative (dict_get stats k) then None
            else Some (''search_stats.'' @ k @ '' must be a non-negative integer'')) [''files_scanned'', ''total_matches_found'']
          @ (case dict_get stats ''results_truncated'' of Some (JBool _) \<Rightarrow> [] | _ \<Rightarrow> [''search_stats.results_truncated must be boolean''])
      | _ \<Rightarrow> [''search_stats must be an object''])"

definition status_errors :: "json option \<Rightarrow> string list option" where
  "status_errors v =
     (let err = [''status must be one of '' @ join '', '' RESEARCH_STATUS_VALUES]
      in case v of
           None \<Rightarrow> Some err
         | Some (JStr s) \<Rightarrow> Some (if s \<in> set RESEARCH_STATUS_VALUES then [] else err)
         | Some j \<Rightarrow> if hashable j then Some err else None)"

definition locations_errors :: "research_env \<Rightarrow> json option \<Rightarrow> string list" where
  "locations_errors e v =
     (case v of
        Some (JList ls) \<Rightarrow>
          (if RESEARCH_MAX_LOCATIONS < length ls then [''relevant_locations must contain at most 5 entries''] else [])
          @ concat (map (\<lambda>(i, l). validate_research_location e i l) (enumerate 0 ls))
      | _ \<Rightarrow> [''relevant_locations must be a list''])"

definition object_errors :: "research_env \<Rightarrow> (string, json) dict \<Rightarrow> string list option" where
  "object_errors e parsed =
     (case (status_errors (dict_get parsed ''status''), confidence_errors (dict_get parsed ''confidence'')) of
        (Some ss, Some cs) \<Rightarrow> Some (ss @ cs @ stats_errors (dict_get parsed ''search_stats'')
           @ locations_errors e (dict_get parsed ''relevant_locations''))
      | _ \<Rightarrow> None)"

definition validate_research_content :: "research_env \<Rightarrow> string \<Rightarrow> string list option" where
  "validate_research_content e content =
     (let size = int (length content); stripped = strip content;
          too_big = (if RESEARCH_MAX_ARTIFACT_BYTES < size then [''artifact exceeds 65536 bytes ('' @ show_int size @ '')''] else []);
          fences = (if contains_str stripped [CHR 0x60, CHR 0x60, CHR 0x60]
             then [''artifact must not contain markdown/code fences or raw code blocks''] else [])
      in if stripped = [] then Some (too_big @ [''artifact is empty''])
         else (case json_loads stripped of
                 None \<Rightarrow> Some (too_big @ fences @ [''artifact must be strict JSON: '' @ loads_msg e stripped])
               | Some (JObj parsed) \<Rightarrow> map_option (\<lambda>es. too_big @ fences @ es) (object_errors e parsed)
               | Some _ \<Rightarrow> Some (too_big @ fences @ [''artifact JSON must be an object''])))"

definition validate_research_artifact :: "research_env \<Rightarrow> string \<Rightarrow> node option \<Rightarrow> string list option" where
  "validate_research_artifact e name n =
     (case n of
        Some (File_node (Some tx)) \<Rightarrow> validate_research_content e (universal_newlines tx)
      | Some (File_node None) \<Rightarrow> Some [''could not read research artifact: '' @ read_msg e name]
      | _ \<Rightarrow> Some [''research artifact not found: '' @ name])"

section \<open>All artefacts of a subtask\<close>

text \<open>\<open>glob("<subtask_id>__*.md")\<close>, sorted; the identifier has no character special to a pattern.\<close>

definition research_glob :: "string \<Rightarrow> (string, node) dict \<Rightarrow> string list" where
  "research_glob subtask_id dir =
     (let pre = subtask_id @ ''__''
      in sort (filter (\<lambda>n. startswith n pre \<and> suffix ''.md'' (drop (length pre) n)) (dict_keys dir)))"

definition research_candidate :: "string \<Rightarrow> (string + string) option" where
  "research_candidate name =
     (if contains_str name ''.attempt-'' then None
      else (case after_last_marker (take (length name - 3) name) of
              None \<Rightarrow> None
            | Some k \<Rightarrow> if RESEARCH_KIND_RE k then Some (Inr name)
                        else Some (Inl (''invalid research artifact kind in filename: '' @ name))))"

definition labelled :: "string \<Rightarrow> string list \<Rightarrow> string list" where
  "labelled name es = map (\<lambda>x. name @ '': '' @ x) es"

fun check_artifacts :: "research_env \<Rightarrow> (string, node) dict \<Rightarrow> string list \<Rightarrow> string list option" where
  "check_artifacts e dir [] = Some []"
| "check_artifacts e dir (n # ns) =
     (case validate_research_artifact e n (dict_get dir n) of
        None \<Rightarrow> None
      | Some es \<Rightarrow> map_option (\<lambda>rest. labelled n es @ rest) (check_artifacts e dir ns))"

text \<open>The errors of the report; it is valid when there are none.\<close>

definition validate_research_report :: "research_env \<Rightarrow> string \<Rightarrow> string \<Rightarrow> string option \<Rightarrow> string list option" where
  "validate_research_report e branch subtask_id kind =
     (case research_path branch subtask_id (case kind of None \<Rightarrow> ''actor'' | Some k \<Rightarrow> k) of
        None \<Rightarrow> None
      | Some (slug, seed) \<Rightarrow>
          (let dir = (case research_dir e slug of None \<Rightarrow> [] | Some d \<Rightarrow> d);
               found = (case kind of Some _ \<Rightarrow> [Inr seed] | None \<Rightarrow> List.map_filter research_candidate (research_glob subtask_id dir));
               names = rights found
           in if names = [] then Some [''no research artifact found for '' @ subtask_id @ '' under '' @ slug]
              else map_option (\<lambda>es. lefts found @ es) (check_artifacts e dir names)))"

end
