(* ===== verification/Runner_Research_Props.thy ===== *)
theory Runner_Research_Props
  imports Runner_Research
begin

text \<open>
  The contract of research artefacts stated without the order of the checks, and that the code
  accepts exactly the artefacts that meet it.
\<close>

section \<open>The contract\<close>

definition raw_lines :: "(string, json) dict \<Rightarrow> json option" where
  "raw_lines location = (case dict_get location ''lines'' of Some v \<Rightarrow> Some v | None \<Rightarrow> dict_get location ''line_range'')"

text \<open>
  A grounded location gives a path inside the project and a range of at most 200 lines. In a file
  that can be read and is not empty the range is one of its lines; in an empty or unreadable file,
  whose line count is 0, any range passes; a path where nothing is must be said to be absent.
\<close>

definition grounded :: "research_env \<Rightarrow> json \<Rightarrow> bool" where
  "grounded e v =
     (\<exists>location p start stop. v = JObj location \<and> filled (dict_get location ''path'') = Some p
        \<and> \<not> startswith p ''/'' \<and> \<not> startswith p ''~'' \<and> \<not> has_backslash p \<and> ''..'' \<notin> set (posix_parts p)
        \<and> raw_lines location = Some (JList [JInt start, JInt stop]) \<and> 1 \<le> start \<and> start \<le> stop \<and> stop < start + 200
        \<and> (case project_node e (posix_parts p) of
             None \<Rightarrow> location_marks_absent location
           | Some Dir_node \<Rightarrow> False
           | Some (File_node tx) \<Rightarrow> line_count (Some (File_node tx)) = 0 \<or> stop \<le> line_count (Some (File_node tx)))
        \<and> filled (dict_get location ''relevance'') \<noteq> None
        \<and> (\<forall>k \<in> {''content'', ''file_contents'', ''raw_code''}. dict_get location k = None))"

definition in_unit :: "json option \<Rightarrow> bool" where
  "in_unit v = (v = Some (JInt 0) \<or> v = Some (JInt 1) \<or> (\<exists>t. v = Some (JFloat t) \<and> unit_float t))"

definition stats_ok :: "json option \<Rightarrow> bool" where
  "stats_ok v = (\<exists>stats b. v = Some (JObj stats) \<and> non_negative (dict_get stats ''files_scanned'')
      \<and> non_negative (dict_get stats ''total_matches_found'') \<and> dict_get stats ''results_truncated'' = Some (JBool b))"

definition artifact_ok :: "research_env \<Rightarrow> string \<Rightarrow> bool" where
  "artifact_ok e tx =
     (\<exists>ms s ls. length tx \<le> 65536 \<and> \<not> contains_str (strip tx) [CHR 0x60, CHR 0x60, CHR 0x60]
        \<and> json_loads (strip tx) = Some (JObj ms)
        \<and> dict_get ms ''status'' = Some (JStr s) \<and> s \<in> {''OK'', ''PARTIAL_RESULTS'', ''NO_RESULTS'', ''SEARCH_FAILED''}
        \<and> in_unit (dict_get ms ''confidence'') \<and> stats_ok (dict_get ms ''search_stats'')
        \<and> dict_get ms ''relevant_locations'' = Some (JList ls) \<and> length ls \<le> 5 \<and> list_all (grounded e) ls)"

section \<open>The checks meet the contract\<close>

lemma filled_SomeD: "filled v = Some p \<Longrightarrow> \<exists>s. v = Some (JStr s) \<and> p = strip s \<and> p \<noteq> []"
  by (auto simp: filled_def split: option.splits json.splits if_splits)

lemma set_strip: "set (strip s) \<subseteq> set s"
  unfolding strip_def lstrip_def rstrip_def by (auto dest!: set_dropWhileD)

lemma is_space_backslash: "\<not> is_space (CHR 0x5C)"
  by (simp add: is_space_def)

lemma dropWhile_mem: "x \<in> set xs \<Longrightarrow> \<not> P x \<Longrightarrow> x \<in> set (dropWhile P xs)"
  by (induction xs) auto

lemma backslash_strip: "has_backslash (strip s) \<longleftrightarrow> has_backslash s"
  using set_strip [of s] dropWhile_mem [of _ _ is_space] is_space_backslash
  unfolding has_backslash_def strip_def lstrip_def rstrip_def by (metis set_rev subsetD)

lemma location_exact: "validate_research_location e i v = [] \<longleftrightarrow> grounded e v"
proof (cases v)
  case (JObj l)
  let ?p = "filled (dict_get l ''path'')"
  have raw: "List.map_filter (\<lambda>k. if dict_get l k \<noteq> None then Some (f k) else None) RAW_KEYS = []
      \<longleftrightarrow> (\<forall>k \<in> {''content'', ''file_contents'', ''raw_code''}. dict_get l k = None)" for f :: "string \<Rightarrow> string"
    by (simp add: RAW_KEYS_def map_filter_simps)
  have path: "path_errors e l pre = [] \<longleftrightarrow> (\<exists>p. ?p = Some p \<and> safe_relative p \<and> (case project_node e (posix_parts p) of
      None \<Rightarrow> location_marks_absent l | Some Dir_node \<Rightarrow> False | Some (File_node _) \<Rightarrow> True))" for pre
    by (auto simp: path_errors_def split: option.splits node.splits)
  have stop: "end_errors e l stop pre = [] \<longleftrightarrow> line_count (project_node e (posix_parts p)) = 0 \<or> stop \<le> line_count (project_node e (posix_parts p))"
    if p: "?p = Some p" "safe_relative p" for p stop pre
  proof -
    obtain s where s: "dict_get l ''path'' = Some (JStr s)" "p = strip s" using filled_SomeD [OF p(1)] by blast
    have "\<not> has_backslash s" using p(2) by (simp add: s(2) safe_relative_def backslash_strip)
    then show ?thesis using p s(1) by (simp add: end_errors_def safe_relative_def Let_def)
  qed
  have lines: "lines_errors e l pre = [] \<longleftrightarrow> (\<exists>start stop. raw_lines l = Some (JList [JInt start, JInt stop])
      \<and> 1 \<le> start \<and> start \<le> stop \<and> stop < start + 200 \<and> end_errors e l stop pre = [])" for pre
    unfolding lines_errors_def raw_lines_def [symmetric]
    by (auto simp: RESEARCH_MAX_LINE_SPAN_def split: option.splits json.splits list.splits)
  show ?thesis
    unfolding validate_research_location_def grounded_def JObj Let_def json.case append_is_Nil_conv raw path lines
    using stop by (fastforce simp: safe_relative_def line_count_def split: option.splits node.splits if_splits)
qed (simp_all add: validate_research_location_def grounded_def)

lemma locations_exact:
  "locations_errors e v = [] \<longleftrightarrow> (\<exists>ls. v = Some (JList ls) \<and> length ls \<le> 5 \<and> list_all (grounded e) ls)"
proof -
  have "concat (map (\<lambda>(i, l). validate_research_location e i l) (enumerate k ls)) = [] \<longleftrightarrow> list_all (grounded e) ls" for k ls
    by (induction ls arbitrary: k) (auto simp: location_exact)
  then show ?thesis by (auto simp: locations_errors_def RESEARCH_MAX_LOCATIONS_def split: option.splits json.splits)
qed

lemma stats_exact: "stats_errors v = [] \<longleftrightarrow> stats_ok v"
  by (auto simp: stats_errors_def stats_ok_def map_filter_simps split: option.splits json.splits)

lemma status_exact: "status_errors v = Some [] \<longleftrightarrow> (\<exists>s. v = Some (JStr s) \<and> s \<in> {''OK'', ''PARTIAL_RESULTS'', ''NO_RESULTS'', ''SEARCH_FAILED''})"
  by (auto simp: status_errors_def RESEARCH_STATUS_VALUES_def Let_def split: option.splits json.splits if_splits)

lemma small_no_overflow: "0 \<le> n \<Longrightarrow> n \<le> 1 \<Longrightarrow> \<not> float_overflows n"
proof -
  assume "0 \<le> n" "n \<le> 1"
  moreover have "(1::int) < 2 ^ 1024 - 2 ^ 970" by simp
  ultimately show ?thesis by (simp add: float_overflows_def)
qed

lemma confidence_exact: "confidence_errors v = Some [] \<longleftrightarrow> in_unit v"
proof (cases v)
  case (Some j)
  have "n = 0 \<or> n = 1" if "0 \<le> n" "n \<le> 1" for n :: int using that by linarith
  then show ?thesis using small_no_overflow [of 0] small_no_overflow [of 1]
    unfolding Some by (cases j) (auto simp: confidence_errors_def in_unit_def Let_def)
qed (simp add: confidence_errors_def in_unit_def)

lemma content_exact: "validate_research_content e tx = Some [] \<longleftrightarrow> artifact_ok e tx"
proof -
  have o: "object_errors e ms = Some [] \<longleftrightarrow> (\<exists>s ls. dict_get ms ''status'' = Some (JStr s) \<and> s \<in> {''OK'', ''PARTIAL_RESULTS'', ''NO_RESULTS'', ''SEARCH_FAILED''}
      \<and> in_unit (dict_get ms ''confidence'') \<and> stats_ok (dict_get ms ''search_stats'')
      \<and> dict_get ms ''relevant_locations'' = Some (JList ls) \<and> length ls \<le> 5 \<and> list_all (grounded e) ls)" for ms
    using status_exact [of "dict_get ms ''status''"] confidence_exact [of "dict_get ms ''confidence''"]
    by (auto simp: object_errors_def stats_exact locations_exact split: option.splits)
  have "json_loads [] = None" by code_simp
  then show ?thesis
    unfolding validate_research_content_def artifact_ok_def
    using o by (auto simp: Let_def RESEARCH_MAX_ARTIFACT_BYTES_def split: option.splits json.splits if_splits)
qed

section \<open>All artefacts\<close>

text \<open>The artefacts of a subtask: the files its glob finds that are not kept from an earlier attempt.\<close>

definition artifact_names :: "string \<Rightarrow> (string, node) dict \<Rightarrow> string set" where
  "artifact_names sid dir = {n \<in> set (dict_keys dir). (\<exists>k. n = sid @ ''__'' @ k @ ''.md'') \<and> \<not> contains_str n ''.attempt-''}"

definition kind_of :: "string \<Rightarrow> string option" where
  "kind_of n = after_last_marker (take (length n - 3) n)"

lemma glob_mem: "n \<in> set (research_glob sid dir) \<longleftrightarrow> n \<in> set (dict_keys dir) \<and> (\<exists>k. n = sid @ ''__'' @ k @ ''.md'')"
  by (auto simp: research_glob_def startswith_def prefix_def suffix_def)

lemma artifact_names_glob: "n \<in> artifact_names sid dir \<longleftrightarrow> n \<in> set (research_glob sid dir) \<and> \<not> contains_str n ''.attempt-''"
  by (simp add: artifact_names_def glob_mem conj_assoc)

lemma marker_found: "after_last_marker (p @ ''__'' @ s) \<noteq> None"
proof (induction p)
  case Nil
  then show ?case by (auto simp: startswith_def split: option.splits)
next
  case (Cons c p)
  then show ?case by (auto split: option.splits)
qed

lemma check_artifacts_exact:
  "check_artifacts e dir ns = Some [] \<longleftrightarrow> (\<forall>n \<in> set ns. validate_research_artifact e n (dict_get dir n) = Some [])"
  by (induction ns) (auto simp: labelled_def split: option.splits)

lemma artifact_exact:
  "validate_research_artifact e n v = Some [] \<longleftrightarrow> (\<exists>tx. v = Some (File_node (Some tx)) \<and> artifact_ok e (universal_newlines tx))"
  by (auto simp: validate_research_artifact_def content_exact split: option.splits node.splits)

lemma candidate_Inr:
  "research_candidate n = Some (Inr m) \<longleftrightarrow> m = n \<and> \<not> contains_str n ''.attempt-'' \<and> (\<exists>k. kind_of n = Some k \<and> RESEARCH_KIND_RE k)"
  by (auto simp: research_candidate_def kind_of_def split: option.splits)

lemma candidate_Inl:
  "(\<exists>m. research_candidate n = Some (Inl m)) \<longleftrightarrow> \<not> contains_str n ''.attempt-'' \<and> (\<exists>k. kind_of n = Some k \<and> \<not> RESEARCH_KIND_RE k)"
  by (auto simp: research_candidate_def kind_of_def split: option.splits)

lemma names_exact:
  fixes sid dir
  defines "found \<equiv> List.map_filter research_candidate (research_glob sid dir)"
  shows "set (rights found) = {n \<in> artifact_names sid dir. \<exists>k. kind_of n = Some k \<and> RESEARCH_KIND_RE k}"
    and "lefts found = [] \<longleftrightarrow> (\<forall>n \<in> artifact_names sid dir. \<exists>k. kind_of n = Some k \<and> RESEARCH_KIND_RE k)"
proof -
  show "set (rights found) = {n \<in> artifact_names sid dir. \<exists>k. kind_of n = Some k \<and> RESEARCH_KIND_RE k}"
    unfolding found_def by (auto simp: mem_rights set_map_filter candidate_Inr artifact_names_glob)
  have kind: "kind_of n \<noteq> None" if "n \<in> artifact_names sid dir" for n
    using that marker_found [of sid] by (auto simp: kind_of_def artifact_names_def)
  have "x \<in> set found \<longleftrightarrow> (\<exists>n \<in> set (research_glob sid dir). research_candidate n = Some x)" for x
    unfolding found_def set_map_filter by auto
  then have "lefts found = [] \<longleftrightarrow> (\<forall>n \<in> set (research_glob sid dir). \<not> (\<exists>m. research_candidate n = Some (Inl m)))"
    unfolding lefts_empty by metis
  also have "\<dots> \<longleftrightarrow> (\<forall>n \<in> artifact_names sid dir. \<not> (\<exists>k. kind_of n = Some k \<and> \<not> RESEARCH_KIND_RE k))"
    using artifact_names_glob [of _ sid dir] unfolding candidate_Inl by metis
  also have "\<dots> \<longleftrightarrow> (\<forall>n \<in> artifact_names sid dir. \<exists>k. kind_of n = Some k \<and> RESEARCH_KIND_RE k)"
    using kind by fastforce
  finally show "lefts found = [] \<longleftrightarrow> (\<forall>n \<in> artifact_names sid dir. \<exists>k. kind_of n = Some k \<and> RESEARCH_KIND_RE k)" .
qed

lemma report_exact:
  assumes "research_dir e (sanitize_branch_name branch) = Some dir"
  shows "validate_research_report e branch sid None = Some [] \<longleftrightarrow>
    RESEARCH_SUBTASK_ID_RE sid \<and> artifact_names sid dir \<noteq> {}
    \<and> (\<forall>n \<in> artifact_names sid dir. (\<exists>k. kind_of n = Some k \<and> RESEARCH_KIND_RE k)
         \<and> (\<exists>tx. dict_get dir n = Some (File_node (Some tx)) \<and> artifact_ok e (universal_newlines tx)))"
proof -
  let ?found = "List.map_filter research_candidate (research_glob sid dir)"
  have "RESEARCH_KIND_RE ''actor''" by code_simp
  then have "validate_research_report e branch sid None = Some [] \<longleftrightarrow>
      RESEARCH_SUBTASK_ID_RE sid \<and> rights ?found \<noteq> [] \<and> lefts ?found = [] \<and> check_artifacts e dir (rights ?found) = Some []"
    using assms by (auto simp: validate_research_report_def research_path_def Let_def)
  moreover have "rights ?found \<noteq> [] \<longleftrightarrow> set (rights ?found) \<noteq> {}" by simp
  ultimately show ?thesis
    unfolding names_exact check_artifacts_exact artifact_exact by (simp only: names_exact) blast
qed

text \<open>A status that is an array or an object makes the validator raise, it is not reported as invalid.\<close>

lemma unhashable_status_raises:
  "validate_research_content e (''{'' @ [CHR 0x22] @ ''status'' @ [CHR 0x22] @ '': []}'') = None"
proof -
  let ?s = "''{'' @ [CHR 0x22] @ ''status'' @ [CHR 0x22] @ '': []}''"
  have "strip ?s = ?s" "json_loads ?s = Some (JObj [(''status'', JList [])])" by code_simp+
  then show ?thesis
    by (simp add: validate_research_content_def Let_def object_errors_def status_errors_def hashable_def)
qed

text \<open>A location in an empty file, or in one that is no UTF-8, may claim any range of lines.\<close>

lemma empty_file_has_any_line:
  "tx = None \<or> tx = Some [] \<Longrightarrow>
   validate_research_location \<lparr>project_node = (\<lambda>_. Some (File_node tx)), research_dir = (\<lambda>_. None), loads_msg = (\<lambda>_. []), read_msg = (\<lambda>_. [])\<rparr> 0
     (JObj [(''path'', JStr ''a.py''), (''lines'', JList [JInt 1, JInt 200]), (''relevance'', JStr ''x'')]) = []"
  by (elim disjE, hypsubst, code_simp, hypsubst, code_simp)

end
