(* ===== verification/Runner_Scope.thy ===== *)
theory Runner_Scope
  imports Runner_Common Branch_Name
begin

text \<open>
  The mutation boundary of a subtask: the baselines, the files git sees as changed, the comparison
  with the declared files, and the two detectors built on the same view. Git is a field of the
  environment: what a command prints, that it fails, or that it cannot be run. A JSON file is given
  as parsed. The outer \<open>None\<close> stands for an exception the code does not catch.
\<close>

section \<open>The environment\<close>

datatype git_out = Git_raises | Git_fails | Git_out string

record scope_env =
  git_status :: git_out \<comment> \<open>\<^verbatim>\<open>git status --porcelain -uall\<close>\<close>
  git_diff :: "string \<Rightarrow> git_out" \<comment> \<open>\<^verbatim>\<open>git diff --name-only <ref>\<close>\<close>
  git_verify :: "string \<Rightarrow> git_out" \<comment> \<open>\<^verbatim>\<open>git rev-parse --verify <ref>\<close>\<close>
  strict_scope :: "string option" \<comment> \<open>\<^verbatim>\<open>MAP_STRICT_SCOPE\<close>\<close>
  scope_now :: string
  file_size :: "string \<Rightarrow> nat option" \<comment> \<open>size of a regular file below the project\<close>

record boundary_report =
  b_status :: string
  b_base :: "string option"
  b_expected :: "string list"
  b_actual :: "string list"
  b_unexpected :: "string list"
  b_tests :: "string list"
  b_strict :: bool

text \<open>The files of one branch directory; the log of violations is a list of entries.\<close>

record scope_files =
  blueprint_doc :: jfile
  state_doc :: jfile
  branch_baseline :: jfile
  subtask_baselines :: "(string, jfile) dict"
  violation_log :: "(string \<times> boundary_report) list"

definition subtask_baseline :: "scope_files \<Rightarrow> string \<Rightarrow> jfile" where
  "subtask_baseline fs sid = (case dict_get (subtask_baselines fs) sid of None \<Rightarrow> No_file | Some f \<Rightarrow> f)"

section \<open>Values of Python\<close>

definition strings_of :: "json list \<Rightarrow> string list" where
  "strings_of vs = List.map_filter (\<lambda>v. case v of JStr s \<Rightarrow> Some s | _ \<Rightarrow> None) vs"

definition filled_str :: "json option \<Rightarrow> string option" where
  "filled_str v = (case v of Some (JStr s) \<Rightarrow> if s = [] then None else Some s | _ \<Rightarrow> None)"

definition sorted_set :: "string list \<Rightarrow> string list" where
  "sorted_set xs = sort (remdups xs)"

text \<open>What follows the first occurrence of a separator.\<close>

fun after_first :: "string \<Rightarrow> string \<Rightarrow> string option" where
  "after_first sep [] = (if sep = [] then Some [] else None)"
| "after_first sep (c # cs) = (if prefix sep (c # cs) then Some (drop (length sep) (c # cs)) else after_first sep cs)"

section \<open>The blueprint\<close>

text \<open>\<open>Some None\<close>: there is no blueprint that can be read.\<close>

definition load_blueprint :: "jfile \<Rightarrow> (string, json) dict option option" where
  "load_blueprint f =
     (case f of
        No_file \<Rightarrow> Some None
      | Bad_json \<Rightarrow> Some None
      | Json (JObj ms) \<Rightarrow>
          Some (Some (case dict_get ms ''blueprint'' of
             Some (JObj bp) \<Rightarrow>
               (case dict_get ms ''coverage_map'' of
                  Some (JObj cm) \<Rightarrow> if dict_get bp ''coverage_map'' = None then dict_set ''coverage_map'' (JObj cm) bp else bp
                | _ \<Rightarrow> bp)
           | _ \<Rightarrow> ms))
      | Json _ \<Rightarrow> None)"

fun find_subtask :: "string \<Rightarrow> json list \<Rightarrow> (string, json) dict option option" where
  "find_subtask sid [] = Some None"
| "find_subtask sid (v # vs) =
     (case v of JObj ms \<Rightarrow> if dict_get ms ''id'' = Some (JStr sid) then Some (Some ms) else find_subtask sid vs | _ \<Rightarrow> None)"

definition get_subtask_from_blueprint :: "(string, json) dict \<Rightarrow> string \<Rightarrow> (string, json) dict option option" where
  "get_subtask_from_blueprint bp sid =
     (case py_iter (get_or bp ''subtasks'' (JList [])) of None \<Rightarrow> None | Some vs \<Rightarrow> find_subtask sid vs)"

definition expected_files :: "(string, json) dict \<Rightarrow> string list option" where
  "expected_files subtask =
     (let raw = get_or subtask ''affected_files'' (JList [])
      in if falsy raw then Some [] else map_option (\<lambda>vs. sorted_set (strings_of vs)) (py_iter raw))"

section \<open>Paths git reports\<close>

definition ARTIFACT_PREFIXES :: "string list" where
  "ARTIFACT_PREFIXES = [''.map/'', ''.codex/'', ''.agents/'']"

definition is_map_internal_artifact :: "string \<Rightarrow> bool" where
  "is_map_internal_artifact p = list_ex (startswith p) ARTIFACT_PREFIXES"

definition after_rename :: "string \<Rightarrow> string" where
  "after_rename p = (case after_first '' -> '' p of Some q \<Rightarrow> q | None \<Rightarrow> p)"

definition strip_quotes :: "string \<Rightarrow> string" where
  "strip_quotes p = (if p \<noteq> [] \<and> hd p = CHR 0x22 \<and> last p = CHR 0x22 then butlast (drop 1 p) else p)"

text \<open>The path on a line of the porcelain format, with and without the quotes around it.\<close>

definition raw_porcelain :: "string \<Rightarrow> string option" where
  "raw_porcelain l =
     (if length l < 4 then None
      else let p = after_rename (strip (drop 3 l)) in if p = [] then None else Some p)"

definition porcelain_path :: "string \<Rightarrow> string option" where
  "porcelain_path l =
     (if length l < 4 then None
      else let p = strip_quotes (after_rename (strip (drop 3 l))) in if p = [] then None else Some p)"

definition diff_lines :: "string \<Rightarrow> string list" where
  "diff_lines out = List.map_filter (\<lambda>l. if strip l = [] then None else Some (strip l)) (splitlines out)"

definition TEST_DIR_SEGMENTS :: "string list" where
  "TEST_DIR_SEGMENTS = [''tests'', ''test'', ''testing'', ''__tests__'', ''spec'', ''specs'']"

definition ascii_alnum :: "char \<Rightarrow> bool" where
  "ascii_alnum c = (is_lower c \<or> is_upper c \<or> is_digit c)"

text \<open>The name before and after its last dot, when letters and digits follow the dot.\<close>

definition split_ext :: "string \<Rightarrow> (string \<times> string) option" where
  "split_ext base =
     (let ext = rev (takeWhile (\<lambda>c. c \<noteq> CHR ''.'') (rev base)); rest = dropWhile (\<lambda>c. c \<noteq> CHR ''.'') (rev base)
      in if rest = [] \<or> ext = [] \<or> \<not> list_all ascii_alnum ext then None else Some (rev (tl rest), ext))"

text \<open>The paths come from single lines, so that a dot of a pattern matches every character.\<close>

definition is_test_path :: "string \<Rightarrow> bool" where
  "is_test_path path =
     (let parts = filter (\<lambda>p. p \<noteq> []) (split_on (CHR ''/'') (map (\<lambda>c. if c = CHR 0x5C then CHR ''/'' else c) path))
      in parts \<noteq> []
         \<and> (last parts = ''conftest.py'' \<or> list_ex (\<lambda>s. s \<in> set TEST_DIR_SEGMENTS) (butlast parts)
            \<or> (case split_ext (last parts) of
                 None \<Rightarrow> False
               | Some (stem, _) \<Rightarrow> startswith stem ''test_'' \<and> 5 < length stem \<or> suffix ''_test'' stem \<and> 5 < length stem
                   \<or> suffix ''.test'' stem \<or> suffix ''.spec'' stem)))"

section \<open>Baselines\<close>

definition runs_git :: "git_out \<Rightarrow> string option" where
  "runs_git g = (case g of Git_out s \<Rightarrow> Some s | _ \<Rightarrow> None)"

definition head_sha :: "scope_env \<Rightarrow> json" where
  "head_sha e = (case git_verify e ''HEAD'' of Git_out s \<Rightarrow> if strip s = [] then JNull else JStr (strip s) | _ \<Rightarrow> JNull)"

text \<open>The answer is \<open>None\<close> when git fails, and the number of files otherwise.\<close>

definition record_subtask_baseline :: "scope_env \<Rightarrow> string \<Rightarrow> string \<Rightarrow> scope_files \<Rightarrow> nat option \<times> scope_files" where
  "record_subtask_baseline e branch sid fs =
     (case runs_git (git_status e) of
        None \<Rightarrow> (None, fs)
      | Some out \<Rightarrow>
          (let files = filter (\<lambda>p. \<not> is_map_internal_artifact p) (List.map_filter raw_porcelain (splitlines out));
               payload = JObj [(''branch'', JStr (sanitize_branch_name branch)), (''subtask_id'', JStr sid),
                 (''recorded_at'', JStr (scope_now e)), (''files'', JList (map JStr (sorted_set files))), (''head_sha'', head_sha e)]
           in (Some (length files), fs\<lparr>subtask_baselines := dict_set sid (Json payload) (subtask_baselines fs)\<rparr>)))"

definition record_scope_baseline :: "scope_env \<Rightarrow> string \<Rightarrow> scope_files \<Rightarrow> string list option \<times> scope_files" where
  "record_scope_baseline e branch fs =
     (case runs_git (git_status e) of
        None \<Rightarrow> (None, fs)
      | Some out \<Rightarrow>
          (let files = sorted_set (filter (\<lambda>p. \<not> is_map_internal_artifact p) (List.map_filter porcelain_path (splitlines out)));
               payload = JObj [(''branch'', JStr (sanitize_branch_name branch)), (''recorded_at'', JStr (scope_now e)),
                 (''files'', JList (map JStr files))]
           in (Some files, fs\<lparr>branch_baseline := Json payload\<rparr>)))"

definition baseline_files :: "jfile \<Rightarrow> string list option" where
  "baseline_files f =
     (case f of
        No_file \<Rightarrow> Some []
      | Bad_json \<Rightarrow> Some []
      | Json (JObj ms) \<Rightarrow> Some (case dict_get ms ''files'' of Some (JList vs) \<Rightarrow> strings_of vs | _ \<Rightarrow> [])
      | Json _ \<Rightarrow> None)"

section \<open>What a subtask changed\<close>

definition recorded_commits :: "jfile \<Rightarrow> string \<Rightarrow> (string option \<times> string option) option" where
  "recorded_commits f sid =
     (case f of
        No_file \<Rightarrow> Some (None, None)
      | Bad_json \<Rightarrow> Some (None, None)
      | Json (JObj ms) \<Rightarrow>
          Some (filled_str (dict_get ms ''last_subtask_commit_sha''),
                case dict_get ms ''subtask_results'' of
                  Some (JObj rs) \<Rightarrow> (case dict_get rs sid of Some (JObj entry) \<Rightarrow> filled_str (dict_get entry ''commit_sha'') | _ \<Rightarrow> None)
                | _ \<Rightarrow> None)
      | Json _ \<Rightarrow> None)"

definition resolve_subtask_diff_base :: "scope_env \<Rightarrow> string \<Rightarrow> scope_files \<Rightarrow> string option option" where
  "resolve_subtask_diff_base e sid fs =
     (case recorded_commits (state_doc fs) sid of
        None \<Rightarrow> None
      | Some (Some base, recorded) \<Rightarrow>
          Some (Some (if recorded = Some base \<and> runs_git (git_verify e (base @ ''^'')) \<noteq> None then base @ ''^'' else base))
      | Some (None, _) \<Rightarrow> Some (if runs_git (git_verify e ''HEAD'') \<noteq> None then Some ''HEAD'' else None))"

datatype scope_error = No_blueprint | Unknown_subtask | Git_unavailable | Status_failed | Diff_failed string

text \<open>The changed paths after the framework's own ones and the baselines are taken out.\<close>

definition actual_files :: "string list \<Rightarrow> string \<Rightarrow> string list \<Rightarrow> string list" where
  "actual_files diffed status baseline =
     sorted_set (filter (\<lambda>p. \<not> is_map_internal_artifact p \<and> p \<notin> set baseline)
       (diffed @ List.map_filter porcelain_path (splitlines status)))"

definition boundary_of :: "scope_env \<Rightarrow> string option \<Rightarrow> string list \<Rightarrow> string list \<Rightarrow> boundary_report" where
  "boundary_of e base expected actual =
     (let out_of_scope = filter (\<lambda>p. p \<notin> set expected) actual;
          unexpected = sort (filter (\<lambda>p. \<not> is_test_path p) out_of_scope);
          strict = (strict_scope e = Some ''1'')
      in \<lparr>b_status = (if unexpected = [] then ''clean'' else if strict then ''violation'' else ''warning''),
          b_base = base, b_expected = expected, b_actual = actual, b_unexpected = unexpected,
          b_tests = sort (filter is_test_path out_of_scope), b_strict = strict\<rparr>)"

text \<open>
  A report with unexpected paths is appended to the log. The script ignores a failure of this
  append; the log that could be written is the one modelled.
\<close>

definition log_violation :: "scope_env \<Rightarrow> boundary_report \<Rightarrow> scope_files \<Rightarrow> scope_files" where
  "log_violation e r fs =
     (if b_unexpected r = [] then fs else fs\<lparr>violation_log := violation_log fs @ [(scope_now e, r)]\<rparr>)"

definition given_ref :: "string option \<Rightarrow> string option" where
  "given_ref r = (case r of Some s \<Rightarrow> if s = [] then None else Some s | None \<Rightarrow> None)"

definition compare_boundary :: "scope_env \<Rightarrow> string \<Rightarrow> string option \<Rightarrow> string list \<Rightarrow> string option \<Rightarrow> scope_files
    \<Rightarrow> (scope_error + boundary_report) option" where
  "compare_boundary e sid base_ref expected base fs =
     (let diff = (case base of None \<Rightarrow> Git_out [] | Some r \<Rightarrow> git_diff e r)
      in if diff = Git_raises \<or> git_status e = Git_raises then Some (Inl Git_unavailable)
         else (case runs_git (git_status e) of
                 None \<Rightarrow> Some (Inl Status_failed)
               | Some status \<Rightarrow>
                   (case (runs_git diff, given_ref base_ref) of
                      (None, Some r) \<Rightarrow> Some (Inl (Diff_failed r))
                    | (out, _) \<Rightarrow>
                        (case (baseline_files (subtask_baseline fs sid), baseline_files (branch_baseline fs)) of
                           (Some own, Some all) \<Rightarrow>
                             Some (Inr (boundary_of e base expected
                               (actual_files (case out of None \<Rightarrow> [] | Some s \<Rightarrow> diff_lines s) status (own @ all))))
                         | _ \<Rightarrow> None))))"

definition validate_boundary :: "scope_env \<Rightarrow> string \<Rightarrow> string option \<Rightarrow> scope_files \<Rightarrow> (scope_error + boundary_report) option \<times> scope_files" where
  "validate_boundary e sid base_ref fs =
     (case load_blueprint (blueprint_doc fs) of
        None \<Rightarrow> (None, fs)
      | Some None \<Rightarrow> (Some (Inl No_blueprint), fs)
      | Some (Some bp) \<Rightarrow>
          (case get_subtask_from_blueprint bp sid of
             None \<Rightarrow> (None, fs)
           | Some None \<Rightarrow> (Some (Inl Unknown_subtask), fs)
           | Some (Some subtask) \<Rightarrow>
               (case (expected_files subtask,
                      case given_ref base_ref of Some r \<Rightarrow> Some (Some r) | None \<Rightarrow> resolve_subtask_diff_base e sid fs) of
                  (Some expected, Some base) \<Rightarrow>
                    (case compare_boundary e sid base_ref expected base fs of
                       Some (Inr r) \<Rightarrow> (Some (Inr r), log_violation e r fs)
                     | x \<Rightarrow> (x, fs))
                | _ \<Rightarrow> (None, fs))))"

section \<open>The detectors\<close>

text \<open>\<open>Some None\<close>: the change set is unknown.\<close>

definition current_subtask_changed_files :: "scope_env \<Rightarrow> string \<Rightarrow> scope_files \<Rightarrow> string list option option" where
  "current_subtask_changed_files e sid fs =
     (case resolve_subtask_diff_base e sid fs of
        None \<Rightarrow> None
      | Some base \<Rightarrow>
          (case (runs_git (case base of None \<Rightarrow> Git_out [] | Some r \<Rightarrow> git_diff e r), runs_git (git_status e)) of
             (Some diff, Some status) \<Rightarrow>
               map_option (\<lambda>own. Some (filter (\<lambda>p. \<not> is_map_internal_artifact p \<and> p \<notin> set own)
                   (remdups (diff_lines diff @ List.map_filter raw_porcelain (splitlines status)))))
                 (baseline_files (subtask_baseline fs sid))
           | _ \<Rightarrow> Some None))"

definition add_owner :: "string \<Rightarrow> string \<Rightarrow> (string, string list) dict \<Rightarrow> (string, string list) dict" where
  "add_owner owner p d =
     (let os = (case dict_get d p of None \<Rightarrow> [] | Some os \<Rightarrow> os)
      in dict_set p (if owner \<in> set os then os else os @ [owner]) d)"

definition owned_files :: "string \<Rightarrow> string \<times> json \<Rightarrow> string list" where
  "owned_files sid x =
     (case x of
        (owner, JObj r) \<Rightarrow>
          if owner = sid then []
          else (case dict_get r ''files_changed'' of Some (JList vs) \<Rightarrow> filter (\<lambda>p. strip p \<noteq> []) (strings_of vs) | _ \<Rightarrow> [])
      | _ \<Rightarrow> [])"

definition prior_owners :: "string \<Rightarrow> (string, json) dict \<Rightarrow> (string, string list) dict" where
  "prior_owners sid results = fold (\<lambda>x. fold (add_owner (fst x)) (owned_files sid x)) results []"

definition state_results :: "jfile \<Rightarrow> (string, json) dict option" where
  "state_results f =
     (case f of
        Json (JObj ms) \<Rightarrow> Some (case dict_get ms ''subtask_results'' of Some (JObj rs) \<Rightarrow> rs | _ \<Rightarrow> [])
      | Json _ \<Rightarrow> None
      | _ \<Rightarrow> Some [])"

record risk_report =
  k_known :: bool
  k_at_risk :: bool
  k_gate :: string
  k_shared :: "string list"
  k_source :: "string list"
  k_tests :: "string list"
  k_owners :: "(string, string list) dict"
  k_changed :: "string list"

definition detect_cross_subtask_regression_risk :: "scope_env \<Rightarrow> string \<Rightarrow> scope_files \<Rightarrow> risk_report option" where
  "detect_cross_subtask_regression_risk e sid fs =
     (case (state_results (state_doc fs), current_subtask_changed_files e sid fs) of
        (Some results, Some None) \<Rightarrow>
          Some \<lparr>k_known = False, k_at_risk = True, k_gate = ''full_suite'', k_shared = [], k_source = [], k_tests = [],
             k_owners = prior_owners sid results, k_changed = []\<rparr>
      | (Some results, Some (Some current)) \<Rightarrow>
          (let owners = prior_owners sid results;
               shared = sort (filter (\<lambda>p. dict_get owners p \<noteq> None) current);
               source = filter (\<lambda>p. \<not> is_test_path p) shared
           in Some \<lparr>k_known = True, k_at_risk = (source \<noteq> []), k_gate = (if source \<noteq> [] then ''full_suite'' else ''scoped''),
                k_shared = shared, k_source = source, k_tests = filter is_test_path shared,
                k_owners = map (\<lambda>p. (p, the (dict_get owners p))) shared, k_changed = sort current\<rparr>)
      | _ \<Rightarrow> None)"

definition map_artifact_written :: "scope_env \<Rightarrow> string \<Rightarrow> bool" where
  "map_artifact_written e p = (case file_size e p of None \<Rightarrow> False | Some n \<Rightarrow> 0 < n)"

record mismatch_report =
  m_known :: bool
  m_declared :: "string list"
  m_actual :: "string list"
  m_missing :: "string list"
  m_mismatch :: bool

definition detect_actor_files_changed_mismatch :: "scope_env \<Rightarrow> string \<Rightarrow> string list \<Rightarrow> scope_files \<Rightarrow> mismatch_report option" where
  "detect_actor_files_changed_mismatch e sid declared_files fs =
     (let declared = filter (\<lambda>d. d \<noteq> []) (map strip declared_files);
          map_missing = sort (filter (\<lambda>d. is_map_internal_artifact d \<and> \<not> map_artifact_written e d) declared);
          git_declared = filter (\<lambda>d. \<not> is_map_internal_artifact d) declared;
          report = (\<lambda>known actual git_missing. \<lparr>m_known = known, m_declared = sort declared, m_actual = actual,
             m_missing = sort (git_missing @ map_missing), m_mismatch = (git_missing @ map_missing \<noteq> [])\<rparr>)
      in if git_declared = [] then Some (report True [] [])
         else (case current_subtask_changed_files e sid fs of
                 None \<Rightarrow> None
               | Some None \<Rightarrow> Some (report False [] (sort git_declared))
               | Some (Some actual) \<Rightarrow> Some (report True (sort actual) (sort (filter (\<lambda>d. d \<notin> set actual) git_declared)))))"

end
