(* ===== verification/Runner_Scope_Props.thy ===== *)
theory Runner_Scope_Props
  imports Runner_Scope
begin

text \<open>
  What the boundary check and the two detectors report, stated over the sets of paths git sees.
\<close>

section \<open>Sets of paths\<close>

lemma set_sorted_set [simp]: "set (sorted_set xs) = set xs"
  by (simp add: sorted_set_def)

lemma sort_Nil_iff [simp]: "sort xs = [] \<longleftrightarrow> xs = []"
  by (metis set_empty set_sort)

lemma strings_of_map [simp]: "strings_of (map JStr xs) = xs"
  by (induction xs) (simp_all add: strings_of_def map_filter_simps)

text \<open>The paths of uncommitted work, as the boundary check reads them.\<close>

definition uncommitted :: "scope_env \<Rightarrow> string set" where
  "uncommitted e = (case git_status e of Git_out s \<Rightarrow> {p. \<exists>l \<in> set (splitlines s). porcelain_path l = Some p} | _ \<Rightarrow> {})"

definition committed :: "scope_env \<Rightarrow> string option \<Rightarrow> string set" where
  "committed e base = (case base of None \<Rightarrow> {} | Some r \<Rightarrow> (case git_diff e r of Git_out s \<Rightarrow> set (diff_lines s) | _ \<Rightarrow> {}))"

definition in_baseline :: "jfile \<Rightarrow> string set" where
  "in_baseline f = (case baseline_files f of None \<Rightarrow> {} | Some ps \<Rightarrow> set ps)"

text \<open>What the subtask changed: what git reports, less the framework's files and the baselines.\<close>

definition surface :: "scope_env \<Rightarrow> string \<Rightarrow> string option \<Rightarrow> scope_files \<Rightarrow> string set" where
  "surface e sid base fs =
     {p \<in> committed e base \<union> uncommitted e. \<not> is_map_internal_artifact p} - in_baseline (subtask_baseline fs sid) - in_baseline (branch_baseline fs)"

definition declared_files :: "scope_files \<Rightarrow> string \<Rightarrow> string set option" where
  "declared_files fs sid =
     (case load_blueprint (blueprint_doc fs) of
        Some (Some bp) \<Rightarrow> (case get_subtask_from_blueprint bp sid of Some (Some st) \<Rightarrow> map_option set (expected_files st) | _ \<Rightarrow> None)
      | _ \<Rightarrow> None)"

lemma actual_set:
  "set (actual_files ds s bl) = {p. (p \<in> set ds \<or> (\<exists>l \<in> set (splitlines s). porcelain_path l = Some p)) \<and> \<not> is_map_internal_artifact p \<and> p \<notin> set bl}"
  by (auto simp: actual_files_def set_map_filter)

lemma compare_report:
  assumes "compare_boundary e sid ref expected base fs = Some (Inr r)"
  shows "set (b_actual r) = surface e sid base fs" "b_expected r = expected" "b_base r = base"
    "set (b_unexpected r) = {p \<in> surface e sid base fs. p \<notin> set expected \<and> \<not> is_test_path p}"
    "set (b_tests r) = {p \<in> surface e sid base fs. p \<notin> set expected \<and> is_test_path p}"
    "b_strict r \<longleftrightarrow> strict_scope e = Some ''1''"
    "b_status r = (if b_unexpected r = [] then ''clean'' else if b_strict r then ''violation'' else ''warning'')"
    "git_status e \<noteq> Git_raises" "git_status e \<noteq> Git_fails"
proof -
  let ?out = "case base of None \<Rightarrow> Git_out [] | Some r \<Rightarrow> git_diff e r"
  obtain s own all where s: "git_status e = Git_out s" and bl: "baseline_files (subtask_baseline fs sid) = Some own"
      "baseline_files (branch_baseline fs) = Some all"
    and r: "r = boundary_of e base expected (actual_files (case runs_git ?out of None \<Rightarrow> [] | Some s \<Rightarrow> diff_lines s) s (own @ all))"
    using assms by (auto simp: compare_boundary_def Let_def runs_git_def split: if_splits option.splits git_out.splits)
  have "set (case runs_git ?out of None \<Rightarrow> [] | Some s \<Rightarrow> diff_lines s) = committed e base"
    by (auto simp: committed_def runs_git_def diff_lines_def splitlines_def map_filter_simps split: option.splits git_out.splits)
  then have act: "set (actual_files (case runs_git ?out of None \<Rightarrow> [] | Some s \<Rightarrow> diff_lines s) s (own @ all)) = surface e sid base fs"
    unfolding actual_set by (auto simp: surface_def uncommitted_def in_baseline_def s bl)
  show "set (b_actual r) = surface e sid base fs" "b_expected r = expected" "b_base r = base"
    "set (b_unexpected r) = {p \<in> surface e sid base fs. p \<notin> set expected \<and> \<not> is_test_path p}"
    "set (b_tests r) = {p \<in> surface e sid base fs. p \<notin> set expected \<and> is_test_path p}"
    "b_strict r \<longleftrightarrow> strict_scope e = Some ''1''"
    "b_status r = (if b_unexpected r = [] then ''clean'' else if b_strict r then ''violation'' else ''warning'')"
    "git_status e \<noteq> Git_raises" "git_status e \<noteq> Git_fails"
    unfolding r boundary_of_def Let_def using act s by auto
qed

lemma boundary_compared:
  assumes "validate_boundary e sid ref fs = (Some (Inr r), fs')"
  shows "\<exists>expected base. declared_files fs sid = Some (set expected) \<and> compare_boundary e sid ref expected base fs = Some (Inr r)
    \<and> (case given_ref ref of Some x \<Rightarrow> base = Some x | None \<Rightarrow> resolve_subtask_diff_base e sid fs = Some base)
    \<and> fs' = log_violation e r fs"
  using assms
  by (auto simp: validate_boundary_def declared_files_def split: option.splits sum.splits prod.splits) (metis option.inject option.distinct(1))

section \<open>The boundary\<close>

text \<open>
  Claim C24. The boundary report is exact. When the check reports at all, the status is clean
  exactly when every path the subtask changed is declared in the blueprint or is a test; otherwise
  the report lists exactly the offending paths, is a violation in strict mode and a warning
  without, and the report is appended to the log. Nothing else is written.
\<close>
theorem boundary_report_is_exact:
  assumes "validate_boundary e sid ref fs = (Some (Inr r), fs')"
  shows "\<exists>declared. declared_files fs sid = Some declared
    \<and> set (b_unexpected r) = {p \<in> surface e sid (b_base r) fs. p \<notin> declared \<and> \<not> is_test_path p}
    \<and> (b_status r = ''clean'' \<longleftrightarrow> (\<forall>p \<in> surface e sid (b_base r) fs. p \<in> declared \<or> is_test_path p))
    \<and> (b_status r = ''violation'' \<longleftrightarrow> b_status r \<noteq> ''clean'' \<and> strict_scope e = Some ''1'')
    \<and> fs' = (if b_status r = ''clean'' then fs else fs\<lparr>violation_log := violation_log fs @ [(scope_now e, r)]\<rparr>)"
proof -
  from boundary_compared [OF assms] obtain expected base where d: "declared_files fs sid = Some (set expected)"
    and c: "compare_boundary e sid ref expected base fs = Some (Inr r)" and f: "fs' = log_violation e r fs" by blast
  note rep = compare_report [OF c]
  have "b_unexpected r = [] \<longleftrightarrow> set (b_unexpected r) = {}" by simp
  also have "\<dots> \<longleftrightarrow> (\<forall>p \<in> surface e sid base fs. p \<in> set expected \<or> is_test_path p)" unfolding rep(4) by blast
  finally have empty: "b_unexpected r = [] \<longleftrightarrow> (\<forall>p \<in> surface e sid base fs. p \<in> set expected \<or> is_test_path p)" .
  have "b_status r = ''clean'' \<longleftrightarrow> b_unexpected r = []" "b_status r = ''violation'' \<longleftrightarrow> b_unexpected r \<noteq> [] \<and> b_strict r"
    by (simp_all add: rep(7))
  then show ?thesis using d f empty rep(3,4,6) by (auto simp: log_violation_def)
qed

definition sample_scope :: scope_env where
  "sample_scope = \<lparr>git_status = Git_out ''?? a.py'', git_diff = (\<lambda>_. Git_fails), git_verify = (\<lambda>_. Git_fails),
     strict_scope = None, scope_now = ''t'', file_size = (\<lambda>_. None)\<rparr>"

definition sample_branch :: scope_files where
  "sample_branch = \<lparr>blueprint_doc = Json (JObj [(''subtasks'', JList [JObj [(''id'', JStr ''ST-1''), (''affected_files'', JList [JStr ''b.py''])]])]),
     state_doc = No_file, branch_baseline = No_file, subtask_baselines = [], violation_log = []\<rparr>"

theorem boundary_report_is_exact_witness:
  "\<exists>r fs'. validate_boundary sample_scope ''ST-1'' None sample_branch = (Some (Inr r), fs') \<and> b_status r = ''warning''
     \<and> violation_log fs' = [(''t'', r)]"
proof -
  obtain x fs' where v: "validate_boundary sample_scope ''ST-1'' None sample_branch = (x, fs')" by (metis surj_pair)
  have "case fst (validate_boundary sample_scope ''ST-1'' None sample_branch) of Some (Inr r) \<Rightarrow> b_status r = ''warning'' | _ \<Rightarrow> False"
    by code_simp
  then obtain r where r: "x = Some (Inr r)" "b_status r = ''warning''" unfolding v by (auto split: option.splits sum.splits)
  have "violation_log sample_branch = []" "scope_now sample_scope = ''t''" by (simp_all add: sample_branch_def sample_scope_def)
  then show ?thesis using boundary_report_is_exact [OF v [unfolded r(1)]] v r by auto
qed

section \<open>Baselines\<close>

text \<open>No path of the porcelain output is put in quotes.\<close>

definition unquoted :: "string \<Rightarrow> bool" where
  "unquoted s = list_all (\<lambda>l. porcelain_path l = raw_porcelain l) (splitlines s)"

lemma unquoted_status:
  assumes "git_status e = Git_out s" "unquoted s"
  shows "uncommitted e = set (List.map_filter raw_porcelain (splitlines s))"
  using assms by (auto simp: uncommitted_def unquoted_def list_all_iff set_map_filter)

lemma subtask_baseline_read:
  assumes "record_subtask_baseline e branch sid fs = (Some n, fs1)" "git_status e = Git_out s" "unquoted s"
  shows "in_baseline (subtask_baseline fs1 sid) = {p \<in> uncommitted e. \<not> is_map_internal_artifact p}"
    "branch_baseline fs1 = branch_baseline fs" "blueprint_doc fs1 = blueprint_doc fs" "state_doc fs1 = state_doc fs"
  using assms(1) unfolding unquoted_status [OF assms(2,3)]
  by (auto simp: record_subtask_baseline_def runs_git_def assms(2) Let_def in_baseline_def baseline_files_def subtask_baseline_def alist.get_put)

lemma scope_baseline_read:
  assumes "record_scope_baseline e branch fs = (Some files, fs1)"
  shows "in_baseline (branch_baseline fs1) = {p \<in> uncommitted e. \<not> is_map_internal_artifact p}"
    "set files = {p \<in> uncommitted e. \<not> is_map_internal_artifact p}"
    "subtask_baselines fs1 = subtask_baselines fs"
proof -
  obtain s where s: "git_status e = Git_out s"
    using assms by (auto simp: record_scope_baseline_def runs_git_def split: option.splits git_out.splits)
  then show "in_baseline (branch_baseline fs1) = {p \<in> uncommitted e. \<not> is_map_internal_artifact p}"
    "set files = {p \<in> uncommitted e. \<not> is_map_internal_artifact p}"
    "subtask_baselines fs1 = subtask_baselines fs"
    using assms by (auto simp: record_scope_baseline_def runs_git_def Let_def in_baseline_def baseline_files_def uncommitted_def set_map_filter)
qed

text \<open>
  Claim C25. The baseline of a subtask separates earlier work from its own. After the baseline was
  recorded, a later check sees exactly the changed paths that were not uncommitted already, for
  paths git does not put in quotes; when nothing was changed since and nothing was committed, it
  sees none.
\<close>
theorem baseline_hides_prior_work:
  assumes "record_subtask_baseline e branch sid fs = (Some n, fs1)" "git_status e = Git_out s" "unquoted s"
    and "validate_boundary e' sid ref fs1 = (Some (Inr r), fs2)"
  shows "set (b_actual r) = {p \<in> committed e' (b_base r) \<union> uncommitted e'. \<not> is_map_internal_artifact p
      \<and> p \<notin> uncommitted e \<and> p \<notin> in_baseline (branch_baseline fs)}"
proof -
  from boundary_compared [OF assms(4)] obtain expected base where
    c: "compare_boundary e' sid ref expected base fs1 = Some (Inr r)" by blast
  show ?thesis
    unfolding compare_report(1) [OF c] compare_report(3) [OF c] surface_def subtask_baseline_read [OF assms(1-3)] by blast
qed

theorem baseline_hides_prior_work_witness:
  "\<exists>r fs2. validate_boundary sample_scope ''ST-1'' None (snd (record_subtask_baseline sample_scope ''b'' ''ST-1'' sample_branch)) = (Some (Inr r), fs2)
     \<and> b_actual r = []"
proof -
  let ?fs = "snd (record_subtask_baseline sample_scope ''b'' ''ST-1'' sample_branch)"
  obtain x fs2 where v: "validate_boundary sample_scope ''ST-1'' None ?fs = (x, fs2)" by (metis surj_pair)
  have "case fst (validate_boundary sample_scope ''ST-1'' None ?fs) of Some (Inr r) \<Rightarrow> b_base r = None | _ \<Rightarrow> False" by code_simp
  then obtain r where r: "x = Some (Inr r)" "b_base r = None" unfolding v by (auto split: option.splits sum.splits)
  have b: "record_subtask_baseline sample_scope ''b'' ''ST-1'' sample_branch = (Some 1, ?fs)" "unquoted ''?? a.py''"
    "git_status sample_scope = Git_out ''?? a.py''" by (code_simp, code_simp, simp add: sample_scope_def)
  from baseline_hides_prior_work [OF b(1,3,2) v [unfolded r(1)]] have "set (b_actual r) = {}" by (auto simp: r(2) committed_def)
  with v r show ?thesis by auto
qed

text \<open>
  With quotes the separation fails: an untracked file with a space in its name that is already in
  the baseline is still reported as changed by the subtask.
\<close>

definition spaced_scope :: scope_env where
  "spaced_scope = sample_scope\<lparr>git_status := Git_out (''?? '' @ [CHR 0x22] @ ''a b'' @ [CHR 0x22])\<rparr>"

lemma quoted_baseline_is_lost:
  "(case fst (validate_boundary spaced_scope ''ST-1'' None (snd (record_subtask_baseline spaced_scope ''b'' ''ST-1'' sample_branch))) of
      Some (Inr r) \<Rightarrow> b_unexpected r = [''a b''] | _ \<Rightarrow> False)"
  by code_simp

text \<open>For the same reason a file with a space in its name that was written counts as not written.\<close>

lemma quoted_file_counts_as_missing:
  "map_option m_missing (detect_actor_files_changed_mismatch spaced_scope ''ST-1'' [''a b''] sample_branch) = Some [''a b'']"
  by code_simp

section \<open>The detectors\<close>

definition raw_uncommitted :: "scope_env \<Rightarrow> string set" where
  "raw_uncommitted e = (case git_status e of Git_out s \<Rightarrow> {p. \<exists>l \<in> set (splitlines s). raw_porcelain l = Some p} | _ \<Rightarrow> {})"

lemma changed_files_set:
  assumes "current_subtask_changed_files e sid fs = Some (Some current)"
  shows "\<exists>base. resolve_subtask_diff_base e sid fs = Some base
    \<and> set current = {p \<in> committed e base \<union> raw_uncommitted e. \<not> is_map_internal_artifact p} - in_baseline (subtask_baseline fs sid)"
proof -
  obtain base d s own where b: "resolve_subtask_diff_base e sid fs = Some base"
    and g: "runs_git (case base of None \<Rightarrow> Git_out [] | Some r \<Rightarrow> git_diff e r) = Some d" "runs_git (git_status e) = Some s"
    and o: "baseline_files (subtask_baseline fs sid) = Some own"
    and c: "current = filter (\<lambda>p. \<not> is_map_internal_artifact p \<and> p \<notin> set own) (remdups (diff_lines d @ List.map_filter raw_porcelain (splitlines s)))"
    using assms by (auto simp: current_subtask_changed_files_def split: option.splits)
  have "diff_lines [] = []" by code_simp
  then have "set (diff_lines d) = committed e base" "raw_uncommitted e = set (List.map_filter raw_porcelain (splitlines s))"
    using g by (auto simp: committed_def raw_uncommitted_def runs_git_def set_map_filter split: option.splits git_out.splits)
  with b o show ?thesis by (auto simp: c in_baseline_def)
qed

lemma dict_get_add_owner:
  "dict_get (add_owner o1 p d) q \<noteq> None \<longleftrightarrow> p = q \<or> dict_get d q \<noteq> None"
  by (auto simp: add_owner_def Let_def alist.get_put)

lemma fold_add_owner:
  "dict_get (fold (add_owner o1) ps d) q \<noteq> None \<longleftrightarrow> q \<in> set ps \<or> dict_get d q \<noteq> None"
proof (induction ps arbitrary: d)
  case (Cons p ps)
  show ?case unfolding fold_Cons o_apply Cons.IH dict_get_add_owner by auto
qed simp

lemma prior_owners_dom:
  "dict_get (prior_owners sid results) p \<noteq> None \<longleftrightarrow> (\<exists>x \<in> set results. p \<in> set (owned_files sid x))"
proof -
  have "dict_get (fold (\<lambda>x. fold (add_owner (fst x)) (owned_files sid x)) results d) p \<noteq> None
      \<longleftrightarrow> (\<exists>x \<in> set results. p \<in> set (owned_files sid x)) \<or> dict_get d p \<noteq> None" for d
  proof (induction results arbitrary: d)
    case (Cons x results)
    show ?case unfolding fold_Cons o_apply Cons.IH fold_add_owner by auto
  qed simp
  then show ?thesis by (simp add: prior_owners_def)
qed

lemma owned_by_other: "p \<in> set (owned_files sid x) \<Longrightarrow> fst x \<noteq> sid"
  by (cases x) (auto simp: owned_files_def split: json.splits if_splits)

lemma risk_known:
  assumes "detect_cross_subtask_regression_risk e sid fs = Some r" "state_results (state_doc fs) = Some results"
    "current_subtask_changed_files e sid fs = Some (Some current)"
  shows "k_known r" "k_gate r = (if k_at_risk r then ''full_suite'' else ''scoped'')"
    "k_at_risk r \<longleftrightarrow> (\<exists>p \<in> set current. dict_get (prior_owners sid results) p \<noteq> None \<and> \<not> is_test_path p)"
proof -
  let ?shared = "sort (filter (\<lambda>p. dict_get (prior_owners sid results) p \<noteq> None) current)"
  have "filter (\<lambda>p. \<not> is_test_path p) ?shared \<noteq> [] \<longleftrightarrow> (\<exists>p \<in> set current. dict_get (prior_owners sid results) p \<noteq> None \<and> \<not> is_test_path p)"
    unfolding filter_empty_conv by auto
  moreover have "k_known r" "k_gate r = (if k_at_risk r then ''full_suite'' else ''scoped'')"
    "k_at_risk r \<longleftrightarrow> filter (\<lambda>p. \<not> is_test_path p) ?shared \<noteq> []"
    using assms by (auto simp: detect_cross_subtask_regression_risk_def Let_def)
  ultimately show "k_known r" "k_gate r = (if k_at_risk r then ''full_suite'' else ''scoped'')"
    "k_at_risk r \<longleftrightarrow> (\<exists>p \<in> set current. dict_get (prior_owners sid results) p \<noteq> None \<and> \<not> is_test_path p)" by simp_all
qed

text \<open>
  The regression check is exact and fails safe. It asks for the full test suite exactly
  when the change set of the subtask is unknown, or has a file that is not a test and that the
  recorded result of another subtask lists as changed; otherwise a scoped run is enough.
\<close>
theorem regression_risk_is_exact:
  assumes "detect_cross_subtask_regression_risk e sid fs = Some r" "state_results (state_doc fs) = Some results"
  shows "(k_gate r = ''full_suite'' \<longleftrightarrow> k_at_risk r) \<and> (k_gate r = ''scoped'' \<longleftrightarrow> \<not> k_at_risk r)
    \<and> (case current_subtask_changed_files e sid fs of
         Some (Some current) \<Rightarrow> k_known r
           \<and> (k_at_risk r \<longleftrightarrow> (\<exists>p \<in> set current. \<not> is_test_path p \<and> (\<exists>x \<in> set results. fst x \<noteq> sid \<and> p \<in> set (owned_files sid x))))
       | _ \<Rightarrow> \<not> k_known r \<and> k_at_risk r)"
proof (cases "current_subtask_changed_files e sid fs")
  case None
  then show ?thesis using assms by (simp add: detect_cross_subtask_regression_risk_def)
next
  case (Some c)
  show ?thesis
  proof (cases c)
    case None
    then show ?thesis using assms Some by (auto simp: detect_cross_subtask_regression_risk_def)
  next
    case (Some current)
    have "(\<exists>p \<in> set current. dict_get (prior_owners sid results) p \<noteq> None \<and> \<not> is_test_path p)
        \<longleftrightarrow> (\<exists>p \<in> set current. \<not> is_test_path p \<and> (\<exists>x \<in> set results. fst x \<noteq> sid \<and> p \<in> set (owned_files sid x)))"
      using prior_owners_dom [of sid results] owned_by_other by blast
    then show ?thesis
      using risk_known [OF assms \<open>current_subtask_changed_files e sid fs = Some c\<close> [unfolded Some]]
        \<open>current_subtask_changed_files e sid fs = Some c\<close> Some by simp
  qed
qed

definition shared_branch :: scope_files where
  "shared_branch = sample_branch\<lparr>state_doc := Json (JObj [(''subtask_results'', JObj [(''ST-0'', JObj [(''files_changed'', JList [JStr ''a.py''])])])])\<rparr>"

theorem regression_risk_is_exact_witness:
  "\<exists>r. detect_cross_subtask_regression_risk sample_scope ''ST-1'' shared_branch = Some r \<and> k_at_risk r \<and> k_gate r = ''full_suite''"
proof -
  have s: "state_results (state_doc shared_branch) = Some [(''ST-0'', JObj [(''files_changed'', JList [JStr ''a.py''])])]" by code_simp
  have "case detect_cross_subtask_regression_risk sample_scope ''ST-1'' shared_branch of Some r \<Rightarrow> k_at_risk r | None \<Rightarrow> False" by code_simp
  then obtain r where r: "detect_cross_subtask_regression_risk sample_scope ''ST-1'' shared_branch = Some r" "k_at_risk r"
    by (auto split: option.splits)
  from regression_risk_is_exact [OF r(1) s] r show ?thesis by blast
qed

text \<open>
  Claim C4. The Actor's claim of written files is checked both ways. The report is free of a mismatch
  exactly when every declared file below a framework directory exists with content and every
  other one is among the changes git knows of; an unknown change set never passes for files that
  git should know.
\<close>
theorem mismatch_report_is_exact:
  assumes "detect_actor_files_changed_mismatch e sid ds fs = Some r"
  shows "\<not> m_mismatch r \<longleftrightarrow>
    (\<forall>d \<in> set ds. strip d \<noteq> [] \<longrightarrow>
       (if is_map_internal_artifact (strip d) then map_artifact_written e (strip d)
        else \<exists>current. current_subtask_changed_files e sid fs = Some (Some current) \<and> strip d \<in> set current))"
proof -
  let ?known = "\<lambda>d. \<exists>current. current_subtask_changed_files e sid fs = Some (Some current) \<and> d \<in> set current"
  let ?declared = "filter (\<lambda>d. d \<noteq> []) (map strip ds)"
  let ?git = "filter (\<lambda>d. \<not> is_map_internal_artifact d) ?declared"
  let ?missing = "filter (\<lambda>d. is_map_internal_artifact d \<and> \<not> map_artifact_written e d) ?declared"
  have "\<not> m_mismatch r \<longleftrightarrow> ?missing = [] \<and> (\<forall>d \<in> set ?git. ?known d)"
  proof (cases "?git = []")
    case True
    then show ?thesis using assms by (auto simp: detect_actor_files_changed_mismatch_def Let_def simp del: filter_filter)
  next
    case False
    then obtain c where c: "current_subtask_changed_files e sid fs = Some c"
      using assms by (auto simp: detect_actor_files_changed_mismatch_def Let_def simp del: filter_filter split: option.splits)
    show ?thesis
    proof (cases c)
      case None
      from False obtain d where "d \<in> set ?git" by (meson last_in_set)
      with None False assms c show ?thesis by (auto simp: detect_actor_files_changed_mismatch_def Let_def simp del: filter_filter)
    next
      case (Some current)
      have "filter (\<lambda>d. d \<notin> set current) ?git = [] \<longleftrightarrow> (\<forall>d \<in> set ?git. d \<in> set current)" unfolding filter_empty_conv by blast
      with Some False assms c show ?thesis
        by (auto simp: detect_actor_files_changed_mismatch_def Let_def simp del: filter_filter)
    qed
  qed
  then show ?thesis unfolding filter_empty_conv by auto
qed

theorem mismatch_report_is_exact_witness:
  "\<exists>r. detect_actor_files_changed_mismatch sample_scope ''ST-1'' [''a.py''] sample_branch = Some r \<and> \<not> m_mismatch r
     \<and> (\<exists>current. current_subtask_changed_files sample_scope ''ST-1'' sample_branch = Some (Some current) \<and> ''a.py'' \<in> set current)"
proof -
  have "map_option m_mismatch (detect_actor_files_changed_mismatch sample_scope ''ST-1'' [''a.py''] sample_branch) = Some False" by code_simp
  then obtain r where r: "detect_actor_files_changed_mismatch sample_scope ''ST-1'' [''a.py''] sample_branch = Some r" "\<not> m_mismatch r" by auto
  have "strip ''a.py'' = ''a.py''" "\<not> is_map_internal_artifact ''a.py''" by code_simp+
  with mismatch_report_is_exact [OF r(1)] r show ?thesis by auto
qed

end
