(* ===== verification/Runner_Flaky.thy ===== *)
theory Runner_Flaky
  imports Runner_Common Json_Number
begin

text \<open>
  Triage of flaky tests in \<^verbatim>\<open>map_step_runner.py\<close>: repeated outcomes of a check are normalised,
  classified and recorded, and the artifact is validated before a deferral may rest on it. \<open>None\<close>
  as a result is an exception (a list or an object where Python needs a hashable value, or an
  integer too large for a float). \<open>y_round3\<close> is the float that rounding to three digits gives.
\<close>

section \<open>Constants\<close>

record triage_env =
  y_branch :: string
  y_now :: string
  y_round3 :: "json \<Rightarrow> string"

record triage_files =
  ty_file :: jfile
  ty_manifest :: jfile

definition FLAKY_DISPOSITIONS :: "string list" where
  "FLAKY_DISPOSITIONS = [''deferred_nondeterministic'', ''deterministic_failure'', ''not_reproduced'', ''insufficient_evidence'']"

definition FLAKY_MONITOR_POLICY :: string where
  "FLAKY_MONITOR_POLICY = ''not_valid_without_explicit_triage''"

definition FLAKY_OPERATOR_REQUIREMENTS :: "string list" where
  "FLAKY_OPERATOR_REQUIREMENTS =
     [''Do not weaken, skip, or delete the check.'', ''Do not treat this artifact as a passing gate.'',
      ''Record the deferred nondeterministic evidence in Monitor output or issue tracking.'']"

section \<open>Outcomes of repeated runs\<close>

definition STATUS_ALIASES :: "(string, string) dict" where
  "STATUS_ALIASES =
     [(''pass'', ''passed''), (''passed'', ''passed''), (''success'', ''passed''), (''ok'', ''passed''),
      (''fail'', ''failed''), (''failed'', ''failed''), (''failure'', ''failed''), (''error'', ''failed'')]"

definition given :: "json option \<Rightarrow> json option" where
  "given v = (case v of Some JNull \<Rightarrow> None | _ \<Rightarrow> v)"

definition positive_int :: "json option \<Rightarrow> int option" where
  "positive_int v = (case v of Some (JInt n) \<Rightarrow> if n < 1 then None else Some n | _ \<Rightarrow> None)"

definition run_number :: "nat \<Rightarrow> (string, json) dict \<Rightarrow> string list \<times> int" where
  "run_number i raw =
     (let dflt = int i + 1
      in case positive_int (Some (get_or raw ''run'' (JInt dflt))) of
           None \<Rightarrow> ([index_label ''outcomes'' i @ ''.run must be a positive integer''], dflt)
         | Some n \<Rightarrow> ([], n))"

definition outcome_status :: "nat \<Rightarrow> (string, json) dict \<Rightarrow> string list \<times> string \<times> int" where
  "outcome_status i raw =
     (let pre = index_label ''outcomes'' i
      in case given (dict_get raw ''exit_code'') of
           Some (JInt n) \<Rightarrow> ([], if n = 0 then ''passed'' else ''failed'', n)
         | Some _ \<Rightarrow> ([pre @ ''.exit_code must be an integer''], ''failed'', 1)
         | None \<Rightarrow>
             (case dict_get STATUS_ALIASES (to_lower (strip (str_or_blank (dict_get raw ''status'')))) of
                Some st \<Rightarrow> ([], st, if st = ''passed'' then 0 else 1)
              | None \<Rightarrow> ([pre @ '' must include exit_code or status''], ''failed'', 1)))"

definition timed_out_field :: "nat \<Rightarrow> (string, json) dict \<Rightarrow> string list \<times> (string, json) dict" where
  "timed_out_field i raw =
     (case given (dict_get raw ''timed_out'') of
        None \<Rightarrow> ([], [])
      | Some (JBool b) \<Rightarrow> ([], [(''timed_out'', JBool b)])
      | Some _ \<Rightarrow> ([index_label ''outcomes'' i @ ''.timed_out must be a boolean''], []))"

definition duration_field :: "triage_env \<Rightarrow> nat \<Rightarrow> (string, json) dict \<Rightarrow> (string list \<times> (string, json) dict) option" where
  "duration_field e i raw =
     (let err = ([index_label ''outcomes'' i @ ''.duration_seconds must be a non-negative number''], []);
          ok = (\<lambda>v. ([], [(''duration_seconds'', JFloat (y_round3 e v))]))
      in case given (dict_get raw ''duration_seconds'') of
           None \<Rightarrow> Some ([], [])
         | Some (JInt n) \<Rightarrow> if n < 0 then Some err else if float_overflows n then None else Some (ok (JInt n))
         | Some (JFloat t) \<Rightarrow> Some (if float_negative t then err else ok (JFloat t))
         | Some _ \<Rightarrow> Some err)"

definition tail_field :: "nat \<Rightarrow> (string, json) dict \<Rightarrow> string \<Rightarrow> string list \<times> (string, json) dict" where
  "tail_field i raw f =
     (case dict_get raw f of
        None \<Rightarrow> ([], [])
      | Some (JStr s) \<Rightarrow> ([], [(f, JStr s)])
      | Some _ \<Rightarrow> ([index_label ''outcomes'' i @ ''.'' @ f @ '' must be a string''], []))"

definition summary_of :: "(string, json) dict \<Rightarrow> string \<Rightarrow> string" where
  "summary_of raw status =
     (let v = dict_get raw ''summary'';
          short = shorten_retry_text (strip (if falsy_opt v then status else str_or_blank v)) 1200
      in if short = [] then status else short)"

definition normalize_outcome :: "triage_env \<Rightarrow> nat \<Rightarrow> json \<Rightarrow> (string list \<times> (string, json) dict list) option" where
  "normalize_outcome e i v =
     (case v of
        JObj raw \<Rightarrow>
          (let (re, run) = run_number i raw;
               (se, status, code) = outcome_status i raw;
               (te, timed) = timed_out_field i raw;
               (oe, out) = tail_field i raw ''stdout_tail'';
               (ee, err) = tail_field i raw ''stderr_tail''
           in map_option (\<lambda>(de, dur). (re @ se @ te @ de @ oe @ ee,
                [[(''run'', JInt run), (''status'', JStr status), (''exit_code'', JInt code), (''summary'', JStr (summary_of raw status))]
                 @ timed @ dur @ out @ err])) (duration_field e i raw))
      | _ \<Rightarrow> Some ([index_label ''outcomes'' i @ '' must be an object''], []))"

fun normalize_flaky_test_evidence :: "triage_env \<Rightarrow> nat \<Rightarrow> json list \<Rightarrow> (string list \<times> (string, json) dict list) option" where
  "normalize_flaky_test_evidence e i [] = Some ([], [])"
| "normalize_flaky_test_evidence e i (v # vs) =
     (case (normalize_outcome e i v, normalize_flaky_test_evidence e (Suc i) vs) of
        (Some (es, x), Some (fs, xs)) \<Rightarrow> Some (es @ fs, x @ xs)
      | _ \<Rightarrow> None)"

section \<open>Classification\<close>

definition count_runs :: "string \<Rightarrow> (string, json) dict list \<Rightarrow> nat" where
  "count_runs st ev = length (filter (\<lambda>x. dict_get x ''status'' = Some (JStr st)) ev)"

definition classify_flaky_test_evidence :: "(string, json) dict list \<Rightarrow> string \<times> string \<times> nat \<times> nat" where
  "classify_flaky_test_evidence ev =
     (let p = count_runs ''passed'' ev; f = count_runs ''failed'' ev
      in if length ev < 2 then (''insufficient_evidence'', ''repeat_failing_check_before_acting'', p, f)
         else if 0 < p \<and> 0 < f then (''deferred_nondeterministic'', ''record_deferred_nondeterministic'', p, f)
         else if f = length ev then (''deterministic_failure'', ''fix_confirmed_regression'', p, f)
         else (''not_reproduced'', ''rerun_original_gate_or_record_environment'', p, f))"

definition flaky_test_triage_reason :: "string \<Rightarrow> string \<Rightarrow> string" where
  "flaky_test_triage_reason disposition reason =
     (if strip reason \<noteq> [] then strip reason
      else if disposition = ''deferred_nondeterministic'' then ''Repeated evidence observed both passing and failing outcomes.''
      else if disposition = ''deterministic_failure'' then ''Every repeated run failed; treat as a confirmed regression.''
      else if disposition = ''not_reproduced'' then ''Every repeated run passed; original failure was not reproduced.''
      else ''Fewer than two repeated runs were recorded; classification is incomplete.'')"

definition triage_payload :: "string \<Rightarrow> string \<Rightarrow> string \<Rightarrow> (string, json) dict list \<Rightarrow> (string, json) dict" where
  "triage_payload check command reason ev =
     (let (disposition, action, p, f) = classify_flaky_test_evidence ev
      in [(''check_id'', JStr check), (''command'', JStr (strip command)), (''reason'', JStr (flaky_test_triage_reason disposition reason)),
          (''run_count'', JInt (int (length ev))), (''pass_count'', JInt (int p)), (''fail_count'', JInt (int f)),
          (''outcome_sequence'', JList (List.map_filter (\<lambda>x. map_option (JStr \<circ> py_str) (dict_get x ''status'')) ev)),
          (''disposition'', JStr disposition), (''recommended_next_action'', JStr action),
          (''monitor_verdict_policy'', JStr FLAKY_MONITOR_POLICY),
          (''operator_requirements'', JList (map JStr FLAKY_OPERATOR_REQUIREMENTS)), (''evidence'', JList (map JObj ev))])"

section \<open>The validator\<close>

definition TRIAGE_FIELDS :: "string list" where
  "TRIAGE_FIELDS = [''check_id'', ''command'', ''reason'', ''run_count'', ''pass_count'', ''fail_count'', ''outcome_sequence'',
     ''disposition'', ''recommended_next_action'', ''monitor_verdict_policy'', ''operator_requirements'', ''evidence'']"

definition json_int :: "json option \<Rightarrow> int option" where
  "json_int v = (case v of Some (JInt n) \<Rightarrow> Some n | _ \<Rightarrow> None)"

definition is_str :: "json option \<Rightarrow> bool" where
  "is_str v = (case v of Some (JStr _) \<Rightarrow> True | _ \<Rightarrow> False)"

definition nonempty_str :: "json option \<Rightarrow> bool" where
  "nonempty_str v = (case v of Some (JStr s) \<Rightarrow> s \<noteq> [] | _ \<Rightarrow> False)"

definition count_errors :: "string \<Rightarrow> (string, json) dict \<Rightarrow> string \<Rightarrow> string list" where
  "count_errors pre ms f =
     need (case json_int (dict_get ms f) of None \<Rightarrow> False | Some n \<Rightarrow> 0 \<le> n) (pre @ ''.'' @ f @ '' must be a non-negative integer'')"

text \<open>Whether all outcomes are known; the first unknown one ends the test, and a list or object raises.\<close>

fun outcomes_known :: "json list \<Rightarrow> bool option" where
  "outcomes_known [] = Some True"
| "outcomes_known (v # vs) =
     (if \<not> hashable v then None else if is_one_of (Some v) [''passed'', ''failed''] then outcomes_known vs else Some False)"

definition duration_ok :: "json \<Rightarrow> bool" where
  "duration_ok v = (case v of JInt n \<Rightarrow> 0 \<le> n | JFloat t \<Rightarrow> \<not> float_negative t | _ \<Rightarrow> False)"

definition run_errors :: "string \<Rightarrow> nat \<Rightarrow> json \<Rightarrow> string list option" where
  "run_errors pre i v =
     (let pp = index_label (pre @ ''.evidence'') i
      in case v of
           JObj x \<Rightarrow>
             (let st = dict_get x ''status''
              in if (case st of None \<Rightarrow> False | Some s \<Rightarrow> \<not> hashable s) then None
                 else Some (need (positive_int (dict_get x ''run'') \<noteq> None) (pp @ ''.run must be a positive integer'')
                   @ need (is_one_of st [''passed'', ''failed'']) (pp @ ''.status must be passed or failed'')
                   @ need (json_int (dict_get x ''exit_code'') \<noteq> None) (pp @ ''.exit_code must be an integer'')
                   @ need (is_str (dict_get x ''summary'')) (pp @ ''.summary must be a string'')
                   @ need (dict_get x ''timed_out'' = None \<or> is_bool (dict_get x ''timed_out'')) (pp @ ''.timed_out must be a boolean'')
                   @ need (case dict_get x ''duration_seconds'' of None \<Rightarrow> True | Some d \<Rightarrow> duration_ok d)
                       (pp @ ''.duration_seconds must be a non-negative number'')
                   @ need (dict_get x ''stdout_tail'' = None \<or> is_str (dict_get x ''stdout_tail'')) (pp @ ''.stdout_tail must be a string'')
                   @ need (dict_get x ''stderr_tail'' = None \<or> is_str (dict_get x ''stderr_tail'')) (pp @ ''.stderr_tail must be a string'')))
         | _ \<Rightarrow> Some [pp @ '' must be an object''])"

fun all_run_errors :: "string \<Rightarrow> nat \<Rightarrow> json list \<Rightarrow> string list option" where
  "all_run_errors pre i [] = Some []"
| "all_run_errors pre i (v # vs) =
     (case (run_errors pre i v, all_run_errors pre (Suc i) vs) of (Some es, Some fs) \<Rightarrow> Some (es @ fs) | _ \<Rightarrow> None)"

text \<open>The checks that relate the counts to the lists and to the disposition.\<close>

definition disposition_errors :: "string \<Rightarrow> json option \<Rightarrow> int option \<Rightarrow> int option \<Rightarrow> int option \<Rightarrow> string list" where
  "disposition_errors pre disposition rc pc fc =
     (case disposition of
        Some (JStr d) \<Rightarrow>
          (if d = ''deferred_nondeterministic'' then
             (case (pc, fc) of (Some p, Some f) \<Rightarrow> need (1 \<le> p \<and> 1 \<le> f) (pre @ ''.deferred_nondeterministic requires at least one pass and one fail'') | _ \<Rightarrow> [])
           else if d = ''deterministic_failure'' then
             (case (rc, fc) of (Some r, Some f) \<Rightarrow> need (f = r) (pre @ ''.deterministic_failure requires all runs to fail'') | _ \<Rightarrow> [])
           else if d = ''not_reproduced'' then
             (case (rc, pc) of (Some r, Some p) \<Rightarrow> need (p = r) (pre @ ''.not_reproduced requires all runs to pass'') | _ \<Rightarrow> [])
           else if d = ''insufficient_evidence'' then
             (case rc of Some r \<Rightarrow> need (r < 2) (pre @ ''.insufficient_evidence requires fewer than two runs'') | _ \<Rightarrow> [])
           else [])
      | _ \<Rightarrow> [])"

definition triage_errors :: "nat \<Rightarrow> (string, json) dict \<Rightarrow> string list option" where
  "triage_errors i ms =
     (let pre = index_label ''triages'' i; rc = json_int (dict_get ms ''run_count''); pc = json_int (dict_get ms ''pass_count'');
          fc = json_int (dict_get ms ''fail_count''); oseq = list_of (dict_get ms ''outcome_sequence'');
          disposition = dict_get ms ''disposition''; reqs = dict_get ms ''operator_requirements''; ev = list_of (dict_get ms ''evidence'')
      in case (outcomes_known oseq, all_run_errors pre 0 ev) of
           (Some known, Some runs) \<Rightarrow>
             if (case disposition of None \<Rightarrow> False | Some d \<Rightarrow> \<not> hashable d) then None
             else Some
              (concat (map (\<lambda>f. need (dict_get ms f \<noteq> None) (pre @ ''.'' @ f @ '' is required'')) TRIAGE_FIELDS)
               @ need (nonempty_str (dict_get ms ''check_id'')) (pre @ ''.check_id must be a non-empty string'')
               @ need (is_str (dict_get ms ''command'')) (pre @ ''.command must be a string'')
               @ need (nonempty_str (dict_get ms ''reason'')) (pre @ ''.reason must be a non-empty string'')
               @ concat (map (count_errors pre ms) [''run_count'', ''pass_count'', ''fail_count''])
               @ need (rc = None \<or> 1 \<le> the rc) (pre @ ''.run_count must be a positive integer'')
               @ (if oseq = [] then [pre @ ''.outcome_sequence must be a non-empty array'']
                  else need known (pre @ ''.outcome_sequence entries must be passed or failed''))
               @ need (is_one_of disposition FLAKY_DISPOSITIONS) (pre @ ''.disposition is invalid'')
               @ need (dict_get ms ''monitor_verdict_policy'' = Some (JStr FLAKY_MONITOR_POLICY))
                   (pre @ ''.monitor_verdict_policy must be '' @ FLAKY_MONITOR_POLICY)
               @ need (is_list reqs \<and> list_all (\<lambda>v. is_str (Some v)) (list_of reqs)) (pre @ ''.operator_requirements must be an array of strings'')
               @ (if ev = [] then [pre @ ''.evidence must be a non-empty array''] else [])
               @ runs
               @ need (rc = None \<or> rc = Some (int (length oseq))) (pre @ ''.outcome_sequence length must equal run_count'')
               @ need (rc = None \<or> rc = Some (int (length ev))) (pre @ ''.evidence length must equal run_count'')
               @ need (rc = None \<or> pc = None \<or> fc = None \<or> the pc + the fc = the rc) (pre @ ''.pass_count + fail_count must equal run_count'')
               @ disposition_errors pre disposition rc pc fc)
         | _ \<Rightarrow> None)"

fun all_triage_errors :: "nat \<Rightarrow> json list \<Rightarrow> string list option" where
  "all_triage_errors i [] = Some []"
| "all_triage_errors i (v # vs) =
     (case (case v of JObj ms \<Rightarrow> triage_errors i ms | _ \<Rightarrow> Some [index_label ''triages'' i @ '' must be an object''],
            all_triage_errors (Suc i) vs) of
        (Some es, Some fs) \<Rightarrow> Some (es @ fs)
      | _ \<Rightarrow> None)"

definition count_disposition :: "string \<Rightarrow> json list \<Rightarrow> nat" where
  "count_disposition d vs = length (filter (\<lambda>v. jget ''disposition'' v = Some (JStr d)) vs)"

definition flaky_stage_status :: "json list \<Rightarrow> string" where
  "flaky_stage_status vs =
     (if count_disposition ''deferred_nondeterministic'' vs \<noteq> 0 then ''deferred_nondeterministic''
      else if count_disposition ''deterministic_failure'' vs \<noteq> 0 then ''deterministic_failure''
      else if count_disposition ''insufficient_evidence'' vs \<noteq> 0 then ''insufficient_evidence''
      else ''ready'')"

definition flaky_metadata :: "json list \<Rightarrow> (string, json) dict" where
  "flaky_metadata vs =
     [(''triage_count'', JInt (int (length vs))), (''deferred_count'', JInt (int (count_disposition ''deferred_nondeterministic'' vs))),
      (''deterministic_failure_count'', JInt (int (count_disposition ''deterministic_failure'' vs))),
      (''not_reproduced_count'', JInt (int (count_disposition ''not_reproduced'' vs))),
      (''insufficient_evidence_count'', JInt (int (count_disposition ''insufficient_evidence'' vs)))]"

text \<open>The errors of the artifact; it is valid when there are none.\<close>

definition artifact_errors :: "jfile \<Rightarrow> string list option" where
  "artifact_errors f =
     (case f of
        No_file \<Rightarrow> Some [''flaky test triage not found'']
      | Bad_json \<Rightarrow> Some [''cannot read flaky test triage'']
      | Json (JObj ms) \<Rightarrow>
          (let vs = list_of (dict_get ms ''triages'')
           in map_option (\<lambda>es. need (dict_get ms ''schema_version'' = Some (JStr ''1.0'')) ''schema_version must be 1.0''
                @ need (nonempty_str (dict_get ms ''branch'')) ''branch must be a non-empty string''
                @ need (vs \<noteq> []) ''triages must be a non-empty array'' @ es) (all_triage_errors 0 vs))
      | Json _ \<Rightarrow> Some [''flaky test triage must be a JSON object''])"

definition triages_of :: "jfile \<Rightarrow> json list" where
  "triages_of f = (case read_json_file f of None \<Rightarrow> [] | Some ms \<Rightarrow> list_of (dict_get ms ''triages''))"

definition flaky_path :: "triage_env \<Rightarrow> string" where
  "flaky_path e = ''.map/'' @ y_branch e @ ''/flaky_test_triage.json''"

definition validate_flaky_triage :: "triage_env \<Rightarrow> triage_files \<Rightarrow> string list option \<times> triage_files" where
  "validate_flaky_triage e fs =
     (case artifact_errors (ty_file fs) of
        Some [] \<Rightarrow>
          (let vs = triages_of (ty_file fs)
           in case record_stage (y_now e) (y_branch e) ''flaky_test_triage'' (flaky_stage_status vs)
                [artifact_ref (flaky_path e) ''flaky-test-triage''] (flaky_metadata vs) (ty_manifest fs) of
                None \<Rightarrow> (None, fs)
              | Some m \<Rightarrow> (Some [], fs\<lparr>ty_manifest := m\<rparr>))
      | x \<Rightarrow> (x, fs))"

section \<open>Recording\<close>

datatype triage_response = Triage_refused "string list" | Triaged bool string nat nat nat

definition record_flaky_test_triage :: "triage_env \<Rightarrow> string \<Rightarrow> json list \<Rightarrow> string \<Rightarrow> string \<Rightarrow> triage_files
    \<Rightarrow> triage_response option \<times> triage_files" where
  "record_flaky_test_triage e check_id outcomes command reason fs =
     (let check = strip check_id
      in if check = [] then (Some (Triage_refused [''check_id must be a non-empty string'']), fs)
         else (case normalize_flaky_test_evidence e 0 outcomes of
                 None \<Rightarrow> (None, fs)
               | Some (errs, ev) \<Rightarrow>
                   if errs \<noteq> [] then (Some (Triage_refused errs), fs)
                   else if ev = [] then (Some (Triage_refused [''outcomes must include at least one repeated run'']), fs)
                   else
                     (let (disposition, _, p, f) = classify_flaky_test_evidence ev;
                          kept = filter (\<lambda>v. jget ''check_id'' v \<noteq> Some (JStr check)) (triages_of (ty_file fs));
                          fs1 = fs\<lparr>ty_file := Json (JObj [(''schema_version'', JStr ''1.0''), (''branch'', JStr (y_branch e)),
                             (''updated_at'', JStr (y_now e)), (''triages'', JList (kept @ [JObj (triage_payload check command reason ev)]))])\<rparr>
                      in case validate_flaky_triage e fs1 of
                           (None, fs2) \<Rightarrow> (None, fs2)
                         | (Some es, fs2) \<Rightarrow> (Some (Triaged (es = []) disposition p f (length ev)), fs2))))"

end
