(* ===== verification/Runner_Flaky_Props.thy ===== *)
theory Runner_Flaky_Props
  imports Runner_Flaky
begin

text \<open>
  What the triage log promises: whatever is recorded passes the validator, and the disposition says
  what the recorded runs show. The validator alone does not promise the second.
\<close>

section \<open>Normalised runs are valid\<close>

text \<open>Rounding does not make a duration negative.\<close>

definition rounds_sanely :: "triage_env \<Rightarrow> bool" where
  "rounds_sanely e = (\<forall>v. duration_ok v \<longrightarrow> \<not> float_negative (y_round3 e v))"

definition run_ok :: "(string, json) dict \<Rightarrow> bool" where
  "run_ok x = ((\<forall>pre i. run_errors pre i (JObj x) = Some []) \<and> (\<exists>st \<in> {''passed'', ''failed''}. dict_get x ''status'' = Some (JStr st)))"

lemma outcome_status_ok: "outcome_status i raw = ([], st, n) \<Longrightarrow> st \<in> {''passed'', ''failed''}"
  by (auto simp: outcome_status_def Let_def STATUS_ALIASES_def split: option.splits json.splits if_splits)

lemma run_number_ok: "run_number i raw = ([], n) \<Longrightarrow> 1 \<le> n"
  by (auto simp: run_number_def Let_def positive_int_def split: option.splits json.splits if_splits)

lemma timed_out_ok: "timed_out_field i raw = ([], d) \<Longrightarrow> d = [] \<or> (\<exists>b. d = [(''timed_out'', JBool b)])"
  by (auto simp: timed_out_field_def split: option.splits json.splits)

lemma tail_ok: "tail_field i raw f = ([], d) \<Longrightarrow> d = [] \<or> (\<exists>s. d = [(f, JStr s)])"
  by (auto simp: tail_field_def split: option.splits json.splits)

lemma duration_field_ok:
  "duration_field e i raw = Some ([], d) \<Longrightarrow> rounds_sanely e \<Longrightarrow>
     d = [] \<or> (\<exists>t. d = [(''duration_seconds'', JFloat t)] \<and> \<not> float_negative t)"
  by (auto simp: duration_field_def Let_def rounds_sanely_def duration_ok_def split: option.splits json.splits if_splits)

lemma outcome_ok:
  assumes "normalize_outcome e i v = Some ([], xs)" "rounds_sanely e"
  shows "list_all run_ok xs"
proof (cases v)
  case (JObj raw)
  obtain re run where r: "run_number i raw = (re, run)" by (metis surj_pair)
  obtain se st code where s: "outcome_status i raw = (se, st, code)" by (metis surj_pair)
  obtain te td where t: "timed_out_field i raw = (te, td)" by (metis surj_pair)
  obtain oe out where o: "tail_field i raw ''stdout_tail'' = (oe, out)" by (metis surj_pair)
  obtain ee err where e: "tail_field i raw ''stderr_tail'' = (ee, err)" by (metis surj_pair)
  obtain d where d: "duration_field e i raw = Some ([], d)" and nil: "re = []" "se = []" "te = []" "oe = []" "ee = []"
    and xs: "xs = [[(''run'', JInt run), (''status'', JStr st), (''exit_code'', JInt code), (''summary'', JStr (summary_of raw st))] @ td @ d @ out @ err]"
    using assms(1) JObj by (auto simp: normalize_outcome_def r s t o e)
  note ok = run_number_ok [OF r [unfolded nil]] outcome_status_ok [OF s [unfolded nil]] timed_out_ok [OF t [unfolded nil]]
    tail_ok [OF o [unfolded nil]] tail_ok [OF e [unfolded nil]] duration_field_ok [OF d assms(2)]
  show ?thesis
    unfolding xs using ok
    by (auto simp: run_ok_def run_errors_def Let_def hashable_def positive_int_def is_one_of_def json_int_def is_str_def is_bool_def duration_ok_def)
qed (use assms in \<open>simp_all add: normalize_outcome_def\<close>)

lemma normalized_runs_ok: "normalize_flaky_test_evidence e i vs = Some ([], ev) \<Longrightarrow> rounds_sanely e \<Longrightarrow> list_all run_ok ev"
proof (induction vs arbitrary: i ev)
  case (Cons v vs)
  then obtain x xs where "normalize_outcome e i v = Some ([], x)" "normalize_flaky_test_evidence e (Suc i) vs = Some ([], xs)" "ev = x @ xs"
    by (auto split: option.splits prod.splits)
  with Cons show ?case using outcome_ok by fastforce
qed simp

section \<open>Recorded triages are valid\<close>

lemma filter_all_length: "length (filter P xs) = length xs \<longleftrightarrow> list_all P xs"
  using sum_length_filter_compl [of P xs] by (auto simp: list_all_iff filter_empty_conv)

lemma counts_add: "list_all run_ok ev \<Longrightarrow> count_runs ''passed'' ev + count_runs ''failed'' ev = length ev"
proof (induction ev)
  case (Cons x ev)
  then show ?case by (auto simp: count_runs_def run_ok_def)
qed (simp add: count_runs_def)

lemma statuses: "list_all run_ok ev \<Longrightarrow> length (List.map_filter (\<lambda>x. map_option (JStr \<circ> py_str) (dict_get x ''status'')) ev) = length ev
    \<and> outcomes_known (List.map_filter (\<lambda>x. map_option (JStr \<circ> py_str) (dict_get x ''status'')) ev) = Some True"
  by (induction ev) (auto simp: run_ok_def map_filter_simps hashable_def is_one_of_def py_str_def)

lemma all_runs: "list_all run_ok ev \<Longrightarrow> all_run_errors pre i (map JObj ev) = Some []"
  by (induction ev arbitrary: i) (simp_all add: run_ok_def)

lemma count_pos: "0 < count_runs st ev \<longleftrightarrow> (\<exists>x \<in> set ev. dict_get x ''status'' = Some (JStr st))"
  by (auto simp: count_runs_def filter_empty_conv)

lemma classify_disposition:
  assumes "classify_flaky_test_evidence ev = (d, a, p, f)"
  shows "d = (if length ev < 2 then ''insufficient_evidence''
    else if 0 < count_runs ''passed'' ev \<and> 0 < count_runs ''failed'' ev then ''deferred_nondeterministic''
    else if count_runs ''failed'' ev = length ev then ''deterministic_failure'' else ''not_reproduced'')"
proof -
  have "d = fst (classify_flaky_test_evidence ev)" using assms by simp
  also have "\<dots> = (if length ev < 2 then ''insufficient_evidence''
    else if 0 < count_runs ''passed'' ev \<and> 0 < count_runs ''failed'' ev then ''deferred_nondeterministic''
    else if count_runs ''failed'' ev = length ev then ''deterministic_failure'' else ''not_reproduced'')"
    unfolding classify_flaky_test_evidence_def Let_def by (simp only: if_distrib [of fst] fst_conv)
  finally show ?thesis .
qed

text \<open>A triage as the code records it.\<close>

definition recorded :: "json \<Rightarrow> bool" where
  "recorded v = (\<exists>check command reason ev. v = JObj (triage_payload check command reason ev) \<and> check \<noteq> [] \<and> ev \<noteq> [] \<and> list_all run_ok ev)"

lemma reason_nonempty: "flaky_test_triage_reason d r \<noteq> []"
  by (simp add: flaky_test_triage_reason_def)

lemma recorded_valid:
  assumes "check \<noteq> []" "ev \<noteq> []" "list_all run_ok ev"
  shows "triage_errors i (triage_payload check command reason ev) = Some []"
proof -
  obtain d a p f where c: "classify_flaky_test_evidence ev = (d, a, p, f)" by (metis prod_cases4)
  have pf: "p = count_runs ''passed'' ev" "f = count_runs ''failed'' ev"
    using c by (auto simp: classify_flaky_test_evidence_def Let_def split: if_splits)
  have sum: "p + f = length ev" using counts_add [OF assms(3)] pf by simp
  have len: "0 < length ev" using assms(2) by simp
  have d: "d \<in> set FLAKY_DISPOSITIONS"
    "disposition_errors pre (Some (JStr d)) (Some (int (length ev))) (Some (int p)) (Some (int f)) = []" for pre
    using c sum len by (auto simp: classify_flaky_test_evidence_def FLAKY_DISPOSITIONS_def disposition_errors_def Let_def pf split: if_splits)
  have one: "Suc 0 \<le> length ev" using len by linarith
  have oseq: "List.map_filter (\<lambda>x. map_option (JStr \<circ> py_str) (dict_get x ''status'')) ev \<noteq> []"
    using statuses [OF assms(3)] len by auto
  show ?thesis
    unfolding triage_payload_def triage_errors_def c Let_def prod.case
    using assms(1,2) d oseq statuses [OF assms(3)] all_runs [OF assms(3)] reason_nonempty sum len one
    by (simp add: hashable_def TRIAGE_FIELDS_def nonempty_str_def is_str_def count_errors_def json_int_def is_one_of_def is_list_def
        FLAKY_OPERATOR_REQUIREMENTS_def)
qed

lemma all_recorded_valid: "list_all recorded vs \<Longrightarrow> all_triage_errors i vs = Some []"
proof (induction vs arbitrary: i)
  case (Cons v vs)
  then obtain check command reason ev where "v = JObj (triage_payload check command reason ev)" "check \<noteq> []" "ev \<noteq> []" "list_all run_ok ev"
    by (auto simp: recorded_def)
  with Cons recorded_valid show ?case by simp
qed simp

definition triage_log :: "triage_files \<Rightarrow> json list \<Rightarrow> bool" where
  "triage_log fs vs =
     (list_all recorded vs
      \<and> (ty_file fs = No_file \<and> vs = []
         \<or> vs \<noteq> [] \<and> (\<exists>b u. b \<noteq> [] \<and> ty_file fs = Json (JObj [(''schema_version'', JStr ''1.0''), (''branch'', JStr b), (''updated_at'', u), (''triages'', JList vs)]))))"

lemma triages_of_log: "triage_log fs vs \<Longrightarrow> triages_of (ty_file fs) = vs"
  by (auto simp: triage_log_def triages_of_def read_json_file_def)

lemma log_accepted:
  assumes "triage_log fs vs" "vs \<noteq> []"
  shows "\<exists>m. validate_flaky_triage e fs = (Some [], fs\<lparr>ty_manifest := m\<rparr>)"
proof -
  have "artifact_errors (ty_file fs) = Some []"
    using assms all_recorded_valid [of vs 0] by (auto simp: triage_log_def artifact_errors_def Let_def nonempty_str_def)
  moreover have "''flaky_test_triage'' \<in> set ARTIFACT_STAGE_NAMES" by (simp add: ARTIFACT_STAGE_NAMES_def)
  from record_stage_frame [OF this] obtain m where "record_stage (y_now e) (y_branch e) ''flaky_test_triage'' (flaky_stage_status (triages_of (ty_file fs)))
      [artifact_ref (flaky_path e) ''flaky-test-triage''] (flaky_metadata (triages_of (ty_file fs))) (ty_manifest fs) = Some m" by blast
  ultimately have "validate_flaky_triage e fs = (Some [], fs\<lparr>ty_manifest := m\<rparr>)" by (simp add: validate_flaky_triage_def Let_def)
  then show ?thesis by blast
qed

lemma record_triage:
  assumes log: "triage_log fs vs" and e: "rounds_sanely e" "y_branch e \<noteq> []"
  shows "(\<exists>r. record_flaky_test_triage e check_id outcomes command reason fs = (r, fs) \<and> (r = None \<or> (\<exists>es. r = Some (Triage_refused es))))
    \<or> (\<exists>fs' ev d a p f. normalize_flaky_test_evidence e 0 outcomes = Some ([], ev) \<and> classify_flaky_test_evidence ev = (d, a, p, f)
         \<and> list_all run_ok ev
         \<and> record_flaky_test_triage e check_id outcomes command reason fs = (Some (Triaged True d p f (length ev)), fs')
         \<and> triage_log fs' (filter (\<lambda>v. jget ''check_id'' v \<noteq> Some (JStr (strip check_id))) vs
             @ [JObj (triage_payload (strip check_id) command reason ev)]))"
proof -
  consider "strip check_id = []" | "normalize_flaky_test_evidence e 0 outcomes = None"
    | errs ev where "strip check_id \<noteq> []" "normalize_flaky_test_evidence e 0 outcomes = Some (errs, ev)" "errs \<noteq> [] \<or> ev = []"
    | ev where "strip check_id \<noteq> []" "normalize_flaky_test_evidence e 0 outcomes = Some ([], ev)" "ev \<noteq> []"
    by (metis surj_pair not_Some_eq)
  then show ?thesis
  proof cases
    case (4 ev)
    obtain d a p f where c: "classify_flaky_test_evidence ev = (d, a, p, f)" by (metis prod_cases4)
    note ok = normalized_runs_ok [OF 4(2) e(1)]
    let ?vs = "filter (\<lambda>v. jget ''check_id'' v \<noteq> Some (JStr (strip check_id))) vs @ [JObj (triage_payload (strip check_id) command reason ev)]"
    let ?fs = "fs\<lparr>ty_file := Json (JObj [(''schema_version'', JStr ''1.0''), (''branch'', JStr (y_branch e)), (''updated_at'', JStr (y_now e)), (''triages'', JList ?vs)])\<rparr>"
    have "recorded (JObj (triage_payload (strip check_id) command reason ev))" using 4 ok by (auto simp: recorded_def)
    then have "triage_log ?fs ?vs" using log e(2) by (auto simp: triage_log_def list_all_iff)
    with log_accepted [OF this, of e] obtain m where m: "validate_flaky_triage e ?fs = (Some [], ?fs\<lparr>ty_manifest := m\<rparr>)" by auto
    have "record_flaky_test_triage e check_id outcomes command reason fs = (Some (Triaged True d p f (length ev)), ?fs\<lparr>ty_manifest := m\<rparr>)"
      unfolding record_flaky_test_triage_def Let_def triages_of_log [OF log] c prod.case 4(2) option.case using 4 m by simp
    moreover have "triage_log (?fs\<lparr>ty_manifest := m\<rparr>) ?vs" using \<open>triage_log ?fs ?vs\<close> by (simp add: triage_log_def)
    ultimately show ?thesis using 4(2) c ok by blast
  qed (auto simp: record_flaky_test_triage_def Let_def)
qed

section \<open>Reachable logs\<close>

definition no_triage :: "triage_files \<Rightarrow> bool" where
  "no_triage fs = (ty_file fs = No_file)"

definition triage_step :: "triage_files \<Rightarrow> triage_files \<Rightarrow> bool" where
  "triage_step fs fs' = (\<exists>e c os cmd r. rounds_sanely e \<and> y_branch e \<noteq> [] \<and> snd (record_flaky_test_triage e c os cmd r fs) = fs')"

interpretation triage: invariant_machine no_triage triage_step "\<lambda>fs. \<exists>vs. triage_log fs vs"
proof
  show "no_triage fs \<Longrightarrow> \<exists>vs. triage_log fs vs" for fs by (auto simp: no_triage_def triage_log_def)
  show "\<exists>vs. triage_log fs vs \<Longrightarrow> triage_step fs fs' \<Longrightarrow> \<exists>vs. triage_log fs' vs" for fs fs'
  proof (elim exE)
    fix vs assume L: "triage_log fs vs" and "triage_step fs fs'"
    then obtain e c os cmd r where "rounds_sanely e" "y_branch e \<noteq> []" "snd (record_flaky_test_triage e c os cmd r fs) = fs'"
      by (auto simp: triage_step_def)
    with record_triage [OF L this(1,2), of c os cmd r] L show "\<exists>vs. triage_log fs' vs" by (metis snd_conv)
  qed
qed

text \<open>The runs a triage rests on.\<close>

definition runs_of :: "json \<Rightarrow> (string, json) dict list" where
  "runs_of v = objects_of (list_of (jget ''evidence'' v))"

lemma recorded_fields:
  assumes "recorded v"
  shows "\<exists>a p f d. classify_flaky_test_evidence (runs_of v) = (d, a, p, f) \<and> jget ''disposition'' v = Some (JStr d)
    \<and> jget ''pass_count'' v = Some (JInt (int p)) \<and> jget ''fail_count'' v = Some (JInt (int f))
    \<and> jget ''run_count'' v = Some (JInt (int (length (runs_of v)))) \<and> runs_of v \<noteq> [] \<and> list_all run_ok (runs_of v)"
proof -
  obtain check command reason ev where v: "v = JObj (triage_payload check command reason ev)" "ev \<noteq> []" "list_all run_ok ev"
    using assms by (auto simp: recorded_def)
  obtain d a p f where c: "classify_flaky_test_evidence ev = (d, a, p, f)" by (metis prod_cases4)
  have "runs_of v = ev" by (simp add: runs_of_def v triage_payload_def c)
  with v c show ?thesis by (simp add: triage_payload_def)
qed

lemma deferred_runs:
  assumes "recorded v" "jget ''disposition'' v = Some (JStr ''deferred_nondeterministic'')"
  shows "\<exists>x \<in> set (runs_of v). \<exists>y \<in> set (runs_of v). dict_get x ''status'' = Some (JStr ''passed'') \<and> dict_get y ''status'' = Some (JStr ''failed'')"
proof -
  from recorded_fields [OF assms(1)] obtain a p f d where c: "classify_flaky_test_evidence (runs_of v) = (d, a, p, f)"
    and d: "jget ''disposition'' v = Some (JStr d)" by blast
  have "0 < count_runs ''passed'' (runs_of v) \<and> 0 < count_runs ''failed'' (runs_of v)"
    using classify_disposition [OF c] d assms(2) by (auto split: if_splits)
  then show ?thesis unfolding count_pos by blast
qed

text \<open>
  In every triage log that recording can lead to, recording a check again is refused
  without effect, or raises without effect, or is accepted by the validator; then the log holds
  the new triage last, no other triage of the check, and all others as they were.
\<close>
theorem triage_is_accepted:
  assumes "reachable_from no_triage triage_step fs" "rounds_sanely e" "y_branch e \<noteq> []"
  shows "(\<exists>r. record_flaky_test_triage e check_id outcomes command reason fs = (r, fs) \<and> (r = None \<or> (\<exists>es. r = Some (Triage_refused es))))
    \<or> (\<exists>fs' d p f n t. record_flaky_test_triage e check_id outcomes command reason fs = (Some (Triaged True d p f n), fs')
         \<and> triages_of (ty_file fs') = filter (\<lambda>v. jget ''check_id'' v \<noteq> Some (JStr (strip check_id))) (triages_of (ty_file fs)) @ [t]
         \<and> jget ''check_id'' t = Some (JStr (strip check_id)) \<and> jget ''disposition'' t = Some (JStr d))"
proof -
  obtain vs where L: "triage_log fs vs" using triage.reachable_inv [OF assms(1)] by blast
  from record_triage [OF L assms(2,3), of check_id outcomes command reason] show ?thesis
  proof
    assume "\<exists>fs' ev d a p f. normalize_flaky_test_evidence e 0 outcomes = Some ([], ev) \<and> classify_flaky_test_evidence ev = (d, a, p, f)
         \<and> list_all run_ok ev
         \<and> record_flaky_test_triage e check_id outcomes command reason fs = (Some (Triaged True d p f (length ev)), fs')
         \<and> triage_log fs' (filter (\<lambda>v. jget ''check_id'' v \<noteq> Some (JStr (strip check_id))) vs
             @ [JObj (triage_payload (strip check_id) command reason ev)])"
    then obtain fs' ev d a p f where c: "classify_flaky_test_evidence ev = (d, a, p, f)"
      and r: "record_flaky_test_triage e check_id outcomes command reason fs = (Some (Triaged True d p f (length ev)), fs')"
      and l: "triage_log fs' (filter (\<lambda>v. jget ''check_id'' v \<noteq> Some (JStr (strip check_id))) vs @ [JObj (triage_payload (strip check_id) command reason ev)])"
      by blast
    let ?t = "JObj (triage_payload (strip check_id) command reason ev)"
    have t: "jget ''check_id'' ?t = Some (JStr (strip check_id))" "jget ''disposition'' ?t = Some (JStr d)"
      by (simp_all add: triage_payload_def c)
    then show ?thesis using r triages_of_log [OF l] triages_of_log [OF L] by blast
  qed blast
qed

definition sample_triage_env :: triage_env where
  "sample_triage_env = \<lparr>y_branch = ''b'', y_now = ''t'', y_round3 = (\<lambda>_. ''0.0'')\<rparr>"

definition sample_triage :: triage_files where
  "sample_triage = snd (record_flaky_test_triage sample_triage_env ''c'' [JObj [(''exit_code'', JInt 0)], JObj [(''exit_code'', JInt 1)]] [] []
     \<lparr>ty_file = No_file, ty_manifest = No_file\<rparr>)"

lemma sample_triage_env_ok: "rounds_sanely sample_triage_env" "y_branch sample_triage_env \<noteq> []"
proof -
  have "\<not> float_negative ''0.0''" by code_simp
  then show "rounds_sanely sample_triage_env" "y_branch sample_triage_env \<noteq> []" by (simp_all add: rounds_sanely_def sample_triage_env_def)
qed

lemma sample_triage_reachable: "reachable_from no_triage triage_step sample_triage"
proof -
  have "triage_step fs (snd (record_flaky_test_triage sample_triage_env c os cmd r fs))" for fs c os cmd r
    unfolding triage_step_def using sample_triage_env_ok by blast
  moreover have "no_triage \<lparr>ty_file = No_file, ty_manifest = No_file\<rparr>" by (simp add: no_triage_def)
  ultimately show ?thesis unfolding sample_triage_def by (rule reachable_from.reach_step [OF reachable_from.reach_start, rotated])
qed

theorem triage_is_accepted_witness:
  "\<exists>fs' t. triages_of (ty_file fs') = [t] \<and> jget ''disposition'' t = Some (JStr ''insufficient_evidence'')
     \<and> snd (record_flaky_test_triage sample_triage_env ''c'' [JObj [(''status'', JStr ''ok'')]] [] [] sample_triage) = fs'"
proof -
  have "case fst (record_flaky_test_triage sample_triage_env ''c'' [JObj [(''status'', JStr ''ok'')]] [] [] sample_triage) of
      Some (Triaged b d p f n) \<Rightarrow> d = ''insufficient_evidence'' | _ \<Rightarrow> False" by code_simp
  moreover have "list_all (\<lambda>v. jget ''check_id'' v = Some (JStr (strip ''c''))) (triages_of (ty_file sample_triage))" by code_simp
  then have "filter (\<lambda>v. jget ''check_id'' v \<noteq> Some (JStr (strip ''c''))) (triages_of (ty_file sample_triage)) = []"
    by (simp add: list_all_iff filter_empty_conv)
  ultimately show ?thesis
    using triage_is_accepted [OF sample_triage_reachable sample_triage_env_ok, of "''c''" "[JObj [(''status'', JStr ''ok'')]]" "[]" "[]"] by fastforce
qed

text \<open>
  Claim C26. Recorded triages say what the runs show. In every log that recording can lead to, a
  triage counts exactly the passing and failing runs of its own evidence, and it is deferred as
  nondeterministic exactly when it has a passing and a failing run, a deterministic failure
  exactly when at least two runs all failed, and incomplete exactly with a single run.
\<close>
theorem triages_are_honest:
  assumes "reachable_from no_triage triage_step fs" "v \<in> set (triages_of (ty_file fs))"
  shows "let runs = runs_of v; passed = (\<lambda>x. dict_get x ''status'' = Some (JStr ''passed'')); failed = (\<lambda>x. dict_get x ''status'' = Some (JStr ''failed''))
    in runs \<noteq> [] \<and> list_all (\<lambda>x. passed x \<or> failed x) runs
     \<and> jget ''pass_count'' v = Some (JInt (int (length (filter passed runs)))) \<and> jget ''fail_count'' v = Some (JInt (int (length (filter failed runs))))
     \<and> (jget ''disposition'' v = Some (JStr ''deferred_nondeterministic'') \<longleftrightarrow> list_ex passed runs \<and> list_ex failed runs)
     \<and> (jget ''disposition'' v = Some (JStr ''deterministic_failure'') \<longleftrightarrow> 2 \<le> length runs \<and> list_all failed runs)
     \<and> (jget ''disposition'' v = Some (JStr ''insufficient_evidence'') \<longleftrightarrow> length runs = 1)"
proof -
  obtain vs where "triage_log fs vs" using triage.reachable_inv [OF assms(1)] by blast
  then have "recorded v" using assms(2) by (auto simp: triages_of_log triage_log_def list_all_iff)
  from recorded_fields [OF this] obtain a p f d where c: "classify_flaky_test_evidence (runs_of v) = (d, a, p, f)"
    and g: "jget ''disposition'' v = Some (JStr d)" "jget ''pass_count'' v = Some (JInt (int p))" "jget ''fail_count'' v = Some (JInt (int f))"
    and ok: "runs_of v \<noteq> []" "list_all run_ok (runs_of v)" by blast
  let ?runs = "runs_of v"
  have pf: "p = count_runs ''passed'' ?runs" "f = count_runs ''failed'' ?runs"
    using c by (auto simp: classify_flaky_test_evidence_def Let_def split: if_splits)
  have sum: "count_runs ''passed'' ?runs + count_runs ''failed'' ?runs = length ?runs" using counts_add [OF ok(2)] .
  have two: "0 < count_runs ''passed'' ?runs \<and> 0 < count_runs ''failed'' ?runs \<Longrightarrow> 2 \<le> length ?runs" using sum by linarith
  have known: "list_all (\<lambda>x. dict_get x ''status'' = Some (JStr ''passed'') \<or> dict_get x ''status'' = Some (JStr ''failed'')) ?runs"
    using ok(2) by (auto simp: list_all_iff run_ok_def)
  have fails: "count_runs ''failed'' ?runs = length ?runs \<longleftrightarrow> list_all (\<lambda>x. dict_get x ''status'' = Some (JStr ''failed'')) ?runs"
    by (simp add: count_runs_def filter_all_length)
  have len: "length ?runs \<noteq> 0" using ok(1) by simp
  note d = classify_disposition [OF c]
  have ex: "list_ex (\<lambda>x. dict_get x ''status'' = Some (JStr st)) ?runs \<longleftrightarrow> 0 < count_runs st ?runs" for st
    by (simp add: count_pos list_ex_iff)
  have "d = ''deferred_nondeterministic'' \<longleftrightarrow> 0 < count_runs ''passed'' ?runs \<and> 0 < count_runs ''failed'' ?runs" using two len by (auto simp: d)
  moreover have "d = ''deterministic_failure'' \<longleftrightarrow> 2 \<le> length ?runs \<and> count_runs ''failed'' ?runs = length ?runs" using sum by (auto simp: d)
  moreover have "d = ''insufficient_evidence'' \<longleftrightarrow> length ?runs < 2" by (simp add: d)
  moreover have "length ?runs < 2 \<longleftrightarrow> length ?runs = 1" using len by linarith
  ultimately show ?thesis
    unfolding Let_def ex fails [symmetric] g using ok(1) known by (simp add: pf count_runs_def)
qed

theorem triages_are_honest_witness:
  "\<exists>v. triages_of (ty_file sample_triage) = [v] \<and> length (runs_of v) = 2 \<and> list_ex (\<lambda>x. dict_get x ''status'' = Some (JStr ''passed'')) (runs_of v)"
proof -
  have "map (\<lambda>v. (jget ''disposition'' v, length (runs_of v))) (triages_of (ty_file sample_triage)) = [(Some (JStr ''deferred_nondeterministic''), 2)]" by code_simp
  then obtain v where v: "triages_of (ty_file sample_triage) = [v]" "jget ''disposition'' v = Some (JStr ''deferred_nondeterministic'')" "length (runs_of v) = 2"
    by auto
  with triages_are_honest [OF sample_triage_reachable, of v] show ?thesis by (simp add: Let_def)
qed

text \<open>
  The validator does not compare the counts with the runs: an artifact whose runs all failed
  passes as deferred and nondeterministic.
\<close>

definition forged :: jfile where
  "forged = Json (JObj [(''schema_version'', JStr ''1.0''), (''branch'', JStr ''b''), (''triages'', JList [JObj
     [(''check_id'', JStr ''c''), (''command'', JStr []), (''reason'', JStr ''r''), (''run_count'', JInt 2), (''pass_count'', JInt 1), (''fail_count'', JInt 1),
      (''outcome_sequence'', JList [JStr ''failed'', JStr ''failed'']), (''disposition'', JStr ''deferred_nondeterministic''),
      (''recommended_next_action'', JStr []), (''monitor_verdict_policy'', JStr FLAKY_MONITOR_POLICY), (''operator_requirements'', JList []),
      (''evidence'', JList (map (\<lambda>n. JObj [(''run'', JInt n), (''status'', JStr ''failed''), (''exit_code'', JInt 1), (''summary'', JStr [])]) [1, 2]))]])])"

lemma forged_triage_validates: "artifact_errors forged = Some []"
  by code_simp

end
