(* ===== verification/Runner_Gates.thy ===== *)
theory Runner_Gates
  imports Orch_Gates Runner_Research_Props Runner_Scope_Props Runner_Flaky_Props
begin

text \<open>
  The orchestrator with the checks of the step runner in place: the research step, the mutation
  boundary of the Monitor step and the deferral of flaky checks.
\<close>

section \<open>The composition\<close>

text \<open>
  The files the two programs share. A check that raises ends the command without an answer; it is
  represented as a check that does not pass.
\<close>

record runner_world =
  w_branch :: string
  w_research :: research_env
  w_scope :: scope_env
  w_files :: scope_files
  w_triage :: "string \<Rightarrow> jfile"

definition research_errors :: "runner_world \<Rightarrow> string \<Rightarrow> string list" where
  "research_errors w sid =
     (case validate_research_report (w_research w) (w_branch w) sid None of None \<Rightarrow> [''exception''] | Some es \<Rightarrow> es)"

definition boundary_result :: "runner_world \<Rightarrow> string \<Rightarrow> scope_result" where
  "boundary_result w sid =
     (case fst (validate_boundary (w_scope w) sid None (w_files w)) of
        Some (Inr r) \<Rightarrow> \<lparr>sc_status = b_status r, sc_strict = b_strict r, sc_unexpected = b_unexpected r,
          sc_expected = b_expected r, sc_actual = b_actual r\<rparr>
      | _ \<Rightarrow> \<lparr>sc_status = ''error'', sc_strict = False, sc_unexpected = [], sc_expected = [], sc_actual = []\<rparr>)"

definition triage_result :: "runner_world \<Rightarrow> string \<Rightarrow> string list" where
  "triage_result w path = (case artifact_errors (w_triage w path) of None \<Rightarrow> [''exception''] | Some es \<Rightarrow> es)"

definition doc_of :: "jfile \<Rightarrow> json doc_file" where
  "doc_of f = (case f of No_file \<Rightarrow> Absent | Bad_json \<Rightarrow> Unparsable | Json v \<Rightarrow> Parsed v)"

definition with_runner :: "runner_world \<Rightarrow> orch_env \<Rightarrow> orch_env" where
  "with_runner w e = e\<lparr>validate_research := Some (research_errors w), validate_mutation_boundary := Some (boundary_result w),
     validate_flaky_test_triage := Some (triage_result w), read_json := (\<lambda>p. doc_of (w_triage w p))\<rparr>"

lemma load_with_runner [simp]: "load (with_runner w e) d = load e d"
  by (simp add: load_def with_runner_def split: doc_file.splits)

lemma deferred_triage:
  assumes "load_deferred_flaky_triage (with_runner w e) p c = Inr t"
  shows "t \<in> set (triages_of (w_triage w p))" "jget ''check_id'' t = Some (JStr c)"
    "jget ''disposition'' t = Some (JStr DEFERRED_NONDETERMINISTIC_STATUS)"
proof -
  define hit where "hit = (\<lambda>item. (case item of JObj _ \<Rightarrow> True | _ \<Rightarrow> False) \<and> jget ''check_id'' item = Some (JStr c)
    \<and> jget ''disposition'' item = Some (JStr DEFERRED_NONDETERMINISTIC_STATUS))"
  note l = assms [unfolded load_deferred_flaky_triage_def hit_def [symmetric] Let_def]
  obtain v where v: "w_triage w p = Json v"
    using l by (cases "w_triage w p") (auto simp: with_runner_def doc_of_def split: if_splits)
  obtain ms where ms: "v = JObj ms" using l v by (cases v) (auto simp: with_runner_def doc_of_def split: if_splits)
  obtain items where items: "dict_get ms ''triages'' = Some (JList items)"
    using l by (cases "dict_get ms ''triages''"; cases "the (dict_get ms ''triages'')") (auto simp: v ms with_runner_def doc_of_def split: if_splits)
  have "filter hit items \<noteq> []" "t = last (filter hit items)"
    using l by (auto simp: v ms items with_runner_def doc_of_def split: if_splits)
  then have "t \<in> set items" "hit t" using last_in_set [of "filter hit items"] by auto
  then show "t \<in> set (triages_of (w_triage w p))" "jget ''check_id'' t = Some (JStr c)"
    "jget ''disposition'' t = Some (JStr DEFERRED_NONDETERMINISTIC_STATUS)"
    by (simp_all add: v ms items triages_of_def read_json_file_def hit_def)
qed

text \<open>One world for the examples: a research artefact, a declared change and a deferred check.\<close>

definition sample_research :: string where
  "sample_research = quoted (''{`status`:`OK`,`confidence`:1,`search_stats`:{`files_scanned`:0,`total_matches_found`:0,`results_truncated`:false},''
     @ ''`relevant_locations`:[{`path`:`a`,`absent`:true,`lines`:[1,1],`relevance`:`x`}]}'')"

definition sample_world :: runner_world where
  "sample_world = \<lparr>w_branch = ''b'',
     w_research = \<lparr>project_node = (\<lambda>_. None), research_dir = (\<lambda>_. Some [(''ST-2__actor.md'', File_node (Some sample_research))]),
       loads_msg = (\<lambda>_. []), read_msg = (\<lambda>_. [])\<rparr>,
     w_scope = sample_scope\<lparr>strict_scope := Some ''1''\<rparr>,
     w_files = sample_branch\<lparr>blueprint_doc := Json (JObj [(''subtasks'', JList [JObj [(''id'', JStr ''ST-2''), (''affected_files'', JList [JStr ''a.py''])]])])\<rparr>,
     w_triage = (\<lambda>_. ty_file sample_triage)\<rparr>"

section \<open>Properties\<close>

text \<open>
  Claim C22. The Actor starts from grounded research. When the research step of a subtask validates,
  the subtask has a research artefact, and every artefact of it is strict JSON with at most five
  locations. Each location gives a path inside the project and a range of at most 200 lines; where
  the path is a file that has lines and can be read as UTF-8, the range is one of its lines, and
  where nothing is there the location is marked as absent. A range in an empty or unreadable file
  is accepted whatever it is: the code compares it only with a line count other than zero.
\<close>

theorem research_step_is_grounded:
  assumes "validate_step (with_runner w e) ''2.2'' a d = (VOk nxt moved skipped rem warning, d')"
    and "nonempty (current_subtask_id (load e d)) = Some sid"
    and "research_dir (w_research w) (sanitize_branch_name (w_branch w)) = Some dir"
  shows "artifact_names sid dir \<noteq> {}
    \<and> (\<forall>n \<in> artifact_names sid dir. \<exists>tx ms ls. dict_get dir n = Some (File_node (Some tx))
         \<and> json_loads (strip (universal_newlines tx)) = Some (JObj ms) \<and> dict_get ms ''relevant_locations'' = Some (JList ls)
         \<and> length ls \<le> 5 \<and> list_all (grounded (w_research w)) ls)"
proof -
  let ?e = "with_runner w e"
  obtain st1 where g: "init_state_gate ''2.2'' d (close_pending_actor ''2.2'' (load ?e d)) = Inr st1" "research_gate ?e ''2.2'' st1 = None"
    using run_gates_VOk [OF validate_VOk(2) [OF assms(1)]] by metis
  have "current_subtask_id st1 = current_subtask_id (load e d)" using init_state_gate_other [OF _ g(1)] by simp
  then have "research_errors w sid = []"
    using g(2) assms(2) by (auto simp: research_gate_def with_runner_def Let_def split: if_splits)
  then have "validate_research_report (w_research w) (w_branch w) sid None = Some []"
    by (auto simp: research_errors_def split: option.splits)
  from this [unfolded report_exact [OF assms(3)]] show ?thesis unfolding artifact_ok_def by blast
qed

theorem research_step_is_grounded_witness:
  "\<exists>tx ms ls. dict_get [(''ST-2__actor.md'', File_node (Some sample_research))] ''ST-2__actor.md'' = Some (File_node (Some tx))
     \<and> json_loads (strip (universal_newlines tx)) = Some (JObj ms) \<and> dict_get ms ''relevant_locations'' = Some (JList ls)
     \<and> list_all (grounded (w_research sample_world)) ls"
proof -
  let ?v = "validate_step (with_runner sample_world bare_env) ''2.2'' proceed at_research" and ?dir = "[(''ST-2__actor.md'', File_node (Some sample_research))]"
  have "case fst ?v of VOk nxt moved skipped rem warning \<Rightarrow> True | _ \<Rightarrow> False" by code_simp
  then obtain nxt moved skipped rem warning d' where v: "?v = (VOk nxt moved skipped rem warning, d')" by (cases ?v; cases "fst ?v") auto
  have s: "nonempty (current_subtask_id (load bare_env at_research)) = Some ''ST-2''" by code_simp
  have d: "research_dir (w_research sample_world) (sanitize_branch_name (w_branch sample_world)) = Some ?dir" by (simp add: sample_world_def)
  have "n \<in> artifact_names ''ST-2'' ?dir \<Longrightarrow> n = ''ST-2__actor.md''" for n by (simp add: artifact_names_def dict_keys_def)
  with research_step_is_grounded [OF v s d] show ?thesis by blast
qed

text \<open>
  In strict mode a Monitor step that validates stays inside the plan. When the boundary
  check could be made, every path the subtask changed is declared for it in the blueprint or is a
  test.
\<close>
theorem strict_monitor_stays_in_scope:
  assumes "validate_step (with_runner w e) ''2.4'' a d = (VOk nxt moved skipped rem warning, d')"
    and "nonempty (current_subtask_id (load e d)) = Some sid" "blueprint_file d \<noteq> Absent"
    and "strict_scope (w_scope w) = Some ''1''"
    and "fst (validate_boundary (w_scope w) sid None (w_files w)) = Some (Inr r)"
  shows "\<exists>declared. declared_files (w_files w) sid = Some declared
    \<and> (\<forall>p \<in> surface (w_scope w) sid (b_base r) (w_files w). p \<in> declared \<or> is_test_path p)"
proof -
  let ?e = "with_runner w e"
  obtain st1 st2 d1 where g: "init_state_gate ''2.4'' d (close_pending_actor ''2.4'' (load ?e d)) = Inr st1"
    "scope_gate ?e ''2.4'' st1 d = Inr (st2, d1, warning)"
    using run_gates_VOk [OF validate_VOk(2) [OF assms(1)]] by metis
  have "current_subtask_id st1 = current_subtask_id (load e d)" using init_state_gate_other [OF _ g(1)] by simp
  then have ok: "\<not> (sc_status (boundary_result w sid) = ''violation'' \<and> sc_strict (boundary_result w sid))"
    using g(2) assms(2,3) by (auto simp: scope_gate_def with_runner_def Let_def split: if_splits)
  obtain fs' where v: "validate_boundary (w_scope w) sid None (w_files w) = (Some (Inr r), fs')" using assms(5) by (metis prod.collapse)
  from boundary_compared [OF v] obtain expected base where d: "declared_files (w_files w) sid = Some (set expected)"
    and c: "compare_boundary (w_scope w) sid None expected base (w_files w) = Some (Inr r)" by blast
  note rep = compare_report [OF c]
  have "b_unexpected r = []"
    using ok assms(4,5) rep(6,7) by (auto simp: boundary_result_def split: if_splits)
  then have "{p \<in> surface (w_scope w) sid base (w_files w). p \<notin> set expected \<and> \<not> is_test_path p} = {}" using rep(4) by simp
  with d rep(3) show ?thesis by blast
qed

theorem strict_monitor_stays_in_scope_witness:
  "\<exists>r declared. fst (validate_boundary (w_scope sample_world) ''ST-2'' None (w_files sample_world)) = Some (Inr r)
     \<and> (\<forall>p \<in> surface (w_scope sample_world) ''ST-2'' (b_base r) (w_files sample_world). p \<in> declared \<or> is_test_path p)"
proof -
  let ?d = "at_monitor\<lparr>blueprint_file := Parsed (JObj [])\<rparr>"
  let ?v = "validate_step (with_runner sample_world bare_env) ''2.4'' proceed ?d"
  let ?b = "fst (validate_boundary (w_scope sample_world) ''ST-2'' None (w_files sample_world))"
  have "case fst ?v of VOk nxt moved skipped rem warning \<Rightarrow> True | _ \<Rightarrow> False" by code_simp
  then obtain nxt moved skipped rem warning d' where v: "?v = (VOk nxt moved skipped rem warning, d')" by (cases ?v; cases "fst ?v") auto
  have s: "nonempty (current_subtask_id (load bare_env ?d)) = Some ''ST-2''" by code_simp
  have "case ?b of Some (Inr r) \<Rightarrow> True | _ \<Rightarrow> False" by code_simp
  then obtain r where r: "?b = Some (Inr r)" by (auto split: option.splits sum.splits)
  have "blueprint_file ?d \<noteq> Absent" "strict_scope (w_scope sample_world) = Some ''1''" by (simp_all add: sample_world_def)
  from strict_monitor_stays_in_scope [OF v s this r] r show ?thesis by blast
qed

text \<open>
  Claim C23. A deferral rests on runs that disagree. When a subtask is deferred and the triage file
  is one that the step runner recorded, the log has a triage of the named check whose evidence
  holds a passing run and a failing run.
\<close>
theorem deferral_rests_on_disagreement:
  assumes "validate_step (with_runner w e) step_id a d = (VDeferred kind adv, d')"
    and "reachable_from no_triage triage_step fs" "w_triage w FLAKY_SIDECAR = ty_file fs"
  shows "\<exists>check. a_check_id a = Some check \<and> (\<exists>t \<in> set (triages_of (ty_file fs)). jget ''check_id'' t = Some (JStr (strip check))
    \<and> (\<exists>x \<in> set (runs_of t). \<exists>y \<in> set (runs_of t). dict_get x ''status'' = Some (JStr ''passed'') \<and> dict_get y ''status'' = Some (JStr ''failed'')))"
proof -
  from deferred_evidence [OF assms(1)] obtain check t where c: "a_check_id a = Some check"
    and t: "load_deferred_flaky_triage (with_runner w e) FLAKY_SIDECAR (strip check) = Inr t" by blast
  note tr = deferred_triage [OF t, unfolded assms(3)]
  obtain vs where "triage_log fs vs" using triage.reachable_inv [OF assms(2)] by blast
  with tr(1) have "recorded t" by (auto simp: triages_of_log triage_log_def list_all_iff)
  from deferred_runs [OF this] tr(3) have "\<exists>x \<in> set (runs_of t). \<exists>y \<in> set (runs_of t).
      dict_get x ''status'' = Some (JStr ''passed'') \<and> dict_get y ''status'' = Some (JStr ''failed'')"
    by (simp add: DEFERRED_NONDETERMINISTIC_STATUS_def)
  with c tr(1,2) show ?thesis by blast
qed

theorem deferral_rests_on_disagreement_witness:
  "\<exists>t \<in> set (triages_of (ty_file sample_triage)). \<exists>x \<in> set (runs_of t). dict_get x ''status'' = Some (JStr ''passed'')"
proof -
  let ?v = "validate_step (with_runner sample_world bare_env) ''2.4'' defer_args at_monitor"
  have "case fst ?v of VDeferred k adv \<Rightarrow> True | _ \<Rightarrow> False" by code_simp
  then obtain k adv d' where v: "?v = (VDeferred k adv, d')" by (cases ?v; cases "fst ?v") auto
  have "w_triage sample_world FLAKY_SIDECAR = ty_file sample_triage" by (simp add: sample_world_def)
  from deferral_rests_on_disagreement [OF v sample_triage_reachable this] show ?thesis by blast
qed

end
