(* ===== verification/Runner_Verdict.thy ===== *)
theory Runner_Verdict
  imports Runner_Common
begin

text \<open>
  The review verdict ledger of \<^verbatim>\<open>map_step_runner.py\<close>: the outputs of the reviewers become findings,
  objections of the operator are applied to them, and a closed decision table computes the verdict
  the review gate is bound to. \<open>None\<close> as a result is an exception of Python (iterating over a number
  or a truth value, or a method of a dictionary called on another value); no file is written before
  it. The messages of the parser and of the file system are parameters.
\<close>

section \<open>Findings\<close>

datatype severity = Critical | Important | Needs_investigation | Minor

datatype finding_status = Active | Downgraded | Tombstoned

datatype verdict = PROCEED | REVISE | BLOCK

definition severity_name :: "severity \<Rightarrow> string" where
  "severity_name s = (case s of Critical \<Rightarrow> ''critical'' | Important \<Rightarrow> ''important''
     | Needs_investigation \<Rightarrow> ''needs_investigation'' | Minor \<Rightarrow> ''minor'')"

definition status_name :: "finding_status \<Rightarrow> string" where
  "status_name s = (case s of Active \<Rightarrow> ''active'' | Downgraded \<Rightarrow> ''downgraded'' | Tombstoned \<Rightarrow> ''tombstoned'')"

definition verdict_name :: "verdict \<Rightarrow> string" where
  "verdict_name v = (case v of PROCEED \<Rightarrow> ''PROCEED'' | REVISE \<Rightarrow> ''REVISE'' | BLOCK \<Rightarrow> ''BLOCK'')"

record finding =
  fd_id :: string
  source_agent :: string
  category :: string
  severity :: severity
  downgraded_from :: "severity option"
  fd_claim :: string
  fd_evidence :: "json list"
  fd_status :: finding_status
  transition_reason :: "string option"
  transition_evidence :: "string option"
  was_present_before_pr :: "bool option"

definition json_opt :: "('a \<Rightarrow> json) \<Rightarrow> 'a option \<Rightarrow> json" where
  "json_opt f v = (case v of None \<Rightarrow> JNull | Some x \<Rightarrow> f x)"

text \<open>The dictionary of a finding: \<open>downgraded_from\<close> is a key only of a downgraded one.\<close>

definition finding_json :: "finding \<Rightarrow> json" where
  "finding_json f = JObj
     ([(''id'', JStr (fd_id f)), (''source_agent'', JStr (source_agent f)), (''category'', JStr (category f)),
       (''severity'', JStr (severity_name (severity f)))]
      @ (case downgraded_from f of None \<Rightarrow> [] | Some s \<Rightarrow> [(''downgraded_from'', JStr (severity_name s))])
      @ [(''claim'', JStr (fd_claim f)), (''evidence'', JList (fd_evidence f)), (''status'', JStr (status_name (fd_status f))),
         (''transition_reason'', json_opt JStr (transition_reason f)),
         (''transition_evidence'', json_opt JStr (transition_evidence f)),
         (''was_present_before_pr'', json_opt JBool (was_present_before_pr f))])"

section \<open>Closed tables\<close>

text \<open>Two signs of the messages, in UTF-8.\<close>

definition EM_DASH :: string where
  "EM_DASH = [CHR 0xE2, CHR 0x80, CHR 0x94]"

definition ARROW :: string where
  "ARROW = [CHR 0xE2, CHR 0x86, CHR 0x92]"

definition VERDICT_TABLE_ID :: string where
  "VERDICT_TABLE_ID = ''review_verdict_table.v1''"

definition VERDICT_INPUT_STATUSES :: "finding_status list" where
  "VERDICT_INPUT_STATUSES = [Active, Downgraded]"

definition NON_TOMBSTONABLE_SEVERITIES :: "severity list" where
  "NON_TOMBSTONABLE_SEVERITIES = [Critical, Important, Needs_investigation]"

definition OBJECTION_CHANNELS :: "(string, string) dict" where
  "OBJECTION_CHANNELS =
     [(''quote_absent'', ''removes''), (''wrong_category'', ''removes''), (''different_version'', ''removes''),
      (''unverifiable_context'', ''escalates''), (''no_new_fact'', ''repeats'')]"

definition REMOVING_CHANNELS :: "string list" where
  "REMOVING_CHANNELS = map fst (filter (\<lambda>(ch, effect). effect = ''removes'') OBJECTION_CHANNELS)"

definition LEDGER_SOURCE_AGENTS :: "string list" where
  "LEDGER_SOURCE_AGENTS = [''monitor'', ''predictor'', ''evaluator'', ''adversarial'', ''ordering'', ''operator'']"

definition LEDGER_SOURCE_ALIASES :: "(string, string) dict" where
  "LEDGER_SOURCE_ALIASES =
     [(''compare_orderings'', ''ordering''), (''orderings'', ''ordering''), (''cross_ai'', ''adversarial'')]"

definition LEDGER_VERDICTS :: "string list" where
  "LEDGER_VERDICTS = [''PROCEED'', ''REVISE'', ''BLOCK'']"

definition REVIEW_DESTINATIONS :: "string list" where
  "REVIEW_DESTINATIONS = [''pre_commit'', ''pr_review'', ''ci'', ''unknown'']"

definition OBJECTION_CLAIM_PREFIX :: nat where
  "OBJECTION_CLAIM_PREFIX = 80"

definition MONITOR_SEVERITY_MAP :: "(string, severity) dict" where
  "MONITOR_SEVERITY_MAP =
     [(''CRITICAL'', Critical), (''HIGH'', Important), (''MEDIUM'', Important), (''LOW'', Minor),
      (''NEEDS_INVESTIGATION'', Needs_investigation)]"

definition PREDICTOR_RISK_MAP :: "(string, severity) dict" where
  "PREDICTOR_RISK_MAP = [(''critical'', Critical), (''high'', Important), (''medium'', Minor), (''low'', Minor)]"

definition ADVERSARIAL_SEVERITY_MAP :: "(string, severity) dict" where
  "ADVERSARIAL_SEVERITY_MAP = [(''critical'', Critical), (''important'', Important), (''minor'', Minor)]"

definition CATEGORY_MAP :: "(string, string) dict" where
  "CATEGORY_MAP =
     [(''correctness'', ''correctness''), (''security'', ''security''), (''tests'', ''tests''), (''performance'', ''performance''),
      (''maintainability'', ''maintainability''), (''workflow'', ''workflow''), (''functionality'', ''correctness''),
      (''test'', ''tests''), (''perf'', ''performance''), (''style'', ''maintainability''), (''deps'', ''maintainability''),
      (''architecture'', ''maintainability''), (''api'', ''correctness'')]"

definition normalize_category :: "string \<Rightarrow> string" where
  "normalize_category raw =
     (case dict_get CATEGORY_MAP (strip (to_lower raw)) of None \<Rightarrow> ''unknown'' | Some c \<Rightarrow> c)"

section \<open>The decision table\<close>

definition is_blocker :: "finding \<Rightarrow> bool" where
  "is_blocker f = (severity f = Important \<and> category f \<in> {''security'', ''correctness''})"

definition first_three :: "string list \<Rightarrow> string" where
  "first_three cs = join ''; '' (take 3 cs) @ (if 3 < length cs then '' [and more]'' else [])"

definition rule :: "nat \<Rightarrow> string \<Rightarrow> string" where
  "rule n v = ''Decision table rule '' @ show_nat n @ '' '' @ ARROW @ '' '' @ v @ ''.''"

definition apply_verdict_table :: "finding list \<Rightarrow> verdict \<times> string" where
  "apply_verdict_table fs =
     (if fs = [] then (PROCEED, ''No active findings; decision table yields PROCEED.'')
      else if list_ex (\<lambda>f. severity f = Critical) fs then
        (BLOCK, ''Active critical finding(s) detected: ''
           @ first_three (map fd_claim (filter (\<lambda>f. severity f = Critical) fs)) @ ''. '' @ rule 1 ''BLOCK'')
      else if list_ex is_blocker fs then
        (BLOCK, ''Active security/correctness important finding(s): ''
           @ first_three (map (\<lambda>f. category f @ '' ('' @ take_chars 60 (fd_claim f) @ '')'') (filter is_blocker fs))
           @ ''. '' @ rule 2 ''BLOCK'')
      else if list_ex (\<lambda>f. severity f = Important) fs then
        (REVISE, ''Active important finding(s): ''
           @ first_three (map fd_claim (filter (\<lambda>f. severity f = Important) fs)) @ ''. '' @ rule 3 ''REVISE'')
      else if list_ex (\<lambda>f. severity f = Needs_investigation) fs then
        (REVISE, ''Active needs_investigation finding(s) require operator follow-up. '' @ rule 4 ''REVISE'')
      else (PROCEED, ''Only minor active findings remain. '' @ rule 5 ''PROCEED''))"

section \<open>Ingesting the outputs of the reviewers\<close>

record review_acc =
  findings_registry :: "finding list"
  not_verified :: "string list"
  escalation_reasons :: "string list"
  verdict_repeats :: bool

text \<open>\<open>seq\<close> counts the calls of \<open>_next_id\<close>, each of which appends one finding.\<close>

definition next_finding_id :: "finding list \<Rightarrow> string" where
  "next_finding_id reg = ''RVF-'' @ zfill 3 (Suc (length reg))"

definition add_finding :: "finding \<Rightarrow> review_acc \<Rightarrow> review_acc" where
  "add_finding f a = a\<lparr>findings_registry := findings_registry a @ [f\<lparr>fd_id := next_finding_id (findings_registry a)\<rparr>]\<rparr>"

definition note_unverified :: "string \<Rightarrow> review_acc \<Rightarrow> review_acc" where
  "note_unverified s a = a\<lparr>not_verified := not_verified a @ [s]\<rparr>"

definition escalate :: "bool \<Rightarrow> string \<Rightarrow> review_acc \<Rightarrow> review_acc" where
  "escalate c s a = (if c then a\<lparr>escalation_reasons := escalation_reasons a @ [s]\<rparr> else a)"

text \<open>\<open>for x in (v or [])\<close>.\<close>

definition iter_or_empty :: "json option \<Rightarrow> json list option" where
  "iter_or_empty v = (case v of None \<Rightarrow> Some [] | Some x \<Rightarrow> if falsy x then Some [] else py_iter x)"

definition object_items :: "json option \<Rightarrow> json list option" where
  "object_items v = map_option (\<lambda>vs. map JObj (objects_of vs)) (iter_or_empty v)"

definition to_upper :: "string \<Rightarrow> string" where
  "to_upper s = map (\<lambda>c. if is_lower c then char_of (of_char c - 32 :: nat) else c) s"

definition monitor_raw_severity :: "(string, json) dict \<Rightarrow> string" where
  "monitor_raw_severity issue = to_upper (str_or_blank (dict_get issue ''severity''))"

definition monitor_severity :: "(string, json) dict \<Rightarrow> severity" where
  "monitor_severity issue =
     (case dict_get MONITOR_SEVERITY_MAP (monitor_raw_severity issue) of None \<Rightarrow> Needs_investigation | Some s \<Rightarrow> s)"

definition monitor_reach :: "(string, json) dict \<Rightarrow> string" where
  "monitor_reach issue = strip (str_or_blank (dict_get issue ''reach_evidence''))"

definition monitor_evidence :: "(string, json) dict \<Rightarrow> json list option" where
  "monitor_evidence issue =
     map_option (\<lambda>evs. evs @ (if monitor_reach issue = [] then []
         else [JObj [(''source'', JStr ''reach_evidence''), (''quote'', JStr (monitor_reach issue))]]))
       (object_items (dict_get issue ''evidence''))"

text \<open>The finding of an issue the table counts as it is.\<close>

definition monitor_finding :: "(string, json) dict \<Rightarrow> json list \<Rightarrow> finding" where
  "monitor_finding issue ev =
     \<lparr>fd_id = [], source_agent = ''monitor'',
      category = normalize_category (str_or_blank (dict_get issue ''category'')),
      severity = monitor_severity issue, downgraded_from = None,
      fd_claim = str_or_blank (dict_get issue ''description''), fd_evidence = ev, fd_status = Active,
      transition_reason = None, transition_evidence = None,
      was_present_before_pr = (case dict_get issue ''was_present_before_pr'' of
         None \<Rightarrow> None | Some JNull \<Rightarrow> None | Some v \<Rightarrow> Some (\<not> falsy v))\<rparr>"

definition downgrade_issue :: "string \<Rightarrow> string \<Rightarrow> bool \<Rightarrow> finding \<Rightarrow> finding" where
  "downgrade_issue reason txt before f =
     f\<lparr>severity := Needs_investigation, downgraded_from := Some (severity f), fd_status := Downgraded,
       transition_reason := Some reason, transition_evidence := Some txt, was_present_before_pr := Some before\<rparr>"

definition tombstone_issue :: "finding \<Rightarrow> finding" where
  "tombstone_issue f =
     f\<lparr>fd_status := Tombstoned, transition_reason := Some ''pre_existing_backlog'',
       transition_evidence := Some ''was_present_before_pr=true; severity below the retention floor'',
       was_present_before_pr := Some True\<rparr>"

text \<open>
  An issue the reviewer calls older than the change, and one that has no evidence that it can be
  reached: above the floor both stay, as findings whose severity is not established.
\<close>

definition retain_pre_existing :: "string \<Rightarrow> finding \<Rightarrow> review_acc \<Rightarrow> review_acc" where
  "retain_pre_existing raw f a =
     escalate (severity f = Critical) (''A CRITICAL finding was excluded from BLOCK solely by a self-attested ''
          @ ''pre-existing claim '' @ EM_DASH @ '' a human must confirm it predates this change.'')
       (note_unverified (''Pre-existing claim for '' @ raw @ '' finding ('' @ take_chars 80 (fd_claim f)
          @ '') was not independently verified; it rests on the reviewer's own was_present_before_pr flag.'')
         (add_finding (downgrade_issue ''pre_existing_backlog''
            (''was_present_before_pr=true (self-attested by monitor) for severity '' @ raw
             @ ''; retained at needs_investigation '' @ EM_DASH
             @ '' self-attestation is not independent evidence'') True f) a))"

definition retain_unreached :: "string \<Rightarrow> finding \<Rightarrow> review_acc \<Rightarrow> review_acc" where
  "retain_unreached raw f a =
     escalate (severity f = Critical) (''A CRITICAL finding lacked reach_evidence and could not be verified as reachable ''
          @ EM_DASH @ '' a human must decide whether it blocks.'')
       (note_unverified (raw @ '' finding ('' @ take_chars 80 (fd_claim f)
          @ '') carries no reach_evidence; its reachability was not proven.'')
         (add_finding (downgrade_issue ''quote_absent''
            (''reach_evidence missing for severity '' @ raw
             @ ''; downgraded per Step A.3 but still counted by the table'') False f) a))"

definition ingest_issue :: "review_acc \<Rightarrow> (string, json) dict \<Rightarrow> review_acc option" where
  "ingest_issue a issue =
     map_option (\<lambda>ev.
       let f = monitor_finding issue ev; raw = monitor_raw_severity issue
       in if dict_get issue ''was_present_before_pr'' = Some (JBool True) then
            (if severity f \<in> set NON_TOMBSTONABLE_SEVERITIES then retain_pre_existing raw f a
             else add_finding (tombstone_issue f) a)
          else if severity f \<in> {Important, Critical} \<and> monitor_reach issue = [] then retain_unreached raw f a
          else add_finding f a) (monitor_evidence issue)"

fun fold_opt :: "('a \<Rightarrow> 'b \<Rightarrow> 'a option) \<Rightarrow> 'a \<Rightarrow> 'b list \<Rightarrow> 'a option" where
  "fold_opt f a [] = Some a"
| "fold_opt f a (x # xs) = (case f a x of None \<Rightarrow> None | Some b \<Rightarrow> fold_opt f b xs)"

definition ingest_monitor :: "(string, json) dict \<Rightarrow> review_acc \<Rightarrow> review_acc option" where
  "ingest_monitor data a =
     (case iter_or_empty (dict_get data ''issues'') of
        None \<Rightarrow> None | Some vs \<Rightarrow> fold_opt ingest_issue a (objects_of vs))"

definition predictor_risk :: "(string, json) dict \<Rightarrow> string" where
  "predictor_risk data = to_lower (str_or_blank (dict_get data ''risk_assessment''))"

definition breaking_count :: "(string, json) dict \<Rightarrow> nat" where
  "breaking_count data =
     (case dict_get data ''predicted_state'' of
        Some (JObj st) \<Rightarrow> (case dict_get st ''breaking_changes'' of Some (JList bs) \<Rightarrow> length bs | _ \<Rightarrow> 0)
      | _ \<Rightarrow> 0)"

definition ingest_predictor :: "(string, json) dict \<Rightarrow> review_acc \<Rightarrow> review_acc option" where
  "ingest_predictor data a =
     (case dict_get PREDICTOR_RISK_MAP (predictor_risk data) of
        None \<Rightarrow> Some a
      | Some sev \<Rightarrow>
          map_option (\<lambda>ev. add_finding
              \<lparr>fd_id = [], source_agent = ''predictor'', category = ''workflow'', severity = sev, downgraded_from = None,
               fd_claim = ''Predictor risk_assessment='' @ predictor_risk data
                 @ (if breaking_count data = 0 then [] else ''; '' @ show_nat (breaking_count data) @ '' breaking change(s) predicted''),
               fd_evidence = ev, fd_status = Active, transition_reason = None, transition_evidence = None,
               was_present_before_pr = None\<rparr> a)
            (object_items (dict_get data ''evidence'')))"

text \<open>The scores of the Evaluator are recorded; a contradicted recommendation is noted.\<close>

definition evaluator_scores :: "(string, json) dict \<Rightarrow> json" where
  "evaluator_scores data =
     (if data = [] then JNull
      else JObj (map (\<lambda>k. (k, get_or data k JNull)) [''overall_score'', ''recommendation'', ''scores'']))"

definition note_evaluator :: "(string, json) dict \<Rightarrow> (string, json) dict \<Rightarrow> review_acc \<Rightarrow> review_acc" where
  "note_evaluator monitor data a =
     (let mv = to_lower (str_or_blank (dict_get monitor ''verdict''))
      in if data \<noteq> [] \<and> to_lower (str_or_blank (dict_get data ''recommendation'')) = ''proceed''
            \<and> mv \<in> {''needs_revision'', ''rejected''}
         then note_unverified (''Evaluator recommendation=proceed while Monitor verdict='' @ mv
           @ ''. Evaluator score is advisory only; Monitor findings are authoritative per decision table.'') a
         else a)"

definition adversarial_severity :: "(string, json) dict \<Rightarrow> severity" where
  "adversarial_severity ext =
     (case dict_get ADVERSARIAL_SEVERITY_MAP (to_lower (str_or_blank (dict_get ext ''severity''))) of
        None \<Rightarrow> Needs_investigation | Some s \<Rightarrow> s)"

definition adversarial_source :: "(string, json) dict \<Rightarrow> string" where
  "adversarial_source ext =
     (let v = dict_get ext ''source_agent'';
          raw = (if falsy_opt v then ''adversarial'' else str_or_blank v);
          src = (case dict_get LEDGER_SOURCE_ALIASES raw of None \<Rightarrow> raw | Some s \<Rightarrow> s)
      in if src \<in> set LEDGER_SOURCE_AGENTS then src else ''adversarial'')"

definition ingest_adversarial :: "review_acc \<Rightarrow> (string, json) dict \<Rightarrow> review_acc option" where
  "ingest_adversarial a ext =
     map_option (\<lambda>ev. add_finding
         \<lparr>fd_id = [], source_agent = adversarial_source ext,
          category = normalize_category (str_or_blank (dict_get ext ''category'')),
          severity = adversarial_severity ext, downgraded_from = None,
          fd_claim = (if falsy_opt (dict_get ext ''claim'') then str_or_blank (dict_get ext ''description'')
                      else str_or_blank (dict_get ext ''claim'')),
          fd_evidence = ev, fd_status = Active, transition_reason = None, transition_evidence = None,
          was_present_before_pr = None\<rparr> a)
       (iter_or_empty (dict_get ext ''evidence''))"

section \<open>Integrity of the input\<close>

definition integrity_finding :: "string \<Rightarrow> string \<Rightarrow> finding" where
  "integrity_finding claim ev =
     \<lparr>fd_id = [], source_agent = ''operator'', category = ''workflow'', severity = Important, downgraded_from = None,
      fd_claim = claim, fd_evidence = [], fd_status = Active, transition_reason = Some ''input_integrity'',
      transition_evidence = Some ev, was_present_before_pr = None\<rparr>"

definition ingest_error :: "string \<Rightarrow> review_acc \<Rightarrow> review_acc" where
  "ingest_error err a =
     note_unverified (''Reviewer output unavailable ('' @ err @ ''); its findings were never seen.'')
       (add_finding (integrity_finding (''Reviewer payload could not be parsed: '' @ err) err) a)"

definition ingest_nothing :: "review_acc \<Rightarrow> review_acc" where
  "ingest_nothing a =
     escalate True (''The ledger ran with no reviewer input at all '' @ EM_DASH
          @ '' the verdict describes the absence of a review, not its result.'')
       (note_unverified ''The entire review: no Monitor, Predictor, Evaluator or adversarial output was supplied.''
         (add_finding (integrity_finding
            (''No reviewer output reached the ledger. Absence of findings is not evidence of a clean review.'')
            (''monitor/predictor/evaluator/adversarial inputs were all empty '' @ EM_DASH
             @ '' check that the reviewer envelopes were captured and passed in'')) a))"

record review_input =
  monitor_result :: "(string, json) dict"
  predictor_result :: "(string, json) dict"
  evaluator_result :: "(string, json) dict"
  adversarial_findings :: "(string, json) dict list"
  input_errors :: "string list"

definition no_input :: "'a review_input_scheme \<Rightarrow> bool" where
  "no_input r = (input_errors r = [] \<and> monitor_result r = [] \<and> predictor_result r = [] \<and> evaluator_result r = []
     \<and> adversarial_findings r = [])"

definition empty_acc :: review_acc where
  "empty_acc = \<lparr>findings_registry = [], not_verified = [], escalation_reasons = [], verdict_repeats = False\<rparr>"

definition ingest_review :: "'a review_input_scheme \<Rightarrow> review_acc option" where
  "ingest_review r =
     (case ingest_monitor (monitor_result r) empty_acc of None \<Rightarrow> None
      | Some a \<Rightarrow> (case ingest_predictor (predictor_result r) a of None \<Rightarrow> None
      | Some b \<Rightarrow> (case fold_opt ingest_adversarial (note_evaluator (monitor_result r) (evaluator_result r) b) (adversarial_findings r) of
           None \<Rightarrow> None
      | Some c \<Rightarrow> Some ((if no_input r then ingest_nothing else id) (fold ingest_error (input_errors r) c)))))"

section \<open>Objections of the operator\<close>

text \<open>\<open>by_id\<close> finds the finding in the registry, and what is assigned to it is seen there.\<close>

definition finding_with_id :: "string \<Rightarrow> finding list \<Rightarrow> finding option" where
  "finding_with_id i reg = find (\<lambda>f. fd_id f = i) reg"

definition update_finding :: "string \<Rightarrow> (finding \<Rightarrow> finding) \<Rightarrow> review_acc \<Rightarrow> review_acc" where
  "update_finding i g a = a\<lparr>findings_registry := map (\<lambda>f. if fd_id f = i then g f else f) (findings_registry a)\<rparr>"

definition transition :: "string \<Rightarrow> string \<Rightarrow> finding \<Rightarrow> finding" where
  "transition reason ev f = f\<lparr>transition_reason := Some reason, transition_evidence := Some ev\<rparr>"

definition contest_above_floor :: "string \<Rightarrow> string \<Rightarrow> finding \<Rightarrow> finding" where
  "contest_above_floor channel ev f =
     transition channel ev
       (f\<lparr>downgraded_from := (case downgraded_from f of None \<Rightarrow> Some (severity f) | Some s \<Rightarrow> Some s),
          severity := Needs_investigation, fd_status := Downgraded\<rparr>)"

text \<open>The finding an objection is bound to: the one with its identifier, if the claim is the one it was raised against.\<close>

definition objection_target :: "finding list \<Rightarrow> (string, json) dict \<Rightarrow> finding option" where
  "objection_target reg obj =
     (case finding_with_id (str_or_blank (dict_get obj ''finding_id'')) reg of
        None \<Rightarrow> None
      | Some f \<Rightarrow> if startswith (fd_claim f) (str_or_blank (dict_get obj ''claim_prefix'')) then Some f else None)"

definition objection_channel :: "(string, json) dict \<Rightarrow> string" where
  "objection_channel obj = str_or_blank (dict_get obj ''channel'')"

definition apply_objection :: "(string, json) dict \<Rightarrow> review_acc \<Rightarrow> review_acc" where
  "apply_objection obj a =
     (let channel = objection_channel obj; ev = str_or_blank (dict_get obj ''evidence'')
      in case objection_target (findings_registry a) obj of
           None \<Rightarrow> note_unverified (''Objection on '' @ py_str (get_or obj ''finding_id'' JNull)
             @ '' was ignored: it was raised against a different finding than the one now holding that id.'') a
         | Some f \<Rightarrow>
             if channel \<in> set REMOVING_CHANNELS then
               (if severity f \<in> set NON_TOMBSTONABLE_SEVERITIES then
                  note_unverified (fd_id f @ '': the objection evidence was not independently checked.'')
                    (escalate True (fd_id f @ '' ('' @ severity_name (severity f) @ '') was contested via '' @ channel
                       @ ''; the objection's evidence is unverified, so a human must confirm the removal.'')
                      (update_finding (fd_id f) (contest_above_floor channel ev) a))
                else update_finding (fd_id f) (transition channel ev \<circ> fd_status_update (\<lambda>_. Tombstoned)) a)
             else if channel = ''unverifiable_context'' then
               note_unverified (fd_id f @ '': the contested context could not be checked against the diff.'')
                 (escalate True (fd_id f @ '' was contested on context not visible in the change: '' @ take_chars 120 ev)
                   (update_finding (fd_id f) (transition ''human_escalation'' ev) a))
             else if channel = ''no_new_fact'' then
               (update_finding (fd_id f) (transition ''pressure_without_new_fact'' ev) a)\<lparr>verdict_repeats := True\<rparr>
             else a)"

section \<open>The ledger\<close>

record review_args = review_input +
  review_mode :: string
  previous_verdict :: string \<comment> \<open>empty for \<^verbatim>\<open>None\<close>\<close>
  objections :: "(string, json) dict list"
  destination :: string
  executor_class :: string

record review_ledger =
  lg_acc :: review_acc
  lg_classification :: "(string, json) dict"
  lg_scores :: json
  computed_verdict :: verdict
  verdict_basis :: string
  lg_previous :: string
  matches_previous :: "bool option"

definition counted :: "finding list \<Rightarrow> finding list" where
  "counted reg = filter (\<lambda>f. fd_status f \<in> set VERDICT_INPUT_STATUSES) reg"

definition with_status :: "finding_status \<Rightarrow> finding list \<Rightarrow> nat" where
  "with_status s reg = length (filter (\<lambda>f. fd_status f = s) reg)"

text \<open>The table, below the ceiling: what needs a human decision is not a clean pass.\<close>

definition compute_verdict :: "review_acc \<Rightarrow> verdict \<times> string" where
  "compute_verdict a =
     (let (v, basis) = apply_verdict_table (counted (findings_registry a))
      in case escalation_reasons a of
           [] \<Rightarrow> (v, basis)
         | reason # _ \<Rightarrow>
             if v = PROCEED then (REVISE, ''Escalation is required, so PROCEED is not available: '' @ reason) else (v, basis))"

definition member_or_unknown :: "string list \<Rightarrow> string \<Rightarrow> string" where
  "member_or_unknown xs s = (if s \<in> set xs then s else ''unknown'')"

definition input_classification :: "review_args \<Rightarrow> (string, json) dict" where
  "input_classification r =
     [(''review_mode'', JStr (member_or_unknown [''normal'', ''adversarial'', ''cross_ai'', ''compare_orderings''] (review_mode r))),
      (''destination'', JStr (member_or_unknown REVIEW_DESTINATIONS (destination r))),
      (''evidence_mode'', JStr (if adversarial_findings r \<noteq> [] \<or> review_mode r = ''cross_ai'' then ''independent_run'' else ''structural'')),
      (''executor_class'', JStr (if executor_class r = [] then ''unknown'' else executor_class r))]"

definition prior_verdict :: "string \<Rightarrow> string" where
  "prior_verdict s = (let p = to_upper (strip s) in if p \<in> set LEDGER_VERDICTS then p else [])"

definition normalize_review_verdict :: "review_args \<Rightarrow> review_ledger option" where
  "normalize_review_verdict r =
     map_option (\<lambda>ingested.
       let a = fold apply_objection (objections r) ingested;
           (v, basis) = compute_verdict a;
           prior = prior_verdict (previous_verdict r)
       in \<lparr>lg_acc = a, lg_classification = input_classification r, lg_scores = evaluator_scores (evaluator_result r),
           computed_verdict = v, verdict_basis = basis, lg_previous = prior,
           matches_previous = (if prior = [] then None else Some (prior = verdict_name v))\<rparr>)
     (ingest_review r)"

definition active_count :: "review_ledger \<Rightarrow> nat" where
  "active_count lg = length (counted (findings_registry (lg_acc lg)))"

definition lg_journal :: "review_ledger \<Rightarrow> (string, json) dict" where
  "lg_journal lg =
     [(''previous_verdict'', if lg_previous lg = [] then JNull else JStr (lg_previous lg)),
      (''current_verdict'', JStr (verdict_name (computed_verdict lg))),
      (''matches_previous'', json_opt JBool (matches_previous lg)),
      (''repeated_verbatim'', JBool (verdict_repeats (lg_acc lg))),
      (''basis'', JStr ((if verdict_repeats (lg_acc lg) then ''Objection carried no new fact; the previous verdict stands. '' else [])
         @ verdict_basis lg))]"

definition ledger_json :: "string \<Rightarrow> string \<Rightarrow> review_ledger \<Rightarrow> json" where
  "ledger_json now branch lg =
     (let a = lg_acc lg
      in JObj [(''schema_version'', JStr ''review_verdict_ledger.v1''), (''generated_at'', JStr now), (''branch'', JStr branch),
        (''criteria_version'', JStr VERDICT_TABLE_ID), (''input_classification'', JObj (lg_classification lg)),
        (''findings_registry'', JList (map finding_json (findings_registry a))),
        (''not_verified'', JList (map JStr (not_verified a))),
        (''escalation_required'', JBool (escalation_reasons a \<noteq> [])),
        (''escalation_reasons'', JList (map JStr (escalation_reasons a))),
        (''evaluator_scores'', lg_scores lg), (''verdict_table'', JStr VERDICT_TABLE_ID),
        (''computed_verdict'', JStr (verdict_name (computed_verdict lg))), (''verdict_basis'', JStr (verdict_basis lg)),
        (''journal'', JObj (lg_journal lg)), (''active_count'', JInt (int (active_count lg))),
        (''downgraded_count'', JInt (int (with_status Downgraded (findings_registry a)))),
        (''tombstoned_count'', JInt (int (with_status Tombstoned (findings_registry a))))])"

end
