(* ===== verification/Runner_Ledger.thy ===== *)
theory Runner_Ledger
  imports Runner_Verdict
begin

text \<open>
  The commands around the review verdict of \<^verbatim>\<open>map_step_runner.py\<close>: writing the ledger from the outputs
  of the reviewers, contesting a finding of it, and writing stage gates, of which that of the review
  is bound to the verdict of the ledger. \<open>None\<close> as a result is an exception, before which no file is
  written; the files are UTF-8.
\<close>

section \<open>The files of a branch\<close>

record verdict_env =
  vd_branch :: string
  vd_now :: string
  vd_enforce :: "string option" \<comment> \<open>\<^verbatim>\<open>MAP_REVIEW_LEDGER_ENFORCE\<close>\<close>
  vd_read :: "string \<Rightarrow> string + string" \<comment> \<open>\<^verbatim>\<open>read_text\<close>: the reason of an \<^verbatim>\<open>OSError\<close>, or the text\<close>
  vd_loads_msg :: "string \<Rightarrow> string" \<comment> \<open>the message and line of a \<^verbatim>\<open>JSONDecodeError\<close>\<close>
  vd_file_msg :: string \<comment> \<open>why a ledger file cannot be read\<close>

record verdict_files =
  ledger_file :: jfile
  ledger_report :: "string option"
  objections_file :: jfile
  vd_manifest :: jfile
  gate_files :: "(string list, json) dict" \<comment> \<open>by the components of the path\<close>

definition load_review_objections :: "jfile \<Rightarrow> (string, json) dict list" where
  "load_review_objections f = (case f of Json (JList vs) \<Rightarrow> objects_of vs | _ \<Rightarrow> [])"

definition err :: "string \<Rightarrow> (string, json) dict" where
  "err msg = [(''status'', JStr ''error''), (''message'', JStr msg)]"

text \<open>The finding an objection is raised against; \<open>None\<close> is an exception, \<open>Some None\<close> that there is none.\<close>

definition registry_entry :: "string \<Rightarrow> json \<Rightarrow> (string, json) dict option option" where
  "registry_entry finding_id ledger =
     (case ledger of
        JObj p \<Rightarrow> map_option (\<lambda>vs. find (\<lambda>f. dict_get f ''id'' = Some (JStr finding_id)) (objects_of vs))
          (iter_or_empty (dict_get p ''findings_registry''))
      | _ \<Rightarrow> None)"

definition objection_record :: "string \<Rightarrow> string \<Rightarrow> string \<Rightarrow> string \<Rightarrow> string \<Rightarrow> (string, json) dict \<Rightarrow> (string, json) dict" where
  "objection_record now finding_id channel effect evidence f =
     [(''finding_id'', JStr finding_id), (''channel'', JStr channel), (''effect'', JStr effect), (''evidence'', JStr evidence),
      (''claim_prefix'', JStr (take_chars OBJECTION_CLAIM_PREFIX (str_or_blank (dict_get f ''claim'')))), (''recorded_at'', JStr now)]"

definition branch_file :: "verdict_env \<Rightarrow> string \<Rightarrow> string" where
  "branch_file e name = ''.map/'' @ vd_branch e @ ''/'' @ name"

definition record_review_objection ::
  "verdict_env \<Rightarrow> string \<Rightarrow> string \<Rightarrow> string \<Rightarrow> verdict_files \<Rightarrow> ((string, json) dict \<times> verdict_files) option" where
  "record_review_objection e finding_id channel evidence fs =
     (case dict_get OBJECTION_CHANNELS channel of
        None \<Rightarrow> Some (err (''unknown objection channel '' @ py_repr_str channel @ ''; expected one of ''
          @ one_of [''different_version'', ''no_new_fact'', ''quote_absent'', ''unverifiable_context'', ''wrong_category'']), fs)
      | Some effect \<Rightarrow>
          if channel \<in> set REMOVING_CHANNELS \<and> strip evidence = [] then
            Some (err (''channel '' @ py_repr_str channel @ '' removes a finding, so it requires evidence. ''
              @ ''Quote the code, name the correct category, or identify the other ''
              @ ''version. To contest without a checkable fact, use ''
              @ [CHR 0x27] @ ''unverifiable_context'' @ [CHR 0x27] @ '' (escalates) or ''
              @ [CHR 0x27] @ ''no_new_fact'' @ [CHR 0x27] @ '' (verdict stands).''), fs)
          else (case ledger_file fs of
             No_file \<Rightarrow> Some (err (''no review-verdict-ledger.json for this branch; run ''
               @ ''write_review_verdict_ledger before contesting a finding.''), fs)
           | Bad_json \<Rightarrow> Some (err (''review-verdict-ledger.json is unreadable: '' @ vd_file_msg e), fs)
           | Json ledger \<Rightarrow>
               (case registry_entry finding_id ledger of
                  None \<Rightarrow> None
                | Some None \<Rightarrow> Some (err (py_repr_str finding_id @ '' is not in the current ledger's findings registry''), fs)
                | Some (Some f) \<Rightarrow>
                    Some ([(''status'', JStr ''success''), (''path'', JStr (branch_file e ''review-objections.json'')),
                           (''finding_id'', JStr finding_id), (''channel'', JStr channel), (''effect'', JStr effect),
                           (''next_step'', JStr ''re-run write_review_verdict_ledger to recompute the verdict'')],
                      fs\<lparr>objections_file := Json (JList (map JObj
                        (filter (\<lambda>obj. dict_get obj ''finding_id'' \<noteq> Some (JStr finding_id)) (load_review_objections (objections_file fs))
                         @ [objection_record (vd_now e) finding_id channel effect evidence f])))\<rparr>))))"

section \<open>Writing the ledger\<close>

record ledger_args =
  monitor_src :: "string \<times> string" \<comment> \<open>the JSON text, and the path of a file that takes precedence\<close>
  predictor_src :: "string \<times> string"
  evaluator_src :: "string \<times> string"
  adversarial_src :: "string \<times> string"
  la_review_mode :: string
  la_previous_verdict :: string
  la_destination :: string
  la_executor_class :: string

definition read_source :: "verdict_env \<Rightarrow> string \<Rightarrow> string \<times> string \<Rightarrow> string list \<times> string" where
  "read_source e label src =
     (let (raw, path) = src
      in if path = [] then ([], raw)
         else (case vd_read e path of
             Inl reason \<Rightarrow> ([label @ '': cannot read '' @ path @ '' ('' @ reason @ '')''], [])
           | Inr tx \<Rightarrow> ([], universal_newlines tx)))"

definition py_type_name :: "json \<Rightarrow> string" where
  "py_type_name j = (case j of JNull \<Rightarrow> ''NoneType'' | JBool _ \<Rightarrow> ''bool'' | JInt _ \<Rightarrow> ''int'' | JFloat _ \<Rightarrow> ''float''
     | JStr _ \<Rightarrow> ''str'' | JList _ \<Rightarrow> ''list'' | JObj _ \<Rightarrow> ''dict'')"

definition safe_parse :: "verdict_env \<Rightarrow> string \<Rightarrow> string \<Rightarrow> string list \<times> (string, json) dict" where
  "safe_parse e label raw =
     (if strip raw = [] then ([], [])
      else case json_loads raw of
          None \<Rightarrow> ([label @ '': invalid JSON ('' @ vd_loads_msg e raw @ '')''], [])
        | Some (JObj d) \<Rightarrow> ([], d)
        | Some v \<Rightarrow> ([label @ '': expected a JSON object, got '' @ py_type_name v], []))"

definition safe_parse_list :: "verdict_env \<Rightarrow> string \<Rightarrow> string \<Rightarrow> string list \<times> (string, json) dict list" where
  "safe_parse_list e label raw =
     (if strip raw = [] then ([], [])
      else case json_loads raw of
          None \<Rightarrow> ([label @ '': invalid JSON ('' @ vd_loads_msg e raw @ '')''], [])
        | Some (JList vs) \<Rightarrow> ([], objects_of vs)
        | Some (JObj d) \<Rightarrow> ([], [d])
        | Some v \<Rightarrow> ([label @ '': expected a JSON array, got '' @ py_type_name v], []))"

text \<open>One reviewer: reading the source, then parsing it, with the errors of both.\<close>

definition reviewer_output ::
  "(verdict_env \<Rightarrow> string \<Rightarrow> string \<Rightarrow> string list \<times> 'a) \<Rightarrow> verdict_env \<Rightarrow> string \<Rightarrow> string \<times> string \<Rightarrow> string list \<times> 'a" where
  "reviewer_output parse e label src =
     (let (es, raw) = read_source e label src; (es', v) = parse e label raw in (es @ es', v))"

text \<open>The verdict of the ledger on disk, when the caller gives none.\<close>

definition recovered_verdict :: "string \<Rightarrow> jfile \<Rightarrow> string" where
  "recovered_verdict given f =
     (if given \<noteq> [] then given
      else case f of Json (JObj p) \<Rightarrow> str_or_blank (dict_get p ''computed_verdict'') | _ \<Rightarrow> [])"

definition ledger_review_args :: "verdict_env \<Rightarrow> ledger_args \<Rightarrow> verdict_files \<Rightarrow> review_args" where
  "ledger_review_args e la fs =
     (let (me, m) = reviewer_output safe_parse e ''monitor'' (monitor_src la);
          (pe, p) = reviewer_output safe_parse e ''predictor'' (predictor_src la);
          (ee, ev) = reviewer_output safe_parse e ''evaluator'' (evaluator_src la);
          (ae, ad) = reviewer_output safe_parse_list e ''adversarial'' (adversarial_src la)
      in \<lparr>monitor_result = m, predictor_result = p, evaluator_result = ev, adversarial_findings = ad,
          input_errors = me @ pe @ ee @ ae, review_mode = la_review_mode la,
          previous_verdict = recovered_verdict (la_previous_verdict la) (ledger_file fs),
          objections = load_review_objections (objections_file fs), destination = la_destination la,
          executor_class = la_executor_class la\<rparr>)"

definition opt_text :: "('a \<Rightarrow> string) \<Rightarrow> 'a option \<Rightarrow> string" where
  "opt_text f v = (case v of None \<Rightarrow> ''None'' | Some x \<Rightarrow> f x)"

definition status_icon :: "finding_status \<Rightarrow> string" where
  "status_icon s = (case s of Active \<Rightarrow> [CHR 0xE2, CHR 0x9C, CHR 0x97] | Tombstoned \<Rightarrow> [CHR 0xE2, CHR 0x8C, CHR 0xAB] | Downgraded \<Rightarrow> [CHR 0xE2, CHR 0x86, CHR 0x93])"

definition finding_lines :: "finding \<Rightarrow> string list" where
  "finding_lines f =
     (''- '' @ status_icon (fd_status f) @ '' ['' @ fd_id f @ ''] **'' @ severity_name (severity f) @ ''** ('' @ source_agent f
        @ ''): '' @ take_chars 120 (fd_claim f))
     # (case transition_reason f of None \<Rightarrow> [] | Some reason \<Rightarrow>
          if reason = [] then [] else [''  - Reason: `'' @ reason @ ''` '' @ EM_DASH @ '' '' @ opt_text id (transition_evidence f)])"

definition py_bool :: "bool \<Rightarrow> string" where
  "py_bool b = (if b then ''True'' else ''False'')"

definition ledger_markdown :: "review_ledger \<Rightarrow> string" where
  "ledger_markdown lg =
     (let a = lg_acc lg; reg = findings_registry a; verdict = verdict_name (computed_verdict lg);
          escalation = (if escalation_reasons a = [] then []
            else [''> **ESCALATION '' @ EM_DASH @ '' a human must decide:**'', []]
                 @ map (\<lambda>reason. ''> - '' @ reason) (escalation_reasons a) @ [[]]);
          unverified = (if not_verified a = [] then [] else [[], ''## Not Verified'', []] @ map (\<lambda>nv. ''- '' @ nv) (not_verified a));
          basis = (if verdict_repeats a then ''Objection carried no new fact; the previous verdict stands. '' else []) @ verdict_basis lg
      in join [CHR 0x0A]
        ([''# Review Verdict Ledger'' @ [CHR 0x0A], ''**Computed verdict:** '' @ verdict, ''**Verdict basis:** '' @ verdict_basis lg,
          ''**Counted by the table:** '' @ show_nat (active_count lg) @ '' (of which downgraded: '' @ show_nat (with_status Downgraded reg)
            @ '') | **Tombstoned:** '' @ show_nat (with_status Tombstoned reg), []]
         @ escalation @ [''## Findings Registry'', []] @ concat (map finding_lines reg) @ unverified
         @ [[], ''## Journal'', [], ''- Previous verdict: '' @ (if lg_previous lg = [] then ''N/A'' else lg_previous lg),
            ''- Current verdict: '' @ verdict, ''- Matches previous: '' @ opt_text py_bool (matches_previous lg),
            ''- Repeated verbatim (objection carried no new fact): '' @ py_bool (verdict_repeats a),
            ''- Basis: '' @ basis, ''- Verdict table: `'' @ VERDICT_TABLE_ID @ ''`'', []]) @ [CHR 0x0A])"

definition ledger_metadata :: "review_ledger \<Rightarrow> string \<Rightarrow> (string, json) dict" where
  "ledger_metadata lg mode =
     (let a = lg_acc lg; reg = findings_registry a
      in [(''computed_verdict'', JStr (verdict_name (computed_verdict lg))), (''active_count'', JInt (int (active_count lg))),
          (''downgraded_count'', JInt (int (with_status Downgraded reg))), (''tombstoned_count'', JInt (int (with_status Tombstoned reg))),
          (''escalation_required'', JBool (escalation_reasons a \<noteq> [])), (''review_mode'', JStr mode)])"

definition write_review_verdict_ledger ::
  "verdict_env \<Rightarrow> ledger_args \<Rightarrow> verdict_files \<Rightarrow> (review_ledger \<times> string list \<times> verdict_files) option" where
  "write_review_verdict_ledger e la fs =
     (let r = ledger_review_args e la fs;
          jp = branch_file e ''review-verdict-ledger.json''; mp = branch_file e ''review-verdict-ledger.md''
      in case normalize_review_verdict r of
           None \<Rightarrow> None
         | Some lg \<Rightarrow>
             map_option (\<lambda>m. (lg, input_errors r,
                fs\<lparr>ledger_file := Json (ledger_json (vd_now e) (vd_branch e) lg), ledger_report := Some (ledger_markdown lg), vd_manifest := m\<rparr>))
              (record_stage (vd_now e) (vd_branch e) ''review_verdict_ledger'' ''ready''
                 [artifact_ref jp ''review-verdict-ledger'', artifact_ref mp ''review-verdict-ledger-report'']
                 (ledger_metadata lg (la_review_mode la)) (vd_manifest fs)))"

text \<open>The answer of the command.\<close>

definition ledger_result :: "verdict_env \<Rightarrow> review_ledger \<Rightarrow> string list \<Rightarrow> (string, json) dict" where
  "ledger_result e lg errors =
     (let a = lg_acc lg; reg = findings_registry a
      in [(''status'', JStr ''success''), (''computed_verdict'', JStr (verdict_name (computed_verdict lg))),
          (''json_path'', JStr (branch_file e ''review-verdict-ledger.json'')), (''md_path'', JStr (branch_file e ''review-verdict-ledger.md'')),
          (''manifest_path'', JStr (branch_file e ''artifact_manifest.json'')), (''active_count'', JInt (int (active_count lg))),
          (''downgraded_count'', JInt (int (with_status Downgraded reg))), (''tombstoned_count'', JInt (int (with_status Tombstoned reg))),
          (''not_verified_count'', JInt (int (length (not_verified a)))), (''escalation_required'', JBool (escalation_reasons a \<noteq> [])),
          (''input_errors'', JList (map JStr errors))])"

section \<open>Stage gates\<close>

definition GATE_VERDICTS :: "string list" where
  "GATE_VERDICTS = [''ready'', ''needs-revision'', ''blocked'']"

definition GATE_VERDICT_ALIASES :: "(string, string) dict" where
  "GATE_VERDICT_ALIASES =
     [(''proceed'', ''ready''), (''revise'', ''needs-revision''), (''needs_revision'', ''needs-revision''), (''block'', ''blocked'')]"

definition normalize_gate_verdict :: "string \<Rightarrow> string option" where
  "normalize_gate_verdict v =
     (let c = to_lower (strip v); d = (case dict_get GATE_VERDICT_ALIASES c of None \<Rightarrow> c | Some x \<Rightarrow> x)
      in if d \<in> set GATE_VERDICTS then Some d else None)"

text \<open>
  Whether a review gate may be written: \<open>Inl\<close> is the refusal, \<open>Inr\<close> what was enforced, and \<open>None\<close> an
  exception, when the ledger is no object.
\<close>

definition check_review_ledger_binding :: "verdict_env \<Rightarrow> jfile \<Rightarrow> string \<Rightarrow> ((string, json) dict + string) option" where
  "check_review_ledger_binding e f v =
     (if strip (case vd_enforce e of None \<Rightarrow> ''1'' | Some s \<Rightarrow> s) = ''0'' then Some (Inr ''disabled_by_env'')
      else case f of
          No_file \<Rightarrow> Some (Inl (err (''no review-verdict-ledger.json for this branch; the review verdict is ''
            @ ''computed, not assigned. Run write_review_verdict_ledger first, or set ''
            @ ''MAP_REVIEW_LEDGER_ENFORCE=0 to write the gate without one.'')))
        | Bad_json \<Rightarrow> Some (Inl (err (''review-verdict-ledger.json is unreadable ('' @ vd_file_msg e
            @ ''); refusing to write a review gate whose computed verdict cannot be checked. Re-run write_review_verdict_ledger.'')))
        | Json (JObj p) \<Rightarrow>
            (case normalize_gate_verdict (str_or_blank (dict_get p ''computed_verdict'')) of
               None \<Rightarrow> Some (Inl (err (''review-verdict-ledger.json carries no usable computed_verdict; ''
                 @ ''re-run write_review_verdict_ledger before writing the review gate.'')))
             | Some c \<Rightarrow>
                 if c \<noteq> v then Some (Inl (err (''review gate verdict '' @ py_repr_str v
                      @ '' contradicts the computed ledger verdict '' @ py_repr_str c @ '' (''
                      @ py_str (get_or p ''verdict_basis'' (JStr [])) @ ''). The verdict is computed, ''
                      @ ''not assigned: fix the findings, re-run write_review_verdict_ledger, or set ''
                      @ ''MAP_REVIEW_LEDGER_ENFORCE=0 to override deliberately.'')
                    @ [(''computed_verdict'', JStr c), (''requested_verdict'', JStr v)]))
                 else Some (Inr (if falsy_opt (dict_get p ''escalation_required'') then ''enforced'' else ''enforced_with_escalation'')))
        | Json _ \<Rightarrow> None)"

definition normalized_stage :: "string \<Rightarrow> string" where
  "normalized_stage stage = map (\<lambda>c. if c = CHR ''_'' then CHR ''-'' else c) (to_lower (strip stage))"

text \<open>
  The path of a gate file, as its components: \<open>pathlib\<close> drops empty ones and single dots, an absolute
  stage replaces the branch directory, and the system follows the double dots (the directories
  before them exist and are no links).
\<close>

fun follow_dots :: "string list \<Rightarrow> string list \<Rightarrow> string list" where
  "follow_dots acc [] = rev acc"
| "follow_dots acc (p # ps) =
     (if p = ''..'' \<and> acc \<noteq> [] \<and> hd acc \<noteq> ''..'' then follow_dots (tl acc) ps else follow_dots (p # acc) ps)"

definition gate_path :: "string \<Rightarrow> string \<Rightarrow> string list" where
  "gate_path branch stage =
     (let name = stage @ ''-gate.json''
      in if startswith name ''/'' then ''/'' # posix_parts name
         else follow_dots [] ([''.map''] @ posix_parts branch @ posix_parts name))"

text \<open>The text of that path, in which the double dots stay.\<close>

definition gate_path_text :: "string \<Rightarrow> string \<Rightarrow> string" where
  "gate_path_text branch stage =
     (let name = stage @ ''-gate.json''
      in if startswith name ''/'' then ''/'' @ join ''/'' (posix_parts name)
         else join ''/'' ([''.map''] @ posix_parts branch @ posix_parts name))"

definition write_stage_gate ::
  "verdict_env \<Rightarrow> string \<Rightarrow> string \<Rightarrow> string \<Rightarrow> string \<Rightarrow> verdict_files \<Rightarrow> ((string, json) dict \<times> verdict_files) option" where
  "write_stage_gate e stage verdict source_artifact notes fs =
     (case normalize_gate_verdict verdict of
        None \<Rightarrow> Some (err (''Invalid verdict: '' @ to_lower (strip verdict)), fs)
      | Some v \<Rightarrow>
          (let st = normalized_stage stage; path = gate_path (vd_branch e) st
           in case (if st = ''review'' then check_review_ledger_binding e (ledger_file fs) v else Some (Inr ''not_applicable'')) of
                None \<Rightarrow> None
              | Some (Inl refusal) \<Rightarrow> Some (refusal, fs)
              | Some (Inr enforcement) \<Rightarrow>
                  Some ([(''status'', JStr ''success''), (''path'', JStr (gate_path_text (vd_branch e) st)), (''verdict'', JStr v),
                         (''ledger_enforcement'', JStr enforcement)],
                    fs\<lparr>gate_files := dict_set path (JObj [(''stage'', JStr st), (''verdict'', JStr v),
                       (''source_artifact'', if source_artifact = [] then JNull else JStr source_artifact),
                       (''updated_at'', JStr (vd_now e)), (''notes'', JStr notes)]) (gate_files fs)\<rparr>)))"

end
