(* ===== verification/Runner_Verdict_Props.thy ===== *)
theory Runner_Verdict_Props
  imports Runner_Ledger
begin

text \<open>
  What the review verdict rests on: findings keep their place and their claim in the registry,
  nothing above minor leaves the decision table, and a review gate is the computed verdict.
\<close>

section \<open>The registry\<close>

definition above_floor :: "finding \<Rightarrow> bool" where
  "above_floor f = (severity f \<noteq> Minor)"

definition stands :: "finding \<Rightarrow> bool" where
  "stands f = (above_floor f \<longrightarrow> fd_status f \<noteq> Tombstoned)"

definition numbered :: "finding list \<Rightarrow> bool" where
  "numbered reg = (map fd_id reg = map (\<lambda>i. ''RVF-'' @ zfill 3 (Suc i)) [0..<length reg])"

definition registry_ok :: "finding list \<Rightarrow> bool" where
  "registry_ok reg = (numbered reg \<and> list_all stands reg
     \<and> list_all (\<lambda>f. source_agent f \<in> set LEDGER_SOURCE_AGENTS \<and> category f \<in> insert ''unknown'' (snd ` set CATEGORY_MAP)) reg)"

lemma zfill_inj: "zfill w m = zfill w n \<longleftrightarrow> m = n"
  using zfill_ok(2) by metis

lemma numbered_distinct: "numbered reg \<Longrightarrow> distinct (map fd_id reg)"
  by (simp add: numbered_def distinct_map inj_on_def zfill_inj)

lemma add_finding_registry [simp]:
  "findings_registry (add_finding f a) = findings_registry a @ [f\<lparr>fd_id := next_finding_id (findings_registry a)\<rparr>]"
  "escalation_reasons (add_finding f a) = escalation_reasons a" "verdict_repeats (add_finding f a) = verdict_repeats a"
  by (simp_all add: add_finding_def)

lemma note_unverified_simps [simp]:
  "findings_registry (note_unverified s a) = findings_registry a"
  "escalation_reasons (note_unverified s a) = escalation_reasons a" "verdict_repeats (note_unverified s a) = verdict_repeats a"
  by (simp_all add: note_unverified_def)

lemma escalate_simps [simp]:
  "findings_registry (escalate c s a) = findings_registry a" "verdict_repeats (escalate c s a) = verdict_repeats a"
  "escalation_reasons (escalate c s a) = escalation_reasons a @ (if c then [s] else [])"
  by (simp_all add: escalate_def)

lemma category_closed: "normalize_category raw \<in> insert ''unknown'' (snd ` set CATEGORY_MAP)"
  by (auto simp: normalize_category_def dict_get_def dest!: map_of_SomeD intro: rev_image_eqI split: option.splits)

lemma source_closed: "adversarial_source ext \<in> set LEDGER_SOURCE_AGENTS"
  by (simp add: adversarial_source_def Let_def) (simp add: LEDGER_SOURCE_AGENTS_def)

text \<open>Adding a finding that is well formed itself.\<close>

definition finding_ok :: "finding \<Rightarrow> bool" where
  "finding_ok f = (stands f \<and> source_agent f \<in> set LEDGER_SOURCE_AGENTS
     \<and> category f \<in> insert ''unknown'' (snd ` set CATEGORY_MAP))"

lemma registry_ok_alt: "registry_ok reg \<longleftrightarrow> numbered reg \<and> list_all finding_ok reg"
  by (auto simp: registry_ok_def finding_ok_def list_all_iff)

lemma numbered_add: "numbered reg \<Longrightarrow> numbered (reg @ [f\<lparr>fd_id := next_finding_id reg\<rparr>])"
  by (simp add: numbered_def next_finding_id_def)

lemma finding_ok_id [simp]: "finding_ok (f\<lparr>fd_id := i\<rparr>) = finding_ok f"
  by (simp add: finding_ok_def stands_def above_floor_def)

lemma registry_ok_add: "registry_ok reg \<Longrightarrow> finding_ok f \<Longrightarrow> registry_ok (reg @ [f\<lparr>fd_id := next_finding_id reg\<rparr>])"
  by (simp add: registry_ok_alt numbered_add)

section \<open>Ingestion\<close>

lemma monitor_finding_simps [simp]:
  "severity (monitor_finding issue ev) = monitor_severity issue" "fd_status (monitor_finding issue ev) = Active"
  "finding_ok (monitor_finding issue ev)"
  using category_closed by (simp_all add: monitor_finding_def finding_ok_def stands_def LEDGER_SOURCE_AGENTS_def)

lemma retained_simps [simp]:
  "severity (downgrade_issue reason t p f) = Needs_investigation" "finding_ok f \<Longrightarrow> finding_ok (downgrade_issue reason t p f)"
  "severity (tombstone_issue f) = severity f" "severity f = Minor \<Longrightarrow> finding_ok f \<Longrightarrow> finding_ok (tombstone_issue f)"
  by (simp_all add: downgrade_issue_def tombstone_issue_def finding_ok_def stands_def above_floor_def)

text \<open>What one step of the ingestion adds: a well-formed finding, above the floor exactly when its
  source is, and critical and active or escalated when its source is critical.\<close>

definition adds :: "severity \<Rightarrow> review_acc \<Rightarrow> review_acc \<Rightarrow> bool" where
  "adds sev a b = (\<exists>f. findings_registry b = findings_registry a @ [f\<lparr>fd_id := next_finding_id (findings_registry a)\<rparr>]
     \<and> finding_ok f \<and> (above_floor f \<longleftrightarrow> sev \<noteq> Minor) \<and> (severity f = Critical \<longrightarrow> fd_status f = Active)
     \<and> (escalation_reasons b = escalation_reasons a \<and> (sev = Critical \<longrightarrow> severity f = Critical)
        \<or> sev \<noteq> Minor \<and> escalation_reasons b \<noteq> [])
     \<and> (\<exists>es. escalation_reasons b = escalation_reasons a @ es))"

lemma floor_severities: "sev \<in> set NON_TOMBSTONABLE_SEVERITIES \<longleftrightarrow> sev \<noteq> Minor"
  by (cases sev) (simp_all add: NON_TOMBSTONABLE_SEVERITIES_def)

lemma addsI:
  assumes "findings_registry b = findings_registry a @ [f\<lparr>fd_id := next_finding_id (findings_registry a)\<rparr>]" "finding_ok f"
    "above_floor f \<longleftrightarrow> sev \<noteq> Minor" "severity f = Critical \<Longrightarrow> fd_status f = Active"
    "escalation_reasons b = escalation_reasons a @ es" "es = [] \<Longrightarrow> sev = Critical \<Longrightarrow> severity f = Critical"
    "es \<noteq> [] \<Longrightarrow> sev \<noteq> Minor"
  shows "adds sev a b"
  unfolding adds_def using assms by (intro exI [of _ f]) (cases "es = []"; auto)

lemma retain_adds:
  assumes "finding_ok f" "severity f \<noteq> Minor"
  shows "adds (severity f) a (escalate (severity f = Critical) s (note_unverified t (add_finding (downgrade_issue r u p f) a)))"
  using assms by (intro addsI [where f = "downgrade_issue r u p f" and es = "if severity f = Critical then [s] else []"])
    (simp_all add: above_floor_def split: if_splits)

lemma retained_adds:
  assumes "finding_ok f" "severity f \<noteq> Minor"
  shows "adds (severity f) a (retain_pre_existing raw f a)" "adds (severity f) a (retain_unreached raw f a)"
  unfolding retain_pre_existing_def retain_unreached_def by (rule retain_adds [OF assms])+

lemma add_finding_adds:
  "finding_ok f \<Longrightarrow> (severity f = Critical \<Longrightarrow> fd_status f = Active) \<Longrightarrow> adds (severity f) a (add_finding f a)"
  by (rule addsI [where es = "[]"]) (simp_all add: above_floor_def)

lemma ingest_issue_adds: "ingest_issue a issue = Some b \<Longrightarrow> adds (monitor_severity issue) a b"
proof -
  assume "ingest_issue a issue = Some b"
  then obtain ev where ev: "monitor_evidence issue = Some ev" and b: "b = (let f = monitor_finding issue ev; raw = monitor_raw_severity issue
       in if dict_get issue ''was_present_before_pr'' = Some (JBool True) then
            (if severity f \<in> set NON_TOMBSTONABLE_SEVERITIES then retain_pre_existing raw f a else add_finding (tombstone_issue f) a)
          else if severity f \<in> {Important, Critical} \<and> monitor_reach issue = [] then retain_unreached raw f a
          else add_finding f a)"
    by (auto simp: ingest_issue_def)
  let ?f = "monitor_finding issue ev"
  show ?thesis
    using retained_adds [of ?f] add_finding_adds [of ?f] add_finding_adds [of "tombstone_issue ?f"]
    by (auto simp: b Let_def floor_severities)
qed

text \<open>A finding a step adds as it is.\<close>

lemma add_active_adds:
  "b = add_finding f a \<Longrightarrow> sev = severity f \<Longrightarrow> fd_status f = Active \<Longrightarrow> source_agent f \<in> set LEDGER_SOURCE_AGENTS
   \<Longrightarrow> category f \<in> insert ''unknown'' (snd ` set CATEGORY_MAP) \<Longrightarrow> adds sev a b"
  using add_finding_adds [of f a] by (simp add: finding_ok_def stands_def)

lemma workflow_category: "''workflow'' \<in> insert ''unknown'' (snd ` set CATEGORY_MAP)"
  by (simp add: CATEGORY_MAP_def)

lemma ingest_adversarial_adds: "ingest_adversarial a ext = Some b \<Longrightarrow> adds (adversarial_severity ext) a b"
  unfolding ingest_adversarial_def by (elim map_option_eq_Some [THEN iffD1, elim_format] exE conjE, erule add_active_adds [OF sym])
    (simp_all only: finding.simps category_closed source_closed)

lemma ingest_predictor_adds:
  assumes "ingest_predictor data a = Some b" "dict_get PREDICTOR_RISK_MAP (predictor_risk data) = Some sev"
  shows "adds sev a b"
  using assms unfolding ingest_predictor_def
  by (simp only: option.case) (elim map_option_eq_Some [THEN iffD1, elim_format] exE conjE, erule add_active_adds [OF sym],
    simp_all only: finding.simps workflow_category, simp add: LEDGER_SOURCE_AGENTS_def)

lemma integrity_finding_simps:
  "severity (integrity_finding c ev) = Important" "fd_status (integrity_finding c ev) = Active"
  "source_agent (integrity_finding c ev) = ''operator''" "category (integrity_finding c ev) = ''workflow''"
  by (simp_all add: integrity_finding_def)

lemma integrity_adds: "adds Important a (add_finding (integrity_finding c ev) a)"
  by (rule add_active_adds [OF refl]) (simp_all only: integrity_finding_simps workflow_category, simp add: LEDGER_SOURCE_AGENTS_def)

text \<open>The steps look at the registry and the escalations only.\<close>

lemma adds_cong:
  "findings_registry a = findings_registry a' \<Longrightarrow> escalation_reasons a = escalation_reasons a' \<Longrightarrow>
   findings_registry b = findings_registry b' \<Longrightarrow> escalation_reasons b = escalation_reasons b' \<Longrightarrow> adds sev a b = adds sev a' b'"
  by (simp add: adds_def)

lemma ingest_error_adds: "adds Important a (ingest_error e a)"
  unfolding ingest_error_def by (rule adds_cong [THEN iffD2, OF refl refl _ _ integrity_adds]) simp_all

lemma ingest_nothing_adds: "adds Important a (ingest_nothing a)"
proof -
  have "adds Important a (escalate True s (note_unverified t (add_finding (integrity_finding c ev) a)))" for s t c ev
    using integrity_adds [of a c ev] by (auto simp: adds_def)
  then show ?thesis unfolding ingest_nothing_def .
qed

section \<open>The findings of a review\<close>

fun adds_all :: "severity list \<Rightarrow> review_acc \<Rightarrow> review_acc \<Rightarrow> bool" where
  "adds_all [] a b = (findings_registry b = findings_registry a \<and> escalation_reasons b = escalation_reasons a)"
| "adds_all (s # ss) a b = (\<exists>c. adds s a c \<and> adds_all ss c b)"

lemma adds_all_cong:
  assumes "findings_registry a = findings_registry a'" "escalation_reasons a = escalation_reasons a'"
  shows "adds_all ss a b = adds_all ss a' b"
  using adds_cong [OF assms refl refl] assms by (cases ss) simp_all

lemma adds_all_append: "adds_all ss a b \<Longrightarrow> adds_all ts b c \<Longrightarrow> adds_all (ss @ ts) a c"
proof (induction ss arbitrary: a)
  case Nil
  then show ?case using adds_all_cong [of a b ts c] by simp
next
  case (Cons s ss)
  then show ?case by (simp only: append_Cons adds_all.simps) blast
qed

lemma fold_opt_adds_all:
  assumes "fold_opt f a xs = Some b" "\<And>a x b. f a x = Some b \<Longrightarrow> adds (sv x) a b"
  shows "adds_all (map sv xs) a b"
  using assms(1)
proof (induction xs arbitrary: a)
  case (Cons x xs)
  then obtain c where "f a x = Some c" "fold_opt f c xs = Some b" by (auto split: option.splits)
  then have "adds (sv x) a c" "adds_all (map sv xs) c b" by (simp_all add: assms(2) Cons.IH)
  then show ?case by (simp only: list.map adds_all.simps) blast
qed simp

lemma fold_adds_all: "(\<And>a x. adds s a (f x a)) \<Longrightarrow> adds_all (replicate (length xs) s) a (fold f xs a)"
  by (induction xs arbitrary: a) auto

text \<open>
  The severities the reviewers reported, read off their outputs: of every issue of the Monitor that
  is an object (any other entry of the list is not read), of the risk the Predictor names, and of
  every finding of an external reviewer. A word the vocabularies do not know needs investigation; a
  risk they do not know is not a report.
\<close>

definition said :: "(string, json) dict \<Rightarrow> string \<Rightarrow> string" where
  "said d k = str_or_blank (dict_get d k)"

definition monitor_says :: "string \<Rightarrow> severity" where
  "monitor_says w =
     (let u = to_upper w
      in if u = ''CRITICAL'' then Critical else if u = ''HIGH'' \<or> u = ''MEDIUM'' then Important
         else if u = ''LOW'' then Minor else Needs_investigation)"

definition predictor_says :: "string \<Rightarrow> severity list" where
  "predictor_says w =
     (let l = to_lower w
      in if l = ''critical'' then [Critical] else if l = ''high'' then [Important]
         else if l = ''medium'' \<or> l = ''low'' then [Minor] else [])"

definition adversary_says :: "string \<Rightarrow> severity" where
  "adversary_says w =
     (let l = to_lower w
      in if l = ''critical'' then Critical else if l = ''important'' then Important
         else if l = ''minor'' then Minor else Needs_investigation)"

definition reported_severities :: "'a review_input_scheme \<Rightarrow> severity list" where
  "reported_severities r =
     [monitor_says (said issue ''severity'').
        JObj issue \<leftarrow> (case dict_get (monitor_result r) ''issues'' of Some (JList vs) \<Rightarrow> vs | _ \<Rightarrow> [])]
     @ predictor_says (said (predictor_result r) ''risk_assessment'')
     @ map (\<lambda>ext. adversary_says (said ext ''severity'')) (adversarial_findings r)"

text \<open>The ingestion reads the same severities.\<close>

definition monitor_issues :: "(string, json) dict \<Rightarrow> (string, json) dict list" where
  "monitor_issues data = (case iter_or_empty (dict_get data ''issues'') of None \<Rightarrow> [] | Some vs \<Rightarrow> objects_of vs)"

lemma monitor_says_severity: "monitor_severity issue = monitor_says (said issue ''severity'')"
  by (simp add: monitor_severity_def monitor_says_def said_def monitor_raw_severity_def MONITOR_SEVERITY_MAP_def dict_get_def Let_def)

lemma predictor_says_risk:
  "(case dict_get PREDICTOR_RISK_MAP (predictor_risk data) of None \<Rightarrow> [] | Some s \<Rightarrow> [s]) = predictor_says (said data ''risk_assessment'')"
  by (simp add: predictor_says_def said_def predictor_risk_def PREDICTOR_RISK_MAP_def dict_get_def Let_def)

lemma adversary_says_severity: "adversarial_severity ext = adversary_says (said ext ''severity'')"
  by (simp add: adversarial_severity_def adversary_says_def said_def ADVERSARIAL_SEVERITY_MAP_def dict_get_def Let_def)

lemma objects_of_comprehension: "[f kvs. JObj kvs \<leftarrow> vs] = map f (objects_of vs)"
  by (induction vs) (simp_all add: objects_of_def map_filter_simps split: json.splits)

lemma objects_of_texts: "objects_of [] = []" "objects_of (map (\<lambda>x. JStr (g x)) xs) = []"
  by (simp add: objects_of_def, induction xs) (simp_all add: objects_of_def map_filter_simps)

lemma monitor_issues_list:
  "monitor_issues data = objects_of (case dict_get data ''issues'' of Some (JList vs) \<Rightarrow> vs | _ \<Rightarrow> [])"
  by (auto simp: monitor_issues_def iter_or_empty_def py_iter_def falsy_def comp_def objects_of_texts split: option.splits json.splits)

lemma reported_ingested:
  "reported_severities r =
     map monitor_severity (monitor_issues (monitor_result r))
     @ (case dict_get PREDICTOR_RISK_MAP (predictor_risk (predictor_result r)) of None \<Rightarrow> [] | Some s \<Rightarrow> [s])
     @ map adversarial_severity (adversarial_findings r)"
  unfolding reported_severities_def objects_of_comprehension monitor_issues_list predictor_says_risk
  by (simp add: monitor_says_severity adversary_says_severity)

lemma note_evaluator_simps [simp]:
  "findings_registry (note_evaluator m d a) = findings_registry a" "escalation_reasons (note_evaluator m d a) = escalation_reasons a"
  "verdict_repeats (note_evaluator m d a) = verdict_repeats a"
  by (simp_all add: note_evaluator_def Let_def)

lemma ingest_review_adds:
  assumes "ingest_review r = Some a"
  shows "adds_all (reported_severities r @ replicate (length (input_errors r)) Important @ (if no_input r then [Important] else []))
    empty_acc a"
proof -
  obtain b c d where b: "ingest_monitor (monitor_result r) empty_acc = Some b"
    and c: "ingest_predictor (predictor_result r) b = Some c"
    and d: "fold_opt ingest_adversarial (note_evaluator (monitor_result r) (evaluator_result r) c) (adversarial_findings r) = Some d"
    and a: "a = (if no_input r then ingest_nothing else id) (fold ingest_error (input_errors r) d)"
    using assms by (auto simp: ingest_review_def split: option.splits)
  have "adds_all (map monitor_severity (monitor_issues (monitor_result r))) empty_acc b"
  proof (cases "iter_or_empty (dict_get (monitor_result r) ''issues'')")
    case (Some vs)
    then have "fold_opt ingest_issue empty_acc (objects_of vs) = Some b" using b by (simp add: ingest_monitor_def)
    from fold_opt_adds_all [OF this ingest_issue_adds] Some show ?thesis by (simp add: monitor_issues_def)
  qed (use b in \<open>simp add: ingest_monitor_def\<close>)
  moreover have "adds_all (case dict_get PREDICTOR_RISK_MAP (predictor_risk (predictor_result r)) of None \<Rightarrow> [] | Some s \<Rightarrow> [s]) b c"
  proof (cases "dict_get PREDICTOR_RISK_MAP (predictor_risk (predictor_result r))")
    case (Some s)
    then show ?thesis using ingest_predictor_adds [OF c] adds_all.simps by fastforce
  qed (use c in \<open>simp add: ingest_predictor_def\<close>)
  moreover have "adds_all (map adversarial_severity (adversarial_findings r)) c d"
    by (rule adds_all_cong [THEN iffD1, OF _ _ fold_opt_adds_all [OF d ingest_adversarial_adds]]) simp_all
  moreover have "adds_all (replicate (length (input_errors r)) Important) d (fold ingest_error (input_errors r) d)"
    by (rule fold_adds_all, rule ingest_error_adds)
  moreover have "adds_all (if no_input r then [Important] else []) (fold ingest_error (input_errors r) d) a"
    using ingest_nothing_adds by (auto simp: a)
  ultimately show ?thesis unfolding reported_ingested append_assoc by (intro adds_all_append)
qed

text \<open>What the ingestion establishes: a well-formed registry, no escalation while everything is minor,
  and an active critical finding or an escalation once something critical was reported.\<close>

definition calm :: "review_acc \<Rightarrow> bool" where
  "calm a = list_all (\<lambda>f. severity f = Minor) (findings_registry a)"

definition alarm :: "review_acc \<Rightarrow> bool" where
  "alarm a = (escalation_reasons a \<noteq> [] \<or> (\<exists>f \<in> set (findings_registry a). severity f = Critical))"

definition ingest_ok :: "review_acc \<Rightarrow> bool" where
  "ingest_ok a = (registry_ok (findings_registry a) \<and> (calm a \<longrightarrow> escalation_reasons a = [])
     \<and> (\<forall>f \<in> set (findings_registry a). severity f = Critical \<longrightarrow> fd_status f = Active))"

lemma adds_calm: "adds s a b \<Longrightarrow> calm b \<longleftrightarrow> calm a \<and> s = Minor"
  by (auto simp: adds_def calm_def above_floor_def)

lemma adds_alarm: "adds s a b \<Longrightarrow> alarm a \<or> s = Critical \<Longrightarrow> alarm b"
  by (fastforce simp: adds_def alarm_def)

lemma adds_ok: "adds s a b \<Longrightarrow> ingest_ok a \<Longrightarrow> ingest_ok b"
  using adds_calm [of s a b] by (auto simp: adds_def ingest_ok_def registry_ok_add)

lemma adds_all_facts:
  "adds_all ss a b \<Longrightarrow> ingest_ok a \<Longrightarrow>
     ingest_ok b \<and> (calm b \<longleftrightarrow> calm a \<and> list_all (\<lambda>s. s = Minor) ss) \<and> (alarm a \<or> Critical \<in> set ss \<longrightarrow> alarm b)"
proof (induction ss arbitrary: a)
  case Nil
  then show ?case by (simp add: ingest_ok_def calm_def alarm_def)
next
  case (Cons s ss)
  then obtain c where c: "adds s a c" "adds_all ss c b" by auto
  show ?case using Cons.IH [OF c(2) adds_ok [OF c(1) Cons.prems(2)]] adds_calm [OF c(1)] adds_alarm [OF c(1)] by auto
qed

lemma adds_all_rows: "adds_all ss a b \<Longrightarrow> map above_floor (findings_registry b) = map above_floor (findings_registry a) @ map (\<lambda>s. s \<noteq> Minor) ss"
proof (induction ss arbitrary: a)
  case (Cons s ss)
  then obtain c where c: "adds s a c" "adds_all ss c b" by auto
  have "map above_floor (findings_registry c) = map above_floor (findings_registry a) @ [s \<noteq> Minor]"
    using c(1) by (auto simp: adds_def above_floor_def)
  with Cons.IH [OF c(2)] show ?case by simp
qed simp

lemma empty_acc_facts: "ingest_ok empty_acc" "calm empty_acc"
  by (simp_all add: ingest_ok_def calm_def empty_acc_def registry_ok_def numbered_def)

lemma ingest_review_facts:
  assumes "ingest_review r = Some a"
  shows "ingest_ok a" "calm a \<longleftrightarrow> list_all (\<lambda>s. s = Minor) (reported_severities r) \<and> input_errors r = [] \<and> \<not> no_input r"
    "Critical \<in> set (reported_severities r) \<Longrightarrow> alarm a"
proof -
  have "list_all (\<lambda>s. s = Minor) (replicate n Important) \<longleftrightarrow> n = 0" for n by (cases n) simp_all
  then show "ingest_ok a" "calm a \<longleftrightarrow> list_all (\<lambda>s. s = Minor) (reported_severities r) \<and> input_errors r = [] \<and> \<not> no_input r"
    "Critical \<in> set (reported_severities r) \<Longrightarrow> alarm a"
    using adds_all_facts [OF ingest_review_adds [OF assms] empty_acc_facts(1)] empty_acc_facts(2) by simp_all
qed

section \<open>Objections\<close>

text \<open>What an objection does to one finding, given its channel.\<close>

definition objection_effect :: "(string, json) dict \<Rightarrow> finding \<Rightarrow> finding" where
  "objection_effect obj f =
     (let channel = objection_channel obj; ev = str_or_blank (dict_get obj ''evidence'')
      in if channel \<in> set REMOVING_CHANNELS then
           (if above_floor f then contest_above_floor channel ev f else transition channel ev (f\<lparr>fd_status := Tombstoned\<rparr>))
         else if channel = ''unverifiable_context'' then transition ''human_escalation'' ev f
         else if channel = ''no_new_fact'' then transition ''pressure_without_new_fact'' ev f else f)"

definition bound_to :: "(string, json) dict \<Rightarrow> finding \<Rightarrow> bool" where
  "bound_to obj f = (fd_id f = str_or_blank (dict_get obj ''finding_id'')
     \<and> startswith (fd_claim f) (str_or_blank (dict_get obj ''claim_prefix'')))"

definition objected :: "(string, json) dict \<Rightarrow> finding \<Rightarrow> finding" where
  "objected obj f = (if bound_to obj f then objection_effect obj f else f)"

lemma transition_simps [simp]:
  "fd_id (transition r e f) = fd_id f" "fd_claim (transition r e f) = fd_claim f" "severity (transition r e f) = severity f"
  "fd_status (transition r e f) = fd_status f" "source_agent (transition r e f) = source_agent f" "category (transition r e f) = category f"
  by (simp_all add: transition_def)

lemma contest_simps [simp]:
  "fd_id (contest_above_floor c e f) = fd_id f" "fd_claim (contest_above_floor c e f) = fd_claim f"
  "severity (contest_above_floor c e f) = Needs_investigation" "fd_status (contest_above_floor c e f) = Downgraded"
  "source_agent (contest_above_floor c e f) = source_agent f" "category (contest_above_floor c e f) = category f"
  by (simp_all add: contest_above_floor_def)

lemma objected_simps [simp]:
  "fd_id (objected obj f) = fd_id f" "fd_claim (objected obj f) = fd_claim f" "source_agent (objected obj f) = source_agent f"
  "category (objected obj f) = category f" "above_floor (objected obj f) = above_floor f"
  by (simp_all add: objected_def objection_effect_def Let_def above_floor_def)

lemma objected_stands: "stands f \<Longrightarrow> stands (objected obj f)"
  by (simp add: stands_def) (simp add: objected_def objection_effect_def Let_def)

lemma bound_to_objected [simp]: "bound_to obj (objected obj' f) = bound_to obj f"
  by (simp add: bound_to_def)

lemma same_id: "distinct (map fd_id reg) \<Longrightarrow> f \<in> set reg \<Longrightarrow> g \<in> set reg \<Longrightarrow> fd_id f = fd_id g \<Longrightarrow> f = g"
  by (auto simp: distinct_map dest: inj_onD)

lemma finding_with_id_iff:
  assumes "distinct (map fd_id reg)"
  shows "finding_with_id i reg = Some f \<longleftrightarrow> f \<in> set reg \<and> fd_id f = i"
  unfolding finding_with_id_def using assms by (induction reg) auto

lemma objection_target_iff:
  assumes "distinct (map fd_id reg)"
  shows "objection_target reg obj = Some f \<longleftrightarrow> f \<in> set reg \<and> bound_to obj f"
proof -
  have "objection_target reg obj = Some f \<longleftrightarrow> finding_with_id (str_or_blank (dict_get obj ''finding_id'')) reg = Some f
      \<and> startswith (fd_claim f) (str_or_blank (dict_get obj ''claim_prefix''))"
    by (auto simp: objection_target_def split: option.splits)
  then show ?thesis by (auto simp: finding_with_id_iff [OF assms] bound_to_def)
qed

lemma objection_target_None:
  assumes "distinct (map fd_id reg)"
  shows "objection_target reg obj = None \<longleftrightarrow> (\<forall>f \<in> set reg. \<not> bound_to obj f)"
  using objection_target_iff [OF assms, of obj] by (cases "objection_target reg obj") auto

lemma update_finding_simps [simp]:
  "findings_registry (update_finding i g a) = map (\<lambda>f. if fd_id f = i then g f else f) (findings_registry a)"
  "escalation_reasons (update_finding i g a) = escalation_reasons a"
  by (simp_all add: update_finding_def)

text \<open>An objection acts on each finding of the registry by itself, and escalates when it is bound to a
  finding and either contests it above the floor or appeals to context.\<close>

definition escalates :: "(string, json) dict \<Rightarrow> finding \<Rightarrow> bool" where
  "escalates obj f = (bound_to obj f
     \<and> (objection_channel obj = ''unverifiable_context'' \<or> objection_channel obj \<in> set REMOVING_CHANNELS \<and> above_floor f))"

lemma apply_objection_at:
  assumes "objection_target (findings_registry a) obj = Some f"
  shows "\<exists>h. findings_registry (apply_objection obj a) = map (\<lambda>g. if fd_id g = fd_id f then h g else g) (findings_registry a)
      \<and> h f = objection_effect obj f"
proof -
  note eqs = apply_objection_def [of obj a, unfolded assms option.case Let_def] floor_severities above_floor_def
    objection_effect_def [of obj f, unfolded Let_def]
  show ?thesis
  proof (cases "objection_channel obj \<in> set REMOVING_CHANNELS")
    case True
    then show ?thesis by (cases "severity f = Minor") (auto simp: eqs)
  next
    case False
    consider "objection_channel obj = ''unverifiable_context''" | "objection_channel obj = ''no_new_fact''"
      | "objection_channel obj \<noteq> ''unverifiable_context''" "objection_channel obj \<noteq> ''no_new_fact''" by blast
    then show ?thesis
    proof cases
      case 3
      then show ?thesis using False by (intro exI [of _ "\<lambda>g. g"]) (simp add: eqs)
    qed (use False in \<open>auto simp: eqs\<close>)
  qed
qed

lemma apply_objection_pointwise:
  assumes "distinct (map fd_id (findings_registry a))"
  shows "findings_registry (apply_objection obj a) = map (objected obj) (findings_registry a)"
proof (cases "objection_target (findings_registry a) obj")
  case None
  then have "\<forall>f \<in> set (findings_registry a). \<not> bound_to obj f" by (simp add: objection_target_None [OF assms])
  then show ?thesis using None by (simp add: apply_objection_def Let_def) (simp add: objected_def map_idI)
next
  case (Some f)
  then have f: "f \<in> set (findings_registry a)" "bound_to obj f" by (simp_all add: objection_target_iff [OF assms])
  obtain h where h: "findings_registry (apply_objection obj a) = map (\<lambda>g. if fd_id g = fd_id f then h g else g) (findings_registry a)"
    "h f = objection_effect obj f" using apply_objection_at [OF Some] by blast
  have "(if fd_id g = fd_id f then h g else g) = objected obj g" if "g \<in> set (findings_registry a)" for g
    using same_id [OF assms that f(1)] f(2) h(2) by (auto simp: objected_def bound_to_def)
  then show ?thesis by (simp add: h(1))
qed

lemma apply_objection_escalates:
  assumes "distinct (map fd_id (findings_registry a))"
  shows "\<exists>es. escalation_reasons (apply_objection obj a) = escalation_reasons a @ es
     \<and> (es \<noteq> [] \<longleftrightarrow> (\<exists>f \<in> set (findings_registry a). escalates obj f))"
proof (cases "objection_target (findings_registry a) obj")
  case None
  then have "\<forall>f \<in> set (findings_registry a). \<not> bound_to obj f" by (simp add: objection_target_None [OF assms])
  then show ?thesis using None by (simp add: apply_objection_def Let_def) (auto simp: escalates_def)
next
  case (Some f)
  then have f: "f \<in> set (findings_registry a)" "bound_to obj f" by (simp_all add: objection_target_iff [OF assms])
  have "g = f" if "g \<in> set (findings_registry a)" "escalates obj g" for g
    by (rule same_id [OF assms that(1) f(1)]) (use f that(2) in \<open>simp add: bound_to_def escalates_def\<close>)
  with f(1) have iff: "(\<exists>g \<in> set (findings_registry a). escalates obj g) \<longleftrightarrow> escalates obj f" by blast
  note eqs = apply_objection_def [of obj a, unfolded Some option.case Let_def] floor_severities above_floor_def
    escalates_def [of obj f] f(2)
  have "\<not> ''unverifiable_context'' \<in> set REMOVING_CHANNELS" by (simp add: REMOVING_CHANNELS_def OBJECTION_CHANNELS_def)
  then show ?thesis unfolding iff
    by (cases "objection_channel obj \<in> set REMOVING_CHANNELS"; cases "severity f = Minor";
        cases "objection_channel obj = ''unverifiable_context''"; cases "objection_channel obj = ''no_new_fact''") (simp_all add: eqs)
qed

lemma apply_objection_ids: "distinct (map fd_id (findings_registry a)) \<Longrightarrow> distinct (map fd_id (findings_registry (apply_objection obj a)))"
  by (simp add: apply_objection_pointwise comp_def)

lemma escalates_objected [simp]: "escalates obj (objected obj' f) = escalates obj f"
  by (simp add: escalates_def)

text \<open>All objections together.\<close>

lemma objections_registry:
  "distinct (map fd_id (findings_registry a)) \<Longrightarrow>
   findings_registry (fold apply_objection os a) = map (fold objected os) (findings_registry a)"
proof (induction os arbitrary: a)
  case (Cons obj os)
  from Cons.IH [OF apply_objection_ids [OF Cons.prems]] show ?case
    by (simp add: apply_objection_pointwise [OF Cons.prems])
qed simp

lemma objections_escalate:
  "distinct (map fd_id (findings_registry a)) \<Longrightarrow>
   escalation_reasons (fold apply_objection os a) \<noteq> [] \<longleftrightarrow>
     escalation_reasons a \<noteq> [] \<or> (\<exists>obj \<in> set os. \<exists>f \<in> set (findings_registry a). escalates obj f)"
proof (induction os arbitrary: a)
  case (Cons obj os)
  have "escalation_reasons (apply_objection obj a) \<noteq> [] \<longleftrightarrow>
      escalation_reasons a \<noteq> [] \<or> (\<exists>f \<in> set (findings_registry a). escalates obj f)"
    using apply_objection_escalates [OF Cons.prems, of obj] by auto
  with Cons.IH [OF apply_objection_ids [OF Cons.prems]] show ?case
    by (simp add: apply_objection_pointwise [OF Cons.prems]) blast
qed simp

lemma fold_objected_simps [simp]:
  "fd_id (fold objected os f) = fd_id f" "fd_claim (fold objected os f) = fd_claim f" "source_agent (fold objected os f) = source_agent f"
  "category (fold objected os f) = category f" "above_floor (fold objected os f) = above_floor f"
  by (induction os arbitrary: f) simp_all

lemma fold_objected_stands: "stands f \<Longrightarrow> stands (fold objected os f)"
  by (induction os arbitrary: f) (simp_all add: objected_stands)

lemma fold_objected_bound [simp]: "bound_to obj (fold objected os f) = bound_to obj f"
  by (simp add: bound_to_def)

lemma fold_objected_ok: "finding_ok f \<Longrightarrow> finding_ok (fold objected os f)"
  by (simp add: finding_ok_def fold_objected_stands)

lemma objections_registry_ok:
  assumes "registry_ok reg"
  shows "registry_ok (map (fold objected os) reg)"
  using assms by (simp add: registry_ok_alt numbered_def list.pred_map comp_def) (auto simp: list_all_iff fold_objected_ok)

section \<open>The verdict\<close>

text \<open>A finding above the floor that nothing contests keeps its severity.\<close>

lemma uncontested_stays:
  "above_floor f \<Longrightarrow> \<not> (\<exists>obj \<in> set os. escalates obj f) \<Longrightarrow>
   severity (fold objected os f) = severity f \<and> fd_status (fold objected os f) = fd_status f"
proof (induction os arbitrary: f)
  case (Cons obj os)
  then have "severity (objected obj f) = severity f \<and> fd_status (objected obj f) = fd_status f"
    by (auto simp: objected_def escalates_def objection_effect_def Let_def)
  with Cons show ?case by simp
qed simp

lemma status_counted: "fd_status f \<in> set VERDICT_INPUT_STATUSES \<longleftrightarrow> fd_status f \<noteq> Tombstoned"
  by (cases "fd_status f") (simp_all add: VERDICT_INPUT_STATUSES_def)

lemma table_proceeds: "fst (apply_verdict_table fs) = PROCEED \<longleftrightarrow> list_all (\<lambda>f. severity f = Minor) fs"
proof -
  have "severity f \<noteq> Minor \<longleftrightarrow> severity f = Critical \<or> severity f = Important \<or> severity f = Needs_investigation" for f
    by (cases "severity f") simp_all
  then show ?thesis by (auto simp: apply_verdict_table_def list_all_iff list_ex_iff is_blocker_def)
qed

lemma table_blocks: "fst (apply_verdict_table fs) = BLOCK \<longleftrightarrow> list_ex (\<lambda>f. severity f = Critical \<or> is_blocker f) fs"
  by (auto simp: apply_verdict_table_def list_ex_iff)

lemma verdict_proceeds:
  assumes "list_all stands (findings_registry a)"
  shows "fst (compute_verdict a) = PROCEED \<longleftrightarrow> calm a \<and> escalation_reasons a = []"
proof -
  have "list_all (\<lambda>f. severity f = Minor) (counted (findings_registry a)) \<longleftrightarrow> calm a"
    using assms by (auto simp: counted_def calm_def list_all_iff status_counted stands_def above_floor_def)
  with table_proceeds [of "counted (findings_registry a)"] show ?thesis
    by (auto simp: compute_verdict_def Let_def case_prod_unfold split: list.split)
qed

lemma verdict_blocks: "fst (compute_verdict a) = BLOCK \<longleftrightarrow> list_ex (\<lambda>f. severity f = Critical \<or> is_blocker f) (counted (findings_registry a))"
  by (auto simp: compute_verdict_def Let_def case_prod_unfold table_blocks [symmetric] split: list.split)

lemma normalize_review_verdict_parts:
  assumes "normalize_review_verdict r = Some lg"
  obtains a where "ingest_review r = Some a" "lg_acc lg = fold apply_objection (objections r) a"
    "computed_verdict lg = fst (compute_verdict (lg_acc lg))" "ingest_ok a"
    "findings_registry (lg_acc lg) = map (fold objected (objections r)) (findings_registry a)"
    "distinct (map fd_id (findings_registry a))"
proof -
  obtain a where a: "ingest_review r = Some a" "lg_acc lg = fold apply_objection (objections r) a"
    "computed_verdict lg = fst (compute_verdict (lg_acc lg))"
    using assms by (auto simp: normalize_review_verdict_def Let_def case_prod_unfold)
  have ok: "ingest_ok a" by (rule ingest_review_facts(1) [OF a(1)])
  then have d: "distinct (map fd_id (findings_registry a))"
    by (simp add: ingest_ok_def registry_ok_def numbered_distinct)
  show thesis using a ok d objections_registry [OF d, of "objections r"] by (intro that) simp_all
qed

lemma proceed_iff:
  assumes "normalize_review_verdict r = Some lg"
  shows "computed_verdict lg = PROCEED \<longleftrightarrow>
     list_all (\<lambda>s. s = Minor) (reported_severities r) \<and> input_errors r = [] \<and> \<not> no_input r
     \<and> \<not> (\<exists>obj \<in> set (objections r). objection_channel obj = ''unverifiable_context''
            \<and> objection_target (findings_registry (lg_acc lg)) obj \<noteq> None)"
proof -
  obtain a where a: "ingest_review r = Some a" "lg_acc lg = fold apply_objection (objections r) a"
    "computed_verdict lg = fst (compute_verdict (lg_acc lg))" "ingest_ok a"
    "findings_registry (lg_acc lg) = map (fold objected (objections r)) (findings_registry a)"
    "distinct (map fd_id (findings_registry a))" using assms by (rule normalize_review_verdict_parts)
  let ?reg = "findings_registry (lg_acc lg)"
  have ok: "list_all stands ?reg" using a(4,5) objections_registry_ok by (simp add: ingest_ok_def registry_ok_def)
  have calm: "calm (lg_acc lg) \<longleftrightarrow> calm a" using a(5) above_floor_def fold_objected_simps(5) by (simp add: calm_def list.pred_map comp_def)
  have d: "distinct (map fd_id ?reg)" using a(5,6) by (simp add: comp_def)
  have esc: "calm a \<Longrightarrow> escalation_reasons (lg_acc lg) \<noteq> [] \<longleftrightarrow>
      (\<exists>obj \<in> set (objections r). objection_channel obj = ''unverifiable_context'' \<and> objection_target ?reg obj \<noteq> None)"
  proof -
    assume c: "calm a"
    then have "\<not> above_floor f" if "f \<in> set (findings_registry a)" for f using that by (simp add: calm_def list_all_iff above_floor_def)
    then show ?thesis using objections_escalate [OF a(6), of "objections r"] a(2,4,5) c objection_target_None [OF d]
      by (auto simp: ingest_ok_def escalates_def)
  qed
  show ?thesis using verdict_proceeds [OF ok] calm esc ingest_review_facts(2) [OF a(1)] a(3) by auto
qed

section \<open>Properties\<close>

text \<open>A review with one critical issue that cannot be shown to be reached and a minor adversarial finding.\<close>

definition example_review :: review_args where
  "example_review = \<lparr>monitor_result = [(''issues'', JList [JObj [(''severity'', JStr ''critical''), (''description'', JStr ''leak'')]])],
     predictor_result = [], evaluator_result = [], adversarial_findings = [[(''severity'', JStr ''minor''), (''claim'', JStr ''name'')]],
     input_errors = [], review_mode = ''normal'', previous_verdict = [], objections = [], destination = ''ci'', executor_class = []\<rparr>"

definition minor_review :: review_args where
  "minor_review = example_review\<lparr>monitor_result := [], objections :=
     [[(''finding_id'', JStr ''RVF-001''), (''channel'', JStr ''wrong_category''), (''evidence'', JStr ''x''), (''claim_prefix'', JStr ''na'')]]\<rparr>"

lemma example_review_ledger: "\<exists>lg. normalize_review_verdict example_review = Some lg \<and> computed_verdict lg = REVISE"
proof -
  have "map_option computed_verdict (normalize_review_verdict example_review) = Some REVISE" by code_simp
  then show ?thesis by auto
qed

lemma minor_review_ledger: "\<exists>lg. normalize_review_verdict minor_review = Some lg
   \<and> map fd_status (findings_registry (lg_acc lg)) = [Tombstoned]"
proof -
  have "map_option (\<lambda>lg. map fd_status (findings_registry (lg_acc lg))) (normalize_review_verdict minor_review) = Some [Tombstoned]"
    by code_simp
  then show ?thesis by auto
qed

text \<open>
  Claim C31. The verdict, which is computed anew on every run, is PROCEED exactly when every severity the
  reviewers reported is minor, no payload was malformed or unreadable, something was reported at all,
  and no objection appeals to context of a finding: no other objection, no missing field and no claim
  that an issue is older clears what is above minor. What was reported are the issues of the Monitor
  that are objects, the risk of the Predictor and the external findings: an issue that is a mere text
  is neither reported nor an error (lemma \<open>text_issues_read_as_clean\<close>), and the objection that brings
  no new fact does not keep the verdict of the run before (lemma \<open>repeated_verdict_changes\<close>), against
  the documentation of both.
\<close>

theorem proceed_is_exact:
  assumes "normalize_review_verdict r = Some lg"
  shows "computed_verdict lg = PROCEED \<longleftrightarrow>
     list_all (\<lambda>s. s = Minor) (reported_severities r) \<and> input_errors r = [] \<and> \<not> no_input r
     \<and> \<not> (\<exists>obj \<in> set (objections r). objection_channel obj = ''unverifiable_context''
            \<and> objection_target (findings_registry (lg_acc lg)) obj \<noteq> None)"
  using assms by (rule proceed_iff)

theorem proceed_is_exact_witness:
  "\<exists>lg. normalize_review_verdict minor_review = Some lg \<and> computed_verdict lg = PROCEED"
proof -
  obtain lg where lg: "normalize_review_verdict minor_review = Some lg" using minor_review_ledger by blast
  have "list_all (\<lambda>s. s = Minor) (reported_severities minor_review) \<and> input_errors minor_review = [] \<and> \<not> no_input minor_review"
    by code_simp
  moreover have "list_all (\<lambda>obj. objection_channel obj \<noteq> ''unverifiable_context'') (objections minor_review)" by code_simp
  ultimately show ?thesis using lg proceed_is_exact [OF lg] by (auto simp: list_all_iff)
qed

text \<open>
  A critical severity that any reviewer reported either blocks or is handed to a human: when
  the verdict is not BLOCK it is REVISE and the ledger requires escalation, whatever objections were
  recorded and whatever the Evaluator recommends.
\<close>

theorem critical_blocks_or_escalates:
  assumes "normalize_review_verdict r = Some lg" "Critical \<in> set (reported_severities r)"
  shows "computed_verdict lg = BLOCK \<or> computed_verdict lg = REVISE \<and> escalation_reasons (lg_acc lg) \<noteq> []"
proof -
  obtain a where a: "ingest_review r = Some a" "lg_acc lg = fold apply_objection (objections r) a"
    "computed_verdict lg = fst (compute_verdict (lg_acc lg))" "ingest_ok a"
    "findings_registry (lg_acc lg) = map (fold objected (objections r)) (findings_registry a)"
    "distinct (map fd_id (findings_registry a))" using assms(1) by (rule normalize_review_verdict_parts)
  have ok: "list_all stands (findings_registry (lg_acc lg))"
    using a(4,5) objections_registry_ok by (simp add: ingest_ok_def registry_ok_def)
  have "escalation_reasons (lg_acc lg) \<noteq> [] \<or> computed_verdict lg = BLOCK"
  proof (rule disjCI)
    assume nb: "computed_verdict lg \<noteq> BLOCK"
    show "escalation_reasons (lg_acc lg) \<noteq> []"
    proof (rule ccontr)
      assume n: "\<not> escalation_reasons (lg_acc lg) \<noteq> []"
      then have none: "escalation_reasons a = []" "\<forall>obj \<in> set (objections r). \<forall>f \<in> set (findings_registry a). \<not> escalates obj f"
        using objections_escalate [OF a(6), of "objections r"] a(2) by auto
      obtain f where f: "f \<in> set (findings_registry a)" "severity f = Critical" "fd_status f = Active"
        using ingest_review_facts(3) [OF a(1) assms(2)] none(1) a(4) by (auto simp: alarm_def ingest_ok_def)
      let ?f = "fold objected (objections r) f"
      have "severity ?f = Critical \<and> fd_status ?f = Active"
        using uncontested_stays [of f "objections r"] none(2) f by (auto simp: above_floor_def)
      then have "?f \<in> set (counted (findings_registry (lg_acc lg)))" "severity ?f = Critical"
        using f(1) a(5) by (simp_all add: counted_def VERDICT_INPUT_STATUSES_def)
      then show False using nb a(3) verdict_blocks [of "lg_acc lg"] by (auto simp: list_ex_iff)
    qed
  qed
  then show ?thesis using verdict_proceeds [OF ok] a(3) by (cases "computed_verdict lg") auto
qed

theorem critical_blocks_or_escalates_witness:
  "\<exists>lg. normalize_review_verdict example_review = Some lg \<and> Critical \<in> set (reported_severities example_review)
     \<and> (computed_verdict lg = BLOCK \<or> computed_verdict lg = REVISE \<and> escalation_reasons (lg_acc lg) \<noteq> [])"
proof -
  obtain lg where lg: "normalize_review_verdict example_review = Some lg" using example_review_ledger by blast
  have "Critical \<in> set (reported_severities example_review)" by code_simp
  with lg critical_blocks_or_escalates [OF lg] show ?thesis by blast
qed

text \<open>
  Claim C32. Every severity a reviewer reported and every payload that could not be read has its own
  row of the registry, in order, numbered from RVF-001, with a known source and category; a row above
  minor is counted by the decision table, and the counts of the ledger add up.
\<close>

theorem every_report_has_its_row:
  assumes "normalize_review_verdict r = Some lg"
  shows "map above_floor (findings_registry (lg_acc lg)) =
      map (\<lambda>s. s \<noteq> Minor) (reported_severities r) @ replicate (length (input_errors r)) True @ (if no_input r then [True] else [])
    \<and> registry_ok (findings_registry (lg_acc lg))
    \<and> active_count lg + with_status Tombstoned (findings_registry (lg_acc lg)) = length (findings_registry (lg_acc lg))"
proof -
  obtain a where a: "ingest_review r = Some a" "ingest_ok a"
    "findings_registry (lg_acc lg) = map (fold objected (objections r)) (findings_registry a)"
    using assms by (rule normalize_review_verdict_parts)
  have "map above_floor (findings_registry (lg_acc lg)) = map above_floor (findings_registry a)" by (simp add: a(3) comp_def)
  also have "\<dots> = map (\<lambda>s. s \<noteq> Minor) (reported_severities r) @ replicate (length (input_errors r)) True @ (if no_input r then [True] else [])"
    using adds_all_rows [OF ingest_review_adds [OF a(1)]] by (simp add: empty_acc_def map_replicate_const)
  finally show ?thesis
    using a(2,3) objections_registry_ok sum_length_filter_compl [of "\<lambda>f. fd_status f \<noteq> Tombstoned" "findings_registry (lg_acc lg)"]
    by (simp add: ingest_ok_def active_count_def counted_def with_status_def status_counted cong: filter_cong)
qed

theorem every_report_has_its_row_witness:
  "\<exists>lg. normalize_review_verdict example_review = Some lg
     \<and> map above_floor (findings_registry (lg_acc lg)) = [True, False] \<and> registry_ok (findings_registry (lg_acc lg))"
proof -
  obtain lg where lg: "normalize_review_verdict example_review = Some lg" using example_review_ledger by blast
  have "map (\<lambda>s. s \<noteq> Minor) (reported_severities example_review) @ replicate (length (input_errors example_review)) True
      @ (if no_input example_review then [True] else []) = [True, False]" by code_simp
  with lg every_report_has_its_row [OF lg] show ?thesis by simp
qed

end
