(* ===== verification/Runner_Ledger_Props.thy ===== *)
theory Runner_Ledger_Props
  imports Runner_Verdict_Props
begin

text \<open>
  The commands of the review together: the gate of the review is the verdict that was computed, and
  an objection that was recorded lands on the finding it was raised against.
\<close>

section \<open>What the ledger on disk says\<close>

definition gate_name :: "verdict \<Rightarrow> string" where
  "gate_name v = (case v of PROCEED \<Rightarrow> ''ready'' | REVISE \<Rightarrow> ''needs-revision'' | BLOCK \<Rightarrow> ''blocked'')"

lemma normalize_verdict_name: "normalize_gate_verdict (verdict_name v) = Some (gate_name v)"
  by (cases v; simp add: verdict_name_def gate_name_def; code_simp)

lemma write_ledger_files:
  assumes "write_review_verdict_ledger e la fs = Some (lg, errs, fs')"
  shows "normalize_review_verdict (ledger_review_args e la fs) = Some lg" "errs = input_errors (ledger_review_args e la fs)"
    "ledger_file fs' = Json (ledger_json (vd_now e) (vd_branch e) lg)" "objections_file fs' = objections_file fs"
    "gate_files fs' = gate_files fs"
  using assms by (auto simp: write_review_verdict_ledger_def Let_def split: option.splits)

text \<open>Recording the stage cannot fail, so the command returns whenever the verdict is computed.\<close>

lemma write_ledger_returns:
  assumes "normalize_review_verdict (ledger_review_args e la fs) = Some lg"
  shows "\<exists>fs'. write_review_verdict_ledger e la fs = Some (lg, input_errors (ledger_review_args e la fs), fs')"
proof -
  have "''review_verdict_ledger'' \<in> set ARTIFACT_STAGE_NAMES" by (simp add: ARTIFACT_STAGE_NAMES_def)
  from record_stage_frame [OF this] assms show ?thesis by (fastforce simp: write_review_verdict_ledger_def Let_def)
qed

lemma ledger_json_fields:
  "jget ''computed_verdict'' (ledger_json now b lg) = Some (JStr (verdict_name (computed_verdict lg)))"
  "jget ''findings_registry'' (ledger_json now b lg) = Some (JList (map finding_json (findings_registry (lg_acc lg))))"
  "\<exists>ms. ledger_json now b lg = JObj ms"
  by (simp_all add: ledger_json_def Let_def)

section \<open>The gate of the review\<close>

definition enforced :: "verdict_env \<Rightarrow> bool" where
  "enforced e = (strip (case vd_enforce e of None \<Rightarrow> ''1'' | Some s \<Rightarrow> s) \<noteq> ''0'')"

lemma verdict_name_nonempty: "verdict_name v \<noteq> []"
  by (cases v) (simp_all add: verdict_name_def)

lemma binding_of_ledger:
  assumes "enforced e"
  shows "\<exists>x. check_review_ledger_binding e (Json (ledger_json now b lg)) v = Some x
     \<and> (isl x \<longleftrightarrow> v \<noteq> gate_name (computed_verdict lg))"
proof -
  obtain ms where ms: "ledger_json now b lg = JObj ms" using ledger_json_fields(3) by blast
  have c: "dict_get ms ''computed_verdict'' = Some (JStr (verdict_name (computed_verdict lg)))"
    using ledger_json_fields(1) [of now b lg] ms by simp
  have s: "str_or_blank (Some (JStr (verdict_name (computed_verdict lg)))) = verdict_name (computed_verdict lg)"
    using verdict_name_nonempty by (simp add: str_or_blank_def falsy_opt_def falsy_def py_str_def)
  show ?thesis using assms by (auto simp: check_review_ledger_binding_def enforced_def ms c s normalize_verdict_name)
qed

lemma split_on_single: "sep \<notin> set s \<Longrightarrow> split_on sep s = [s]"
  by (induction s) auto

lemma follow_dots_last: "ps \<noteq> [] \<Longrightarrow> last ps \<noteq> ''..'' \<Longrightarrow> last (follow_dots acc ps) = last ps"
proof (induction acc ps rule: follow_dots.induct)
  case (2 acc p ps)
  then show ?case by (cases ps) auto
qed simp

lemma strip_subset: "set (strip s) \<subseteq> set s"
  by (auto simp: strip_def rstrip_def lstrip_def dest!: set_dropWhileD)

lemma to_lower_slash: "CHR ''/'' \<in> set (to_lower s) \<Longrightarrow> CHR ''/'' \<in> set s"
proof -
  have "char_of (of_char c + 32 :: nat) \<noteq> CHR ''/''" if "is_upper c" for c
  proof
    assume "char_of (of_char c + 32 :: nat) = CHR ''/''"
    then have "of_char (char_of (of_char c + 32 :: nat) :: char) = (of_char (CHR ''/'') :: nat)" by simp
    then show False using that by (simp add: is_upper_def Let_def)
  qed
  then show "CHR ''/'' \<in> set (to_lower s) \<Longrightarrow> CHR ''/'' \<in> set s" by (fastforce simp: to_lower_def split: if_splits)
qed

lemma normalized_stage_slash: "CHR ''/'' \<notin> set stage \<Longrightarrow> CHR ''/'' \<notin> set (normalized_stage stage)"
  using to_lower_slash [of "strip stage"] strip_subset [of stage] by (auto simp: normalized_stage_def split: if_splits)

lemma gate_path_last:
  assumes "CHR ''/'' \<notin> set stage"
  shows "last (gate_path branch stage) = stage @ ''-gate.json''"
proof -
  let ?n = "stage @ ''-gate.json''"
  have n: "CHR ''/'' \<notin> set ?n" using assms by simp
  have "?n \<noteq> ''..'' \<and> ?n \<noteq> ''.''" by (cases stage) (auto simp: Cons_eq_append_conv append_eq_Cons_conv)
  then have "posix_parts ?n = [?n]" "?n \<noteq> ''..''" using split_on_single [OF n] by (simp_all add: posix_parts_def)
  moreover have "\<not> startswith ?n ''/''" using n by (cases ?n) (auto simp: startswith_def)
  ultimately show ?thesis using follow_dots_last [of "[''.map''] @ posix_parts branch @ [?n]" "[]"]
    by (simp add: gate_path_def Let_def)
qed

text \<open>Gates of different stages are different files, as long as the stage is no path.\<close>

lemma gate_path_inj:
  "CHR ''/'' \<notin> set s \<Longrightarrow> CHR ''/'' \<notin> set t \<Longrightarrow> gate_path b s = gate_path b t \<longleftrightarrow> s = t"
  by (metis gate_path_last append_same_eq)

text \<open>
  Claim C30. With enforcement on, the stage gate command run after the ledger was written, for a stage
  given as a plain name (without a slash), changes the gate of the review exactly when it names the
  review and the verdict that was computed, and then the gate has that verdict; a gate that says
  ready means that the reviewers reported nothing above minor, every payload was read and there was
  a review. The condition on the stage is needed: the stage \<^verbatim>\<open>./review\<close> is not the review to the check
  and names the same file (lemma \<open>gate_of_path_is_unbound\<close>).
\<close>

theorem review_gate_is_computed:
  assumes "enforced e" "CHR ''/'' \<notin> set stage" "write_review_verdict_ledger e la fs = Some (lg, errs, fs')"
    "write_stage_gate e stage v src notes fs' = Some (res, fs'')"
  defines "path \<equiv> gate_path (vd_branch e) ''review''" and "r \<equiv> ledger_review_args e la fs"
  shows "dict_get (gate_files fs'') path =
      (if normalized_stage stage = ''review'' \<and> normalize_gate_verdict v = Some (gate_name (computed_verdict lg))
       then Some (JObj [(''stage'', JStr ''review''), (''verdict'', JStr (gate_name (computed_verdict lg))),
          (''source_artifact'', if src = [] then JNull else JStr src), (''updated_at'', JStr (vd_now e)), (''notes'', JStr notes)])
       else dict_get (gate_files fs) path)
    \<and> (gate_name (computed_verdict lg) = ''ready'' \<longrightarrow> list_all (\<lambda>s. s = Minor) (reported_severities r) \<and> errs = [] \<and> \<not> no_input r)"
proof -
  note w = write_ledger_files [OF assms(3)]
  let ?st = "normalized_stage stage"
  have inj: "gate_path (vd_branch e) ?st = path \<longleftrightarrow> ?st = ''review''"
    unfolding path_def using gate_path_inj [OF normalized_stage_slash [OF assms(2)]] by simp
  have gate: "dict_get (gate_files fs'') path = (if ?st = ''review'' \<and> normalize_gate_verdict v = Some (gate_name (computed_verdict lg))
       then Some (JObj [(''stage'', JStr ''review''), (''verdict'', JStr (gate_name (computed_verdict lg))),
          (''source_artifact'', if src = [] then JNull else JStr src), (''updated_at'', JStr (vd_now e)), (''notes'', JStr notes)])
       else dict_get (gate_files fs) path)"
  proof (cases "normalize_gate_verdict v")
    case None
    then show ?thesis using assms(4) w(5) by (auto simp: write_stage_gate_def)
  next
    case (Some u)
    obtain x where x: "check_review_ledger_binding e (ledger_file fs') u = Some x" "isl x \<longleftrightarrow> u \<noteq> gate_name (computed_verdict lg)"
      using binding_of_ledger [OF assms(1)] w(3) by metis
    show ?thesis
    proof (cases "?st = ''review''")
      case True
      then show ?thesis using assms(4) w(5) x inj
        by (cases x) (auto simp: write_stage_gate_def Some Let_def alist_laws)
    next
      case False
      then show ?thesis using assms(4) w(5) inj by (auto simp: write_stage_gate_def Some Let_def alist_laws)
    qed
  qed
  have "gate_name (computed_verdict lg) = ''ready'' \<longleftrightarrow> computed_verdict lg = PROCEED"
    by (cases "computed_verdict lg") (simp_all add: gate_name_def)
  with gate proceed_iff [OF w(1)] w(2) show ?thesis by (auto simp: r_def)
qed

definition example_env :: verdict_env where
  "example_env = \<lparr>vd_branch = ''main'', vd_now = ''t'', vd_enforce = None, vd_read = (\<lambda>_. Inl ''missing''),
     vd_loads_msg = (\<lambda>_. ''bad''), vd_file_msg = []\<rparr>"

definition example_args :: "string \<Rightarrow> string \<Rightarrow> ledger_args" where
  "example_args monitor adversarial = \<lparr>monitor_src = (monitor, []), predictor_src = ([], []), evaluator_src = ([], []),
     adversarial_src = (adversarial, []), la_review_mode = ''normal'', la_previous_verdict = [], la_destination = ''ci'',
     la_executor_class = []\<rparr>"

definition no_review_files :: verdict_files where
  "no_review_files = \<lparr>ledger_file = No_file, ledger_report = None, objections_file = No_file, vd_manifest = No_file, gate_files = []\<rparr>"

definition minor_payload :: string where
  "minor_payload = (''[{'' @ [CHR 0x22] @ ''severity'' @ [CHR 0x22] @ '':'' @ [CHR 0x22] @ ''minor'' @ [CHR 0x22] @ '','' @ [CHR 0x22] @ ''claim'' @ [CHR 0x22] @ '':'' @ [CHR 0x22] @ ''name'' @ [CHR 0x22] @ ''}]'')"

lemma minor_ledger: "map_option computed_verdict (normalize_review_verdict (ledger_review_args example_env (example_args [] minor_payload) no_review_files)) = Some PROCEED"
  by code_simp

lemma minor_written:
  "\<exists>lg errs fs'. write_review_verdict_ledger example_env (example_args [] minor_payload) no_review_files = Some (lg, errs, fs')
     \<and> computed_verdict lg = PROCEED"
  using minor_ledger write_ledger_returns by fastforce

theorem review_gate_is_computed_witness:
  "\<exists>lg errs fs' res fs''. write_review_verdict_ledger example_env (example_args [] minor_payload) no_review_files = Some (lg, errs, fs')
     \<and> write_stage_gate example_env ''Review'' ''proceed'' [] [] fs' = Some (res, fs'')
     \<and> dict_get (gate_files fs'') (gate_path ''main'' ''review'') \<noteq> None"
proof -
  obtain lg errs fs' where w: "write_review_verdict_ledger example_env (example_args [] minor_payload) no_review_files = Some (lg, errs, fs')"
    "computed_verdict lg = PROCEED" using minor_written by blast
  have v: "normalize_gate_verdict ''proceed'' = Some ''ready''" "normalized_stage ''Review'' = ''review''" by code_simp+
  have e: "enforced example_env" "vd_branch example_env = ''main''" by code_simp+
  obtain y where y: "check_review_ledger_binding example_env (ledger_file fs') ''ready'' = Some y" "\<not> isl y"
    using binding_of_ledger [OF e(1), of "vd_now example_env" "vd_branch example_env" lg "''ready''"] write_ledger_files(3) [OF w(1)] w(2)
    by (auto simp: gate_name_def)
  obtain x where "check_review_ledger_binding example_env (ledger_file fs') ''ready'' = Some (Inr x)" using y by (cases y) simp_all
  then obtain res fs'' where g: "write_stage_gate example_env ''Review'' ''proceed'' [] [] fs' = Some (res, fs'')"
    by (simp add: write_stage_gate_def v Let_def)
  have "CHR ''/'' \<notin> set ''Review''" by simp
  from review_gate_is_computed [OF e(1) this w(1) g] w g v e(2) show ?thesis by (auto simp: gate_name_def)
qed

section \<open>Contesting a finding\<close>

lemma find_map_comp: "find P (map f xs) = map_option f (find (P \<circ> f) xs)"
  by (induction xs) auto

lemma finding_json_obj: "\<exists>ms. finding_json f = JObj ms \<and> dict_get ms ''id'' = Some (JStr (fd_id f)) \<and> dict_get ms ''claim'' = Some (JStr (fd_claim f))"
  by (auto simp: finding_json_def split: option.split)

text \<open>The entry of a finding in the ledger on disk is the finding of the registry.\<close>

lemma registry_entry_of_ledger:
  "\<exists>ob. (\<forall>f. dict_get (ob f) ''claim'' = Some (JStr (fd_claim f)))
     \<and> registry_entry i (ledger_json now b lg) = Some (map_option ob (finding_with_id i (findings_registry (lg_acc lg))))"
proof -
  define ob where "ob f = (case finding_json f of JObj ms \<Rightarrow> ms | _ \<Rightarrow> [])" for f
  have ob: "finding_json f = JObj (ob f)" "dict_get (ob f) ''id'' = Some (JStr (fd_id f))" "dict_get (ob f) ''claim'' = Some (JStr (fd_claim f))" for f
    using finding_json_obj [of f] by (auto simp: ob_def)
  have objs: "objects_of (map finding_json fs) = map ob fs" for fs
    using objects_of_map [of "map ob fs"] by (simp add: ob(1) comp_def cong: map_cong)
  obtain ms where ms: "ledger_json now b lg = JObj ms" using ledger_json_fields(3) by blast
  have reg: "iter_or_empty (dict_get ms ''findings_registry'') = Some (map finding_json (findings_registry (lg_acc lg)))"
    using ledger_json_fields(2) [of now b lg] ms by (simp add: iter_or_empty_def falsy_def py_iter_def)
  have "registry_entry i (ledger_json now b lg) = Some (map_option ob (finding_with_id i (findings_registry (lg_acc lg))))"
    by (simp add: registry_entry_def ms reg objs find_map_comp comp_def ob(2) finding_with_id_def)
  with ob(3) show ?thesis by blast
qed

text \<open>The reviewers' outputs do not depend on the files of the branch.\<close>

lemma ledger_input_fields:
  "monitor_result (ledger_review_args e la fs) = snd (reviewer_output safe_parse e ''monitor'' (monitor_src la))"
  "predictor_result (ledger_review_args e la fs) = snd (reviewer_output safe_parse e ''predictor'' (predictor_src la))"
  "evaluator_result (ledger_review_args e la fs) = snd (reviewer_output safe_parse e ''evaluator'' (evaluator_src la))"
  "adversarial_findings (ledger_review_args e la fs) = snd (reviewer_output safe_parse_list e ''adversarial'' (adversarial_src la))"
  "input_errors (ledger_review_args e la fs) = fst (reviewer_output safe_parse e ''monitor'' (monitor_src la))
     @ fst (reviewer_output safe_parse e ''predictor'' (predictor_src la)) @ fst (reviewer_output safe_parse e ''evaluator'' (evaluator_src la))
     @ fst (reviewer_output safe_parse_list e ''adversarial'' (adversarial_src la))"
  by (simp_all add: ledger_review_args_def Let_def case_prod_unfold)

lemma ledger_input_frame: "ingest_review (ledger_review_args e la fs) = ingest_review (ledger_review_args e la fs')"
  unfolding ingest_review_def no_input_def ledger_input_fields ..

lemma ledger_objections: "objections (ledger_review_args e la fs) = load_review_objections (objections_file fs)"
  by (simp add: ledger_review_args_def Let_def case_prod_unfold)

lemma fold_objected_other:
  "(\<And>obj. obj \<in> set os \<Longrightarrow> \<not> P obj \<Longrightarrow> \<not> bound_to obj f) \<Longrightarrow> fold objected (filter P os) f = fold objected os f"
proof (induction os arbitrary: f)
  case (Cons obj os)
  have "fold objected (filter P os) (objected obj f) = fold objected os (objected obj f)" using Cons by simp
  moreover have "\<not> P obj \<Longrightarrow> objected obj f = f" using Cons.prems by (simp add: objected_def)
  ultimately show ?case by (cases "P obj") simp_all
qed simp

lemma fold_objected_unbound: "(\<And>obj. obj \<in> set os \<Longrightarrow> \<not> bound_to obj f) \<Longrightarrow> fold objected os f = f"
  by (induction os) (simp_all add: objected_def)

lemma str_of_text [simp]: "str_or_blank (Some (JStr s)) = s"
  by (simp add: str_or_blank_def falsy_opt_def falsy_def py_str_def)

text \<open>What a successful objection leaves: its finding, and the list with the new record in place of an earlier one.\<close>

lemma record_objection_success:
  assumes "record_review_objection e i ch ev fs = Some (res, fs')" "dict_get res ''status'' = Some (JStr ''success'')"
    "ledger_file fs = Json (ledger_json now b lg)"
  obtains f eff p where "f \<in> set (findings_registry (lg_acc lg))" "fd_id f = i" "ch \<in> fst ` set OBJECTION_CHANNELS"
    "dict_get p ''claim'' = Some (JStr (fd_claim f))"
    "load_review_objections (objections_file fs') =
       filter (\<lambda>obj. dict_get obj ''finding_id'' \<noteq> Some (JStr i)) (load_review_objections (objections_file fs))
       @ [objection_record (vd_now e) i ch eff ev p]"
proof -
  have err: "dict_get (err m) ''status'' \<noteq> Some (JStr ''success'')" for m by (simp add: err_def)
  obtain eff where eff: "dict_get OBJECTION_CHANNELS ch = Some eff" and c: "\<not> (ch \<in> set REMOVING_CHANNELS \<and> strip ev = [])"
    using assms(1,2) err by (auto simp: record_review_objection_def split: option.splits if_splits)
  obtain p where p: "registry_entry i (ledger_json now b lg) = Some (Some p)"
    and fs': "objections_file fs' = Json (JList (map JObj
        (filter (\<lambda>obj. dict_get obj ''finding_id'' \<noteq> Some (JStr i)) (load_review_objections (objections_file fs))
         @ [objection_record (vd_now e) i ch eff ev p])))"
    using assms err c eff by (auto simp: record_review_objection_def split: option.splits if_splits)
  have "ch \<in> fst ` set OBJECTION_CHANNELS" using eff by (force simp: dict_get_def dest: map_of_SomeD)
  moreover obtain f where "finding_with_id i (findings_registry (lg_acc lg)) = Some f" "dict_get p ''claim'' = Some (JStr (fd_claim f))"
    using registry_entry_of_ledger [of i now b lg] p by (cases "finding_with_id i (findings_registry (lg_acc lg))") auto
  then have "f \<in> set (findings_registry (lg_acc lg))" "fd_id f = i" "dict_get p ''claim'' = Some (JStr (fd_claim f))"
    by (auto simp: finding_with_id_def find_Some_iff)
  ultimately show thesis using fs' by (auto simp: load_review_objections_def simp del: map_append intro: that)
qed

lemma objection_record_fields:
  "objection_channel (objection_record now i ch eff ev p) = ch"
  "str_or_blank (dict_get (objection_record now i ch eff ev p) ''evidence'') = ev"
  "dict_get p ''claim'' = Some (JStr (fd_claim f)) \<Longrightarrow> bound_to (objection_record now i ch eff ev p) f \<longleftrightarrow> fd_id f = i"
  by (auto simp: objection_record_def objection_channel_def bound_to_def startswith_def take_is_prefix)

lemma channel_kinds:
  "ch \<in> fst ` set OBJECTION_CHANNELS \<Longrightarrow> ch \<in> set REMOVING_CHANNELS \<or> ch = ''unverifiable_context'' \<or> ch = ''no_new_fact''"
  by (auto simp: OBJECTION_CHANNELS_def REMOVING_CHANNELS_def)

text \<open>What the effect of a recorded objection is, by its channel.\<close>

definition contested_as :: "string \<Rightarrow> string \<Rightarrow> finding \<Rightarrow> finding \<Rightarrow> bool" where
  "contested_as ch ev f g = (fd_id g = fd_id f \<and> fd_claim g = fd_claim f \<and> transition_evidence g = Some ev
     \<and> (if ch \<notin> set REMOVING_CHANNELS then severity g = severity f \<and> fd_status g = fd_status f
        else if above_floor f then severity g = Needs_investigation \<and> fd_status g = Downgraded
        else severity g = Minor \<and> fd_status g = Tombstoned))"

lemma effect_contests:
  assumes "ch \<in> fst ` set OBJECTION_CHANNELS"
  shows "contested_as ch ev f (objection_effect (objection_record now i ch eff ev p) f)"
proof -
  have "''unverifiable_context'' \<notin> set REMOVING_CHANNELS" "''no_new_fact'' \<notin> set REMOVING_CHANNELS"
    by (simp_all add: REMOVING_CHANNELS_def OBJECTION_CHANNELS_def)
  then show ?thesis using channel_kinds [OF assms]
    by (auto simp: contested_as_def objection_effect_def objection_record_fields Let_def above_floor_def transition_def contest_above_floor_def)
qed

text \<open>What the objections after a recorded one make of a finding.\<close>

lemma new_objection_row:
  assumes "fd_id h = i \<Longrightarrow> dict_get p ''claim'' = Some (JStr (fd_claim h))"
    "list_all (\<lambda>obj. \<exists>s. dict_get obj ''finding_id'' = Some (JStr s)) os"
  shows "fold objected (filter (\<lambda>obj. dict_get obj ''finding_id'' \<noteq> Some (JStr i)) os @ [objection_record now i ch eff ev p]) h
    = (if fd_id h = i then objection_effect (objection_record now i ch eff ev p) h else fold objected os h)"
proof (cases "fd_id h = i")
  case True
  have "fold objected (filter (\<lambda>obj. dict_get obj ''finding_id'' \<noteq> Some (JStr i)) os) h = h"
    using assms(2) True by (intro fold_objected_unbound) (auto simp: list_all_iff bound_to_def)
  then show ?thesis using True assms(1) objection_record_fields(3) [of p h now i ch eff ev] by (simp add: objected_def)
next
  case False
  have "fold objected (filter (\<lambda>obj. dict_get obj ''finding_id'' \<noteq> Some (JStr i)) os) h = fold objected os h"
    using False by (intro fold_objected_other) (auto simp: bound_to_def)
  moreover have "\<not> bound_to (objection_record now i ch eff ev p) (fold objected os h)"
    using False by (simp add: bound_to_def objection_record_def)
  ultimately show ?thesis using False by (simp add: objected_def)
qed

text \<open>
  Claim C33. In a branch whose stored objections name their findings by texts, as every recorded one
  does, an objection recorded against a finding of the ledger takes effect on exactly that finding
  when the ledger is written again from the same reviewers' outputs: every other row stays as it was.
  The row of the finding is removed only from a checkable channel and only when it was minor; above
  minor the same channels leave it counted and require escalation, where the documentation of the
  command promises that a checkable channel removes the finding on the next run.
\<close>

theorem objection_lands:
  assumes "write_review_verdict_ledger e la fs = Some (lg, errs, fs1)"
    "record_review_objection e i ch ev fs1 = Some (res, fs2)" "dict_get res ''status'' = Some (JStr ''success'')"
    "write_review_verdict_ledger e la fs2 = Some (lg2, errs2, fs3)"
    "list_all (\<lambda>obj. \<exists>s. dict_get obj ''finding_id'' = Some (JStr s)) (load_review_objections (objections_file fs))"
  shows "\<exists>a n f. ingest_review (ledger_review_args e la fs) = Some a \<and> n < length (findings_registry a)
     \<and> fd_id (findings_registry a ! n) = i \<and> contested_as ch ev (findings_registry a ! n) f
     \<and> findings_registry (lg_acc lg2) = (findings_registry (lg_acc lg))[n := f]
     \<and> (ch \<in> set REMOVING_CHANNELS \<and> above_floor (findings_registry a ! n) \<longrightarrow> escalation_reasons (lg_acc lg2) \<noteq> [])"
proof -
  note w1 = write_ledger_files [OF assms(1)] and w2 = write_ledger_files [OF assms(4)]
  obtain a where a: "ingest_review (ledger_review_args e la fs) = Some a" "distinct (map fd_id (findings_registry a))"
    and r1: "findings_registry (lg_acc lg) = map (fold objected (objections (ledger_review_args e la fs))) (findings_registry a)"
    using w1(1) by (rule normalize_review_verdict_parts)
  obtain a2 where a2: "ingest_review (ledger_review_args e la fs2) = Some a2"
    "lg_acc lg2 = fold apply_objection (objections (ledger_review_args e la fs2)) a2"
    and r2: "findings_registry (lg_acc lg2) = map (fold objected (objections (ledger_review_args e la fs2))) (findings_registry a2)"
    using w2(1) by (rule normalize_review_verdict_parts)
  have "a2 = a" using a(1) a2(1) ledger_input_frame by (metis option.inject)
  obtain g eff p where g: "g \<in> set (findings_registry (lg_acc lg))" "fd_id g = i" "ch \<in> fst ` set OBJECTION_CHANNELS"
    "dict_get p ''claim'' = Some (JStr (fd_claim g))"
    and os2: "load_review_objections (objections_file fs2) =
       filter (\<lambda>obj. dict_get obj ''finding_id'' \<noteq> Some (JStr i)) (load_review_objections (objections_file fs1))
       @ [objection_record (vd_now e) i ch eff ev p]"
    by (rule record_objection_success [OF assms(2,3) w1(3)])
  let ?os = "load_review_objections (objections_file fs)" and ?new = "objection_record (vd_now e) i ch eff ev p"
  obtain n where n: "n < length (findings_registry a)" "g = fold objected ?os (findings_registry a ! n)"
    using g(1) r1 by (auto simp: ledger_objections in_set_conv_nth)
  define f where "f = findings_registry a ! n"
  have f: "fd_id f = i" "fd_claim f = fd_claim g" using n g(2) by (simp_all add: f_def)
  have row: "fold objected (filter (\<lambda>obj. dict_get obj ''finding_id'' \<noteq> Some (JStr i)) ?os @ [?new]) h
      = (if fd_id h = i then objection_effect ?new h else fold objected ?os h)" if "fd_id h = i \<Longrightarrow> h = f" for h
    by (rule new_objection_row [OF _ assms(5)]) (use that f g(4) in simp_all)
  have other: "fd_id (findings_registry a ! m) \<noteq> i" if "m < length (findings_registry a)" "m \<noteq> n" for m
    using a(2) n(1) that f(1) by (auto simp: f_def distinct_conv_nth)
  have "findings_registry (lg_acc lg2) = (findings_registry (lg_acc lg))[n := objection_effect ?new f]"
  proof (rule nth_equalityI)
    fix m assume "m < length (findings_registry (lg_acc lg2))"
    then have m: "m < length (findings_registry a)" by (simp add: r2 \<open>a2 = a\<close>)
    then show "findings_registry (lg_acc lg2) ! m = (findings_registry (lg_acc lg))[n := objection_effect ?new f] ! m"
      using row [of "findings_registry a ! m"] other [OF m] f(1)
      by (cases "m = n") (simp_all add: r1 r2 \<open>a2 = a\<close> ledger_objections os2 w1(4) f_def)
  qed (simp add: r1 r2 \<open>a2 = a\<close>)
  moreover have "escalation_reasons (lg_acc lg2) \<noteq> []" if "ch \<in> set REMOVING_CHANNELS" "above_floor f"
  proof -
    have "escalates ?new f" using that objection_record_fields(1) objection_record_fields(3) [of p f "vd_now e" i ch eff ev] g(4) f
      by (simp add: escalates_def)
    moreover have "f \<in> set (findings_registry a)" using n(1) by (simp add: f_def)
    moreover have "?new \<in> set (load_review_objections (objections_file fs2))" by (simp add: os2)
    ultimately show ?thesis using objections_escalate [OF a(2), of "load_review_objections (objections_file fs2)"]
      by (auto simp only: a2(2) \<open>a2 = a\<close> ledger_objections)
  qed
  ultimately show ?thesis using a(1) n(1) f(1) effect_contests [OF g(3)] unfolding f_def by blast
qed

text \<open>An objection on a known channel with evidence is recorded, and the ledger can be written again.\<close>

lemma record_objection_succeeds:
  assumes "ledger_file fs = Json (ledger_json now b lg)" "finding_with_id i (findings_registry (lg_acc lg)) \<noteq> None"
    "dict_get OBJECTION_CHANNELS ch \<noteq> None" "strip ev \<noteq> []"
  shows "\<exists>res fs'. record_review_objection e i ch ev fs = Some (res, fs') \<and> dict_get res ''status'' = Some (JStr ''success'')"
proof -
  obtain p where "registry_entry i (ledger_json now b lg) = Some (Some p)"
    using registry_entry_of_ledger [of i now b lg] assms(2) by auto
  then show ?thesis using assms by (auto simp: record_review_objection_def)
qed

lemma normalize_returns: "normalize_review_verdict r \<noteq> None \<longleftrightarrow> ingest_review r \<noteq> None"
  by (simp add: normalize_review_verdict_def)

lemma write_ledger_again:
  assumes "write_review_verdict_ledger e la fs = Some (lg, errs, fs1)"
  shows "\<exists>lg2 errs2 fs3. write_review_verdict_ledger e la fs2 = Some (lg2, errs2, fs3)"
proof -
  have "ingest_review (ledger_review_args e la fs2) \<noteq> None"
    using write_ledger_files(1) [OF assms] normalize_returns ledger_input_frame by (metis option.distinct(1))
  then obtain lg2 where "normalize_review_verdict (ledger_review_args e la fs2) = Some lg2"
    using normalize_returns by blast
  from write_ledger_returns [OF this] show ?thesis by blast
qed

lemma minor_registry: "map_option (\<lambda>lg. map fd_id (findings_registry (lg_acc lg)))
   (normalize_review_verdict (ledger_review_args example_env (example_args [] minor_payload) no_review_files)) = Some [''RVF-001'']"
  by code_simp

theorem objection_lands_witness:
  "\<exists>lg errs fs1 res fs2 lg2 errs2 fs3. write_review_verdict_ledger example_env (example_args [] minor_payload) no_review_files = Some (lg, errs, fs1)
     \<and> record_review_objection example_env ''RVF-001'' ''wrong_category'' ''a test'' fs1 = Some (res, fs2)
     \<and> write_review_verdict_ledger example_env (example_args [] minor_payload) fs2 = Some (lg2, errs2, fs3)
     \<and> (\<exists>n f. findings_registry (lg_acc lg2) = (findings_registry (lg_acc lg))[n := f])"
proof -
  obtain lg errs fs1 where w: "write_review_verdict_ledger example_env (example_args [] minor_payload) no_review_files = Some (lg, errs, fs1)"
    using minor_written by blast
  note files = write_ledger_files [OF w]
  have "map fd_id (findings_registry (lg_acc lg)) = [''RVF-001'']" using minor_registry files(1) by simp
  then have id: "finding_with_id ''RVF-001'' (findings_registry (lg_acc lg)) \<noteq> None" by (auto simp: finding_with_id_def)
  have "dict_get OBJECTION_CHANNELS ''wrong_category'' \<noteq> None" "strip ''a test'' \<noteq> []" by code_simp+
  then obtain res fs2 where o: "record_review_objection example_env ''RVF-001'' ''wrong_category'' ''a test'' fs1 = Some (res, fs2)"
    "dict_get res ''status'' = Some (JStr ''success'')" using record_objection_succeeds [OF files(3) id] by blast
  obtain lg2 errs2 fs3 where w2: "write_review_verdict_ledger example_env (example_args [] minor_payload) fs2 = Some (lg2, errs2, fs3)"
    using write_ledger_again [OF w] by blast
  have "list_all (\<lambda>obj. \<exists>s. dict_get obj ''finding_id'' = Some (JStr s)) (load_review_objections (objections_file no_review_files))"
    by (simp add: no_review_files_def load_review_objections_def)
  from objection_lands [OF w o w2 this] w o(1) w2 show ?thesis by blast
qed

section \<open>What the code does not rule out\<close>

text \<open>A Monitor that rejects the change and lists its issues as texts is read as a clean review.\<close>

lemma text_issues_read_as_clean:
  "map_option computed_verdict (normalize_review_verdict
     (ledger_review_args example_env (example_args (''{'' @ [CHR 0x22] @ ''verdict'' @ [CHR 0x22] @ '':'' @ [CHR 0x22] @ ''rejected'' @ [CHR 0x22] @ '','' @ [CHR 0x22] @ ''issues'' @ [CHR 0x22] @ '':['' @ [CHR 0x22] @ ''leak'' @ [CHR 0x22] @ '']}'') []) no_review_files)) = Some PROCEED"
  by code_simp

text \<open>A stage that is a path is not bound to the ledger and names the same file.\<close>

lemma gate_of_path_is_unbound:
  "gate_path ''main'' (normalized_stage ''./review'') = gate_path ''main'' ''review''"
  "map_option (\<lambda>(res, fs). map_option (jget ''verdict'') (dict_get (gate_files fs) (gate_path ''main'' ''review'')))
     (write_stage_gate example_env ''./review'' ''ready'' [] [] no_review_files) = Some (Some (Some (JStr ''ready'')))"
  by code_simp+

text \<open>An objection without a new fact says that the previous verdict stands, and the verdict changes.\<close>

lemma repeated_verdict_changes:
  "map_option (\<lambda>lg. (computed_verdict lg, matches_previous lg, verdict_repeats (lg_acc lg)))
     (normalize_review_verdict (minor_review\<lparr>previous_verdict := ''BLOCK'', objections :=
        [[(''finding_id'', JStr ''RVF-001''), (''channel'', JStr ''no_new_fact''), (''claim_prefix'', JStr ''name'')]]\<rparr>))
   = Some (PROCEED, Some False, True)"
  by code_simp

text \<open>An objection to a finding without a claim lands on whatever finding has its number later.\<close>

lemma objection_to_blank_claim_drifts:
  "bound_to (objection_record now i ch eff ev [(''claim'', JStr [])]) f \<longleftrightarrow> fd_id f = i"
  by (auto simp: bound_to_def objection_record_def str_or_blank_def falsy_opt_def falsy_def py_str_def startswith_def)

end
