(* ===== verification/Runner_Resume.thy ===== *)
theory Runner_Resume
  imports Runner_Scope Runner_Common
begin

text \<open>
  The resume preflight of \<^verbatim>\<open>map_step_runner.py\<close>: whether the plan on a branch has the goal of the
  incoming request. Goals are compared by their significant words; the two ratios are kept as
  counts, and their comparison with the thresholds is that of the rounded floats. The wording of
  the recommendation is left out.
\<close>

section \<open>Words\<close>

definition LEARNING_MATCH_STOPWORDS :: "string list" where
  "LEARNING_MATCH_STOPWORDS =
     [''after'', ''always'', ''before'', ''branch'', ''because'', ''between'', ''could'', ''failed'', ''failure'', ''false'', ''file'',
      ''files'', ''from'', ''have'', ''into'', ''issue'', ''just'', ''later'', ''must'', ''needs'', ''none'', ''only'', ''path'',
      ''paths'', ''return'', ''should'', ''that'', ''their'', ''them'', ''then'', ''there'', ''these'', ''this'', ''true'', ''when'',
      ''with'', ''workflow'']"

definition ends_with :: "string \<Rightarrow> string \<Rightarrow> bool" where
  "ends_with s t = suffix t s"

definition normalize_learning_token :: "string \<Rightarrow> string" where
  "normalize_learning_token token =
     (let n = to_lower token
      in if ends_with n ''ies'' \<and> 5 < length n then take (length n - 3) n @ ''y''
         else if ends_with n ''es'' \<and> 5 < length n then take (length n - 2) n
         else if ends_with n ''s'' \<and> 4 < length n then take (length n - 1) n
         else n)"

definition is_token_char :: "char \<Rightarrow> bool" where
  "is_token_char c = (is_lower c \<or> is_digit c)"

text \<open>\<open>TOKEN_RE.finditer\<close>: the maximal runs of at least four letters or digits. The word read so far is reversed.\<close>

fun token_runs :: "string \<Rightarrow> string \<Rightarrow> string list" where
  "token_runs w [] = (if 4 \<le> length w then [rev w] else [])"
| "token_runs w (c # cs) =
     (if is_token_char c then token_runs (c # w) cs
      else (if 4 \<le> length w then [rev w] else []) @ token_runs [] cs)"

definition tokenize_learning_text :: "string \<Rightarrow> string list" where
  "tokenize_learning_text tx =
     filter (\<lambda>t. t \<noteq> [] \<and> t \<notin> set LEARNING_MATCH_STOPWORDS)
       (remdups (map normalize_learning_token (token_runs [] (to_lower tx))))"

section \<open>The goal of an existing plan\<close>

fun first_some :: "('a \<Rightarrow> 'b option) \<Rightarrow> 'a list \<Rightarrow> 'b option" where
  "first_some f [] = None"
| "first_some f (x # xs) = (case f x of None \<Rightarrow> first_some f xs | Some y \<Rightarrow> Some y)"

definition NL :: char where
  "NL = CHR 0x0A"

text \<open>\<open>(.*?)(?=\n##|\Z)\<close>: up to the next heading, or to the end.\<close>

fun until_heading :: "string \<Rightarrow> string" where
  "until_heading [] = []"
| "until_heading (c # cs) = (if prefix (NL # ''##'') (c # cs) then [] else c # until_heading cs)"

definition goal_block_at :: "string \<Rightarrow> string option" where
  "goal_block_at s =
     first_some (\<lambda>h. if prefix h s then Some (until_heading (drop (length h) s)) else None)
       [''## Goal'' @ [NL], ''## Overview'' @ [NL]]"

definition goal_block :: "string \<Rightarrow> string option" where
  "goal_block content = first_some goal_block_at (rev (suffixes content))"

text \<open>The texts that begin a line, from the first one on.\<close>

fun line_starts_after :: "string \<Rightarrow> string list" where
  "line_starts_after [] = []"
| "line_starts_after (c # cs) = (if c = NL then cs # line_starts_after cs else line_starts_after cs)"

definition line_starts :: "string \<Rightarrow> string list" where
  "line_starts s = s # line_starts_after s"

text \<open>\<open>(.+)$\<close>: the rest of the line, if it is not empty.\<close>

definition rest_of_line :: "string \<Rightarrow> string option" where
  "rest_of_line s = (case takeWhile (\<lambda>c. c \<noteq> NL) s of [] \<Rightarrow> None | g \<Rightarrow> Some g)"

text \<open>\<open>^[-*]?\s*Goal:\s*(.+)$\<close> at the beginning of a line, in any case. White space is read greedily, and
  nothing it gives back can make the match succeed.\<close>

definition goal_line_at :: "string \<Rightarrow> string option" where
  "goal_line_at s =
     (let body = lstrip (case s of c # cs \<Rightarrow> if c = CHR ''-'' \<or> c = CHR ''*'' then cs else s | [] \<Rightarrow> [])
      in if to_lower (take 5 body) = ''goal:'' then rest_of_line (lstrip (drop 5 body)) else None)"

text \<open>What remains after white space has been read, the most first.\<close>

definition space_cuts :: "nat \<Rightarrow> string \<Rightarrow> string list" where
  "space_cuts least s = map (\<lambda>k. drop k s) (rev [least..<Suc (length (takeWhile is_space s))])"

text \<open>\<open>^#\s+(?:<kind>\s*)?(.+)$\<close> at the beginning of a line.\<close>

definition title_at :: "string \<Rightarrow> string \<Rightarrow> string option" where
  "title_at kind s =
     (if \<not> prefix ''#'' s then None
      else first_some (\<lambda>r.
          case (if prefix kind r then first_some rest_of_line (space_cuts 0 (drop (length kind) r)) else None) of
            Some g \<Rightarrow> Some g | None \<Rightarrow> rest_of_line r) (space_cuts 1 (drop 1 s)))"

definition plan_parts :: "string \<Rightarrow> string list" where
  "plan_parts content =
     (case goal_block content of None \<Rightarrow> []
        | Some b \<Rightarrow> [case first_some goal_line_at (line_starts (strip b)) of Some g \<Rightarrow> strip g | None \<Rightarrow> strip b])
     @ (case first_some (title_at ''Task Plan:'') (line_starts content) of None \<Rightarrow> [] | Some g \<Rightarrow> [strip g])"

definition spec_parts :: "string \<Rightarrow> string list" where
  "spec_parts content = (case first_some (title_at ''Spec:'') (line_starts content) of None \<Rightarrow> [] | Some g \<Rightarrow> [strip g])"

fun unique_parts :: "string list \<Rightarrow> string list \<Rightarrow> string list" where
  "unique_parts seen [] = []"
| "unique_parts seen (p # ps) =
     (if p \<noteq> [] \<and> p \<notin> set seen then p # unique_parts (p # seen) ps else unique_parts seen ps)"

text \<open>The texts of the two files, where they exist.\<close>

definition read_existing_plan_goal :: "string option \<Rightarrow> string option \<Rightarrow> string" where
  "read_existing_plan_goal spec task_plan =
     strip (join [NL] (unique_parts []
       ((case task_plan of None \<Rightarrow> [] | Some tx \<Rightarrow> plan_parts (universal_newlines tx))
        @ (case spec of None \<Rightarrow> [] | Some tx \<Rightarrow> spec_parts (universal_newlines tx)))))"

section \<open>The verdict\<close>

record plan_files =
  pf_spec :: "string option"
  pf_task_plan :: "string option"
  pf_step_state :: jfile
  pf_discovery :: bool
  pf_findings :: bool

datatype resume_verdict = No_plan | Resume | Goal_mismatch

record resume_report =
  rr_verdict :: resume_verdict
  rr_findings :: bool
  rr_spec :: bool
  rr_task_plan :: bool
  rr_step_state :: bool
  rr_existing_goal :: "string option"
  rr_request :: string
  rr_shared :: "string list"
  rr_union :: nat \<comment> \<open>the overlap is \<open>length rr_shared\<close> of these\<close>
  rr_smaller :: nat \<comment> \<open>the containment is \<open>length rr_shared\<close> of these\<close>

text \<open>
  \<open>round(shared / smaller, 3) < 0.25\<close> and \<open>round(shared / union, 3) < 0.1\<close>: a ratio of 0.2495 is
  rounded down, because its float is below it, and one of 0.0995 up.
\<close>

definition containment_low :: "nat \<Rightarrow> nat \<Rightarrow> bool" where
  "containment_low shared smaller = (2000 * int shared \<le> 499 * int smaller)"

definition overlap_low :: "nat \<Rightarrow> nat \<Rightarrow> bool" where
  "overlap_low shared together = (2000 * int shared < 199 * int together)"

definition RESUME_MIN_TOKENS_FOR_MISMATCH :: nat where
  "RESUME_MIN_TOKENS_FOR_MISMATCH = 2"

definition check_plan_resume :: "string \<Rightarrow> plan_files \<Rightarrow> resume_report" where
  "check_plan_resume request fs =
     (let request_text = strip request; st = (pf_step_state fs \<noteq> No_file);
          has_plan = (pf_spec fs \<noteq> None \<or> pf_task_plan fs \<noteq> None \<or> st);
          goal = read_existing_plan_goal (pf_spec fs) (pf_task_plan fs);
          goal_tokens = tokenize_learning_text goal; request_tokens = tokenize_learning_text request_text;
          shared = sorted_set (filter (\<lambda>t. t \<in> set request_tokens) goal_tokens);
          together = length (remdups (goal_tokens @ request_tokens));
          smaller = min (length (remdups goal_tokens)) (length (remdups request_tokens));
          comparable = (request_text \<noteq> [] \<and> goal_tokens \<noteq> [] \<and> request_tokens \<noteq> [] \<and> RESUME_MIN_TOKENS_FOR_MISMATCH \<le> smaller);
          verdict = (if comparable \<and> (containment_low (length shared) smaller \<or> overlap_low (length shared) together)
                     then Goal_mismatch else Resume);
          report = \<lparr>rr_verdict = verdict, rr_findings = (pf_discovery fs \<or> pf_findings fs), rr_spec = (pf_spec fs \<noteq> None),
             rr_task_plan = (pf_task_plan fs \<noteq> None), rr_step_state = st, rr_existing_goal = (if goal = [] then None else Some goal),
             rr_request = request_text, rr_shared = shared, rr_union = together, rr_smaller = smaller\<rparr>
      in if has_plan then report
         else report\<lparr>rr_verdict := No_plan, rr_existing_goal := None, rr_shared := [], rr_union := 0, rr_smaller := 0\<rparr>)"

end
