(* ===== verification/Runner_Route.thy ===== *)
theory Runner_Route
  imports Runner_Resume Runner_Holds Scope_Classify
begin

text \<open>
  The routing of \<^verbatim>\<open>map_step_runner.py\<close>: which workflow a task enters, from the signals the branch
  directory holds, the decision file with its guards, and the ledger of phases. \<open>None\<close> as a result
  is an exception. The branch name is a sanitised one, so that all functions mean the same directory,
  and the project directory is the working directory.
\<close>

section \<open>Writing JSON\<close>

definition json_char :: "char \<Rightarrow> string" where
  "json_char c =
     (let n = of_char c :: nat; bs = CHR 0x5C
      in if c = CHR 0x22 then [bs, CHR 0x22] else if c = bs then [bs, bs]
         else if n = 10 then [bs, CHR ''n''] else if n = 13 then [bs, CHR ''r''] else if n = 9 then [bs, CHR ''t'']
         else if n = 12 then [bs, CHR ''f''] else if n = 8 then [bs, CHR ''b'']
         else if n < 32 \<or> n = 127 then [bs, CHR ''u'', CHR ''0'', CHR ''0'', hex_digit (n div 16), hex_digit (n mod 16)]
         else [c])"

definition json_quote :: "string \<Rightarrow> string" where
  "json_quote s = CHR 0x22 # concat (map json_char s) @ [CHR 0x22]"

text \<open>\<open>json.dumps(v, sort_keys=True)\<close> of a value whose texts are ASCII.\<close>

fun json_dumps :: "json \<Rightarrow> string" where
  "json_dumps JNull = ''null''"
| "json_dumps (JBool b) = (if b then ''true'' else ''false'')"
| "json_dumps (JInt i) = show_int i"
| "json_dumps (JFloat t) = t"
| "json_dumps (JStr s) = json_quote s"
| "json_dumps (JList vs) = ''['' @ join '', '' (map json_dumps vs) @ '']''"
| "json_dumps (JObj kvs) = ''{'' @ join '', '' (map snd (sort_key fst (map (\<lambda>(k, v). (k, json_quote k @ '': '' @ json_dumps v)) kvs))) @ ''}''"

text \<open>\<open>_sanitize_for_json\<close>: line ends and tabulators become spaces, other control characters vanish.\<close>

definition sanitize_for_json :: "string \<Rightarrow> string" where
  "sanitize_for_json tx =
     filter (\<lambda>c. \<not> ((of_char c :: nat) < 32 \<or> (of_char c :: nat) = 127))
       (map (\<lambda>c. if (of_char c :: nat) \<in> {9, 10} then CHR '' '' else c) (universal_newlines tx))"

section \<open>The signals\<close>

record route_files =
  rf_holds :: hold_files \<comment> \<open>with the manifest of the branch\<close>
  rf_plan :: plan_files \<comment> \<open>with \<^verbatim>\<open>step_state.json\<close>\<close>
  rf_blueprint :: jfile
  rf_fit :: jfile \<comment> \<open>\<^verbatim>\<open>workflow-fit.json\<close>\<close>
  rf_auto :: jfile \<comment> \<open>\<^verbatim>\<open>auto-route.json\<close>\<close>

record route_env =
  rt_hold :: hold_env
  rt_config :: "string option" \<comment> \<open>the configuration \<^verbatim>\<open>classify_scope.py\<close> reads\<close>

definition DONE_RESULT_STATUSES :: "string list" where
  "DONE_RESULT_STATUSES = [''valid'', ''completed'', ''done'', ''skipped'', ''no-op'', ''deferred_nondeterministic'']"

definition DONE_PHASE_STATUSES :: "string list" where
  "DONE_PHASE_STATUSES = [''completed'', ''skipped'', ''no-op'', ''complete'']"

definition members_of :: "json option \<Rightarrow> (string, json) dict" where
  "members_of v = (case v of Some (JObj ms) \<Rightarrow> ms | _ \<Rightarrow> [])"

definition done_class_subtask_ids :: "(string, json) dict \<Rightarrow> string list" where
  "done_class_subtask_ids state =
     List.map_filter (\<lambda>(sid, entry).
         case entry of
           JObj ms \<Rightarrow> (case dict_get ms ''status'' of
               Some (JStr s) \<Rightarrow> if to_lower s \<in> set DONE_RESULT_STATUSES then Some sid else None
             | _ \<Rightarrow> Some sid)
         | _ \<Rightarrow> None) (members_of (dict_get state ''subtask_results''))
     @ List.map_filter (\<lambda>(sid, phase).
         case phase of JStr s \<Rightarrow> if to_lower s \<in> set DONE_PHASE_STATUSES then Some sid else None | _ \<Rightarrow> None)
       (members_of (dict_get state ''subtask_phases''))"

definition blueprint_subtask_ids :: "(string, json) dict option \<Rightarrow> string list" where
  "blueprint_subtask_ids bp =
     (case bp of None \<Rightarrow> []
      | Some ms \<Rightarrow> List.map_filter (\<lambda>p. case dict_get p ''id'' of Some (JStr s) \<Rightarrow> Some s | _ \<Rightarrow> None)
          (objects_of (list_of (dict_get ms ''subtasks''))))"

text \<open>The completed subtasks, and whether the legacy field was used.\<close>

definition tier1_completed_subtask_ids :: "(string, json) dict \<Rightarrow> string list \<times> bool" where
  "tier1_completed_subtask_ids state =
     (if dict_get state ''subtask_results'' \<noteq> None \<or> dict_get state ''subtask_phases'' \<noteq> None
      then (done_class_subtask_ids state, False)
      else (map fst (members_of (dict_get state ''completed_steps'')), True))"

definition bracket_name :: "bracket \<Rightarrow> string" where
  "bracket_name b = (case b of Trivial \<Rightarrow> ''trivial'' | Small \<Rightarrow> ''small'' | Medium \<Rightarrow> ''medium'' | Large \<Rightarrow> ''large'')"

section \<open>The route\<close>

type_synonym evidence_entry = "string \<times> json \<times> string" \<comment> \<open>signal, value and source\<close>

definition AUTO_ROUTE_TIER2_ALLOWED :: "string list" where
  "AUTO_ROUTE_TIER2_ALLOWED = [''map-fast'', ''map-plan'', ''map-efficient'']"

definition route_path :: "route_env \<Rightarrow> string \<Rightarrow> string" where
  "route_path e name = ''.map/'' @ h_branch (rt_hold e) @ ''/'' @ name"

text \<open>The first tier: what \<^verbatim>\<open>step_state.json\<close> says, with its evidence. The outer \<open>None\<close> is an exception.\<close>

definition step_state_signal :: "route_files \<Rightarrow> (string option \<times> json) option" where
  "step_state_signal fs =
     (case read_json_file (pf_step_state (rf_plan fs)) of
        None \<Rightarrow> Some (None, JObj [(''status'', JStr ''absent'')])
      | Some state \<Rightarrow>
          map_option (\<lambda>bp.
            let ids = blueprint_subtask_ids bp; (completed, legacy) = tier1_completed_subtask_ids state;
                pending = sorted_set (filter (\<lambda>i. i \<notin> set completed) ids);
                origin = (''completion_source'', JStr (if legacy then ''legacy_completed_steps'' else ''canonical_done_class''))
            in if ids = [] then (Some ''map-resume'', JStr ''blueprint_unavailable'')
               else if pending \<noteq> [] then
                 (Some ''map-resume'', JObj [(''status'', JStr ''pending''), (''pending_subtask_ids'', JList (map JStr pending)), origin])
               else (Some ''map-check'', JObj [(''status'', JStr ''complete''), (''subtask_count'', JInt (int (length (remdups ids)))), origin]))
            (load_blueprint (rf_blueprint fs)))"

definition recommended_workflow :: "jfile \<Rightarrow> string option" where
  "recommended_workflow f =
     (case read_json_file f of None \<Rightarrow> None | Some p \<Rightarrow> (case dict_get p ''recommended_workflow'' of Some (JStr s) \<Rightarrow> Some s | _ \<Rightarrow> None))"

definition verdict_text :: "resume_verdict \<Rightarrow> string" where
  "verdict_text v = (case v of No_plan \<Rightarrow> ''no_plan'' | Resume \<Rightarrow> ''resume'' | Goal_mismatch \<Rightarrow> ''goal_mismatch'')"

text \<open>The fourth and the fifth tier.\<close>

definition scope_route :: "route_env \<Rightarrow> (int \<times> int) option \<Rightarrow> string \<times> evidence_entry" where
  "scope_route e estimate =
     (let source = ''classify_scope.classify()''
      in case estimate of
           Some (files, lines) \<Rightarrow>
             if 0 \<le> files \<and> 0 \<le> lines then
               (let b = c_bracket (classify (rt_config e) files lines)
                in (if b = Trivial then ''map-fast'' else ''map-plan'',
                    ''classify_scope.classify'', JObj [(''estimated'', JBool True), (''bracket'', JStr (bracket_name b))], source))
             else (''map-plan'', ''classify_scope.classify'', JObj [(''estimated'', JBool False)], source)
         | None \<Rightarrow> (''map-plan'', ''classify_scope.classify'', JObj [(''estimated'', JBool False)], source))"

definition select_route :: "route_env \<Rightarrow> string \<Rightarrow> (int \<times> int) option \<Rightarrow> route_files \<Rightarrow> (string \<times> evidence_entry list) option" where
  "select_route e task estimate fs =
     map_option (\<lambda>(state_route, state_value).
       let recommended = recommended_workflow (rf_fit fs);
           ev = [(''step_state.json'', state_value, route_path e ''step_state.json''),
                 (''workflow-fit.json'', case recommended of None \<Rightarrow> JNull | Some s \<Rightarrow> JStr s, route_path e ''workflow-fit.json'')];
           report = check_plan_resume task (rf_plan fs);
           ev3 = ev @ [(''check_plan_resume'', JStr (verdict_text (rr_verdict report)), ''check_plan_resume()'')];
           has_blueprint = (rf_blueprint fs \<noteq> No_file);
           (route, scope_ev) = scope_route e estimate
       in case state_route of
            Some r \<Rightarrow> (r, ev)
          | None \<Rightarrow>
              if (case recommended of None \<Rightarrow> False | Some s \<Rightarrow> s \<in> set AUTO_ROUTE_TIER2_ALLOWED) then (the recommended, ev)
              else if rr_verdict report = Resume then
                (if rr_task_plan report \<and> has_blueprint then ''map-efficient'' else ''map-plan'',
                 ev3 @ [(''blueprint.json'', JBool has_blueprint, route_path e ''blueprint.json'')])
              else (route, ev3 @ [scope_ev]))
       (step_state_signal fs)"

section \<open>The decision file\<close>

definition AUTO_ROUTE_NEXT_COMMAND :: "(string, string) dict" where
  "AUTO_ROUTE_NEXT_COMMAND =
     [(''map-resume'', ''/map-resume''), (''map-check'', ''/map-check''), (''map-fast'', ''/map-fast''),
      (''map-plan'', ''/map-plan''), (''map-efficient'', ''/map-efficient'')]"

definition auto_route_evidence_for_artifact :: "evidence_entry list \<Rightarrow> json" where
  "auto_route_evidence_for_artifact ev =
     JList (map (\<lambda>(signal, value, source).
       JObj [(''signal'', JStr signal), (''value'', JStr (case value of JStr s \<Rightarrow> s | _ \<Rightarrow> json_dumps value)), (''source'', JStr source)]) ev)"

text \<open>The pending hard stops: \<open>None\<close> for a hold without an identifier, or with a kind that cannot be hashed.\<close>

fun hard_stop_ids :: "json list \<Rightarrow> string list option" where
  "hard_stop_ids [] = Some []"
| "hard_stop_ids (h # hs) =
     (case h of
        JObj hold \<Rightarrow>
          (let kind = (case dict_get hold ''kind'' of None \<Rightarrow> JNull | Some k \<Rightarrow> k)
           in if \<not> hashable kind then None
              else if (case kind of JStr k \<Rightarrow> k \<in> set HARD_STOP_HOLD_KINDS | _ \<Rightarrow> False) then
                (case dict_get hold ''id'' of None \<Rightarrow> None | Some i \<Rightarrow> map_option (Cons (py_str i)) (hard_stop_ids hs))
              else hard_stop_ids hs)
      | _ \<Rightarrow> hard_stop_ids hs)"

definition route_history_of :: "(string, json) dict option \<Rightarrow> string list" where
  "route_history_of prior =
     (case prior of None \<Rightarrow> []
      | Some p \<Rightarrow> strings_of (list_of (dict_get p ''route_history''))
          @ (case dict_get p ''selected_route'' of Some (JStr r) \<Rightarrow> if r = [] then [] else [r] | _ \<Rightarrow> []))"

record route_answer =
  ra_status :: string
  ra_route :: string
  ra_chain_status :: string
  ra_next_command :: string
  ra_executed :: bool
  ra_blocked_by :: "string list"

text \<open>Writing the decision and recording the stage of the manifest.\<close>

definition write_auto_route ::
  "route_env \<Rightarrow> (string, json) dict \<Rightarrow> string \<Rightarrow> (string, json) dict \<Rightarrow> route_files \<Rightarrow> route_files option" where
  "write_auto_route e artifact stage_status metadata fs =
     map_option (\<lambda>m. fs\<lparr>rf_auto := Json (JObj artifact), rf_holds := (rf_holds fs)\<lparr>manifest_file := m\<rparr>\<rparr>)
       (record_stage (h_now (rt_hold e)) (h_branch (rt_hold e)) ''auto_route'' stage_status
          [artifact_ref (route_path e ''auto-route.json'') ''auto-route-decision''] metadata (manifest_file (rf_holds fs)))"

definition route_artifact ::
  "string \<Rightarrow> string \<Rightarrow> evidence_entry list \<Rightarrow> string list \<Rightarrow> string \<Rightarrow> bool \<Rightarrow> string \<Rightarrow> string list \<Rightarrow> string \<Rightarrow> (string, json) dict" where
  "route_artifact task route ev blocked_by next executed chain history block_reason =
     [(''schema_version'', JStr ''1.0''), (''task_summary'', JStr (sanitize_for_json task)), (''selected_route'', JStr route),
      (''evidence'', auto_route_evidence_for_artifact ev), (''blocked_by'', JList (map JStr blocked_by)), (''next_command'', JStr next),
      (''executed'', JBool executed), (''chain_status'', JStr chain), (''phases'', JList []), (''route_history'', JList (map JStr history))]
     @ (if block_reason = [] then [] else [(''block_reason'', JStr block_reason)])"

definition block_reason_of :: "string \<Rightarrow> string list \<Rightarrow> evidence_entry list \<Rightarrow> string" where
  "block_reason_of branch hard_stops ev =
     (if hard_stops \<noteq> [] then ''pending hard-stop hold(s): '' @ join '', '' hard_stops
      else if list_ex (\<lambda>(signal, value, _). signal = ''check_plan_resume'' \<and> value = JStr ''goal_mismatch'') ev
      then ''check_plan_resume reported goal_mismatch for branch '' @ [CHR 0x27] @ branch @ [CHR 0x27]
        @ ''; resolve the mismatch (archive/rename the prior plan or confirm intent) before routing.''
      else [])"

definition chain_status_of :: "route_files \<Rightarrow> json option" where
  "chain_status_of fs = (case read_json_file (rf_auto fs) of None \<Rightarrow> None | Some p \<Rightarrow> dict_get p ''chain_status'')"

definition route_task :: "route_env \<Rightarrow> string \<Rightarrow> bool \<Rightarrow> route_files \<Rightarrow> (route_answer \<times> route_files) option" where
  "route_task e task dry_run fs =
     (if chain_status_of fs = Some (JStr ''in_progress'') then
        Some (\<lparr>ra_status = ''refused'', ra_route = [], ra_chain_status = ''in_progress'', ra_next_command = ''/map-resume'',
               ra_executed = False, ra_blocked_by = []\<rparr>, fs)
      else
        case select_route e task None fs of
          None \<Rightarrow> None
        | Some (route, ev) \<Rightarrow>
            (case (dict_get AUTO_ROUTE_NEXT_COMMAND route, get_pending_holds (rt_hold e) (rf_holds fs)) of
               (Some next, Some pending) \<Rightarrow>
                 (case hard_stop_ids (p_holds pending) of
                    None \<Rightarrow> None
                  | Some stops \<Rightarrow>
                      (let reason = block_reason_of (h_branch (rt_hold e)) stops ev; blocked = (reason \<noteq> []);
                           executed = (\<not> dry_run \<and> \<not> blocked);
                           chain = (if blocked then ''blocked'' else if dry_run then ''recommended_only'' else ''in_progress'');
                           artifact = route_artifact task route ev stops next executed chain
                             (route_history_of (read_json_file (rf_auto fs))) reason
                       in map_option (Pair \<lparr>ra_status = (if blocked then ''blocked'' else ''success''), ra_route = route, ra_chain_status = chain,
                             ra_next_command = next, ra_executed = executed, ra_blocked_by = stops\<rparr>)
                           (write_auto_route e artifact (if blocked then ''blocked'' else if dry_run then ''recommended'' else ''in_progress'')
                              [(''selected_route'', JStr route), (''chain_status'', JStr chain)] fs)))
             | _ \<Rightarrow> None))"

section \<open>The ledger of phases\<close>

definition AUTO_PHASE_TERMINAL_SUCCESS_STATUSES :: "string list" where
  "AUTO_PHASE_TERMINAL_SUCCESS_STATUSES = [''completed'']"

definition AUTO_PHASE_ABORT_STATUSES :: "string list" where
  "AUTO_PHASE_ABORT_STATUSES = [''aborted'', ''failed'']"

definition AUTO_PHASE_MAX_ATTEMPTS :: nat where
  "AUTO_PHASE_MAX_ATTEMPTS = 2"

record phase_answer =
  pa_status :: string
  pa_attempt :: nat
  pa_chain_status :: string

definition phases_of :: "(string, json) dict \<Rightarrow> (string, json) dict list" where
  "phases_of artifact = objects_of (list_of (dict_get artifact ''phases''))"

definition prior_attempts :: "string \<Rightarrow> (string, json) dict list \<Rightarrow> nat" where
  "prior_attempts phase phases = length (filter (\<lambda>p. dict_get p ''phase'' = Some (JStr phase)) phases)"

definition phase_entry :: "string \<Rightarrow> string \<Rightarrow> string \<Rightarrow> nat \<Rightarrow> string list \<Rightarrow> string \<Rightarrow> (string, json) dict" where
  "phase_entry now phase status attempt refs reason =
     [(''phase'', JStr phase), (''status'', JStr status), (''attempt'', JInt (int attempt)), (''evidence_refs'', JList (map JStr refs)),
      (''reason'', JStr (sanitize_for_json reason)), (''recorded_at'', JStr now)]"

definition chain_after :: "string \<Rightarrow> string" where
  "chain_after status =
     (if status \<in> set AUTO_PHASE_TERMINAL_SUCCESS_STATUSES then ''completed''
      else if status \<in> set AUTO_PHASE_ABORT_STATUSES then ''aborted'' else ''in_progress'')"

definition quoted :: "string \<Rightarrow> string" where
  "quoted s = [CHR 0x27] @ s @ [CHR 0x27]"

definition refused_reason :: "string \<Rightarrow> nat \<Rightarrow> string \<Rightarrow> string" where
  "refused_reason phase attempt reason =
     sanitize_for_json (''phase '' @ quoted phase @ '' refused at attempt '' @ show_nat attempt @ '' (max ''
       @ show_nat AUTO_PHASE_MAX_ATTEMPTS @ '' attempts per HC-2); forcing chain_status=aborted.''
       @ (if reason = [] then [] else '' caller reason: '' @ reason))"

definition record_auto_phase ::
  "route_env \<Rightarrow> string \<Rightarrow> string \<Rightarrow> string list \<Rightarrow> string \<Rightarrow> route_files \<Rightarrow> (phase_answer \<times> route_files) option" where
  "record_auto_phase e phase status refs reason fs =
     (case read_json_file (rf_auto fs) of
        None \<Rightarrow> Some (\<lparr>pa_status = ''error'', pa_attempt = 0, pa_chain_status = []\<rparr>, fs)
      | Some artifact \<Rightarrow>
          (let current = (case dict_get artifact ''chain_status'' of None \<Rightarrow> JNull | Some v \<Rightarrow> v);
               phases = phases_of artifact; attempt = Suc (prior_attempts phase phases)
           in if \<not> hashable current then None
              else if current \<in> {JStr ''aborted'', JStr ''blocked''} then
                Some (\<lparr>pa_status = ''refused'', pa_attempt = 0, pa_chain_status = py_str current\<rparr>, fs)
              else if AUTO_PHASE_MAX_ATTEMPTS < attempt then
                map_option (Pair \<lparr>pa_status = ''refused'', pa_attempt = attempt, pa_chain_status = ''aborted''\<rparr>)
                  (write_auto_route e
                     (dict_set ''abort_reason'' (JStr (refused_reason phase attempt reason)) (dict_set ''chain_status'' (JStr ''aborted'') artifact))
                     ''aborted'' [(''chain_status'', JStr ''aborted''), (''aborted_phase'', JStr phase), (''attempt'', JInt (int attempt))] fs)
              else
                (let chain = chain_after status;
                     recorded = dict_set ''chain_status'' (JStr chain)
                       (dict_set ''phases'' (JList (map JObj (phases @ [phase_entry (h_now (rt_hold e)) phase status attempt refs reason]))) artifact);
                     artifact' = (if chain = ''aborted'' then
                         dict_set ''abort_reason'' (JStr (sanitize_for_json (if reason = []
                           then ''phase '' @ quoted phase @ '' reported status '' @ quoted status else reason))) recorded
                       else dict_pop ''abort_reason'' recorded)
                 in map_option (Pair \<lparr>pa_status = ''success'', pa_attempt = attempt, pa_chain_status = chain\<rparr>)
                      (write_auto_route e artifact' chain
                         [(''chain_status'', JStr chain), (''phase'', JStr phase), (''attempt'', JInt (int attempt))] fs))))"

end
