(* ===== verification/Runner_Route_Props.thy ===== *)
theory Runner_Route_Props
  imports Runner_Route
begin

text \<open>
  The route follows the signals in their order, a chain is started only when nothing stands against
  it, and the ledger of phases keeps its bounds whatever order the commands come in.
\<close>

section \<open>The route\<close>

text \<open>Every subtask of the blueprint is done, of which there is at least one.\<close>

definition plan_done :: "route_files \<Rightarrow> bool" where
  "plan_done fs =
     (\<exists>state bp. read_json_file (pf_step_state (rf_plan fs)) = Some state \<and> load_blueprint (rf_blueprint fs) = Some bp
        \<and> blueprint_subtask_ids bp \<noteq> [] \<and> set (blueprint_subtask_ids bp) \<subseteq> set (fst (tier1_completed_subtask_ids state)))"

definition in_workflow :: "route_files \<Rightarrow> bool" where
  "in_workflow fs = (read_json_file (pf_step_state (rf_plan fs)) \<noteq> None)"

definition advised :: "route_files \<Rightarrow> string option" where
  "advised fs = (case recommended_workflow (rf_fit fs) of
     Some s \<Rightarrow> if s \<in> set AUTO_ROUTE_TIER2_ALLOWED then Some s else None | None \<Rightarrow> None)"

definition trivial_estimate :: "route_env \<Rightarrow> (int \<times> int) option \<Rightarrow> bool" where
  "trivial_estimate e estimate = (case estimate of
     Some (files, lines) \<Rightarrow> 0 \<le> files \<and> 0 \<le> lines \<and> c_bracket (classify (rt_config e) files lines) = Trivial | None \<Rightarrow> False)"

lemma sorted_set_Nil: "sorted_set xs = [] \<longleftrightarrow> xs = []"
  by (metis set_empty set_remdups set_sort sorted_set_def)

lemma step_state_signal_route:
  assumes "step_state_signal fs = Some (r, v)"
  shows "r = (if \<not> in_workflow fs then None else if plan_done fs then Some ''map-check'' else Some ''map-resume'')"
proof (cases "read_json_file (pf_step_state (rf_plan fs))")
  case None
  then show ?thesis using assms by (simp add: step_state_signal_def in_workflow_def)
next
  case (Some state)
  then obtain bp where bp: "load_blueprint (rf_blueprint fs) = Some bp"
    using assms by (auto simp: step_state_signal_def)
  have "plan_done fs \<longleftrightarrow> blueprint_subtask_ids bp \<noteq> []
      \<and> filter (\<lambda>i. i \<notin> set (fst (tier1_completed_subtask_ids state))) (blueprint_subtask_ids bp) = []"
    by (auto simp: plan_done_def Some bp filter_empty_conv)
  then show ?thesis using assms
    by (auto simp: step_state_signal_def Some bp in_workflow_def Let_def case_prod_unfold sorted_set_Nil split: if_splits)
qed

lemma scope_route_fst: "fst (scope_route e estimate) = (if trivial_estimate e estimate then ''map-fast'' else ''map-plan'')"
  by (auto simp: scope_route_def trivial_estimate_def Let_def split: option.splits prod.splits)

text \<open>The route, as a function of the five signals.\<close>

definition route_spec :: "route_env \<Rightarrow> string \<Rightarrow> (int \<times> int) option \<Rightarrow> route_files \<Rightarrow> string" where
  "route_spec e task estimate fs =
     (if in_workflow fs then (if plan_done fs then ''map-check'' else ''map-resume'')
      else case advised fs of
          Some s \<Rightarrow> s
        | None \<Rightarrow>
            if rr_verdict (check_plan_resume task (rf_plan fs)) = Resume
            then (if pf_task_plan (rf_plan fs) \<noteq> None \<and> rf_blueprint fs \<noteq> No_file then ''map-efficient'' else ''map-plan'')
            else if trivial_estimate e estimate then ''map-fast'' else ''map-plan'')"

lemma report_task_plan: "rr_task_plan (check_plan_resume task pf) \<longleftrightarrow> pf_task_plan pf \<noteq> None"
  by (simp add: check_plan_resume_def Let_def)

lemma select_route_spec: "select_route e task estimate fs = Some (r, ev) \<Longrightarrow> r = route_spec e task estimate fs"
proof -
  assume a: "select_route e task estimate fs = Some (r, ev)"
  then obtain sr v where sv: "step_state_signal fs = Some (sr, v)" by (auto simp: select_route_def)
  note sr = step_state_signal_route [OF sv]
  show ?thesis
  proof (cases "in_workflow fs")
    case True
    then show ?thesis using a sr by (auto simp: select_route_def sv route_spec_def Let_def case_prod_unfold)
  next
    case False
    then have "sr = None" using sr by simp
    then show ?thesis using a False scope_route_fst [of e estimate]
      by (auto simp: select_route_def sv route_spec_def advised_def report_task_plan Let_def case_prod_unfold split: option.splits if_splits)
  qed
qed

lemma route_spec_known: "dict_get AUTO_ROUTE_NEXT_COMMAND (route_spec e task estimate fs) = Some (CHR ''/'' # route_spec e task estimate fs)"
proof -
  have "r \<in> {''map-resume'', ''map-check'', ''map-fast'', ''map-plan'', ''map-efficient''} \<Longrightarrow>
      dict_get AUTO_ROUTE_NEXT_COMMAND r = Some (CHR ''/'' # r)" for r
    by (auto simp: AUTO_ROUTE_NEXT_COMMAND_def)
  moreover have "route_spec e task estimate fs \<in> {''map-resume'', ''map-check'', ''map-fast'', ''map-plan'', ''map-efficient''}"
    by (auto simp: route_spec_def advised_def AUTO_ROUTE_TIER2_ALLOWED_def split: option.splits)
  ultimately show ?thesis by blast
qed

section \<open>Writing the decision\<close>

lemma write_auto_route_files:
  "\<exists>m. write_auto_route e artifact st metadata fs = Some (fs\<lparr>rf_auto := Json (JObj artifact), rf_holds := (rf_holds fs)\<lparr>manifest_file := m\<rparr>\<rparr>)"
proof -
  have "''auto_route'' \<in> set ARTIFACT_STAGE_NAMES" by (simp add: ARTIFACT_STAGE_NAMES_def)
  from record_stage_frame [OF this] show ?thesis unfolding write_auto_route_def by (metis option.simps(9))
qed

lemma write_auto_route_Some:
  assumes "write_auto_route e artifact st metadata fs = Some fs'"
  obtains m where "fs' = fs\<lparr>rf_auto := Json (JObj artifact), rf_holds := (rf_holds fs)\<lparr>manifest_file := m\<rparr>\<rparr>"
  using assms write_auto_route_files [of e artifact st metadata fs] by auto

text \<open>A pending hold of a kind that stops a run.\<close>

definition stopping :: "json \<Rightarrow> bool" where
  "stopping h = (\<exists>k \<in> set HARD_STOP_HOLD_KINDS. jget ''kind'' h = Some (JStr k))"

lemma hard_stop_ids_Nil: "hard_stop_ids hs = Some ids \<Longrightarrow> ids = [] \<longleftrightarrow> \<not> list_ex stopping hs"
proof (induction hs arbitrary: ids)
  case (Cons h hs)
  show ?case
  proof (cases h)
    case (JObj hold)
    show ?thesis using Cons unfolding JObj
      by (auto simp: stopping_def Let_def hashable_def split: option.splits if_splits json.splits)
  qed (use Cons in \<open>auto simp: stopping_def\<close>)
qed simp

text \<open>
  The plan stands against the request: no workflow is in flight and none is recommended, so that
  the router looks at the plan, and the plan is for another goal.
\<close>

definition goal_conflict :: "string \<Rightarrow> route_files \<Rightarrow> bool" where
  "goal_conflict task fs = (\<not> in_workflow fs \<and> advised fs = None \<and> rr_verdict (check_plan_resume task (rf_plan fs)) = Goal_mismatch)"

lemma verdict_text_mismatch: "verdict_text v = ''goal_mismatch'' \<longleftrightarrow> v = Goal_mismatch"
  by (cases v) (simp_all add: verdict_text_def)

lemma select_route_evidence:
  assumes "select_route e task estimate fs = Some (r, ev)"
  shows "list_ex (\<lambda>(signal, value, _). signal = ''check_plan_resume'' \<and> value = JStr ''goal_mismatch'') ev \<longleftrightarrow> goal_conflict task fs"
proof -
  obtain sr v where sv: "step_state_signal fs = Some (sr, v)" using assms by (auto simp: select_route_def)
  note sr = step_state_signal_route [OF sv]
  have scope: "fst (snd (scope_route e estimate)) = ''classify_scope.classify''"
    by (auto simp: scope_route_def Let_def split: option.splits prod.splits)
  show ?thesis
  proof (cases "in_workflow fs")
    case True
    then show ?thesis using assms sr by (auto simp: select_route_def sv goal_conflict_def Let_def case_prod_unfold split: if_splits)
  next
    case False
    then have "sr = None" using sr by simp
    then show ?thesis using assms False scope
      by (auto simp: select_route_def sv goal_conflict_def advised_def Let_def case_prod_unfold verdict_text_mismatch
          split: option.splits if_splits)
  qed
qed

text \<open>The holds of the store that wait for a decision.\<close>

definition waiting_holds :: "hold_env \<Rightarrow> hold_files \<Rightarrow> json set" where
  "waiting_holds e fs = (case holds_of (load_approval_holds (h_branch e) (holds_file fs)) of None \<Rightarrow> {}
     | Some holds \<Rightarrow> {h \<in> snd ` set holds. is_jobj h \<and> jget ''state'' h = Some (JStr ''pending'')})"

lemma pending_waiting:
  assumes "get_pending_holds e fs = Some p"
  shows "set (p_holds p) = waiting_holds e fs"
proof -
  have st: "''pending'' \<in> set APPROVAL_HOLD_ALL_STATES" by (simp add: APPROVAL_HOLD_ALL_STATES_def)
  then obtain hs where hs: "holds_of (load_approval_holds (h_branch e) (holds_file fs)) = Some hs"
    using assms by (auto simp: get_pending_holds_def list_approval_holds_def split: option.splits)
  have "\<exists>k :: json \<Rightarrow> string. p_holds p = sort_key k (filter (\<lambda>h. jget ''state'' h = Some (JStr ''pending'')) (filter is_jobj (map snd hs)))"
    using assms st unfolding get_pending_holds_def list_approval_holds_def by (auto simp: hs Let_def simp del: filter_filter intro!: exI)
  then have "set (p_holds p) = {h \<in> set (map snd hs). is_jobj h \<and> jget ''state'' h = Some (JStr ''pending'')}" by fastforce
  then show ?thesis by (simp add: waiting_holds_def hs)
qed

text \<open>What a routing that is not refused leaves.\<close>

lemma route_task_writes:
  assumes "route_task e task dry fs = Some (ans, fs')" "chain_status_of fs \<noteq> Some (JStr ''in_progress'')"
  obtains ev stops reason m where
    "ra_route ans = route_spec e task None fs"
    "(reason \<noteq> []) \<longleftrightarrow> (\<exists>h \<in> waiting_holds (rt_hold e) (rf_holds fs). stopping h) \<or> goal_conflict task fs"
    "ra_executed ans \<longleftrightarrow> \<not> dry \<and> reason = []"
    "ra_chain_status ans = (if reason \<noteq> [] then ''blocked'' else if dry then ''recommended_only'' else ''in_progress'')"
    "fs' = fs\<lparr>rf_auto := Json (JObj (route_artifact task (ra_route ans) ev stops (ra_next_command ans) (ra_executed ans)
        (ra_chain_status ans) (route_history_of (read_json_file (rf_auto fs))) reason)),
        rf_holds := (rf_holds fs)\<lparr>manifest_file := m\<rparr>\<rparr>"
proof -
  obtain route ev where sel: "select_route e task None fs = Some (route, ev)"
    using assms by (auto simp: route_task_def split: option.splits)
  have route: "route = route_spec e task None fs" by (rule select_route_spec [OF sel])
  obtain pending where p: "get_pending_holds (rt_hold e) (rf_holds fs) = Some pending"
    using assms by (auto simp: route_task_def sel split: option.splits)
  obtain stops where stops: "hard_stop_ids (p_holds pending) = Some stops"
    using assms p by (auto simp: route_task_def sel route route_spec_known split: option.splits)
  let ?reason = "block_reason_of (h_branch (rt_hold e)) stops ev"
  have "(stops = []) \<longleftrightarrow> \<not> (\<exists>h \<in> waiting_holds (rt_hold e) (rf_holds fs). stopping h)"
    using hard_stop_ids_Nil [OF stops] pending_waiting [OF p] by (auto simp: list_ex_iff)
  then have reason: "?reason \<noteq> [] \<longleftrightarrow> (\<exists>h \<in> waiting_holds (rt_hold e) (rf_holds fs). stopping h) \<or> goal_conflict task fs"
    using select_route_evidence [OF sel] by (auto simp: block_reason_of_def)
  define executed where "executed = (\<not> dry \<and> ?reason = [])"
  define chain where "chain = (if ?reason \<noteq> [] then ''blocked'' else if dry then ''recommended_only'' else ''in_progress'')"
  obtain st md where w: "write_auto_route e (route_artifact task route ev stops (CHR ''/'' # route) executed chain
        (route_history_of (read_json_file (rf_auto fs))) ?reason) st md fs = Some fs'"
    and ans: "ra_route ans = route" "ra_executed ans = executed" "ra_chain_status ans = chain" "ra_next_command ans = CHR ''/'' # route"
    using assms by (auto simp: route_task_def sel p stops route route_spec_known Let_def executed_def chain_def split: if_splits)
  obtain m where "fs' = fs\<lparr>rf_auto := Json (JObj (route_artifact task route ev stops (CHR ''/'' # route) executed chain
        (route_history_of (read_json_file (rf_auto fs))) ?reason)), rf_holds := (rf_holds fs)\<lparr>manifest_file := m\<rparr>\<rparr>"
    using w by (rule write_auto_route_Some)
  then show thesis using ans reason by (intro that [of ?reason m ev stops]) (simp_all add: route executed_def chain_def)
qed

section \<open>The life of a chain\<close>

text \<open>The attempts of a phase are numbered from one, and there are at most two.\<close>

definition attempts :: "string \<Rightarrow> (string, json) dict list \<Rightarrow> json option list" where
  "attempts ph ps = map (\<lambda>p. dict_get p ''attempt'') (filter (\<lambda>p. dict_get p ''phase'' = Some (JStr ph)) ps)"

definition bounded_phases :: "(string, json) dict list \<Rightarrow> bool" where
  "bounded_phases ps = (\<forall>ph. length (attempts ph ps) \<le> AUTO_PHASE_MAX_ATTEMPTS
     \<and> attempts ph ps = map (\<lambda>k. Some (JInt (int k))) [1..<Suc (length (attempts ph ps))])"

definition chain_statuses :: "string list" where
  "chain_statuses = [''in_progress'', ''recommended_only'', ''blocked'', ''completed'', ''aborted'']"

definition chain_ok :: "(string, json) dict \<Rightarrow> bool" where
  "chain_ok A = (\<exists>c ps x. dict_get A ''chain_status'' = Some (JStr c) \<and> dict_get A ''phases'' = Some (JList (map JObj ps))
     \<and> dict_get A ''executed'' = Some (JBool x)
     \<and> c \<in> set chain_statuses \<and> bounded_phases ps
     \<and> (c \<in> {''blocked'', ''recommended_only''} \<longrightarrow> ps = [] \<and> \<not> x) \<and> (dict_get A ''abort_reason'' \<noteq> None \<longleftrightarrow> c = ''aborted''))"

definition chain_inv :: "route_files \<Rightarrow> bool" where
  "chain_inv fs = (rf_auto fs = No_file \<or> (\<exists>A. rf_auto fs = Json (JObj A) \<and> chain_ok A))"

lemma length_attempts: "length (attempts ph ps) = prior_attempts ph ps"
  by (simp add: attempts_def prior_attempts_def)

lemma bounded_phases_add:
  assumes "bounded_phases ps" "Suc (prior_attempts phase ps) \<le> AUTO_PHASE_MAX_ATTEMPTS"
  shows "bounded_phases (ps @ [phase_entry now phase status (Suc (prior_attempts phase ps)) refs reason])" (is "bounded_phases (ps @ [?e])")
proof -
  have "attempts ph (ps @ [?e]) = attempts ph ps @ (if ph = phase then [Some (JInt (int (Suc (prior_attempts phase ps))))] else [])" for ph
    by (auto simp: attempts_def phase_entry_def)
  moreover have "length (attempts ph ps) \<le> AUTO_PHASE_MAX_ATTEMPTS"
      "attempts ph ps = map (\<lambda>k. Some (JInt (int k))) [1..<Suc (length (attempts ph ps))]" for ph
    using assms(1) by (simp_all only: bounded_phases_def)
  ultimately show ?thesis using assms(2) unfolding bounded_phases_def
    by (simp add: length_attempts)
qed

lemma route_artifact_ok:
  "chain_ok (route_artifact task route ev stops next (\<not> dry \<and> reason = [])
     (if reason \<noteq> [] then ''blocked'' else if dry then ''recommended_only'' else ''in_progress'') history reason)"
  by (auto simp: chain_ok_def chain_statuses_def route_artifact_def bounded_phases_def attempts_def intro!: exI [of _ "[]"])

lemma chain_okE:
  assumes "chain_ok A"
  obtains c ps x where "dict_get A ''chain_status'' = Some (JStr c)" "dict_get A ''phases'' = Some (JList (map JObj ps))"
    "dict_get A ''executed'' = Some (JBool x)" "bounded_phases ps" "phases_of A = ps"
proof -
  from assms obtain c ps x where v: "dict_get A ''chain_status'' = Some (JStr c)" "dict_get A ''phases'' = Some (JList (map JObj ps))"
    "dict_get A ''executed'' = Some (JBool x)" "bounded_phases ps" unfolding chain_ok_def by blast
  then show thesis by (intro that) (simp_all add: phases_of_def)
qed

text \<open>What recording a phase does to the ledger, on every branch.\<close>

lemma record_auto_phase_cases:
  assumes "record_auto_phase e phase status refs reason fs = Some (ans, fs')" "rf_auto fs = Json (JObj A)" "chain_ok A"
  obtains
    (terminal) "fs' = fs" "dict_get A ''chain_status'' \<in> {Some (JStr ''aborted''), Some (JStr ''blocked'')}" "pa_status ans = ''refused''"
  | (exhausted) m r where "dict_get A ''chain_status'' \<notin> {Some (JStr ''aborted''), Some (JStr ''blocked'')}"
      "AUTO_PHASE_MAX_ATTEMPTS < Suc (prior_attempts phase (phases_of A))" "pa_status ans = ''refused''"
      "fs' = fs\<lparr>rf_auto := Json (JObj (dict_set ''abort_reason'' (JStr r) (dict_set ''chain_status'' (JStr ''aborted'') A))),
          rf_holds := (rf_holds fs)\<lparr>manifest_file := m\<rparr>\<rparr>"
  | (recorded) m r where "dict_get A ''chain_status'' \<notin> {Some (JStr ''aborted''), Some (JStr ''blocked'')}"
      "Suc (prior_attempts phase (phases_of A)) \<le> AUTO_PHASE_MAX_ATTEMPTS" "pa_status ans = ''success''"
      "pa_attempt ans = Suc (prior_attempts phase (phases_of A))"
      "fs' = fs\<lparr>rf_auto := Json (JObj ((if chain_after status = ''aborted'' then dict_set ''abort_reason'' (JStr r) else dict_pop ''abort_reason'')
          (dict_set ''chain_status'' (JStr (chain_after status)) (dict_set ''phases'' (JList (map JObj (phases_of A
             @ [phase_entry (h_now (rt_hold e)) phase status (Suc (prior_attempts phase (phases_of A))) refs reason]))) A)))),
          rf_holds := (rf_holds fs)\<lparr>manifest_file := m\<rparr>\<rparr>"
proof -
  have A: "read_json_file (rf_auto fs) = Some A" by (simp add: assms(2) read_json_file_def)
  obtain c where c: "dict_get A ''chain_status'' = Some (JStr c)" using assms(3) by (rule chain_okE)
  consider "c = ''aborted'' \<or> c = ''blocked''"
    | "c \<noteq> ''aborted''" "c \<noteq> ''blocked''" "AUTO_PHASE_MAX_ATTEMPTS < Suc (prior_attempts phase (phases_of A))"
    | "c \<noteq> ''aborted''" "c \<noteq> ''blocked''" "Suc (prior_attempts phase (phases_of A)) \<le> AUTO_PHASE_MAX_ATTEMPTS" by linarith
  then show thesis
  proof cases
    case 1
    then show thesis using assms(1) c by (intro terminal) (auto simp: record_auto_phase_def A Let_def hashable_def)
  next
    case 2
    then obtain md where "write_auto_route e (dict_set ''abort_reason'' (JStr (refused_reason phase (Suc (prior_attempts phase (phases_of A))) reason))
        (dict_set ''chain_status'' (JStr ''aborted'') A)) ''aborted'' md fs = Some fs'" "pa_status ans = ''refused''"
      using assms(1) c by (auto simp: record_auto_phase_def A Let_def hashable_def)
    then show thesis using 2 c by (elim write_auto_route_Some) (rule exhausted, auto)
  next
    case 3
    let ?rec = "dict_set ''chain_status'' (JStr (chain_after status)) (dict_set ''phases'' (JList (map JObj (phases_of A
             @ [phase_entry (h_now (rt_hold e)) phase status (Suc (prior_attempts phase (phases_of A))) refs reason]))) A)"
    obtain r st md where "write_auto_route e ((if chain_after status = ''aborted'' then dict_set ''abort_reason'' (JStr r) else dict_pop ''abort_reason'') ?rec)
        st md fs = Some fs'" "pa_status ans = ''success''" "pa_attempt ans = Suc (prior_attempts phase (phases_of A))"
      using assms(1) c 3 by (auto simp: record_auto_phase_def A Let_def hashable_def split: if_splits)
    then show thesis using 3 c by (elim write_auto_route_Some) (rule recorded, auto)
  qed
qed

lemma chain_after_range: "chain_after status \<in> {''completed'', ''aborted'', ''in_progress''}"
  by (simp add: chain_after_def)

lemma record_auto_phase_ok:
  assumes "record_auto_phase e phase status refs reason fs = Some (ans, fs')" "chain_inv fs"
  shows "chain_inv fs'"
proof (cases "rf_auto fs = No_file")
  case True
  then show ?thesis using assms by (auto simp: record_auto_phase_def read_json_file_def chain_inv_def)
next
  case False
  then obtain A where A: "rf_auto fs = Json (JObj A)" "chain_ok A" using assms(2) by (auto simp: chain_inv_def)
  obtain c ps x where v: "dict_get A ''chain_status'' = Some (JStr c)" "dict_get A ''phases'' = Some (JList (map JObj ps))"
    "dict_get A ''executed'' = Some (JBool x)" "bounded_phases ps" "phases_of A = ps" using A(2) by (rule chain_okE)
  show ?thesis using assms(1) A
  proof (cases rule: record_auto_phase_cases)
    case (exhausted m r)
    have "chain_ok (dict_set ''abort_reason'' (JStr r) (dict_set ''chain_status'' (JStr ''aborted'') A))"
      unfolding chain_ok_def using v
      by (intro exI [of _ "''aborted''"] exI [of _ ps] exI [of _ x]) (simp add: chain_statuses_def alist_laws)
    then show ?thesis by (simp add: exhausted(4) chain_inv_def)
  next
    case (recorded m r)
    let ?ps = "phases_of A @ [phase_entry (h_now (rt_hold e)) phase status (Suc (prior_attempts phase (phases_of A))) refs reason]"
    have "bounded_phases ?ps" using v(4,5) recorded(2) by (simp only: bounded_phases_add)
    then have "chain_ok ((if chain_after status = ''aborted'' then dict_set ''abort_reason'' (JStr r) else dict_pop ''abort_reason'')
          (dict_set ''chain_status'' (JStr (chain_after status)) (dict_set ''phases'' (JList (map JObj ?ps)) A)))"
      unfolding chain_ok_def using v(3) chain_after_range [of status]
      by (intro exI [of _ "chain_after status"] exI [of _ ?ps] exI [of _ x]) (auto simp: chain_statuses_def alist_laws simp del: map_append)
    then show ?thesis by (simp only: recorded(5) chain_inv_def) simp
  qed (use assms(2) in simp)
qed

lemma route_task_ok:
  assumes "route_task e task dry fs = Some (ans, fs')" "chain_inv fs"
  shows "chain_inv fs'"
proof (cases "chain_status_of fs = Some (JStr ''in_progress'')")
  case True
  then show ?thesis using assms by (auto simp: route_task_def)
next
  case False
  obtain ev stops reason m where w: "ra_executed ans \<longleftrightarrow> \<not> dry \<and> reason = []"
    "ra_chain_status ans = (if reason \<noteq> [] then ''blocked'' else if dry then ''recommended_only'' else ''in_progress'')"
    "fs' = fs\<lparr>rf_auto := Json (JObj (route_artifact task (ra_route ans) ev stops (ra_next_command ans) (ra_executed ans)
        (ra_chain_status ans) (route_history_of (read_json_file (rf_auto fs))) reason)),
        rf_holds := (rf_holds fs)\<lparr>manifest_file := m\<rparr>\<rparr>"
    by (rule route_task_writes [OF assms(1) False])
  show ?thesis by (simp add: chain_inv_def w(3)) (simp only: w(1,2) route_artifact_ok)
qed

text \<open>A command of the chain, by any caller at any time, or a change of the other files.\<close>

definition route_step :: "route_files \<Rightarrow> route_files \<Rightarrow> bool" where
  "route_step fs fs' =
     ((\<exists>e task dry ans. route_task e task dry fs = Some (ans, fs'))
      \<or> (\<exists>e phase status refs reason ans. record_auto_phase e phase status refs reason fs = Some (ans, fs'))
      \<or> rf_auto fs' = rf_auto fs)"

definition no_route :: "route_files \<Rightarrow> bool" where
  "no_route fs = (rf_auto fs = No_file)"

interpretation chain: invariant_machine no_route route_step chain_inv
  by unfold_locales (auto simp: no_route_def chain_inv_def route_step_def
    dest: route_task_ok [unfolded chain_inv_def] record_auto_phase_ok [unfolded chain_inv_def])

section \<open>Properties\<close>

definition example_route_env :: route_env where
  "example_route_env = \<lparr>rt_hold = \<lparr>h_branch = ''main'', h_now = ''t'', h_trunc = (\<lambda>_. None)\<rparr>, rt_config = None\<rparr>"

definition empty_branch :: route_files where
  "empty_branch = \<lparr>rf_holds = \<lparr>holds_file = No_file, manifest_file = No_file, hold_reports = []\<rparr>,
     rf_plan = \<lparr>pf_spec = None, pf_task_plan = None, pf_step_state = No_file, pf_discovery = False, pf_findings = False\<rparr>,
     rf_blueprint = No_file, rf_fit = No_file, rf_auto = No_file\<rparr>"

definition finished_branch :: route_files where
  "finished_branch = empty_branch\<lparr>
     rf_plan := (rf_plan empty_branch)\<lparr>pf_step_state := Json (JObj [(''subtask_results'', JObj [(''ST-1'', JObj [(''status'', JStr ''valid'')])])])\<rparr>,
     rf_blueprint := Json (JObj [(''subtasks'', JList [JObj [(''id'', JStr ''ST-1'')]])])\<rparr>"

text \<open>
  The route follows the signals in their order: the final check is chosen exactly when the
  blueprint has subtasks and all of them are done, resuming exactly when a workflow is in flight
  otherwise, and while a workflow is in flight or a workflow was recommended the text of the task
  and the estimate make no difference.
\<close>

theorem route_follows_signals:
  assumes "select_route e task estimate fs = Some (r, ev)"
  shows "(r = ''map-check'' \<longleftrightarrow> plan_done fs) \<and> (r = ''map-resume'' \<longleftrightarrow> in_workflow fs \<and> \<not> plan_done fs)
     \<and> (r = ''map-fast'' \<longrightarrow> advised fs = Some ''map-fast'' \<or> trivial_estimate e estimate)
     \<and> (\<forall>task' estimate' r' ev'. in_workflow fs \<or> advised fs \<noteq> None \<longrightarrow>
          select_route e task' estimate' fs = Some (r', ev') \<longrightarrow> r' = r)"
proof -
  have r: "r = route_spec e task estimate fs" by (rule select_route_spec [OF assms])
  have fin: "plan_done fs \<Longrightarrow> in_workflow fs" by (auto simp: plan_done_def in_workflow_def)
  have adv: "advised fs = Some s \<Longrightarrow> s \<in> {''map-fast'', ''map-plan'', ''map-efficient''}" for s
    by (auto simp: advised_def AUTO_ROUTE_TIER2_ALLOWED_def split: option.splits if_splits)
  have "r' = r" if "in_workflow fs \<or> advised fs \<noteq> None" "select_route e task' estimate' fs = Some (r', ev')" for task' estimate' r' ev'
    using select_route_spec [OF that(2)] that(1) by (auto simp: r route_spec_def)
  moreover have "(r = ''map-check'' \<longleftrightarrow> plan_done fs) \<and> (r = ''map-resume'' \<longleftrightarrow> in_workflow fs \<and> \<not> plan_done fs)
      \<and> (r = ''map-fast'' \<longrightarrow> advised fs = Some ''map-fast'' \<or> trivial_estimate e estimate)"
  proof (cases "in_workflow fs")
    case True
    then show ?thesis by (simp add: r route_spec_def)
  next
    case False
    then show ?thesis using fin adv by (cases "advised fs") (auto simp: r route_spec_def)
  qed
  ultimately show ?thesis by blast
qed

theorem route_follows_signals_witness:
  "\<exists>ev. select_route example_route_env ''task'' None finished_branch = Some (''map-check'', ev) \<and> plan_done finished_branch"
proof -
  have "map_option fst (step_state_signal finished_branch) = Some (Some ''map-check'')" by code_simp
  then obtain v where v: "step_state_signal finished_branch = Some (Some ''map-check'', v)" by auto
  then have fin: "plan_done finished_branch" using step_state_signal_route [OF v] by (auto split: if_splits)
  have "select_route example_route_env ''task'' None finished_branch \<noteq> None" unfolding select_route_def v by simp
  then obtain r ev where ev: "select_route example_route_env ''task'' None finished_branch = Some (r, ev)" by auto
  from route_follows_signals [OF ev] ev fin show ?thesis by blast
qed

text \<open>
  Claim C35. When a routing is not refused, the chain is started exactly when the run is no dry run, no
  hold of a kind that stops a run waits for a decision, and the plan does not stand against it: the
  plan does when there is neither a workflow state nor a usable recommendation of a workflow in the
  branch, so that the route is chosen by looking at the plan, and its goal is not that of the
  request. (With a workflow state or a recommendation the goal of the plan is not looked at, and a
  chain is started for a request with another goal too.) Otherwise the decision file says blocked or
  recommended, and in any case it starts with an empty ledger.
\<close>

theorem started_chain_is_cleared:
  assumes "route_task e task dry fs = Some (ans, fs')" "chain_status_of fs \<noteq> Some (JStr ''in_progress'')"
  defines "stopped \<equiv> (\<exists>h \<in> waiting_holds (rt_hold e) (rf_holds fs). stopping h)
     \<or> \<not> in_workflow fs \<and> advised fs = None \<and> rr_verdict (check_plan_resume task (rf_plan fs)) = Goal_mismatch"
  shows "(ra_executed ans \<longleftrightarrow> \<not> dry \<and> \<not> stopped)
     \<and> chain_status_of fs' = Some (JStr (if stopped then ''blocked'' else if dry then ''recommended_only'' else ''in_progress''))
     \<and> (\<exists>A. read_json_file (rf_auto fs') = Some A \<and> dict_get A ''executed'' = Some (JBool (ra_executed ans))
          \<and> dict_get A ''selected_route'' = Some (JStr (route_spec e task None fs)) \<and> phases_of A = [])"
proof -
  obtain ev stops reason m where w: "ra_route ans = route_spec e task None fs" "reason \<noteq> [] \<longleftrightarrow> stopped"
    "ra_executed ans \<longleftrightarrow> \<not> dry \<and> reason = []"
    "ra_chain_status ans = (if reason \<noteq> [] then ''blocked'' else if dry then ''recommended_only'' else ''in_progress'')"
    "fs' = fs\<lparr>rf_auto := Json (JObj (route_artifact task (ra_route ans) ev stops (ra_next_command ans) (ra_executed ans)
        (ra_chain_status ans) (route_history_of (read_json_file (rf_auto fs))) reason)),
        rf_holds := (rf_holds fs)\<lparr>manifest_file := m\<rparr>\<rparr>"
    unfolding stopped_def goal_conflict_def [symmetric] by (rule route_task_writes [OF assms(1,2)])
  have A: "read_json_file (rf_auto fs') = Some (route_artifact task (ra_route ans) ev stops (ra_next_command ans) (ra_executed ans)
        (ra_chain_status ans) (route_history_of (read_json_file (rf_auto fs))) reason)"
    by (simp add: w(5) read_json_file_def)
  have "reason = [] \<longleftrightarrow> \<not> stopped" using w(2) by blast
  then show ?thesis using w(1,3,4) objects_of_map [of "[]"]
    by (cases stopped; cases dry) (simp_all add: chain_status_of_def A, simp_all add: route_artifact_def phases_of_def)
qed

lemma example_routing: "\<exists>ans fs'. route_task example_route_env ''task'' False empty_branch = Some (ans, fs')"
proof -
  have sel: "\<exists>ev. select_route example_route_env ''task'' None empty_branch = Some (''map-plan'', ev)"
    by (simp add: select_route_def step_state_signal_def empty_branch_def read_json_file_def recommended_workflow_def scope_route_def
        check_plan_resume_def Let_def)
  have holds: "\<exists>p. get_pending_holds (rt_hold example_route_env) (rf_holds empty_branch) = Some p \<and> p_holds p = []"
    by (simp add: get_pending_holds_def list_approval_holds_def empty_branch_def load_approval_holds_def read_json_file_def holds_of_def
        APPROVAL_HOLD_ALL_STATES_def Let_def)
  from sel holds write_auto_route_files [of example_route_env] show ?thesis
    by (fastforce simp: route_task_def chain_status_of_def empty_branch_def read_json_file_def AUTO_ROUTE_NEXT_COMMAND_def Let_def)
qed

theorem started_chain_is_cleared_witness:
  "\<exists>ans fs'. route_task example_route_env ''task'' False empty_branch = Some (ans, fs') \<and> ra_executed ans"
proof -
  obtain ans fs' where r: "route_task example_route_env ''task'' False empty_branch = Some (ans, fs')" using example_routing by blast
  have c: "chain_status_of empty_branch \<noteq> Some (JStr ''in_progress'')" by (simp add: chain_status_of_def empty_branch_def read_json_file_def)
  have "waiting_holds (rt_hold example_route_env) (rf_holds empty_branch) = {}"
    by (simp add: waiting_holds_def empty_branch_def load_approval_holds_def read_json_file_def holds_of_def)
  moreover have "\<not> goal_conflict ''task'' empty_branch" by (simp add: goal_conflict_def empty_branch_def check_plan_resume_def Let_def)
  ultimately show ?thesis using started_chain_is_cleared [OF r c, folded goal_conflict_def] r by auto
qed

text \<open>
  Claim C34. Whatever commands of the chain run in whatever order, the decision file keeps its form: no
  phase has more than two attempts and they are numbered from one, a chain that was blocked or only
  recommended has no phases and is not executed, and a reason of abortion is there exactly when the
  chain is aborted. A chain that is aborted or blocked is not changed by recording a phase, and one
  in progress not by routing.
\<close>

theorem auto_chain_is_bounded:
  assumes "reachable_from no_route route_step fs"
  shows "(rf_auto fs = No_file \<or> (\<exists>A. rf_auto fs = Json (JObj A) \<and> chain_ok A))
     \<and> (\<forall>e phase status refs reason ans fs'. record_auto_phase e phase status refs reason fs = Some (ans, fs') \<longrightarrow>
          chain_status_of fs \<in> {Some (JStr ''aborted''), Some (JStr ''blocked'')} \<longrightarrow> fs' = fs)
     \<and> (\<forall>e task dry ans fs'. route_task e task dry fs = Some (ans, fs') \<longrightarrow> chain_status_of fs = Some (JStr ''in_progress'') \<longrightarrow> fs' = fs)"
proof (intro conjI allI impI)
  have inv: "chain_inv fs" by (rule chain.reachable_inv [OF assms])
  then show "rf_auto fs = No_file \<or> (\<exists>A. rf_auto fs = Json (JObj A) \<and> chain_ok A)" by (simp only: chain_inv_def)
  show "fs' = fs" if r: "record_auto_phase e phase status refs reason fs = Some (ans, fs')"
    and c: "chain_status_of fs \<in> {Some (JStr ''aborted''), Some (JStr ''blocked'')}" for e phase status refs reason ans fs'
  proof -
    have "rf_auto fs \<noteq> No_file" using c by (auto simp: chain_status_of_def read_json_file_def)
    then obtain A where A: "rf_auto fs = Json (JObj A)" "chain_ok A" using inv by (auto simp: chain_inv_def)
    have "chain_status_of fs = dict_get A ''chain_status''" by (simp add: chain_status_of_def A(1) read_json_file_def)
    with r A c show ?thesis by (cases rule: record_auto_phase_cases) simp_all
  qed
  show "fs' = fs" if "route_task e task dry fs = Some (ans, fs')" "chain_status_of fs = Some (JStr ''in_progress'')" for e task dry ans fs'
    using that by (simp add: route_task_def)
qed

theorem auto_chain_is_bounded_witness:
  "\<exists>fs. reachable_from no_route route_step fs \<and> (\<exists>A. rf_auto fs = Json (JObj A) \<and> chain_ok A)"
proof -
  obtain ans fs' where r: "route_task example_route_env ''task'' False empty_branch = Some (ans, fs')" using example_routing by blast
  have c: "chain_status_of empty_branch \<noteq> Some (JStr ''in_progress'')" by (simp add: chain_status_of_def empty_branch_def read_json_file_def)
  have "rf_auto fs' \<noteq> No_file" by (rule route_task_writes [OF r c]) simp
  moreover have "reachable_from no_route route_step fs'"
  proof (rule reach_step [OF reach_start])
    show "no_route empty_branch" by (simp add: no_route_def empty_branch_def)
    show "route_step empty_branch fs'" using r unfolding route_step_def by blast
  qed
  ultimately show ?thesis using auto_chain_is_bounded [of fs'] by blast
qed

section \<open>What the code does not rule out\<close>

text \<open>A decision that was only recommended becomes a chain in progress that was never executed.\<close>

lemma dry_run_becomes_chain:
  assumes "rf_auto fs = Json (JObj A)" "chain_ok A" "dict_get A ''chain_status'' = Some (JStr ''recommended_only'')"
  shows "\<exists>ans fs' B. record_auto_phase e ''map-plan'' ''running'' [] [] fs = Some (ans, fs') \<and> rf_auto fs' = Json (JObj B)
     \<and> dict_get B ''chain_status'' = Some (JStr ''in_progress'') \<and> dict_get B ''executed'' = Some (JBool False)"
proof -
  have v: "phases_of A = []" "dict_get A ''executed'' = Some (JBool False)"
    using assms(2,3) objects_of_map [of "[]"] by (auto simp: chain_ok_def phases_of_def)
  then show ?thesis using assms write_auto_route_files [of e]
    by (fastforce simp: record_auto_phase_def read_json_file_def Let_def hashable_def prior_attempts_def AUTO_PHASE_MAX_ATTEMPTS_def
        chain_after_def AUTO_PHASE_TERMINAL_SUCCESS_STATUSES_def AUTO_PHASE_ABORT_STATUSES_def alist_laws)
qed

text \<open>The router gives no estimate: the size of a change never sends a task to the fast workflow.\<close>

lemma router_ignores_size:
  assumes "route_task e task dry fs = Some (ans, fs')" "chain_status_of fs \<noteq> Some (JStr ''in_progress'')" "ra_route ans = ''map-fast''"
  shows "advised fs = Some ''map-fast''"
proof -
  have "route_spec e task None fs = ''map-fast''" by (rule route_task_writes [OF assms(1,2)]) (use assms(3) in simp)
  then show ?thesis by (auto simp: route_spec_def trivial_estimate_def split: if_splits option.splits)
qed

end
