(* ===== verification/Runner_Blueprint.thy ===== *)
theory Runner_Blueprint
  imports Orch_Plan Runner_Common
begin

text \<open>
  The plan contract of \<^verbatim>\<open>map_step_runner.py\<close>: \<^verbatim>\<open>normalize_blueprint\<close>, which repairs the order
  of the subtasks, the traceability tags and the file lists of a blueprint, and the errors
  \<^verbatim>\<open>validate_blueprint_contract\<close> reports, in the order of the source. A blueprint is the JSON
  value of its file. The warnings of the validator, which never decide \<^verbatim>\<open>valid\<close>, are left out;
  an error carries what its text is built from.
\<close>

section \<open>The stable order of the subtasks\<close>

datatype sort_note = NonObjectEntry | MissingId | DuplicateId string | DependencyCycle

text \<open>The first loop: the identifiers, in the order of the array.\<close>

fun scan_ids :: "string list \<Rightarrow> json list \<Rightarrow> sort_note + string list" where
  "scan_ids ids [] = Inr ids"
| "scan_ids ids (st # sts) =
     (case st of
        JObj _ \<Rightarrow>
          (case jget ''id'' st of
             Some (JStr i) \<Rightarrow>
               if i = [] then Inl MissingId
               else if i \<in> set ids then Inl (DuplicateId i)
               else scan_ids (ids @ [i]) sts
           | _ \<Rightarrow> Inl MissingId)
      | _ \<Rightarrow> Inl NonObjectEntry)"

definition subtask_of :: "string list \<Rightarrow> json list \<Rightarrow> string \<Rightarrow> json" where
  "subtask_of ids sts i = (case dict_get (zip ids sts) i of Some st \<Rightarrow> st | None \<Rightarrow> JNull)"

text \<open>Dependencies inside the blueprint and on another subtask.\<close>

definition plan_deps :: "string list \<Rightarrow> json list \<Rightarrow> string \<Rightarrow> string list" where
  "plan_deps ids sts i = filter (\<lambda>x. x \<in> set ids \<and> x \<noteq> i) (subtask_deps (subtask_of ids sts i))"

lemma sort_key_Cons_mem: "sort_key f xs = y # ys \<Longrightarrow> y \<in> set xs"
  by (metis list.set_intros(1) set_sort)

text \<open>
  Kahn's loop. The subtasks that remain are a set in the source; here they are a list
  without repetition, and the subtasks that are ready are sorted by their position as there.
\<close>

function emit_loop :: "string list \<Rightarrow> (string \<Rightarrow> string list) \<Rightarrow> string list \<Rightarrow> string list \<Rightarrow> string list option" where
  "emit_loop ids deps emitted remaining =
     (if remaining = [] then Some emitted
      else case sort_key (index_of ids) (filter (\<lambda>i. set (deps i) \<subseteq> set emitted) remaining) of
             [] \<Rightarrow> None
           | nxt # _ \<Rightarrow> emit_loop ids deps (emitted @ [nxt]) (filter (\<lambda>i. i \<noteq> nxt) remaining))"
  by pat_completeness auto

termination
proof (relation "measure (\<lambda>(ids, deps, emitted, remaining). length remaining)", simp)
  fix ids emitted remaining rest :: "string list" and deps :: "string \<Rightarrow> string list" and nxt
  assume "sort_key (index_of ids) (filter (\<lambda>i. set (deps i) \<subseteq> set emitted) remaining) = nxt # rest"
  then have "nxt \<in> set remaining" using sort_key_Cons_mem by fastforce
  then show "((ids, deps, emitted @ [nxt], filter (\<lambda>i. i \<noteq> nxt) remaining), ids, deps, emitted, remaining)
      \<in> measure (\<lambda>(ids, deps, emitted, remaining). length remaining)"
    using length_filter_less [of nxt remaining "\<lambda>i. i \<noteq> nxt"] by simp
qed

declare emit_loop.simps [simp del]

text \<open>\<^verbatim>\<open>_topo_sort_subtasks\<close>: the reordered list, or the note that says why there is none.\<close>

definition topo_sort_subtasks :: "json list \<Rightarrow> sort_note + json list" where
  "topo_sort_subtasks sts =
     (case scan_ids [] sts of
        Inl note \<Rightarrow> Inl note
      | Inr ids \<Rightarrow>
          (case emit_loop ids (plan_deps ids sts) [] ids of
             None \<Rightarrow> Inl DependencyCycle
           | Some emitted \<Rightarrow> Inr (map (subtask_of ids sts) emitted)))"

section \<open>Coverage tags\<close>

definition coverage_of :: "json \<Rightarrow> json \<Rightarrow> json option" where
  "coverage_of payload body =
     (if falsy_opt (jget ''coverage_map'' payload) then jget ''coverage_map'' body
      else jget ''coverage_map'' payload)"

fun set_field :: "string \<Rightarrow> json \<Rightarrow> json \<Rightarrow> json" where
  "set_field k v (JObj ms) = JObj (dict_set k v ms)"
| "set_field k v j = j"

text \<open>\<^verbatim>\<open>subtasks_by_id.get(owner)\<close>: the last subtask with the identifier.\<close>

definition carries_id :: "string \<Rightarrow> json \<Rightarrow> bool" where
  "carries_id i st = (jget ''id'' st = Some (JStr i))"

fun last_with :: "('a \<Rightarrow> bool) \<Rightarrow> 'a list \<Rightarrow> nat option" where
  "last_with P [] = None"
| "last_with P (x # xs) =
     (case last_with P xs of Some k \<Rightarrow> Some (Suc k) | None \<Rightarrow> if P x then Some 0 else None)"

definition bracket_tag :: "string \<Rightarrow> string" where
  "bracket_tag requirement_id = ''['' @ requirement_id @ '']''"

definition cites :: "string \<Rightarrow> json list \<Rightarrow> bool" where
  "cites tag criteria = list_ex (\<lambda>c. contains_str c tag) (str_items criteria)"

definition tag_criterion :: "nat \<Rightarrow> string \<Rightarrow> string" where
  "tag_criterion n requirement_id =
     ''VC'' @ show_nat n @ '' '' @ bracket_tag requirement_id @ '': satisfies coverage_map requirement ''
       @ requirement_id"

definition inject_tag :: "json list \<Rightarrow> string \<times> json \<Rightarrow> json list \<times> string list" where
  "inject_tag sts entry =
     (case entry of
        (requirement_id, JStr owner) \<Rightarrow>
          (case last_with (carries_id owner) sts of
             None \<Rightarrow> (sts, [])
           | Some k \<Rightarrow>
               (let criteria = list_of (jget ''validation_criteria'' (sts ! k))
                in if cites (bracket_tag requirement_id) criteria then (sts, [])
                   else (sts[k := set_field ''validation_criteria''
                            (JList (criteria @ [JStr (tag_criterion (length criteria + 1) requirement_id)])) (sts ! k)],
                         [owner @ '':'' @ bracket_tag requirement_id])))
      | _ \<Rightarrow> (sts, []))"

fun inject_tags :: "json list \<Rightarrow> (string \<times> json) list \<Rightarrow> json list \<times> string list" where
  "inject_tags sts [] = (sts, [])"
| "inject_tags sts (entry # rest) =
     (let (sts1, tags1) = inject_tag sts entry; (sts2, tags2) = inject_tags sts1 rest
      in (sts2, tags1 @ tags2))"

section \<open>Created files\<close>

definition id_of :: "json \<Rightarrow> json" where
  "id_of st = (case jget ''id'' st of Some i \<Rightarrow> i | None \<Rightarrow> JNull)"

definition create_paths :: "json \<Rightarrow> string list" where
  "create_paths st = filter (\<lambda>p. strip p \<noteq> []) (str_items (list_of (jget ''creates_files'' st)))"

fun add_paths :: "json list \<Rightarrow> string list \<Rightarrow> json list \<times> string list" where
  "add_paths affected [] = (affected, [])"
| "add_paths affected (p # ps) =
     (if p \<in> set (str_items affected) then add_paths affected ps
      else let (affected1, added) = add_paths (affected @ [JStr p]) ps in (affected1, p # added))"

definition union_creates :: "json \<Rightarrow> json \<times> string list" where
  "union_creates st =
     (if create_paths st = [] then (st, [])
      else let (affected, added) = add_paths (list_of (jget ''affected_files'' st)) (create_paths st)
           in (if added = [] then st else set_field ''affected_files'' (JList affected) st,
               map (\<lambda>p. py_str (id_of st) @ '':'' @ p) added))"

section \<open>Normalising a blueprint\<close>

record normalized =
  nz_changed :: bool
  nz_reordered :: bool
  nz_order :: "json list"
  nz_tags :: "string list"
  nz_unioned :: "string list"
  nz_notes :: "sort_note list"
  nz_payload :: json
  nz_written :: bool

datatype normalize_error = BlueprintNotFound | BlueprintUnreadable | RootNotObject | NoSubtasks

definition with_subtasks :: "json list \<Rightarrow> json \<Rightarrow> json" where
  "with_subtasks sts payload =
     (let body = set_field ''subtasks'' (JList sts) (blueprint_body payload)
      in case jget ''blueprint'' payload of
           Some (JObj _) \<Rightarrow> set_field ''blueprint'' body payload
         | _ \<Rightarrow> body)"

text \<open>
  \<open>nz_payload\<close> is the value of the payload at the end, after the changes the source makes in
  place; it is written to the file when \<open>nz_written\<close>.
\<close>

definition normalize_payload :: "bool \<Rightarrow> json \<Rightarrow> json list \<Rightarrow> normalized" where
  "normalize_payload wr payload sts =
     (let sorted_sts = topo_sort_subtasks sts;
          new_order = (case sorted_sts of Inr out \<Rightarrow> out | Inl _ \<Rightarrow> sts);
          order_changed = (\<not> isl sorted_sts \<and> map id_of new_order \<noteq> map id_of (filter is_obj sts));
          (tagged, tags) = (case coverage_of payload (blueprint_body payload) of
                              Some (JObj cov) \<Rightarrow> inject_tags new_order cov
                            | _ \<Rightarrow> (new_order, []));
          unioned = map union_creates tagged;
          added = concat (map snd unioned);
          changed = (order_changed \<or> tags \<noteq> [] \<or> added \<noteq> [])
      in \<lparr>nz_changed = changed, nz_reordered = order_changed,
          nz_order = map id_of (filter is_obj new_order), nz_tags = tags, nz_unioned = added,
          nz_notes = (case sorted_sts of Inl note \<Rightarrow> [note] | Inr _ \<Rightarrow> []),
          nz_payload = (if changed then with_subtasks (map fst unioned) payload else payload),
          nz_written = (changed \<and> wr)\<rparr>)"

definition normalize_blueprint :: "bool \<Rightarrow> json doc_file \<Rightarrow> normalize_error + normalized" where
  "normalize_blueprint wr f =
     (case f of
        Absent \<Rightarrow> Inl BlueprintNotFound
      | Unparsable \<Rightarrow> Inl BlueprintUnreadable
      | Parsed (JObj ms) \<Rightarrow>
          (case jget ''subtasks'' (blueprint_body (JObj ms)) of
             Some (JList (st # sts)) \<Rightarrow> Inr (normalize_payload wr (JObj ms) (st # sts))
           | _ \<Rightarrow> Inl NoSubtasks)
      | Parsed _ \<Rightarrow> Inl RootNotObject)"

section \<open>The errors of a blueprint\<close>

type_synonym label = string

datatype blueprint_error =
    HardNotArray | SoftNotArray
  | DeferredNotArray | DeferredNotAllowed string | DeferredNotObject nat | DeferredBadId nat
  | DeferredMissing nat string | DeferredBadSource nat
  | ConstraintNotObject label | ConstraintNoId label | ConstraintNoText label
  | SubtaskNotObject label | BadSubtaskId label | DuplicateSubtaskId string
  | DependenciesNotArray label | BadDependency label json | UnknownDependency label string
  | SelfDependency label string | ForwardDependency label string nat nat
  | BadDiffSize label | LargeUnjustified label | BadConcern label | MixedUnjustified label
  | NotOneStep label | BadRequiredness label | OmittedButActive label | PruneableMissing label
  | PruneableNotBool label | NeverPruneable label string | RequirednessMissing label
  | NoAagContract label | NoCriteria label | BlankCriteria label
  | CreatesNotPaths label | OrphanCreates label "string list"
  | NoEntryPoint
  | NoCoverageMap | HardUncovered string | SoftUncovered string
  | OwnerNotText string | OwnerUnknown string string | TagMissing string string
  | ForwardCoverage "string list" | YamlMissing | IndexMalformed

text \<open>
  \<^verbatim>\<open>re.fullmatch(r"XX-\d{3,}", s)\<close> for a prefix of three characters, and
  \<^verbatim>\<open>str(x or "").strip()\<close>.
\<close>

definition numbered :: "string \<Rightarrow> string \<Rightarrow> bool" where
  "numbered pre s = (take 3 s = pre \<and> all_digits (drop 3 s) \<and> 6 \<le> length s)"

definition plain_text :: "json option \<Rightarrow> string" where
  "plain_text v = strip (str_or_blank v)"

definition st_id :: "json \<Rightarrow> string option" where
  "st_id st = (case jget ''id'' st of Some (JStr i) \<Rightarrow> if numbered ''ST-'' i then Some i else None | _ \<Rightarrow> None)"

subsection \<open>Deferred items and constraints\<close>

definition deferred_item_errors :: "nat \<times> json \<Rightarrow> blueprint_error list" where
  "deferred_item_errors entry =
     (case entry of
        (n, JObj ms) \<Rightarrow>
          (case dict_get ms ''id'' of
             Some (JStr i) \<Rightarrow> if numbered ''YG-'' i then [] else [DeferredBadId n]
           | _ \<Rightarrow> [DeferredBadId n])
          @ map (DeferredMissing n)
              (filter (\<lambda>k. \<not> nonblank (dict_get ms k)) [''title'', ''rationale'', ''restore_hint''])
          @ (case dict_get ms ''source_subtask_id'' of
               None \<Rightarrow> []
             | Some JNull \<Rightarrow> []
             | Some (JStr i) \<Rightarrow> if numbered ''ST-'' i then [] else [DeferredBadSource n]
             | Some _ \<Rightarrow> [DeferredBadSource n])
      | (n, _) \<Rightarrow> [DeferredNotObject n])"

definition deferred_items :: "json \<Rightarrow> json list" where
  "deferred_items body = list_of (jget ''deferred_yagni'' body)"

definition PRUNING_MINIMALITY_LEVELS :: "string list" where
  "PRUNING_MINIMALITY_LEVELS = [''full'', ''ultra'']"

definition deferred_errors :: "string \<Rightarrow> json \<Rightarrow> blueprint_error list" where
  "deferred_errors minimality body =
     (case jget ''deferred_yagni'' body of
        None \<Rightarrow> []
      | Some JNull \<Rightarrow> []
      | Some (JList items) \<Rightarrow>
          (if items \<noteq> [] \<and> minimality \<notin> set PRUNING_MINIMALITY_LEVELS then [DeferredNotAllowed minimality] else [])
          @ concat (map deferred_item_errors (enumerate 0 items))
      | Some _ \<Rightarrow> [DeferredNotArray])"

definition constraint_body :: "json \<Rightarrow> string" where
  "constraint_body c =
     (if nonblank (jget ''description'' c) then plain_text (jget ''description'' c)
      else if nonblank (jget ''text'' c) then plain_text (jget ''text'' c) else [])"

definition constraint_errors :: "string \<Rightarrow> nat \<times> json \<Rightarrow> blueprint_error list" where
  "constraint_errors field entry =
     (let (n, c) = entry; label = index_label field n
      in if \<not> is_obj c then [ConstraintNotObject label]
         else if plain_text (jget ''id'' c) = [] then [ConstraintNoId label]
         else if constraint_body c = [] then [ConstraintNoText label] else [])"

definition hard_constraint_ids :: "json list \<Rightarrow> string list" where
  "hard_constraint_ids cs =
     filter (\<lambda>i. i \<noteq> []) (map (\<lambda>c. plain_text (jget ''id'' c)) (filter is_obj cs))"

subsection \<open>One subtask\<close>

text \<open>
  The table of positions as a list: its entry is the identifier of the subtask there, when that
  is well formed. The first occurrence counts.
\<close>

definition subtask_label :: "nat \<Rightarrow> json \<Rightarrow> label" where
  "subtask_label n st = (case st_id st of Some i \<Rightarrow> i | None \<Rightarrow> index_label ''subtasks'' n)"

definition position_or :: "nat \<Rightarrow> string option list \<Rightarrow> string \<Rightarrow> nat" where
  "position_or dflt table i = (if Some i \<in> set table then index_of table (Some i) else dflt)"

definition dependency_error :: "string option list \<Rightarrow> nat \<Rightarrow> label \<Rightarrow> json \<Rightarrow> blueprint_error list" where
  "dependency_error table n label dep =
     (case dep of
        JStr d \<Rightarrow>
          if \<not> numbered ''ST-'' d then [BadDependency label dep]
          else if Some d \<notin> set table then [UnknownDependency label d]
          else if d = label then [SelfDependency label d]
          else if position_or n table label \<le> index_of table (Some d)
          then [ForwardDependency label d (index_of table (Some d)) (position_or n table label)]
          else []
      | _ \<Rightarrow> [BadDependency label dep])"

definition dependency_errors :: "string option list \<Rightarrow> nat \<Rightarrow> label \<Rightarrow> json \<Rightarrow> blueprint_error list" where
  "dependency_errors table n label st =
     (case jget ''dependencies'' st of
        Some (JList deps) \<Rightarrow> concat (map (dependency_error table n label) deps)
      | _ \<Rightarrow> [DependenciesNotArray label])"

definition identity_errors :: "string option list \<Rightarrow> nat \<Rightarrow> json \<Rightarrow> blueprint_error list" where
  "identity_errors table n st =
     (case st_id st of
        None \<Rightarrow> [BadSubtaskId (index_label ''subtasks'' n)]
      | Some i \<Rightarrow> if 1 < count_list table (Some i) then [DuplicateSubtaskId i] else [])"

definition DIFF_SIZE_LEVELS :: "string list" where
  "DIFF_SIZE_LEVELS = [''tiny'', ''small'', ''medium'', ''large'']"

definition SUBTASK_CONCERN_TYPES :: "string list" where
  "SUBTASK_CONCERN_TYPES = [''api'', ''config'', ''cross-repo'', ''data'', ''docs'', ''infra'', ''observability'',
     ''refactor'', ''release'', ''runtime'', ''security'', ''tests'', ''ui'', ''mixed'']"

definition size_errors :: "label \<Rightarrow> json \<Rightarrow> blueprint_error list" where
  "size_errors label st =
     (let sz = to_lower (plain_text (jget ''expected_diff_size'' st)); concern = to_lower (plain_text (jget ''concern_type'' st))
      in (if sz \<notin> set DIFF_SIZE_LEVELS then [BadDiffSize label]
          else if sz = ''large'' \<and> plain_text (jget ''split_rationale'' st) = [] then [LargeUnjustified label] else [])
         @ (if concern \<notin> set SUBTASK_CONCERN_TYPES then [BadConcern label]
            else if concern = ''mixed'' \<and> plain_text (jget ''concern_justification'' st) = [] then [MixedUnjustified label]
            else [])
         @ (if jget ''one_logical_step'' st = Some (JBool True) then [] else [NotOneStep label]))"

definition REQUIREDNESS_CATEGORIES :: "string list" where
  "REQUIREDNESS_CATEGORIES = [''explicit'', ''implied_by_acceptance'', ''repo_required'', ''safety_required'',
     ''optional'', ''omitted_yagni'', ''ambiguous'']"

definition NON_PRUNEABLE_REQUIREDNESS :: "string list" where
  "NON_PRUNEABLE_REQUIREDNESS = [''explicit'', ''implied_by_acceptance'', ''repo_required'', ''safety_required'', ''ambiguous'']"

text \<open>\<^verbatim>\<open>subtask.get(k)\<close>, a JSON null being the same as an absent key.\<close>

definition get_value :: "string \<Rightarrow> json \<Rightarrow> json option" where
  "get_value k st = (case jget k st of Some JNull \<Rightarrow> None | v \<Rightarrow> v)"

definition requiredness_errors :: "label \<Rightarrow> json \<Rightarrow> blueprint_error list" where
  "requiredness_errors label st =
     (case get_value ''requiredness'' st of
        None \<Rightarrow> if get_value ''pruneable'' st = None then [] else [RequirednessMissing label]
      | Some (JStr r) \<Rightarrow>
          if r \<notin> set REQUIREDNESS_CATEGORIES then [BadRequiredness label]
          else if r = ''omitted_yagni'' then [OmittedButActive label]
          else (case get_value ''pruneable'' st of
                  None \<Rightarrow> [PruneableMissing label]
                | Some (JBool b) \<Rightarrow> if r \<in> set NON_PRUNEABLE_REQUIREDNESS \<and> b then [NeverPruneable label r] else []
                | Some _ \<Rightarrow> [PruneableNotBool label])
      | Some _ \<Rightarrow> [BadRequiredness label])"

definition criteria_errors :: "label \<Rightarrow> json \<Rightarrow> blueprint_error list" where
  "criteria_errors label st =
     (if plain_text (jget ''aag_contract'' st) = [] then [NoAagContract label] else [])
     @ (case jget ''validation_criteria'' st of
          Some (JList (c # cs)) \<Rightarrow> if list_all (\<lambda>v. nonblank (Some v)) (c # cs) then [] else [BlankCriteria label]
        | _ \<Rightarrow> [NoCriteria label])"

definition creates_errors :: "label \<Rightarrow> json \<Rightarrow> blueprint_error list" where
  "creates_errors label st =
     (case get_value ''creates_files'' st of
        None \<Rightarrow> []
      | Some (JList ps) \<Rightarrow>
          if \<not> list_all is_jstr ps then [CreatesNotPaths label]
          else (let orphans = filter (\<lambda>p. p \<notin> set (str_items (list_of (jget ''affected_files'' st)))) (create_paths st)
                in if orphans = [] then [] else [OrphanCreates label orphans])
      | Some _ \<Rightarrow> [CreatesNotPaths label])"

definition subtask_errors :: "string option list \<Rightarrow> nat \<times> json \<Rightarrow> blueprint_error list" where
  "subtask_errors table entry =
     (let (n, st) = entry; label = subtask_label n st
      in if \<not> is_obj st then [SubtaskNotObject (index_label ''subtasks'' n)]
         else identity_errors table n st @ dependency_errors table n label st @ size_errors label st
           @ requiredness_errors label st @ criteria_errors label st @ creates_errors label st)"

subsection \<open>Coverage\<close>

definition no_dependencies :: "json \<Rightarrow> bool" where
  "no_dependencies st =
     (is_obj st \<and> (case jget ''dependencies'' st of Some (JList deps) \<Rightarrow> deps = [] | _ \<Rightarrow> True))"

definition owner_error :: "string option list \<Rightarrow> string \<times> json \<Rightarrow> blueprint_error list" where
  "owner_error table entry =
     (case entry of
        (req, JStr owner) \<Rightarrow> if Some owner \<notin> set table then [OwnerUnknown req owner] else []
      | (req, _) \<Rightarrow> [OwnerNotText req])"

text \<open>\<^verbatim>\<open>requirement_owners\<close>: the requirements of each known owner, in order.\<close>

fun requirement_owners :: "string option list \<Rightarrow> (string, string list) dict \<Rightarrow> (string \<times> json) list \<Rightarrow> (string, string list) dict" where
  "requirement_owners table acc [] = acc"
| "requirement_owners table acc ((req, v) # rest) =
     (case v of
        JStr owner \<Rightarrow>
          if Some owner \<in> set table
          then requirement_owners table
                 (dict_set owner ((case dict_get acc owner of Some rs \<Rightarrow> rs | None \<Rightarrow> []) @ [req]) acc) rest
          else requirement_owners table acc rest
      | _ \<Rightarrow> requirement_owners table acc rest)"

text \<open>
  The criteria of the owner that are texts; \<open>None\<close> when the value cannot be iterated over,
  where the source raises.
\<close>

definition owner_criteria :: "json list \<Rightarrow> string \<Rightarrow> string list option" where
  "owner_criteria sts owner =
     (case last_with (carries_id owner) sts of
        None \<Rightarrow> Some []
      | Some k \<Rightarrow>
          (case jget ''validation_criteria'' (sts ! k) of
             None \<Rightarrow> Some []
           | Some v \<Rightarrow> if falsy v then Some [] else map_option str_items (py_iter v)))"

fun tag_errors :: "json list \<Rightarrow> (string \<times> string list) list \<Rightarrow> blueprint_error list option" where
  "tag_errors sts [] = Some []"
| "tag_errors sts ((owner, reqs) # rest) =
     (case owner_criteria sts owner of
        None \<Rightarrow> None
      | Some texts \<Rightarrow>
          map_option (\<lambda>es. map (TagMissing owner) (filter (\<lambda>r. \<not> list_ex (\<lambda>c. contains_str c (bracket_tag r)) texts) reqs) @ es)
            (tag_errors sts rest))"

definition soft_error :: "(string, json) dict \<Rightarrow> json \<Rightarrow> blueprint_error list" where
  "soft_error cov c =
     (let i = plain_text (jget ''id'' c)
      in if \<not> is_obj c \<or> i = [] \<or> i \<in> set (dict_keys cov) \<or> plain_text (jget ''tradeoff_rationale'' c) \<noteq> []
         then [] else [SoftUncovered i])"

definition coverage_errors :: "json list \<Rightarrow> json list \<Rightarrow> json list \<Rightarrow> json option \<Rightarrow> blueprint_error list option" where
  "coverage_errors hard soft sts coverage =
     (let table = map st_id sts
      in case coverage of
           Some (JObj (e # es)) \<Rightarrow>
             (let cov = e # es
              in map_option (\<lambda>tags.
                   map HardUncovered (filter (\<lambda>i. i \<notin> set (dict_keys cov)) (hard_constraint_ids hard))
                   @ concat (map (soft_error cov) soft)
                   @ concat (map (owner_error table) cov) @ tags)
                 (tag_errors sts (requirement_owners table [] cov)))
         | _ \<Rightarrow> Some [NoCoverageMap])"

text \<open>
  The Requirements Index of the specification is read with a library for YAML: the status and
  the identifiers \<^verbatim>\<open>parse_requirements_index\<close> returns are fields of the environment.
\<close>

record blueprint_env =
  be_minimality :: string
  be_strict :: bool
  be_index_status :: string
  be_index_ids :: "string list"

definition forward_missing :: "blueprint_env \<Rightarrow> json option \<Rightarrow> string list" where
  "forward_missing env coverage =
     (if be_index_status env = ''present_nonempty''
      then filter (\<lambda>i. i \<notin> (case coverage of Some (JObj cov) \<Rightarrow> set (dict_keys cov) | _ \<Rightarrow> {}))
             (dedupe_subtask_ids (be_index_ids env))
      else [])"

definition forward_errors :: "blueprint_env \<Rightarrow> json option \<Rightarrow> blueprint_error list" where
  "forward_errors env coverage =
     (if be_index_status env = ''present_nonempty'' then
        (if forward_missing env coverage \<noteq> [] \<and> be_strict env then [ForwardCoverage (forward_missing env coverage)] else [])
      else if be_index_status env = ''pyyaml_missing'' then [YamlMissing]
      else if be_index_status env = ''malformed'' then [IndexMalformed] else [])"

section \<open>Validating a blueprint\<close>

record validated =
  vd_valid :: bool
  vd_errors :: "blueprint_error list"
  vd_subtask_count :: nat
  vd_oversized :: "label list"
  vd_mixed :: "label list"
  vd_forward :: "(label \<times> string) list"
  vd_deferred_count :: nat
  vd_needs_approval :: bool
  vd_missing_ids :: "string list"

text \<open>The labels the source collects beside an error, in the order of the errors.\<close>

definition oversized_of :: "blueprint_error list \<Rightarrow> label list" where
  "oversized_of es = List.map_filter (\<lambda>e. case e of LargeUnjustified l \<Rightarrow> Some l | _ \<Rightarrow> None) es"

definition mixed_of :: "blueprint_error list \<Rightarrow> label list" where
  "mixed_of es = List.map_filter (\<lambda>e. case e of MixedUnjustified l \<Rightarrow> Some l | _ \<Rightarrow> None) es"

definition forward_of :: "blueprint_error list \<Rightarrow> (label \<times> string) list" where
  "forward_of es = List.map_filter (\<lambda>e. case e of ForwardDependency l d _ _ \<Rightarrow> Some (l, d) | _ \<Rightarrow> None) es"

text \<open>The errors of a payload with subtasks; \<open>None\<close> when the source raises.\<close>

definition payload_errors :: "blueprint_env \<Rightarrow> json \<Rightarrow> json list \<Rightarrow> blueprint_error list option" where
  "payload_errors env payload sts =
     (let body = blueprint_body payload;
          hard = list_of (jget ''hard_constraints'' body); soft = list_of (jget ''soft_constraints'' body);
          coverage = coverage_of payload body
      in map_option (\<lambda>cov_errors.
           (if is_list (jget ''hard_constraints'' body) then [] else [HardNotArray])
           @ (if is_list (jget ''soft_constraints'' body) then [] else [SoftNotArray])
           @ deferred_errors (be_minimality env) body
           @ concat (map (constraint_errors ''hard_constraints'') (enumerate 0 hard))
           @ concat (map (constraint_errors ''soft_constraints'') (enumerate 0 soft))
           @ concat (map (subtask_errors (map st_id sts)) (enumerate 0 sts))
           @ (if list_ex no_dependencies sts then [] else [NoEntryPoint])
           @ cov_errors @ forward_errors env coverage)
         (coverage_errors hard soft sts coverage))"

definition validated_of :: "blueprint_env \<Rightarrow> json \<Rightarrow> json list \<Rightarrow> blueprint_error list \<Rightarrow> validated" where
  "validated_of env payload sts errors =
     (let body = blueprint_body payload
      in \<lparr>vd_valid = (errors = []), vd_errors = errors, vd_subtask_count = length sts,
          vd_oversized = oversized_of errors, vd_mixed = mixed_of errors, vd_forward = forward_of errors,
          vd_deferred_count = length (deferred_items body), vd_needs_approval = (deferred_items body \<noteq> []),
          vd_missing_ids = forward_missing env (coverage_of payload body)\<rparr>)"

text \<open>
  \<open>None\<close> when the source raises: the file holds no object, or the criteria of an owner
  cannot be iterated over.
\<close>

definition validate_blueprint_contract :: "blueprint_env \<Rightarrow> json doc_file \<Rightarrow> (normalize_error + validated) option" where
  "validate_blueprint_contract env f =
     (case f of
        Absent \<Rightarrow> Some (Inl BlueprintNotFound)
      | Unparsable \<Rightarrow> Some (Inl BlueprintUnreadable)
      | Parsed (JObj ms) \<Rightarrow>
          (case jget ''subtasks'' (blueprint_body (JObj ms)) of
             Some (JList (st # sts)) \<Rightarrow>
               map_option (\<lambda>errors. Inr (validated_of env (JObj ms) (st # sts) errors))
                 (payload_errors env (JObj ms) (st # sts))
           | _ \<Rightarrow> Some (Inl NoSubtasks))
      | Parsed _ \<Rightarrow> None)"

end
