(* ===== verification/Runner_Blueprint_Order.thy ===== *)
theory Runner_Blueprint_Order
  imports Orch_Topo Runner_Blueprint
begin

text \<open>
  The sort of the blueprint normaliser and the sort of the orchestrator, two implementations of
  one algorithm: the first keeps the set of what remains, the second counts the dependencies
  still missing. They answer alike.
\<close>

section \<open>The two sorts\<close>

definition named_by :: "string list \<Rightarrow> json list \<Rightarrow> bool" where
  "named_by ids sts \<longleftrightarrow> map (jget ''id'') sts = map (\<lambda>i. Some (JStr i)) ids \<and> list_all is_obj sts
     \<and> distinct ids \<and> [] \<notin> set ids"

lemma is_obj_JObj [simp]: "is_obj (JObj ms)"
  by (simp add: is_obj_def)

lemma is_obj_iff: "is_obj st \<longleftrightarrow> (\<exists>ms. st = JObj ms)"
  by (cases st) (auto simp: is_obj_def)

lemma scan_ids_names:
  "distinct acc \<Longrightarrow> [] \<notin> set acc \<Longrightarrow>
     scan_ids acc sts = Inr out \<longleftrightarrow> (\<exists>ids. out = acc @ ids \<and> map (jget ''id'') sts = map (\<lambda>i. Some (JStr i)) ids
       \<and> list_all is_obj sts \<and> distinct out \<and> [] \<notin> set out)"
proof (induction acc sts arbitrary: out rule: scan_ids.induct)
  case (2 acc st sts)
  show ?case
  proof (cases "\<exists>ms i. st = JObj ms \<and> jget ''id'' st = Some (JStr i)")
    case True
    then obtain ms i where st: "st = JObj ms" "jget ''id'' st = Some (JStr i)" by blast
    show ?thesis
    proof (cases "i = [] \<or> i \<in> set acc")
      case True
      with st show ?thesis by (auto simp: Cons_eq_map_conv)
    next
      case False
      with 2 st have "scan_ids acc (st # sts) = Inr out \<longleftrightarrow> (\<exists>ids. out = (acc @ [i]) @ ids
          \<and> map (jget ''id'') sts = map (\<lambda>i. Some (JStr i)) ids \<and> list_all is_obj sts \<and> distinct out \<and> [] \<notin> set out)"
        by simp
      with st show ?thesis by (auto simp: Cons_eq_map_conv)
    qed
  next
    case False
    then show ?thesis by (auto simp: is_obj_iff Cons_eq_map_conv split: json.splits option.splits)
  qed
qed auto

lemma scan_iff: "scan_ids [] sts = Inr ids \<longleftrightarrow> named_by ids sts"
  using scan_ids_names [of "[]" sts ids] by (auto simp: named_by_def)

lemma emit_loop_cong:
  assumes "\<And>i. i \<in> set remaining \<Longrightarrow> set (f i) = set (g i)"
  shows "emit_loop ids f emitted remaining = emit_loop ids g emitted remaining"
  using assms
proof (induction ids f emitted remaining rule: emit_loop.induct)
  case (1 ids f emitted remaining)
  have "filter (\<lambda>i. set (f i) \<subseteq> set emitted) remaining = filter (\<lambda>i. set (g i) \<subseteq> set emitted) remaining"
    using 1(2) by (intro filter_cong) auto
  with 1 show ?case
    by (simp add: emit_loop.simps [of ids f emitted remaining] emit_loop.simps [of ids g emitted remaining] split: list.splits)
qed

lemma inj_index_of: "distinct ids \<Longrightarrow> inj_on (index_of ids) (set ids)"
  by (intro inj_onI) (metis in_set_conv_nth index_of_nth)

text \<open>From a state of the orchestrator's loop both loops go on in the same way.\<close>

lemma ready_set:
  assumes "loop_ok ids d inc ready out"
  shows "set (filter (\<lambda>i. set (in_deps ids d i) \<subseteq> set out) (filter (\<lambda>i. i \<notin> set out) ids)) = set ready"
  using assms by (auto simp: loop_ok_def waiting_0)

lemma emit_stuck:
  assumes ids: "distinct ids" and ok: "loop_ok ids d inc [] out"
  shows "emit_loop ids (in_deps ids d) out (filter (\<lambda>i. i \<notin> set out) ids)
    = (if length out = length ids then Some out else None)"
proof -
  let ?rem = "filter (\<lambda>i. i \<notin> set out) ids"
  have sub: "distinct out" "set out \<subseteq> set ids" using ok by (auto simp: loop_ok_def)
  have "?rem = [] \<longleftrightarrow> set out = set ids" using sub by (auto simp: filter_empty_conv)
  also have "\<dots> \<longleftrightarrow> length out = length ids"
    using sub ids by (metis List.finite_set card_subset_eq distinct_card)
  finally have rem: "?rem = [] \<longleftrightarrow> length out = length ids" .
  have none: "filter (\<lambda>i. set (in_deps ids d i) \<subseteq> set out) ?rem = []"
    using ready_set [OF ok] by simp
  have "emit_loop ids (in_deps ids d) out ?rem = (if ?rem = [] then Some out else None)"
    unfolding emit_loop.simps [of ids "in_deps ids d" out ?rem] none by simp
  then show ?thesis unfolding rem .
qed

lemma min_of_sorted: "sort_key f xs = n # rest \<Longrightarrow> x \<in> set xs \<Longrightarrow> f n \<le> f x"
  by (metis sorted_sort_key set_sort sorted_simps(2) list.simps(9) set_ConsD list.set_map image_eqI order_refl)

lemma emit_step:
  assumes ids: "distinct ids" and ok: "loop_ok ids d inc ready out" and s: "sort_key (index_of ids) ready = n # rest"
  shows "emit_loop ids (in_deps ids d) out (filter (\<lambda>i. i \<notin> set out) ids)
    = emit_loop ids (in_deps ids d) (out @ [n]) (filter (\<lambda>i. i \<notin> set (out @ [n])) ids)"
proof -
  let ?rem = "filter (\<lambda>i. i \<notin> set out) ids"
  let ?F = "filter (\<lambda>i. set (in_deps ids d i) \<subseteq> set out) ?rem"
  have set_F: "set ?F = set ready" by (rule ready_set [OF ok])
  have n: "n \<in> set ready" using s by (rule sort_key_Cons_mem)
  then have "?rem \<noteq> []" using set_F by (metis empty_iff filter.simps(1) list.set(1))
  obtain m ms where m: "sort_key (index_of ids) ?F = m # ms"
    using n set_F by (metis empty_iff list.exhaust list.set(1) set_sort)
  have sub: "set ?F \<subseteq> set ids" by auto
  have "m = n"
  proof (rule hd_sort_key_min [OF m])
    show "inj_on (index_of ids) (set ?F)" by (rule inj_on_subset [OF inj_index_of [OF ids] sub])
  qed (use n min_of_sorted [OF s] in \<open>simp_all only: set_F\<close>)
  moreover have "filter (\<lambda>i. i \<noteq> n) ?rem = filter (\<lambda>i. i \<notin> set (out @ [n])) ids"
    by (simp add: conj_commute)
  ultimately show ?thesis
    using m \<open>?rem \<noteq> []\<close> by (subst emit_loop.simps) simp
qed

lemma emit_kahn:
  assumes ids: "distinct ids" and ok: "loop_ok ids d inc ready out" "kahn fuel ids d inc ready out = Some res"
  shows "emit_loop ids (in_deps ids d) out (filter (\<lambda>i. i \<notin> set out) ids)
    = (if length res = length ids then Some res else None)"
  using ok
proof (induction fuel arbitrary: inc ready out)
  case (0 inc ready out)
  then show ?case using emit_stuck [OF ids] by (cases ready) auto
next
  case (Suc fuel inc ready out)
  show ?case
  proof (cases ready)
    case Nil
    with Suc.prems show ?thesis using emit_stuck [OF ids] by auto
  next
    case (Cons r rs)
    obtain n rest where s: "sort_key (index_of ids) (r # rs) = n # rest"
      by (metis length_sort list.exhaust length_0_conv list.distinct(1))
    obtain inc' ready' where rel: "release (children_of ids d n) inc rest = (inc', ready')" by fastforce
    have "loop_ok ids d inc' ready' (out @ [n])"
      using loop_ok_step(1) [OF ids _ s rel] Suc.prems(1) Cons by simp
    from Suc.IH [OF this] Suc.prems(2) Cons s rel
    show ?thesis using emit_step [OF ids Suc.prems(1)] by simp
  qed
qed

lemma emit_is_topological_sort:
  assumes "distinct ids"
  shows "emit_loop ids (in_deps ids d) [] ids
    = (case topological_sort_subtasks ids d of Sorted out \<Rightarrow> Some out | _ \<Rightarrow> None)"
proof -
  obtain inc out where out: "kahn (2 * length ids) ids d (init_incoming ids d)
      (filter (\<lambda>i. init_incoming ids d i = 0) ids) [] = Some out" "loop_ok ids d inc [] out"
    using kahn_ok [OF assms loop_ok_start [OF assms], of "2 * length ids" d] by auto
  with emit_kahn [OF assms loop_ok_start [OF assms] out(1)] show ?thesis
    by (simp add: topological_sort_subtasks_def Let_def)
qed

text \<open>The subtask an identifier names, and the dependencies the orchestrator loads for it.\<close>

lemma subtask_of_nth:
  assumes "distinct ids" "length ids = length sts" "k < length ids"
  shows "subtask_of ids sts (ids ! k) = sts ! k"
  using assms by (simp add: subtask_of_def dict_get_def map_of_zip_nth)

lemma named_length: "named_by ids sts \<Longrightarrow> length ids = length sts"
  by (metis length_map named_by_def)

lemma collect_deps_get:
  assumes "map (jget ''id'') sts = map (\<lambda>i. Some (JStr i)) ids" "list_all is_obj sts" "distinct ids"
  shows "dict_get (collect_deps d sts) i
    = (if i \<in> set ids then Some (subtask_deps (subtask_of ids sts i)) else dict_get d i)"
  using assms
proof (induction sts arbitrary: ids d)
  case (Cons st sts)
  then obtain j js where ids: "ids = j # js" "jget ''id'' st = Some (JStr j)" by (cases ids) auto
  obtain ms where ms: "st = JObj ms" using Cons.prems(2) by (auto simp: is_obj_iff)
  from Cons.IH [of js "dict_set j (subtask_deps st) d"] Cons.prems ids ms show ?case
    by (auto simp: alist_laws subtask_of_def)
qed simp

lemma plan_deps_in_deps:
  assumes "named_by ids sts" "i \<in> set ids"
  shows "plan_deps ids sts i = in_deps ids (collect_deps [] sts) i"
  using assms collect_deps_get [of sts ids "[]" i] by (simp add: plan_deps_def in_deps_def deps_of_def named_by_def)

lemma topo_sort_is_orchestrator_sort:
  assumes "scan_ids [] sts = Inr ids"
  shows "topo_sort_subtasks sts =
    (case topological_sort_subtasks ids (collect_deps [] sts) of
       Sorted out \<Rightarrow> Inr (map (subtask_of ids sts) out) | _ \<Rightarrow> Inl DependencyCycle)"
proof -
  have n: "named_by ids sts" "distinct ids" using assms by (auto simp: scan_iff named_by_def)
  have "emit_loop ids (plan_deps ids sts) [] ids = emit_loop ids (in_deps ids (collect_deps [] sts)) [] ids"
    using plan_deps_in_deps [OF n(1)] by (intro emit_loop_cong) simp
  then show ?thesis
    by (simp add: topo_sort_subtasks_def assms emit_is_topological_sort [OF n(2)] split: topo.splits)
qed

end
