(* ===== verification/Runner_Blueprint_Norm.thy ===== *)
theory Runner_Blueprint_Norm
  imports Runner_Blueprint_Order
begin

text \<open>
  What the normalisation of a blueprint leaves alone, and its result: the order, the tags and
  the file lists are in normal form, and a list in normal form is not changed.
\<close>

section \<open>What normalisation leaves alone\<close>

text \<open>Two versions of a subtask that differ at most in the criteria and the affected files.\<close>

definition same_plan :: "json \<Rightarrow> json \<Rightarrow> bool" where
  "same_plan st st' \<longleftrightarrow> is_obj st = is_obj st'
     \<and> (\<forall>k. k \<noteq> ''validation_criteria'' \<longrightarrow> k \<noteq> ''affected_files'' \<longrightarrow> jget k st' = jget k st)"

lemma jget_set_field: "jget k (set_field k' v j) = (if is_obj j \<and> k = k' then Some v else jget k j)"
  by (cases j) (auto simp: is_obj_def alist_laws)

lemma is_obj_set_field [simp]: "is_obj (set_field k v j) = is_obj j"
  by (cases j) (auto simp: is_obj_def)

lemma jget_not_obj: "\<not> is_obj j \<Longrightarrow> jget k j = None"
  by (cases j) (auto simp: is_obj_def)

lemma same_plan_refl [simp]: "same_plan st st"
  by (simp add: same_plan_def)

lemma same_plan_trans: "same_plan a b \<Longrightarrow> same_plan b c \<Longrightarrow> same_plan a c"
  by (simp add: same_plan_def)

lemma same_plan_get: "same_plan st st' \<Longrightarrow> k \<noteq> ''validation_criteria'' \<Longrightarrow> k \<noteq> ''affected_files'' \<Longrightarrow> jget k st' = jget k st"
  by (simp add: same_plan_def)

lemma same_plan_set: "k = ''validation_criteria'' \<or> k = ''affected_files'' \<Longrightarrow> same_plan st (set_field k v st)"
  by (auto simp: same_plan_def jget_set_field)

lemma same_plan_fields:
  assumes "same_plan st st'"
  shows "subtask_deps st' = subtask_deps st" "id_of st' = id_of st" "create_paths st' = create_paths st"
    "carries_id i st' = carries_id i st" "st_id st' = st_id st" "is_obj st' = is_obj st"
  using assms same_plan_get [OF assms]
  by (simp_all add: subtask_deps_def id_of_def create_paths_def carries_id_def st_id_def same_plan_def)

abbreviation same_plans :: "json list \<Rightarrow> json list \<Rightarrow> bool" where
  "same_plans \<equiv> list_all2 same_plan"

lemma same_plans_refl [simp]: "same_plans sts sts"
  by (simp add: list_all2_same)

lemma same_plans_trans: "same_plans a b \<Longrightarrow> same_plans b c \<Longrightarrow> same_plans a c"
  by (rule list_all2_trans [OF same_plan_trans])

lemma same_plans_update: "same_plan (sts ! k) st \<Longrightarrow> k < length sts \<Longrightarrow> same_plans sts (sts[k := st])"
  by (auto simp: list_all2_conv_all_nth nth_list_update)

lemma scan_ids_step:
  "scan_ids acc (st # sts) =
     (if \<not> is_obj st then Inl NonObjectEntry
      else case jget ''id'' st of
             Some (JStr i) \<Rightarrow>
               if i = [] then Inl MissingId else if i \<in> set acc then Inl (DuplicateId i) else scan_ids (acc @ [i]) sts
           | _ \<Rightarrow> Inl MissingId)"
  by (cases st) (simp_all add: is_obj_def del: jget.simps)

lemma collect_deps_step:
  "collect_deps d (st # sts) =
     (if \<not> is_obj st then collect_deps d sts
      else case jget ''id'' st of
             Some (JStr i) \<Rightarrow> collect_deps (dict_set i (subtask_deps st) d) sts
           | _ \<Rightarrow> collect_deps d sts)"
  by (cases st) (auto simp: is_obj_def simp del: jget.simps)

lemma same_plan_id: "same_plan st st' \<Longrightarrow> jget ''id'' st' = jget ''id'' st"
  by (rule same_plan_get) simp_all

lemma scan_ids_cong: "same_plans sts sts' \<Longrightarrow> scan_ids acc sts' = scan_ids acc sts"
proof (induction arbitrary: acc rule: list_all2_induct)
  case (Cons st sts st' sts')
  show ?case
    unfolding scan_ids_step same_plan_id [OF Cons(1)] same_plan_fields(6) [OF Cons(1)] Cons(3) ..
qed simp

lemma collect_deps_cong: "same_plans sts sts' \<Longrightarrow> collect_deps d sts' = collect_deps d sts"
proof (induction arbitrary: d rule: list_all2_induct)
  case (Cons st sts st' sts')
  show ?case
    unfolding collect_deps_step same_plan_id [OF Cons(1)] same_plan_fields(1,6) [OF Cons(1)] Cons(3) ..
qed simp

lemma last_with_cong: "list_all2 (\<lambda>x y. P y = P x) xs ys \<Longrightarrow> last_with P ys = last_with P xs"
  by (induction rule: list_all2_induct) auto

lemma last_with_Some: "last_with P xs = Some k \<Longrightarrow> k < length xs \<and> P (xs ! k)"
  by (induction xs arbitrary: k) (auto split: option.splits if_splits)

lemma last_with_ex: "x \<in> set xs \<Longrightarrow> P x \<Longrightarrow> last_with P xs \<noteq> None"
  by (induction xs) (auto split: option.splits)

lemma owner_cong: "same_plans sts sts' \<Longrightarrow> last_with (carries_id i) sts' = last_with (carries_id i) sts"
  by (rule last_with_cong, erule list_all2_mono, rule same_plan_fields)

section \<open>The order\<close>

lemma topo_sort_fails_again:
  assumes "same_plans sts sts'" "topo_sort_subtasks sts = Inl note"
  shows "topo_sort_subtasks sts' = Inl note"
proof (cases "scan_ids [] sts")
  case (Inl n)
  with assms show ?thesis by (simp add: topo_sort_subtasks_def scan_ids_cong)
next
  case (Inr ids)
  then have "scan_ids [] sts' = Inr ids" using assms(1) by (simp add: scan_ids_cong)
  with Inr assms show ?thesis
    by (simp add: topo_sort_is_orchestrator_sort collect_deps_cong [OF assms(1)] split: topo.splits)
qed

lemma named_subtask:
  assumes "named_by ids sts" "i \<in> set ids"
  shows "jget ''id'' (subtask_of ids sts i) = Some (JStr i)" "is_obj (subtask_of ids sts i)"
    "subtask_of ids sts i \<in> set sts"
proof -
  obtain k where k: "k < length ids" "ids ! k = i" using assms(2) by (metis in_set_conv_nth)
  then have "subtask_of ids sts i = sts ! k" "k < length sts"
    using subtask_of_nth [of ids sts k] assms(1) named_length by (auto simp: named_by_def)
  moreover have "jget ''id'' (sts ! k) = Some (JStr i)"
    using assms(1) k calculation(2) by (metis (no_types, lifting) named_by_def nth_map)
  ultimately show "jget ''id'' (subtask_of ids sts i) = Some (JStr i)" "is_obj (subtask_of ids sts i)"
      "subtask_of ids sts i \<in> set sts"
    using assms(1) by (auto simp: named_by_def list_all_length)
qed

text \<open>What a successful sort returns.\<close>

lemma topo_sort_cases:
  assumes "topo_sort_subtasks sts = Inr res"
  obtains ids out where "scan_ids [] sts = Inr ids" "named_by ids sts" "named_by out res"
    "res = map (subtask_of ids sts) out" "set out = set ids" "ordered ids (collect_deps [] sts) out"
    "topological_sort_subtasks ids (collect_deps [] sts) = Sorted out"
proof -
  obtain ids where ids: "scan_ids [] sts = Inr ids"
    using assms by (auto simp: topo_sort_subtasks_def split: sum.splits)
  then have n: "named_by ids sts" "distinct ids" by (auto simp: scan_iff named_by_def)
  from n(2) show ?thesis
  proof (cases rule: topological_sort_cases [of ids "collect_deps [] sts"])
    case (ok out)
    then have res: "res = map (subtask_of ids sts) out"
      using assms topo_sort_is_orchestrator_sort [OF ids] by simp
    have "named_by out res"
      unfolding named_by_def res using n(1) ok(2,3) named_subtask [OF n(1)]
      by (auto simp: named_by_def list_all_iff)
    with that ids n(1) res ok show ?thesis by blast
  next
    case (cycle bad)
    then show ?thesis using assms topo_sort_is_orchestrator_sort [OF ids] by simp
  qed
qed

lemma deps_of_collect:
  assumes "named_by ids sts" "i \<in> set ids"
  shows "deps_of (collect_deps [] sts) i = subtask_deps (subtask_of ids sts i)"
  using assms collect_deps_get [of sts ids "[]" i] by (simp add: deps_of_def named_by_def)

lemma subtask_of_map: "distinct out \<Longrightarrow> i \<in> set out \<Longrightarrow> subtask_of out (map f out) i = f i"
  by (metis in_set_conv_nth length_map nth_map subtask_of_nth)

lemma map_subtask_of: "named_by ids sts \<Longrightarrow> map (subtask_of ids sts) ids = sts"
  by (rule nth_equalityI) (auto simp: named_length subtask_of_nth named_by_def)

lemma topo_sort_again:
  assumes "topo_sort_subtasks sts = Inr res" "same_plans res res'"
  shows "topo_sort_subtasks res' = Inr res'"
proof -
  from assms(1) obtain ids out where o: "named_by ids sts" "named_by out res"
      "res = map (subtask_of ids sts) out" "set out = set ids" "ordered ids (collect_deps [] sts) out"
    by (rule topo_sort_cases)
  have eq: "in_deps out (collect_deps [] res) i = in_deps ids (collect_deps [] sts) i" if "i \<in> set out" for i
    using that o(4) deps_of_collect [OF o(2) that] deps_of_collect [OF o(1), of i] subtask_of_map [of out i] o(2)
    by (simp add: in_deps_def o(3) named_by_def)
  have "ordered out (collect_deps [] res) out"
    unfolding ordered_def
  proof (intro allI impI)
    fix k assume k: "k < length out"
    then show "set (in_deps out (collect_deps [] res) (out ! k)) \<subseteq> set (take k out)"
      using o(5) eq [of "out ! k"] by (simp add: ordered_def)
  qed
  then have "topological_sort_subtasks out (collect_deps [] res') = Sorted out"
    using o(2) collect_deps_cong [OF assms(2)] by (simp add: sort_stable named_by_def)
  moreover have "scan_ids [] res' = Inr out" using o(2) scan_ids_cong [OF assms(2)] by (simp add: scan_iff)
  ultimately show ?thesis
    by (simp add: topo_sort_is_orchestrator_sort map_subtask_of scan_iff)
qed

section \<open>Tags and files\<close>

definition owner_cited :: "json list \<Rightarrow> string \<times> json \<Rightarrow> bool" where
  "owner_cited sts entry \<longleftrightarrow> (\<forall>w k. snd entry = JStr w \<longrightarrow> last_with (carries_id w) sts = Some k
     \<longrightarrow> cites (bracket_tag (fst entry)) (list_of (jget ''validation_criteria'' (sts ! k))))"

definition created_listed :: "json \<Rightarrow> bool" where
  "created_listed st \<longleftrightarrow> set (create_paths st) \<subseteq> set (str_items (list_of (jget ''affected_files'' st)))"

lemma str_items_append [simp]: "str_items (xs @ ys) = str_items xs @ str_items ys"
  by (induction xs rule: str_items.induct) auto

lemma tag_criterion_cites: "contains_str (tag_criterion n r) (bracket_tag r)"
proof -
  have "tag_criterion n r = (''VC'' @ show_nat n @ '' '') @ bracket_tag r @ '': satisfies coverage_map requirement '' @ r"
    by (simp add: tag_criterion_def)
  then show ?thesis by (simp only: contains_sublist sublist_appendI)
qed

text \<open>Criteria only grow: what is cited stays cited.\<close>

definition keeps_cites :: "json list \<Rightarrow> json list \<Rightarrow> bool" where
  "keeps_cites sts sts' \<longleftrightarrow> same_plans sts sts' \<and> (\<forall>tag. \<forall>k < length sts.
     cites tag (list_of (jget ''validation_criteria'' (sts ! k))) \<longrightarrow> cites tag (list_of (jget ''validation_criteria'' (sts' ! k))))"

lemma keeps_cites_refl [simp]: "keeps_cites sts sts"
  by (simp add: keeps_cites_def)

lemma keeps_cites_trans: "keeps_cites a b \<Longrightarrow> keeps_cites b c \<Longrightarrow> keeps_cites a c"
  using same_plans_trans by (auto simp: keeps_cites_def dest: list_all2_lengthD)

lemma keeps_owner_cited: "keeps_cites sts sts' \<Longrightarrow> owner_cited sts entry \<Longrightarrow> owner_cited sts' entry"
  using last_with_Some by (fastforce simp: keeps_cites_def owner_cited_def owner_cong)

lemma extend_keeps:
  assumes "k < length sts" "is_obj (sts ! k)"
  shows "keeps_cites sts (sts[k := set_field ''validation_criteria''
    (JList (list_of (jget ''validation_criteria'' (sts ! k)) @ new)) (sts ! k)])"
proof -
  have "list_of (jget ''validation_criteria'' (set_field ''validation_criteria'' (JList vs) (sts ! k))) = vs" for vs
    using assms(2) by (simp add: jget_set_field)
  then show ?thesis
    using assms(1) same_plans_update same_plan_set
    by (simp add: keeps_cites_def cites_def nth_list_update)
qed

lemma inject_tag_ok:
  assumes "inject_tag sts entry = (sts', tags)"
  shows "keeps_cites sts sts'" "owner_cited sts' entry" "tags = [] \<Longrightarrow> sts' = sts"
proof -
  obtain r v where e: "entry = (r, v)" by fastforce
  consider (no) "sts' = sts" "\<nexists>w. v = JStr w" | (unknown) w where "sts' = sts" "v = JStr w" "last_with (carries_id w) sts = None"
    | (owner) w k where "v = JStr w" "last_with (carries_id w) sts = Some k"
    using assms e by (cases v) (auto simp: inject_tag_def split: option.splits)
  then have "keeps_cites sts sts' \<and> owner_cited sts' entry \<and> (tags = [] \<longrightarrow> sts' = sts)"
  proof cases
    case (owner w k)
    let ?cs = "list_of (jget ''validation_criteria'' (sts ! k))"
    have k: "k < length sts" "carries_id w (sts ! k)" using last_with_Some [OF owner(2)] by auto
    then have obj: "is_obj (sts ! k)" by (metis carries_id_def jget_not_obj option.distinct(1))
    show ?thesis
    proof (cases "cites (bracket_tag r) ?cs")
      case True
      with assms e owner show ?thesis by (auto simp: inject_tag_def owner_cited_def Let_def)
    next
      case False
      let ?st = "set_field ''validation_criteria'' (JList (?cs @ [JStr (tag_criterion (length ?cs + 1) r)])) (sts ! k)"
      have s: "sts' = sts[k := ?st]" "tags \<noteq> []"
        using False assms e owner by (auto simp: inject_tag_def Let_def)
      have keeps: "keeps_cites sts sts'" unfolding s(1) by (rule extend_keeps [OF k(1) obj])
      then have same: "same_plans sts sts'" by (simp add: keeps_cites_def)
      have vc: "list_of (jget ''validation_criteria'' ?st) = ?cs @ [JStr (tag_criterion (length ?cs + 1) r)]"
        using obj by (simp add: jget_set_field)
      then have "owner_cited sts' entry"
        using vc s(1) k(1) owner owner_cong [OF same] tag_criterion_cites
        by (simp add: owner_cited_def e cites_def)
      with keeps s(2) show ?thesis by simp
    qed
  qed (use assms e in \<open>auto simp: owner_cited_def\<close>)
  then show "keeps_cites sts sts'" "owner_cited sts' entry" "tags = [] \<Longrightarrow> sts' = sts" by auto
qed

lemma inject_tags_ok:
  assumes "inject_tags sts cov = (sts', tags)"
  shows "keeps_cites sts sts'" "\<forall>entry \<in> set cov. owner_cited sts' entry" "tags = [] \<Longrightarrow> sts' = sts"
proof -
  have "keeps_cites sts sts' \<and> (\<forall>entry \<in> set cov. owner_cited sts' entry) \<and> (tags = [] \<longrightarrow> sts' = sts)"
    using assms
  proof (induction cov arbitrary: sts tags)
    case (Cons entry cov)
    obtain sts1 tags1 where 1: "inject_tag sts entry = (sts1, tags1)" by fastforce
    obtain tags2 where 2: "inject_tags sts1 cov = (sts', tags2)" "tags = tags1 @ tags2"
      using Cons.prems 1 by (auto split: prod.splits)
    from Cons.IH [OF 2(1)] inject_tag_ok [OF 1] 2(2) show ?case
      using keeps_cites_trans keeps_owner_cited [of sts1 sts' entry] by auto
  qed simp
  then show "keeps_cites sts sts'" "\<forall>entry \<in> set cov. owner_cited sts' entry" "tags = [] \<Longrightarrow> sts' = sts" by auto
qed

lemma inject_tags_noop: "\<forall>entry \<in> set cov. owner_cited sts entry \<Longrightarrow> inject_tags sts cov = (sts, [])"
proof (induction cov)
  case (Cons entry cov)
  then have "inject_tag sts entry = (sts, [])"
    by (cases entry; cases "snd entry") (auto simp: inject_tag_def owner_cited_def Let_def split: option.splits)
  with Cons show ?case by simp
qed simp

lemma add_paths_ok:
  "add_paths affected ps = (affected', added) \<Longrightarrow> set ps \<subseteq> set (str_items affected')
     \<and> set (str_items affected) \<subseteq> set (str_items affected') \<and> (added = [] \<longrightarrow> affected' = affected)"
proof (induction affected ps arbitrary: affected' added rule: add_paths.induct)
  case (2 affected p ps)
  show ?case
  proof (cases "p \<in> set (str_items affected)")
    case True
    with 2(1) [of affected' added] 2(3) show ?thesis by auto
  next
    case False
    then obtain new where new: "add_paths (affected @ [JStr p]) ps = (affected', new)" "added = p # new"
      using 2(3) by (auto split: prod.splits)
    from 2(2) [OF False new(1)] new(2) show ?thesis by auto
  qed
qed simp

lemma union_creates_ok:
  assumes "union_creates st = (st', added)"
  shows "same_plan st st'" "jget ''validation_criteria'' st' = jget ''validation_criteria'' st"
    "created_listed st'" "added = [] \<Longrightarrow> st' = st"
proof -
  have "same_plan st st' \<and> jget ''validation_criteria'' st' = jget ''validation_criteria'' st \<and> created_listed st' \<and> (added = [] \<longrightarrow> st' = st)"
  proof (cases "create_paths st = []")
    case True
    with assms show ?thesis by (auto simp: union_creates_def created_listed_def)
  next
    case False
    then have obj: "is_obj st"
      by (rule contrapos_np) (simp add: create_paths_def list_of_def jget_not_obj)
    obtain aff new where a: "add_paths (list_of (jget ''affected_files'' st)) (create_paths st) = (aff, new)" by fastforce
    show ?thesis
    proof (cases "new = []")
      case True
      with False a assms add_paths_ok [OF a] show ?thesis
        by (auto simp: union_creates_def created_listed_def)
    next
      case new: False
      have st': "st' = set_field ''affected_files'' (JList aff) st" "added \<noteq> []"
        using new False a assms by (auto simp: union_creates_def)
      have "same_plan st st'" unfolding st' by (rule same_plan_set) simp
      moreover have "created_listed st'"
        using same_plan_fields(3) [OF calculation] add_paths_ok [OF a] obj
        by (simp add: created_listed_def st' jget_set_field)
      ultimately show ?thesis using st'(2) by (simp add: st'(1) jget_set_field)
    qed
  qed
  then show "same_plan st st'" "jget ''validation_criteria'' st' = jget ''validation_criteria'' st"
    "created_listed st'" "added = [] \<Longrightarrow> st' = st" by auto
qed

lemma union_creates_noop: "created_listed st \<Longrightarrow> union_creates st = (st, [])"
proof -
  have noop: "set ps \<subseteq> set (str_items aff) \<Longrightarrow> add_paths aff ps = (aff, [])" for aff ps
    by (induction aff ps rule: add_paths.induct) auto
  assume "created_listed st"
  then show ?thesis by (simp add: union_creates_def created_listed_def noop)
qed

section \<open>Normal forms\<close>

text \<open>A list of subtasks that normalisation does not change.\<close>

definition settled :: "json option \<Rightarrow> json list \<Rightarrow> bool" where
  "settled coverage sts \<longleftrightarrow> (\<forall>res. topo_sort_subtasks sts = Inr res \<longrightarrow> res = sts)
     \<and> (\<forall>cov. coverage = Some (JObj cov) \<longrightarrow> (\<forall>entry \<in> set cov. owner_cited sts entry))
     \<and> (\<forall>st \<in> set sts. created_listed st)"

definition order_after :: "json list \<Rightarrow> json list" where
  "order_after sts = (case topo_sort_subtasks sts of Inr res \<Rightarrow> res | Inl _ \<Rightarrow> sts)"

definition tagged_after :: "json option \<Rightarrow> json list \<Rightarrow> json list \<times> string list" where
  "tagged_after coverage sts = (case coverage of Some (JObj cov) \<Rightarrow> inject_tags (order_after sts) cov | _ \<Rightarrow> (order_after sts, []))"

definition subtasks_after :: "json option \<Rightarrow> json list \<Rightarrow> json list" where
  "subtasks_after coverage sts = map (\<lambda>st. fst (union_creates st)) (fst (tagged_after coverage sts))"

lemmas inject_tags_parts = inject_tags_ok [OF prod.collapse [symmetric]]
lemmas union_creates_parts = union_creates_ok [OF prod.collapse [symmetric]]

lemma tagged_after_ok:
  "keeps_cites (order_after sts) (fst (tagged_after coverage sts))"
  "coverage = Some (JObj cov) \<Longrightarrow> entry \<in> set cov \<Longrightarrow> owner_cited (fst (tagged_after coverage sts)) entry"
  "snd (tagged_after coverage sts) = [] \<Longrightarrow> fst (tagged_after coverage sts) = order_after sts"
proof -
  show "keeps_cites (order_after sts) (fst (tagged_after coverage sts))"
    using inject_tags_parts(1) [where sts = "order_after sts"] by (auto simp: tagged_after_def split: option.splits json.splits)
  show "coverage = Some (JObj cov) \<Longrightarrow> entry \<in> set cov \<Longrightarrow> owner_cited (fst (tagged_after coverage sts)) entry"
    using inject_tags_parts(2) [where sts = "order_after sts" and cov = cov] by (auto simp: tagged_after_def)
  show "snd (tagged_after coverage sts) = [] \<Longrightarrow> fst (tagged_after coverage sts) = order_after sts"
    using inject_tags_parts(3) [where sts = "order_after sts"]
    by (cases coverage) (auto simp: tagged_after_def split: json.splits)
qed

lemma union_keeps: "keeps_cites sts (map (\<lambda>st. fst (union_creates st)) sts)"
  using union_creates_parts(1,2) by (auto simp: keeps_cites_def list_all2_conv_all_nth)

lemma subtasks_after_same: "same_plans (order_after sts) (subtasks_after coverage sts)"
  using keeps_cites_trans [OF tagged_after_ok(1) union_keeps] by (simp add: keeps_cites_def subtasks_after_def)

lemma subtasks_after_settled: "settled coverage (subtasks_after coverage sts)"
proof -
  have "res = subtasks_after coverage sts" if "topo_sort_subtasks (subtasks_after coverage sts) = Inr res" for res
  proof (cases "topo_sort_subtasks sts")
    case (Inl n)
    then have "same_plans sts (subtasks_after coverage sts)" using subtasks_after_same [of sts] by (simp add: order_after_def)
    from topo_sort_fails_again [OF this Inl] that show ?thesis by simp
  next
    case (Inr out)
    then have "same_plans out (subtasks_after coverage sts)"
      using subtasks_after_same [of sts] by (simp add: order_after_def)
    from topo_sort_again [OF Inr this] that show ?thesis by simp
  qed
  moreover have "owner_cited (subtasks_after coverage sts) entry"
    if "coverage = Some (JObj cov)" "entry \<in> set cov" for cov entry
    unfolding subtasks_after_def by (rule keeps_owner_cited [OF union_keeps tagged_after_ok(2) [OF that]])
  moreover have "created_listed (fst (union_creates st))" for st
    by (rule union_creates_parts(3))
  ultimately show ?thesis by (auto simp: settled_def subtasks_after_def)
qed

lemma order_unchanged:
  assumes "topo_sort_subtasks sts = Inr res" "map id_of res = map id_of (filter is_obj sts)"
  shows "res = sts"
proof -
  from assms(1) obtain ids out where o: "named_by ids sts" "named_by out res"
      "res = map (subtask_of ids sts) out" "set out = set ids"
    by (rule topo_sort_cases)
  have names: "map id_of s = map JStr ns" if "named_by ns s" for ns s
  proof -
    have "map id_of s = map (\<lambda>v. case v of Some i \<Rightarrow> i | None \<Rightarrow> JNull) (map (jget ''id'') s)"
      by (simp add: id_of_def)
    also have "\<dots> = map JStr ns" using that by (simp add: named_by_def)
    finally show ?thesis .
  qed
  have "filter is_obj sts = sts" using o(1) by (simp add: named_by_def list_all_iff)
  with assms(2) names [OF o(1)] names [OF o(2)] have "map JStr out = map JStr ids" by simp
  then have "out = ids" by (metis inj_map_eq_map inj_onI json.inject(4))
  with o(1,3) map_subtask_of show ?thesis by simp
qed

lemma normalize_payload_eqs:
  fixes payload wr sts
  defines "coverage \<equiv> coverage_of payload (blueprint_body payload)" and "r \<equiv> normalize_payload wr payload sts"
  shows "nz_payload r = (if nz_changed r then with_subtasks (subtasks_after coverage sts) payload else payload)"
    "nz_written r \<longleftrightarrow> nz_changed r \<and> wr"
    "nz_notes r = (case topo_sort_subtasks sts of Inl note \<Rightarrow> [note] | Inr _ \<Rightarrow> [])"
    "nz_changed r \<longleftrightarrow> (\<exists>res. topo_sort_subtasks sts = Inr res \<and> map id_of res \<noteq> map id_of (filter is_obj sts))
       \<or> snd (tagged_after coverage sts) \<noteq> [] \<or> (\<exists>st \<in> set (fst (tagged_after coverage sts)). snd (union_creates st) \<noteq> [])"
  unfolding r_def coverage_def
  by (auto simp: normalize_payload_def Let_def subtasks_after_def tagged_after_def order_after_def comp_def split: sum.splits option.splits json.splits prod.splits)

lemma unchanged_subtasks:
  assumes "\<not> nz_changed (normalize_payload wr payload sts)"
  shows "subtasks_after (coverage_of payload (blueprint_body payload)) sts = sts"
proof -
  let ?c = "coverage_of payload (blueprint_body payload)"
  have un: "\<nexists>res. topo_sort_subtasks sts = Inr res \<and> map id_of res \<noteq> map id_of (filter is_obj sts)"
    "snd (tagged_after ?c sts) = []" "\<forall>st \<in> set (fst (tagged_after ?c sts)). snd (union_creates st) = []"
    using assms normalize_payload_eqs(4) [of wr payload sts] by auto
  have "order_after sts = sts" using un(1) order_unchanged by (auto simp: order_after_def split: sum.splits)
  with un(2) have t: "fst (tagged_after ?c sts) = sts" using tagged_after_ok(3) by simp
  have "fst (union_creates st) = st" if "st \<in> set sts" for st
    using un(3) that t union_creates_parts(4) [of st] by simp
  with t show ?thesis by (simp add: subtasks_after_def map_idI)
qed

lemma settled_unchanged:
  assumes "settled (coverage_of payload (blueprint_body payload)) sts"
  shows "\<not> nz_changed (normalize_payload wr payload sts)"
proof -
  let ?c = "coverage_of payload (blueprint_body payload)"
  have ord: "order_after sts = sts" using assms by (simp add: settled_def order_after_def split: sum.splits)
  have "tagged_after ?c sts = (sts, [])"
    using assms inject_tags_noop [of _ sts] by (simp add: settled_def tagged_after_def ord split: option.splits json.splits)
  moreover have "filter is_obj sts = sts" if "topo_sort_subtasks sts = Inr res" for res
    using topo_sort_cases [OF that] by (metis filter_True list_all_iff named_by_def)
  ultimately show ?thesis
    using assms normalize_payload_eqs(4) [of wr payload sts] union_creates_noop by (auto simp: settled_def)
qed

lemma with_subtasks_ok:
  assumes "is_obj payload"
  shows "jget ''subtasks'' (blueprint_body (with_subtasks sts payload)) = Some (JList sts)"
    "coverage_of (with_subtasks sts payload) (blueprint_body (with_subtasks sts payload))
      = coverage_of payload (blueprint_body payload)" "is_obj (with_subtasks sts payload)"
proof -
  show "jget ''subtasks'' (blueprint_body (with_subtasks sts payload)) = Some (JList sts)"
    using assms by (cases "jget ''blueprint'' payload")
      (auto simp: with_subtasks_def blueprint_body_def jget_set_field is_obj_iff Let_def alist_laws split: json.splits option.splits)
  show "coverage_of (with_subtasks sts payload) (blueprint_body (with_subtasks sts payload))
      = coverage_of payload (blueprint_body payload)"
    using assms by (cases "jget ''blueprint'' payload")
      (auto simp: with_subtasks_def blueprint_body_def coverage_of_def jget_set_field is_obj_iff Let_def alist_laws split: json.splits option.splits)
  show "is_obj (with_subtasks sts payload)"
    using assms by (auto simp: with_subtasks_def blueprint_body_def Let_def split: json.splits option.splits)
qed

end
