(* ===== verification/Runner_Blueprint_Valid.thy ===== *)
theory Runner_Blueprint_Valid
  imports Runner_Blueprint_Norm
begin

text \<open>
  Facts on the reports of the plan contract: the payload after a normalisation, and what the
  absence of errors says of the subtasks, their order, their tags and their files.
\<close>

section \<open>Reading the reports\<close>

lemma normalize_cases:
  assumes "normalize_blueprint wr f = Inr r"
  obtains ms sts where "f = Parsed (JObj ms)" "jget ''subtasks'' (blueprint_body (JObj ms)) = Some (JList sts)"
    "sts \<noteq> []" "r = normalize_payload wr (JObj ms) sts"
  using assms by (auto simp: normalize_blueprint_def split: doc_file.splits json.splits option.splits list.splits)

lemma normalize_start:
  assumes "jget ''subtasks'' (blueprint_body (JObj ms)) = Some (JList sts)" "sts \<noteq> []"
  shows "normalize_blueprint wr (Parsed (JObj ms)) = Inr (normalize_payload wr (JObj ms) sts)"
  using assms by (cases sts) (simp_all add: normalize_blueprint_def)

lemma validate_cases:
  assumes "validate_blueprint_contract env f = Some (Inr v)"
  obtains ms sts where "f = Parsed (JObj ms)" "jget ''subtasks'' (blueprint_body (JObj ms)) = Some (JList sts)"
    "sts \<noteq> []" "payload_errors env (JObj ms) sts = Some (vd_errors v)" "vd_valid v \<longleftrightarrow> vd_errors v = []"
    "vd_subtask_count v = length sts"
  using assms
  by (auto simp: validate_blueprint_contract_def validated_of_def Let_def split: doc_file.splits json.splits option.splits list.splits)

lemma length_order_after: "length (order_after sts) = length sts"
proof (cases "topo_sort_subtasks sts")
  case (Inr res)
  then obtain ids out where "named_by ids sts" "named_by out res" "set out = set ids"
    by (rule topo_sort_cases) blast
  then show ?thesis
    using Inr by (metis distinct_card named_by_def named_length order_after_def sum.case(2))
qed (simp add: order_after_def)

text \<open>The subtasks of the payload after normalisation.\<close>

lemma normalize_result:
  assumes "normalize_blueprint wr f = Inr r"
  obtains ms sts ms' sts' where "f = Parsed (JObj ms)" "jget ''subtasks'' (blueprint_body (JObj ms)) = Some (JList sts)"
    "nz_payload r = JObj ms'" "jget ''subtasks'' (blueprint_body (JObj ms')) = Some (JList sts')" "sts' \<noteq> []"
    "settled (coverage_of (JObj ms') (blueprint_body (JObj ms'))) sts'" "same_plans (order_after sts) sts'"
    "nz_notes r = (case topo_sort_subtasks sts of Inl n \<Rightarrow> [n] | Inr _ \<Rightarrow> [])"
proof -
  from assms obtain ms sts where f: "f = Parsed (JObj ms)" "jget ''subtasks'' (blueprint_body (JObj ms)) = Some (JList sts)"
      "sts \<noteq> []" "r = normalize_payload wr (JObj ms) sts"
    by (rule normalize_cases)
  let ?c = "coverage_of (JObj ms) (blueprint_body (JObj ms))"
  let ?final = "subtasks_after ?c sts"
  note eqs = normalize_payload_eqs [of wr "JObj ms" sts, folded f(4)]
  have ne: "?final \<noteq> []"
    using f(3) list_all2_lengthD [OF subtasks_after_same [of sts ?c]] length_order_after [of sts] by auto
  have "is_obj (nz_payload r)" using eqs(1) with_subtasks_ok(3) [of "JObj ms"] by simp
  then obtain ms' where ms': "nz_payload r = JObj ms'" by (auto simp: is_obj_iff)
  have sub: "jget ''subtasks'' (blueprint_body (JObj ms')) = Some (JList ?final)"
  proof (cases "nz_changed r")
    case True
    then show ?thesis using eqs(1) ms' with_subtasks_ok(1) [of "JObj ms" ?final] by simp
  next
    case False
    then have "ms' = ms" "?final = sts" using eqs(1) ms' f(4) unchanged_subtasks [of wr "JObj ms" sts] by auto
    with f(2) show ?thesis by simp
  qed
  have cov: "coverage_of (JObj ms') (blueprint_body (JObj ms')) = ?c"
    using eqs(1) ms' with_subtasks_ok(2) [of "JObj ms" ?final] by (cases "nz_changed r") auto
  from that [OF f(1,2) ms' sub ne _ subtasks_after_same eqs(3)] cov subtasks_after_settled show ?thesis by simp
qed

section \<open>Errors that are absent\<close>

lemma payload_errors_split:
  assumes "payload_errors env payload sts = Some es"
  obtains ces where
    "coverage_errors (list_of (jget ''hard_constraints'' (blueprint_body payload)))
       (list_of (jget ''soft_constraints'' (blueprint_body payload))) sts (coverage_of payload (blueprint_body payload)) = Some ces"
    "set (concat (map (subtask_errors (map st_id sts)) (enumerate 0 sts))) \<subseteq> set es" "set ces \<subseteq> set es"
proof -
  let ?body = "blueprint_body payload"
  from assms obtain ces pre mid post where c: "coverage_errors (list_of (jget ''hard_constraints'' ?body))
       (list_of (jget ''soft_constraints'' ?body)) sts (coverage_of payload ?body) = Some ces"
    and es: "es = pre @ concat (map (subtask_errors (map st_id sts)) (enumerate 0 sts)) @ mid @ ces @ post"
    unfolding payload_errors_def Let_def map_option_eq_Some by (metis append.assoc)
  show ?thesis by (rule that [OF c]) (simp_all only: es set_append, blast+)
qed

lemma st_id_Some: "st_id st = Some i \<Longrightarrow> jget ''id'' st = Some (JStr i) \<and> numbered ''ST-'' i"
  by (auto simp: st_id_def split: option.splits json.splits if_splits)

lemma index_of_take: "x \<in> set xs \<Longrightarrow> index_of xs x < k \<Longrightarrow> x \<in> set (take k xs)"
  using index_of_mem [of x xs] by (auto simp: in_set_conv_nth)

lemma count_distinct: "(\<And>x. x \<in> set xs \<Longrightarrow> count_list xs x \<le> 1) \<Longrightarrow> distinct xs"
proof (induction xs)
  case (Cons y xs)
  have "count_list xs x \<le> 1" if "x \<in> set xs" for x using Cons.prems [of x] that by (auto split: if_splits)
  moreover have "y \<notin> set xs" using Cons.prems [of y] count_list_0_iff [of xs y] by simp
  ultimately show ?case using Cons.IH by simp
qed simp

lemma concat_Nil: "concat (map f xs) = [] \<Longrightarrow> x \<in> set xs \<Longrightarrow> f x = []"
  by simp

lemma valid_subtask:
  assumes "payload_errors env payload sts = Some []" "n < length sts"
  shows "subtask_errors (map st_id sts) (n, sts ! n) = []"
proof -
  from assms(1) have "concat (map (subtask_errors (map st_id sts)) (enumerate 0 sts)) = []"
    by (rule payload_errors_split) auto
  then show ?thesis by (rule concat_Nil) (simp add: in_set_enumerate_eq assms(2))
qed

text \<open>The parts of the check of one subtask that the proofs below use.\<close>

lemma valid_subtask_parts:
  assumes "subtask_errors table (n, st) = []"
  obtains i ds where "is_obj st" "st_id st = Some i" "count_list table (Some i) \<le> 1"
    "jget ''dependencies'' st = Some (JList ds)" "\<forall>d \<in> set ds. dependency_error table n i d = []"
    "creates_errors i st = []" "is_list (jget ''validation_criteria'' st)"
proof -
  have obj: "is_obj st" and e: "identity_errors table n st = []" "dependency_errors table n (subtask_label n st) st = []"
      "creates_errors (subtask_label n st) st = []" "criteria_errors (subtask_label n st) st = []"
    using assms by (auto simp: subtask_errors_def Let_def split: if_splits)
  obtain i where i: "st_id st = Some i" "count_list table (Some i) \<le> 1"
    using e(1) by (auto simp: identity_errors_def split: option.splits if_splits)
  have "subtask_label n st = i" using i by (simp add: subtask_label_def)
  moreover obtain ds where "jget ''dependencies'' st = Some (JList ds)"
      "\<forall>d \<in> set ds. dependency_error table n (subtask_label n st) d = []"
    using e(2) by (auto simp: dependency_errors_def split: option.splits json.splits)
  moreover have "is_list (jget ''validation_criteria'' st)"
    using e(4) by (auto simp: criteria_errors_def is_list_def split: option.splits json.splits)
  ultimately show ?thesis using that obj i e(3) by simp
qed

lemma valid_names:
  assumes "payload_errors env payload sts = Some []"
  obtains ids where "named_by ids sts" "map st_id sts = map Some ids" "\<forall>i \<in> set ids. numbered ''ST-'' i"
proof -
  let ?ids = "map (\<lambda>st. the (st_id st)) sts"
  have one: "is_obj (sts ! n)" "\<exists>i. st_id (sts ! n) = Some i \<and> count_list (map st_id sts) (Some i) \<le> 1"
    if "n < length sts" for n
    using valid_subtask [OF assms that] by (auto elim: valid_subtask_parts)
  have all: "st_id st \<noteq> None" "is_obj st" "count_list (map st_id sts) (st_id st) \<le> 1" if "st \<in> set sts" for st
    using that one by (force simp: in_set_conv_nth)+
  have table: "map st_id sts = map Some ?ids" using all(1) by auto
  have "distinct (map st_id sts)" by (rule count_distinct) (use all(3) in auto)
  then have dist: "distinct ?ids" unfolding table distinct_map by simp
  have num: "numbered ''ST-'' i" "i \<noteq> []" if "i \<in> set ?ids" for i
    using that all(1) st_id_Some by (fastforce simp: numbered_def)+
  moreover have "named_by ?ids sts"
    using all(1,2) dist num(2) st_id_Some by (fastforce simp: named_by_def list_all_iff)
  ultimately show ?thesis using that [of ?ids] table by blast
qed

lemma valid_order:
  assumes "payload_errors env payload sts = Some []" "named_by ids sts" "map st_id sts = map Some ids"
  shows "ordered ids (collect_deps [] sts) ids" "\<forall>i \<in> set ids. set (deps_of (collect_deps [] sts) i) \<subseteq> set ids"
proof -
  have before: "set (subtask_deps (sts ! k)) \<subseteq> set (take k ids)" if k: "k < length sts" for k
  proof -
    from valid_subtask [OF assms(1) k] obtain i ds where v: "st_id (sts ! k) = Some i"
        "jget ''dependencies'' (sts ! k) = Some (JList ds)" "\<forall>d \<in> set ds. dependency_error (map st_id sts) k i d = []"
      by (rule valid_subtask_parts)
    have "Some i = (map Some ids) ! k" using v(1) k assms(3) by (metis nth_map)
    then have i: "ids ! k = i" "k < length ids" using k named_length [OF assms(2)] by auto
    have "distinct (map Some ids)" using assms(2) by (simp add: named_by_def distinct_map)
    then have pos: "index_of (map Some ids) (Some i) = k" using index_of_nth [of "map Some ids" k] i by simp
    have "x \<in> set (take k ids)" if "JStr x \<in> set ds" for x
    proof -
      have "dependency_error (map Some ids) k i (JStr x) = []" using v(3) that assms(3) by simp
      then have "Some x \<in> set (map Some ids)" "index_of (map Some ids) (Some x) < k"
        using pos i by (auto simp: dependency_error_def position_or_def split: if_splits)
      then have "Some x \<in> set (take k (map Some ids))" by (rule index_of_take)
      then show ?thesis by (auto simp: take_map)
    qed
    moreover have "x \<in> set (str_items vs) \<longleftrightarrow> JStr x \<in> set vs" for x vs by (induction vs rule: str_items.induct) auto
    ultimately show ?thesis using v(2) by (auto simp: subtask_deps_def)
  qed
  have deps: "deps_of (collect_deps [] sts) (ids ! k) = subtask_deps (sts ! k)" if "k < length ids" for k
    using that deps_of_collect [OF assms(2)] subtask_of_nth [of ids sts k] named_length [OF assms(2)] assms(2)
    by (simp add: named_by_def)
  show "ordered ids (collect_deps [] sts) ids"
    using before deps named_length [OF assms(2)] by (fastforce simp: ordered_def in_deps_def)
  show "\<forall>i \<in> set ids. set (deps_of (collect_deps [] sts) i) \<subseteq> set ids"
  proof
    fix i assume "i \<in> set ids"
    then obtain k where k: "k < length ids" "ids ! k = i" by (metis in_set_conv_nth)
    then have "set (deps_of (collect_deps [] sts) i) \<subseteq> set (take k ids)"
      using before [of k] deps [of k] named_length [OF assms(2)] by simp
    then show "set (deps_of (collect_deps [] sts) i) \<subseteq> set ids" using set_take_subset [of k ids] by blast
  qed
qed

text \<open>Coverage: the owners the validator checks and the tags it misses.\<close>

lemma owners_complete:
  "(r, JStr w) \<in> set cov \<Longrightarrow> Some w \<in> set table \<Longrightarrow>
     \<exists>rs. dict_get (requirement_owners table acc cov) w = Some rs \<and> r \<in> set rs"
proof -
  have keep: "dict_get acc w = Some rs \<Longrightarrow> r \<in> set rs \<Longrightarrow>
      \<exists>rs. dict_get (requirement_owners table acc cov) w = Some rs \<and> r \<in> set rs" for acc rs cov
  proof (induction cov arbitrary: acc rs)
    case (Cons e cov)
    obtain q v where e: "e = (q, v)" by fastforce
    show ?case
    proof (cases "\<exists>u. v = JStr u \<and> Some u \<in> set table")
      case True
      then obtain u where u: "v = JStr u" "Some u \<in> set table" by blast
      let ?acc = "dict_set u ((case dict_get acc u of Some rs \<Rightarrow> rs | None \<Rightarrow> []) @ [q]) acc"
      have "\<exists>rs'. dict_get ?acc w = Some rs' \<and> r \<in> set rs'" using Cons.prems by (auto simp: alist_laws)
      with Cons.IH u e show ?thesis by auto
    next
      case False
      with Cons e show ?thesis by (auto split: json.splits)
    qed
  qed auto
  show "(r, JStr w) \<in> set cov \<Longrightarrow> Some w \<in> set table \<Longrightarrow> ?thesis"
  proof (induction cov arbitrary: acc)
    case (Cons e cov)
    show ?case
    proof (cases "e = (r, JStr w)")
      case True
      with Cons.prems keep [of "dict_set w ((case dict_get acc w of Some rs \<Rightarrow> rs | None \<Rightarrow> []) @ [r]) acc"]
      show ?thesis by (auto simp: alist_laws)
    next
      case False
      with Cons show ?thesis by (cases e) (auto split: json.splits)
    qed
  qed simp
qed

lemma owners_sound:
  assumes "(w, rs) \<in> set (requirement_owners table acc cov)" "r \<in> set rs"
    "\<And>w rs r. (w, rs) \<in> set acc \<Longrightarrow> r \<in> set rs \<Longrightarrow> P w r" "\<And>w r. (r, JStr w) \<in> set cov \<Longrightarrow> Some w \<in> set table \<Longrightarrow> P w r"
    "dict_wf acc"
  shows "P w r"
  using assms
proof (induction cov arbitrary: acc)
  case (Cons e cov)
  obtain q v where e: "e = (q, v)" by fastforce
  show ?case
  proof (cases "\<exists>u. v = JStr u \<and> Some u \<in> set table")
    case True
    then obtain u where u: "v = JStr u" "Some u \<in> set table" by blast
    let ?rs = "(case dict_get acc u of Some rs \<Rightarrow> rs | None \<Rightarrow> []) @ [q]"
    have acc: "P w' r'" if "(w', rs') \<in> set (dict_set u ?rs acc)" "r' \<in> set rs'" for w' rs' r'
      using that Cons.prems(3,5) Cons.prems(3) [OF dict_get_mem] Cons.prems(4) [of q u] u e
      by (auto simp: set_dict_set split: option.splits)
    show ?thesis
      by (rule Cons.IH [of "dict_set u ?rs acc"])
        (use Cons.prems u e acc in \<open>auto simp: alist_laws\<close>)
  next
    case False
    then have "requirement_owners table acc (e # cov) = requirement_owners table acc cov"
      using e by (auto split: json.splits)
    then show ?thesis using Cons.IH [of acc] Cons.prems by simp
  qed
qed (use assms(3) in auto)

lemma tag_errors_mem:
  "tag_errors sts os = Some es \<Longrightarrow> set es = {TagMissing w r |w rs r texts. (w, rs) \<in> set os \<and> r \<in> set rs
     \<and> owner_criteria sts w = Some texts \<and> \<not> list_ex (\<lambda>c. contains_str c (bracket_tag r)) texts}"
proof (induction os arbitrary: es)
  case (Cons p os)
  obtain w rs where p: "p = (w, rs)" by fastforce
  with Cons.prems obtain texts es' where "owner_criteria sts w = Some texts" "tag_errors sts os = Some es'"
      "es = map (TagMissing w) (filter (\<lambda>r. \<not> list_ex (\<lambda>c. contains_str c (bracket_tag r)) texts) rs) @ es'"
    by (auto split: option.splits)
  with Cons.IH [OF this(2)] p show ?case by auto
qed simp

lemma tag_errors_defined: "tag_errors sts os = Some es \<Longrightarrow> (w, rs) \<in> set os \<Longrightarrow> owner_criteria sts w \<noteq> None"
  by (induction os arbitrary: es) (auto split: option.splits)

lemma coverage_cases:
  assumes "coverage_errors hard soft sts coverage = Some ces"
  obtains (missing) "NoCoverageMap \<in> set ces" "set ces = {NoCoverageMap}"
    | (map) cov tags where "coverage = Some (JObj cov)" "tag_errors sts (requirement_owners (map st_id sts) [] cov) = Some tags"
      "ces = map HardUncovered (filter (\<lambda>i. i \<notin> set (dict_keys cov)) (hard_constraint_ids hard))
         @ concat (map (soft_error cov) soft) @ concat (map (owner_error (map st_id sts)) cov) @ tags"
  using assms unfolding coverage_errors_def Let_def
  by (cases coverage) (auto split: json.splits list.splits)

lemma cites_list: "cites tag (list_of v) \<Longrightarrow> \<exists>c vs. v = Some (JList (c # vs))"
  by (cases v; cases "list_of v") (auto simp: cites_def list_of_def split: json.splits)

lemma settled_no_missing_tag:
  assumes "settled (Some (JObj cov)) sts" "tag_errors sts (requirement_owners (map st_id sts) [] cov) = Some tags"
  shows "tags = []"
proof (rule ccontr)
  assume "tags \<noteq> []"
  then obtain e where "e \<in> set tags" by (cases tags) auto
  then obtain w rs r texts where t: "(w, rs) \<in> set (requirement_owners (map st_id sts) [] cov)" "r \<in> set rs"
      "owner_criteria sts w = Some texts" "\<not> list_ex (\<lambda>c. contains_str c (bracket_tag r)) texts"
    unfolding tag_errors_mem [OF assms(2)] by blast
  have "(r, JStr w) \<in> set cov \<and> Some w \<in> set (map st_id sts)"
    by (rule owners_sound [OF t(1,2)]) auto
  then have r: "(r, JStr w) \<in> set cov" "Some w \<in> set (map st_id sts)" by auto
  from r(2) obtain st where st: "st \<in> set sts" "st_id st = Some w" by auto
  have cw: "carries_id w st" using st_id_Some [OF st(2)] by (simp add: carries_id_def)
  obtain k where k: "last_with (carries_id w) sts = Some k" using last_with_ex [of st sts "carries_id w", OF st(1) cw] by auto
  then have c: "cites (bracket_tag r) (list_of (jget ''validation_criteria'' (sts ! k)))"
    using assms(1) r(1) by (fastforce simp: settled_def owner_cited_def)
  then obtain v vs where "jget ''validation_criteria'' (sts ! k) = Some (JList (v # vs))" using cites_list by blast
  then show False using c k t(3,4) by (simp add: owner_criteria_def falsy_def py_iter_def cites_def)
qed

lemma no_coverage_errors:
  assumes "coverage_errors hard soft sts (Some (JObj cov)) = Some []"
  shows "tag_errors sts (requirement_owners (map st_id sts) [] cov) = Some []"
    "concat (map (owner_error (map st_id sts)) cov) = []"
proof -
  have "tag_errors sts (requirement_owners (map st_id sts) [] cov) = Some [] \<and> concat (map (owner_error (map st_id sts)) cov) = []"
  proof (cases cov)
    case Nil
    then show ?thesis using assms by (simp add: coverage_errors_def)
  next
    case (Cons e es)
    then show ?thesis
      using assms unfolding coverage_errors_def Let_def
      by (simp only: option.case json.case list.case map_option_eq_Some append_is_Nil_conv) blast
  qed
  then show "tag_errors sts (requirement_owners (map st_id sts) [] cov) = Some []"
    "concat (map (owner_error (map st_id sts)) cov) = []" by blast+
qed

lemma valid_cited:
  assumes "payload_errors env payload sts = Some []" "coverage_of payload (blueprint_body payload) = Some (JObj cov)"
    "entry \<in> set cov"
  shows "owner_cited sts entry"
  unfolding owner_cited_def
proof (intro allI impI)
  fix w k assume w: "snd entry = JStr w" "last_with (carries_id w) sts = Some k"
  then obtain r where r: "entry = (r, JStr w)" by (cases entry) auto
  from assms(1) obtain ces where "coverage_errors (list_of (jget ''hard_constraints'' (blueprint_body payload)))
       (list_of (jget ''soft_constraints'' (blueprint_body payload))) sts (Some (JObj cov)) = Some ces" "ces = []"
    by (rule payload_errors_split) (simp add: assms(2))
  then have tags: "tag_errors sts (requirement_owners (map st_id sts) [] cov) = Some []"
      "concat (map (owner_error (map st_id sts)) cov) = []"
    using no_coverage_errors by auto
  have "owner_error (map st_id sts) entry = []" using tags(2) assms(3) by (rule concat_Nil)
  then have "Some w \<in> set (map st_id sts)" by (auto simp: owner_error_def r split: if_splits)
  from owners_complete [OF assms(3) [unfolded r] this, of "[]"] obtain rs
    where rs: "(w, rs) \<in> set (requirement_owners (map st_id sts) [] cov)" "r \<in> set rs" using dict_get_mem by fast
  obtain texts where texts: "owner_criteria sts w = Some texts" using tag_errors_defined [OF tags(1) rs(1)] by auto
  then have ex: "list_ex (\<lambda>c. contains_str c (bracket_tag r)) texts"
    using tag_errors_mem [OF tags(1)] rs by auto
  have "is_list (jget ''validation_criteria'' (sts ! k))"
    using valid_subtask [OF assms(1), of k] last_with_Some [OF w(2)] by (auto elim: valid_subtask_parts)
  then have "texts = str_items (list_of (jget ''validation_criteria'' (sts ! k)))"
    using texts w(2) by (auto simp: owner_criteria_def is_list_def list_of_def falsy_def py_iter_def split: option.splits json.splits if_splits)
  with ex show "cites (bracket_tag (fst entry)) (list_of (jget ''validation_criteria'' (sts ! k)))"
    by (simp add: cites_def r)
qed

lemma valid_created: "creates_errors label st = [] \<Longrightarrow> created_listed st"
proof -
  assume e: "creates_errors label st = []"
  consider (none) "create_paths st = []" | (some) ps where "get_value ''creates_files'' st = Some (JList ps)"
    by (cases "jget ''creates_files'' st"; cases "the (jget ''creates_files'' st)")
      (auto simp: create_paths_def get_value_def list_of_def)
  then show ?thesis
  proof cases
    case (some ps)
    then show ?thesis
      using e by (auto simp: creates_errors_def created_listed_def Let_def filter_empty_conv split: if_splits)
  qed (simp add: created_listed_def)
qed

lemma topo_sort_stable:
  assumes "named_by ids sts" "ordered ids (collect_deps [] sts) ids"
  shows "topo_sort_subtasks sts = Inr sts" "topological_sort_subtasks ids (collect_deps [] sts) = Sorted ids"
  using assms sort_stable [of ids "collect_deps [] sts"] map_subtask_of
  by (simp_all add: topo_sort_is_orchestrator_sort scan_iff) (simp_all add: named_by_def)

lemma valid_settled:
  assumes "payload_errors env payload sts = Some []"
  shows "settled (coverage_of payload (blueprint_body payload)) sts" "topo_sort_subtasks sts = Inr sts"
proof -
  from assms obtain ids where n: "named_by ids sts" "map st_id sts = map Some ids" by (rule valid_names)
  show t: "topo_sort_subtasks sts = Inr sts"
    by (rule topo_sort_stable [OF n(1) valid_order(1) [OF assms n]])
  have "created_listed (sts ! k)" if "k < length sts" for k
    using valid_subtask [OF assms that] valid_created by (auto elim: valid_subtask_parts)
  then show "settled (coverage_of payload (blueprint_body payload)) sts"
    using t valid_cited [OF assms] by (auto simp: settled_def in_set_conv_nth)
qed

end
