(* ===== verification/Runner_Blueprint_Mech.thy ===== *)
theory Runner_Blueprint_Mech
  imports Runner_Blueprint_Valid
begin

text \<open>
  The three violations a normalisation repairs, which checks can report them, and that in a
  payload in normal form only a dependency can be reported, and none after a successful sort.
\<close>

section \<open>The mechanical violations\<close>

text \<open>The three violations the normaliser is documented to repair.\<close>

definition mechanical :: "blueprint_error \<Rightarrow> bool" where
  "mechanical e = (case e of ForwardDependency _ _ _ _ \<Rightarrow> True | TagMissing _ _ \<Rightarrow> True | OrphanCreates _ _ \<Rightarrow> True | _ \<Rightarrow> False)"

lemma mechanical_simps [simp]:
  "mechanical (ForwardDependency l d i k)" "mechanical (TagMissing w r)" "mechanical (OrphanCreates l ps)"
  by (simp_all add: mechanical_def)

lemma not_mechanical [simp]:
  "\<not> mechanical HardNotArray" "\<not> mechanical SoftNotArray" "\<not> mechanical DeferredNotArray"
  "\<not> mechanical (DeferredNotAllowed s)" "\<not> mechanical (DeferredNotObject n)"
  "\<not> mechanical (DeferredBadId n)" "\<not> mechanical (DeferredMissing n s)"
  "\<not> mechanical (DeferredBadSource n)" "\<not> mechanical (ConstraintNotObject l)"
  "\<not> mechanical (ConstraintNoId l)" "\<not> mechanical (ConstraintNoText l)"
  "\<not> mechanical (SubtaskNotObject l)" "\<not> mechanical (BadSubtaskId l)"
  "\<not> mechanical (DuplicateSubtaskId s)" "\<not> mechanical (DependenciesNotArray l)"
  "\<not> mechanical (BadDependency l v)" "\<not> mechanical (UnknownDependency l s)"
  "\<not> mechanical (SelfDependency l s)" "\<not> mechanical (BadDiffSize l)"
  "\<not> mechanical (LargeUnjustified l)" "\<not> mechanical (BadConcern l)"
  "\<not> mechanical (MixedUnjustified l)" "\<not> mechanical (NotOneStep l)"
  "\<not> mechanical (BadRequiredness l)" "\<not> mechanical (OmittedButActive l)"
  "\<not> mechanical (PruneableMissing l)" "\<not> mechanical (PruneableNotBool l)"
  "\<not> mechanical (NeverPruneable l s)" "\<not> mechanical (RequirednessMissing l)"
  "\<not> mechanical (NoAagContract l)" "\<not> mechanical (NoCriteria l)"
  "\<not> mechanical (BlankCriteria l)" "\<not> mechanical (CreatesNotPaths l)"
  "\<not> mechanical NoEntryPoint" "\<not> mechanical NoCoverageMap" "\<not> mechanical (HardUncovered s)"
  "\<not> mechanical (SoftUncovered s)" "\<not> mechanical (OwnerNotText s)"
  "\<not> mechanical (OwnerUnknown s t)" "\<not> mechanical (ForwardCoverage ss)"
  "\<not> mechanical YamlMissing" "\<not> mechanical IndexMalformed"
  by (simp_all add: mechanical_def)

text \<open>Which of the checks report none of them.\<close>

abbreviation no_mechanical :: "blueprint_error list \<Rightarrow> bool" where
  "no_mechanical es \<equiv> list_all (\<lambda>e. \<not> mechanical e) es"

lemma no_mechanical_if [simp]:
  "no_mechanical (if c then es else fs) \<longleftrightarrow> (c \<longrightarrow> no_mechanical es) \<and> (\<not> c \<longrightarrow> no_mechanical fs)"
  by simp

lemma no_mechanical_concat [simp]: "no_mechanical (concat ess) \<longleftrightarrow> (\<forall>es \<in> set ess. no_mechanical es)"
  by (induction ess) auto

lemma no_mechanical_map [simp]: "no_mechanical (map f xs) \<longleftrightarrow> list_all (\<lambda>x. \<not> mechanical (f x)) xs"
  by (simp add: list_all_iff)

lemma list_all_trivial [simp]: "list_all (\<lambda>x. True) xs"
  by (simp add: list_all_iff)

lemma plan_no_mechanical [simp]:
  "no_mechanical (deferred_item_errors p)" "no_mechanical (deferred_errors m body)"
  "no_mechanical (constraint_errors field p)" "no_mechanical (forward_errors env coverage)"
  "no_mechanical (soft_error cov c)" "no_mechanical (owner_error table q)"
proof -
  show item: "no_mechanical (deferred_item_errors p)" for p
  proof (cases p)
    case (Pair n j)
    show ?thesis
      by (cases j) (simp_all add: Pair deferred_item_errors_def del: filter.simps split: option.split json.split)
  qed
  show "no_mechanical (deferred_errors m body)"
    by (cases "jget ''deferred_yagni'' body"; cases "the (jget ''deferred_yagni'' body)")
      (simp_all add: deferred_errors_def item)
  show "no_mechanical (constraint_errors field p)"
    by (simp add: constraint_errors_def Let_def split: prod.split)
  show "no_mechanical (forward_errors env coverage)" by (simp add: forward_errors_def)
  show "no_mechanical (soft_error cov c)" by (simp add: soft_error_def Let_def)
  show "no_mechanical (owner_error table q)" by (simp add: owner_error_def split: prod.split json.split)
qed

lemma subtask_no_mechanical [simp]:
  "no_mechanical (identity_errors table n st)" "no_mechanical (size_errors label st)"
  "no_mechanical (requiredness_errors label st)" "no_mechanical (criteria_errors label st)"
proof -
  show "no_mechanical (identity_errors table n st)" by (simp add: identity_errors_def split: option.split)
  show "no_mechanical (size_errors label st)" by (simp add: size_errors_def Let_def)
  show "no_mechanical (requiredness_errors label st)"
    by (simp add: requiredness_errors_def split: option.split json.split)
  show "no_mechanical (criteria_errors label st)"
    by (simp add: criteria_errors_def split: option.split json.split list.split)
qed

lemma listed_no_mechanical: "created_listed st \<Longrightarrow> no_mechanical (creates_errors label st)"
proof -
  assume "created_listed st"
  then have "filter (\<lambda>p. p \<notin> set (str_items (list_of (jget ''affected_files'' st)))) (create_paths st) = []"
    by (auto simp: created_listed_def filter_empty_conv)
  then show ?thesis by (simp add: creates_errors_def Let_def split: option.split json.split)
qed

lemma no_mechanicalD: "no_mechanical es \<Longrightarrow> e \<in> set es \<Longrightarrow> \<not> mechanical e"
  by (simp add: list_all_iff)

lemma mechanical_dependency: "e \<in> set (dependency_errors table n label st) \<Longrightarrow> mechanical e \<Longrightarrow>
    \<exists>ds d. jget ''dependencies'' st = Some (JList ds) \<and> JStr d \<in> set ds \<and> Some d \<in> set table \<and> d \<noteq> label
      \<and> position_or n table label \<le> index_of table (Some d)
      \<and> e = ForwardDependency label d (index_of table (Some d)) (position_or n table label)"
proof -
  assume e: "e \<in> set (dependency_errors table n label st)" "mechanical e"
  obtain ds where ds: "jget ''dependencies'' st = Some (JList ds)"
    using e by (cases "jget ''dependencies'' st"; cases "the (jget ''dependencies'' st)") (auto simp: dependency_errors_def)
  then obtain dep where dep: "dep \<in> set ds" "e \<in> set (dependency_error table n label dep)"
    using e(1) by (auto simp: dependency_errors_def)
  have "\<exists>d. dep = JStr d" using dep(2) e(2) by (cases dep rule: json.exhaust) (auto simp: dependency_error_def)
  then obtain d where d: "dep = JStr d" ..
  then have "Some d \<in> set table \<and> d \<noteq> label \<and> position_or n table label \<le> index_of table (Some d)
      \<and> e = ForwardDependency label d (index_of table (Some d)) (position_or n table label)"
    using dep(2) e(2) by (auto simp: dependency_error_def split: if_splits)
  with ds dep(1) d show ?thesis by blast
qed

lemma mechanical_subtask:
  assumes "e \<in> set (subtask_errors table (n, st))" "mechanical e" "created_listed st"
  shows "is_obj st" "e \<in> set (dependency_errors table n (subtask_label n st) st)"
proof -
  have obj: "is_obj st"
    using assms(1,2) by (auto simp: subtask_errors_def Let_def split: if_splits)
  then have "e \<in> set (identity_errors table n st) \<or> e \<in> set (dependency_errors table n (subtask_label n st) st)
      \<or> e \<in> set (size_errors (subtask_label n st) st) \<or> e \<in> set (requiredness_errors (subtask_label n st) st)
      \<or> e \<in> set (criteria_errors (subtask_label n st) st) \<or> e \<in> set (creates_errors (subtask_label n st) st)"
    using assms(1) by (simp add: subtask_errors_def Let_def)
  then show "e \<in> set (dependency_errors table n (subtask_label n st) st)"
    using assms(2) no_mechanicalD subtask_no_mechanical listed_no_mechanical [OF assms(3)] by blast
  show "is_obj st" by (rule obj)
qed

lemma coverage_no_mechanical:
  assumes "coverage_errors hard soft sts coverage = Some ces" "settled coverage sts"
  shows "no_mechanical ces"
  using assms(1)
proof (cases rule: coverage_cases)
  case missing
  then show ?thesis by (simp add: list_all_iff)
next
  case (map cov tags)
  then have "tags = []" using settled_no_missing_tag assms(2) by simp
  with map(3) show ?thesis by simp
qed

text \<open>In a settled payload only a dependency can violate the order.\<close>

lemma settled_mechanical:
  assumes "payload_errors env payload sts = Some es" "settled (coverage_of payload (blueprint_body payload)) sts"
    "e \<in> set es" "mechanical e"
  obtains n where "n < length sts" "is_obj (sts ! n)"
    "e \<in> set (dependency_errors (map st_id sts) n (subtask_label n (sts ! n)) (sts ! n))"
proof -
  let ?body = "blueprint_body payload"
  let ?subs = "concat (map (subtask_errors (map st_id sts)) (enumerate 0 sts))"
  from assms(1) obtain ces where c: "coverage_errors (list_of (jget ''hard_constraints'' ?body))
       (list_of (jget ''soft_constraints'' ?body)) sts (coverage_of payload ?body) = Some ces"
    and es: "es = (if is_list (jget ''hard_constraints'' ?body) then [] else [HardNotArray])
           @ (if is_list (jget ''soft_constraints'' ?body) then [] else [SoftNotArray])
           @ deferred_errors (be_minimality env) ?body
           @ concat (map (constraint_errors ''hard_constraints'') (enumerate 0 (list_of (jget ''hard_constraints'' ?body))))
           @ concat (map (constraint_errors ''soft_constraints'') (enumerate 0 (list_of (jget ''soft_constraints'' ?body))))
           @ ?subs @ (if list_ex no_dependencies sts then [] else [NoEntryPoint])
           @ ces @ forward_errors env (coverage_of payload ?body)"
    unfolding payload_errors_def Let_def map_option_eq_Some by blast
  have other: "e \<noteq> HardNotArray" "e \<noteq> SoftNotArray" "e \<noteq> NoEntryPoint" using assms(4) by (auto simp: mechanical_def)
  have con: "e \<notin> set (concat (map (constraint_errors field) ps))" for field ps
    using no_mechanicalD [of "concat (map (constraint_errors field) ps)" e] assms(4)
    by auto
  have "e \<notin> set ces" "e \<notin> set (deferred_errors (be_minimality env) ?body)"
      "e \<notin> set (forward_errors env (coverage_of payload ?body))"
    using no_mechanicalD [OF coverage_no_mechanical [OF c assms(2)]] no_mechanicalD [OF plan_no_mechanical(2)]
      no_mechanicalD [OF plan_no_mechanical(4)] assms(4) by blast+
  then have "e \<in> set ?subs"
    using assms(3) other con unfolding es set_append by (simp del: set_concat split: if_splits)
  then obtain n where n: "n < length sts" "e \<in> set (subtask_errors (map st_id sts) (n, sts ! n))"
    by (auto simp: in_set_enumerate_eq)
  have "created_listed (sts ! n)" using assms(2) n(1) by (simp add: settled_def)
  from mechanical_subtask [OF n(2) assms(4) this] that n(1) show ?thesis by blast
qed

text \<open>After a successful sort no dependency violates the order.\<close>

lemma sorted_no_forward:
  assumes t: "topo_sort_subtasks sts = Inr sts" and n: "n < length sts"
    and e: "e \<in> set (dependency_errors (map st_id sts) n (subtask_label n (sts ! n)) (sts ! n))"
  shows "\<not> mechanical e"
proof
  assume "mechanical e"
  from mechanical_dependency [OF e this] obtain ds d where d: "jget ''dependencies'' (sts ! n) = Some (JList ds)"
      "JStr d \<in> set ds" "Some d \<in> set (map st_id sts)" "d \<noteq> subtask_label n (sts ! n)"
      "position_or n (map st_id sts) (subtask_label n (sts ! n)) \<le> index_of (map st_id sts) (Some d)"
    by blast
  from t obtain ids out where o: "named_by ids sts" "named_by out sts" "sts = map (subtask_of ids sts) out"
      "ordered ids (collect_deps [] sts) out" "set out = set ids"
    by (rule topo_sort_cases)
  have dist: "distinct out" "length out = length sts" using o(2) named_length [OF o(2)] by (auto simp: named_by_def)
  have id: "jget ''id'' (sts ! k) = Some (JStr (out ! k))" if "k < length sts" for k
    using o(2) that dist(2) by (metis (no_types, lifting) named_by_def nth_map)
  have st: "st_id (sts ! k) = (if numbered ''ST-'' (out ! k) then Some (out ! k) else None)" if "k < length sts" for k
    using id [OF that] by (simp add: st_id_def)
  have place: "index_of (map st_id sts) (Some i) = k" if "k < length sts" "st_id (sts ! k) = Some i" for k i
  proof -
    have "Some i \<in> set (map st_id sts)" using that by (metis image_eqI list.set_map nth_mem)
    from index_of_mem [OF this] obtain j where j: "index_of (map st_id sts) (Some i) = j" "j < length sts" "st_id (sts ! j) = Some i"
      by auto
    then have "out ! j = out ! k" using st [OF that(1)] st [OF j(2)] that(2) by (metis option.distinct(1) option.inject)
    then show ?thesis using dist j that(1) by (simp add: nth_eq_iff_index_eq)
  qed
  obtain j where j: "j < length sts" "st_id (sts ! j) = Some d" using d(3) by (auto simp: in_set_conv_nth)
  have dj: "out ! j = d" using st [OF j(1)] j(2) by (auto split: if_splits)
  have self: "position_or n (map st_id sts) (subtask_label n (sts ! n)) = n"
  proof (cases "st_id (sts ! n)")
    case None
    have "\<not> numbered ''ST-'' (index_label ''subtasks'' n)" by (simp add: numbered_def index_label_def)
    then have "Some (index_label ''subtasks'' n) \<notin> set (map st_id sts)" using st_id_Some by fastforce
    with None show ?thesis by (simp add: position_or_def subtask_label_def)
  next
    case (Some i)
    then have "Some i \<in> set (map st_id sts)" using n by (metis image_eqI list.set_map nth_mem)
    with Some place [OF n Some] show ?thesis by (simp add: position_or_def subtask_label_def)
  qed
  have ne: "out ! n \<noteq> d"
  proof
    assume "out ! n = d"
    then have "j = n" using dj dist j(1) n by (metis nth_eq_iff_index_eq)
    then show False using j(2) d(4) by (simp add: subtask_label_def)
  qed
  have "x \<in> set (str_items vs) \<longleftrightarrow> JStr x \<in> set vs" for x vs by (induction vs rule: str_items.induct) auto
  then have "d \<in> set (subtask_deps (sts ! n))" using d(1,2) by (simp add: subtask_deps_def)
  moreover have "subtask_of ids sts (out ! n) = sts ! n" 
    using arg_cong [OF o(3), of "\<lambda>l. l ! n"] nth_map [of n out "subtask_of ids sts"] n dist(2) by simp
  moreover have "out ! n \<in> set ids" "d \<in> set ids"
    using o(5) nth_mem [of n out] nth_mem [of j out] dj dist(2) j(1) n by simp_all
  ultimately have "d \<in> set (in_deps ids (collect_deps [] sts) (out ! n))"
    using deps_of_collect [OF o(1), of "out ! n"] ne by (simp add: in_deps_def)
  then have dn: "d \<in> set (take n out)"
    using o(4) [unfolded ordered_def, rule_format, of n] n dist(2) by (simp add: subset_iff)
  obtain m where m: "m < n" "out ! m = d" using dn n dist(2) by (auto simp: in_set_conv_nth)
  have "j = m" using nth_eq_iff_index_eq [OF dist(1), of j m] m dj dist(2) j(1) n by simp
  with m(1) have "j < n" by simp
  with d(5) self place [OF j] show False by simp
qed

end
