(* ===== verification/Runner_Blueprint_Props.thy ===== *)
theory Runner_Blueprint_Props
  imports Runner_Blueprint_Mech
begin

text \<open>
  Properties of the plan contract: the normaliser orders the subtasks as the orchestrator does,
  normalising twice is normalising once, the violations it repairs are no longer reported by the
  validator, a valid blueprint is not changed by it, and the orchestrator runs a valid blueprint
  in the order of the file.
\<close>

section \<open>An example\<close>

text \<open>
  A blueprint with the three mechanical violations: its first subtask depends on the second,
  owns a requirement no criterion cites, and creates a file it does not list.
\<close>

definition plan_subtask :: "string \<Rightarrow> string list \<Rightarrow> (string \<times> json) list \<Rightarrow> json" where
  "plan_subtask i ds extra = JObj ([(''id'', JStr i), (''dependencies'', JList (map JStr ds)),
     (''expected_diff_size'', JStr ''small''), (''concern_type'', JStr ''api''), (''one_logical_step'', JBool True),
     (''aag_contract'', JStr ''f -> g''), (''validation_criteria'', JList [JStr ''VC1: done''])] @ extra)"

definition draft_plan :: json where
  "draft_plan = JObj [(''hard_constraints'', JList []), (''soft_constraints'', JList []),
     (''subtasks'', JList [
        plan_subtask ''ST-001'' [''ST-002''] [(''creates_files'', JList [JStr ''a.py''])],
        plan_subtask ''ST-002'' [] []]),
     (''coverage_map'', JObj [(''AC-1'', JStr ''ST-001'')])]"

definition plan_env :: blueprint_env where
  "plan_env = \<lparr>be_minimality = ''lite'', be_strict = True, be_index_status = ''absent'', be_index_ids = []\<rparr>"

definition ready_plan :: json where
  "ready_plan = JObj [(''hard_constraints'', JList []), (''soft_constraints'', JList []),
     (''subtasks'', JList [
        plan_subtask ''ST-002'' [] [],
        JObj [(''id'', JStr ''ST-001''), (''dependencies'', JList [JStr ''ST-002'']),
          (''expected_diff_size'', JStr ''small''), (''concern_type'', JStr ''api''), (''one_logical_step'', JBool True),
          (''aag_contract'', JStr ''f -> g''),
          (''validation_criteria'', JList [JStr ''VC1: done'', JStr ''VC2 [AC-1]: satisfies coverage_map requirement AC-1'']),
          (''creates_files'', JList [JStr ''a.py'']), (''affected_files'', JList [JStr ''a.py''])]]),
     (''coverage_map'', JObj [(''AC-1'', JStr ''ST-001'')])]"

lemma draft_result:
  obtains r where "normalize_blueprint True (Parsed draft_plan) = Inr r" "nz_changed r" "nz_notes r = []" "nz_payload r = ready_plan"
proof -
  have "map_sum id (\<lambda>r. (nz_changed r, nz_notes r, nz_payload r)) (normalize_blueprint True (Parsed draft_plan)) = Inr (True, [], ready_plan)"
    by code_simp
  then show ?thesis using that by (cases "normalize_blueprint True (Parsed draft_plan)") auto
qed

lemma ready_result:
  obtains v where "validate_blueprint_contract plan_env (Parsed ready_plan) = Some (Inr v)" "vd_valid v" "vd_subtask_count v = 2"
proof -
  have "map_option (map_sum id (\<lambda>v. (vd_valid v, vd_subtask_count v))) (validate_blueprint_contract plan_env (Parsed ready_plan))
      = Some (Inr (True, 2))"
    by code_simp
  then show ?thesis using that
    by (cases "validate_blueprint_contract plan_env (Parsed ready_plan)"; cases "the (validate_blueprint_contract plan_env (Parsed ready_plan))") auto
qed

definition is_forward :: "blueprint_error \<Rightarrow> bool" where
  "is_forward e = (case e of ForwardDependency _ _ _ _ \<Rightarrow> True | _ \<Rightarrow> False)"

section \<open>The order\<close>

text \<open>
  Claim C37. Two implementations agree: whenever the entries of a blueprint are objects with
  distinct non-empty identifiers, the order the normaliser of the step runner computes is the
  order the orchestrator computes from the dependencies it loads from the same subtasks, and the
  normaliser refuses exactly the plans in which the orchestrator reports a cycle.
\<close>

theorem normaliser_sorts_as_orchestrator:
  assumes "scan_ids [] sts = Inr ids"
  shows "topo_sort_subtasks sts =
    (case topological_sort_subtasks ids (collect_deps [] sts) of
       Sorted out \<Rightarrow> Inr (map (subtask_of ids sts) out)
     | CycleAmong _ \<Rightarrow> Inl DependencyCycle | OutOfFuel \<Rightarrow> Inl DependencyCycle)"
  by (rule topo_sort_is_orchestrator_sort [OF assms])

theorem normaliser_sorts_as_orchestrator_witness:
  "topo_sort_subtasks [plan_subtask ''ST-001'' [''ST-002''] [], plan_subtask ''ST-002'' [] []]
    = Inr [plan_subtask ''ST-002'' [] [], plan_subtask ''ST-001'' [''ST-002''] []]"
proof -
  have s: "scan_ids [] [plan_subtask ''ST-001'' [''ST-002''] [], plan_subtask ''ST-002'' [] []] = Inr [''ST-001'', ''ST-002'']"
    by code_simp
  have "topological_sort_subtasks [''ST-001'', ''ST-002'']
      (collect_deps [] [plan_subtask ''ST-001'' [''ST-002''] [], plan_subtask ''ST-002'' [] []]) = Sorted [''ST-002'', ''ST-001'']"
    by code_simp
  moreover have "map (subtask_of [''ST-001'', ''ST-002''] [plan_subtask ''ST-001'' [''ST-002''] [], plan_subtask ''ST-002'' [] []])
      [''ST-002'', ''ST-001''] = [plan_subtask ''ST-002'' [] [], plan_subtask ''ST-001'' [''ST-002''] []]"
    by code_simp
  ultimately show ?thesis using normaliser_sorts_as_orchestrator [OF s] by (simp only: topo.case)
qed

section \<open>Normalising\<close>

text \<open>
  Claim C39. Normalising is idempotent: whatever a first normalisation left, changed or not, a
  second one finds nothing to change, leaves the payload as it is and writes nothing.
\<close>

theorem normalize_is_idempotent:
  assumes "normalize_blueprint wr f = Inr r"
  shows "\<exists>r'. normalize_blueprint wr' (Parsed (nz_payload r)) = Inr r' \<and> \<not> nz_changed r' \<and> \<not> nz_written r'
    \<and> nz_payload r' = nz_payload r"
proof -
  from assms obtain ms sts where p: "nz_payload r = JObj ms" "jget ''subtasks'' (blueprint_body (JObj ms)) = Some (JList sts)"
      "sts \<noteq> []" "settled (coverage_of (JObj ms) (blueprint_body (JObj ms))) sts"
    by (rule normalize_result)
  let ?r = "normalize_payload wr' (JObj ms) sts"
  have "\<not> nz_changed ?r" by (rule settled_unchanged [OF p(4)])
  then show ?thesis
    using normalize_start [OF p(2,3), of wr'] normalize_payload_eqs(1,2) [of wr' "JObj ms" sts] p(1) by auto
qed

theorem normalize_is_idempotent_witness:
  "\<exists>r. normalize_blueprint True (Parsed draft_plan) = Inr r \<and> nz_changed r
    \<and> (\<exists>r'. normalize_blueprint True (Parsed (nz_payload r)) = Inr r' \<and> \<not> nz_changed r')"
proof -
  obtain r where r: "normalize_blueprint True (Parsed draft_plan) = Inr r" "nz_changed r"
    by (rule draft_result)
  from normalize_is_idempotent [OF r(1), of True] r show ?thesis by blast
qed

text \<open>
  Claim C38. After a normalisation the validator reports none of the three violations the
  normaliser is documented to repair, in any environment: no missing traceability tag, no
  created file outside the affected files, and a forward dependency only when the result says
  why the subtasks could not be ordered.
\<close>

theorem normalize_repairs_mechanical_errors:
  assumes "normalize_blueprint wr f = Inr r"
    and "validate_blueprint_contract env (Parsed (nz_payload r)) = Some (Inr v)"
  shows "filter mechanical (vd_errors v) = (if nz_notes r = [] then [] else filter is_forward (vd_errors v))"
proof -
  from assms(1) obtain ms0 sts0 ms sts where p: "nz_payload r = JObj ms"
      "jget ''subtasks'' (blueprint_body (JObj ms)) = Some (JList sts)"
      "settled (coverage_of (JObj ms) (blueprint_body (JObj ms))) sts" "same_plans (order_after sts0) sts"
      "nz_notes r = (case topo_sort_subtasks sts0 of Inl n \<Rightarrow> [n] | Inr _ \<Rightarrow> [])"
    by (rule normalize_result)
  from assms(2) have pe: "payload_errors env (JObj ms) sts = Some (vd_errors v)"
    by (rule validate_cases) (use p(1,2) in auto)
  have "is_forward e \<and> nz_notes r \<noteq> []" if "e \<in> set (vd_errors v)" "mechanical e" for e
  proof -
    from pe p(3) that obtain n where n: "n < length sts"
        "e \<in> set (dependency_errors (map st_id sts) n (subtask_label n (sts ! n)) (sts ! n))"
      by (rule settled_mechanical)
    have "topo_sort_subtasks sts \<noteq> Inr sts" using sorted_no_forward [OF _ n] that(2) by blast
    then have "nz_notes r \<noteq> []"
      using p(4,5) topo_sort_again [of sts0] by (auto simp: order_after_def split: sum.splits)
    with mechanical_dependency [OF n(2) that(2)] show ?thesis by (auto simp: is_forward_def)
  qed
  moreover have "is_forward e \<Longrightarrow> mechanical e" for e by (simp add: is_forward_def split: blueprint_error.splits)
  ultimately show ?thesis by (auto simp: filter_empty_conv intro: filter_cong)
qed

theorem normalize_repairs_mechanical_errors_witness:
  "\<exists>r v. normalize_blueprint True (Parsed draft_plan) = Inr r
    \<and> validate_blueprint_contract plan_env (Parsed (nz_payload r)) = Some (Inr v) \<and> filter mechanical (vd_errors v) = []"
proof -
  obtain r where r: "normalize_blueprint True (Parsed draft_plan) = Inr r" "nz_notes r = []" "nz_payload r = ready_plan"
    by (rule draft_result)
  obtain v where v: "validate_blueprint_contract plan_env (Parsed ready_plan) = Some (Inr v)" by (rule ready_result)
  from normalize_repairs_mechanical_errors [OF r(1), of plan_env v] r(2,3) v
  have "filter mechanical (vd_errors v) = []" by simp
  with r v show ?thesis by auto
qed

section \<open>Valid blueprints\<close>



text \<open>
  Claim C40. A valid blueprint is in normal form: when the validator accepts a blueprint, the
  normaliser orders it without a note, changes nothing and writes nothing.
\<close>

theorem valid_blueprint_is_normal:
  assumes "validate_blueprint_contract env f = Some (Inr v)" "vd_valid v"
  shows "\<exists>r. normalize_blueprint wr f = Inr r \<and> \<not> nz_changed r \<and> \<not> nz_written r \<and> nz_notes r = [] \<and> Parsed (nz_payload r) = f"
proof -
  from assms(1) obtain ms sts where f: "f = Parsed (JObj ms)" "jget ''subtasks'' (blueprint_body (JObj ms)) = Some (JList sts)"
      "sts \<noteq> []" and p: "payload_errors env (JObj ms) sts = Some []"
    by (rule validate_cases) (use assms(2) in simp)
  have "\<not> nz_changed (normalize_payload wr (JObj ms) sts)" by (rule settled_unchanged [OF valid_settled(1) [OF p]])
  then show ?thesis
    using normalize_start [OF f(2,3), of wr] normalize_payload_eqs(1-3) [of wr "JObj ms" sts] valid_settled(2) [OF p] f(1) by simp
qed

theorem valid_blueprint_is_normal_witness:
  "\<exists>r. normalize_blueprint True (Parsed ready_plan) = Inr r \<and> \<not> nz_changed r \<and> \<not> nz_written r
    \<and> nz_notes r = [] \<and> Parsed (nz_payload r) = Parsed ready_plan"
proof -
  obtain v where v: "validate_blueprint_contract plan_env (Parsed ready_plan) = Some (Inr v)" "vd_valid v" by (rule ready_result)
  show ?thesis by (rule valid_blueprint_is_normal [OF v])
qed



text \<open>
  A blueprint nested under \<^verbatim>\<open>blueprint\<close> is valid and its dependencies are loaded, but the
  orchestrator lists none of its subtasks.
\<close>

definition nested_plan :: json where
  "nested_plan = JObj [(''blueprint'', ready_plan)]"

lemma nested_plan_lists_nothing:
  "map_option (map_sum id vd_valid) (validate_blueprint_contract plan_env (Parsed nested_plan)) = Some (Inr True)"
  "extract_subtask_ids_from_blueprint (Parsed nested_plan) = []"
  "load_blueprint_deps (Parsed nested_plan) = load_blueprint_deps (Parsed ready_plan)"
  by code_simp+

end
