(* ===== verification/Spec2Isabelle.thy ===== *)
theory Spec2Isabelle
  imports Wayfind_Props Orch_Gates Orch_Retry Orch_Lifecycle Orch_Serial
    Scope_Classify Spec_Citations Scrub_Run Runner_Holds_Props Runner_Converge_Props Runner_Gates Runner_Ledger_Props Runner_Route_Props
    Runner_Blueprint_Props
begin

text \<open>
  \<^bold>\<open>Verification of the workflow scripts under \<^verbatim>\<open>src/.map/scripts\<close>.\<close>

  \<^bold>\<open>The program.\<close> Python programs drive a development workflow through files under
  \<^verbatim>\<open>.map\<close>. \<^verbatim>\<open>wayfind_runner.py\<close> keeps decision maps: tickets with blocking edges, claims by
  sessions, resolutions with evidence, and a hand-off. \<^verbatim>\<open>map_orchestrator.py\<close> is the state machine
  of a plan: it hands out steps, validates them behind gates, and walks the subtasks in
  dependency order. \<^verbatim>\<open>map_step_runner.py\<close> is the library of checks and records the steps use; the
  orchestrator calls its validators. Around them stand smaller tools: \<^verbatim>\<open>map_utils.py\<close> names the directory of a branch,
  \<^verbatim>\<open>classify_scope.py\<close> sizes a change, \<^verbatim>\<open>validate_spec_citations.py\<close> checks the citations of a plan
  against the repository, and \<^verbatim>\<open>scrub_internal_ids.py\<close> strips planning identifiers from the code a
  run wrote. Each command loads a state file, changes it and writes it back; the theories
  model a command as a function from the files (and the environment) to its answer and the files
  it leaves behind, and runs as sequences of such steps in any order.

  \<^bold>\<open>Shared theories.\<close> \<open>Prelude\<close>: dictionaries as insertion-ordered association lists behind the
  locale \<open>dictionary\<close>, Python's string and integer operations, and the locales
  \<open>invariant_machine\<close> and \<open>monotone_machine\<close> for reachable states. \<open>Json\<close>: \<^verbatim>\<open>json.loads\<close> and the
  truth value of JSON. \<open>Json_Number\<close>: comparisons of the floats in a JSON text. \<open>Cycle\<close>: the depth-first cycle search of \<^verbatim>\<open>_detect_cycle\<close>, proved to decide
  acyclicity.

  \<^bold>\<open>Decision maps\<close> (\<^verbatim>\<open>wayfind_runner.py\<close>). \<open>Wayfind\<close>: state records and guards. \<open>Wayfind_Views\<close>: the
  rendered Markdown. \<open>Wayfind_Ops\<close>: the commands and their dispatch. \<open>Wayfind_Inv\<close>: the invariant of
  a map, with the locale \<open>map_operation\<close> interpreted on each edit. \<open>Wayfind_Store\<close>: the directory of
  maps as an interpreted machine. \<open>Wayfind_Cap\<close>: the session limit, as a bound on the
  successful resolutions of a session in a map. \<open>Wayfind_Props\<close>: the properties:
  every reachable directory is well formed, commands are transactions, no update is lost,
  decisions are permanent and a handed-off map is frozen.

  \<^bold>\<open>Orchestrator\<close> (\<^verbatim>\<open>map_orchestrator.py\<close>). \<open>Orch_Plan\<close>: subtask identifiers in blueprint and plan,
  dependencies, topological sort. \<open>Orch_State\<close>: class \<^verbatim>\<open>StepState\<close>, the files of a branch, the search
  for the next ready subtask. \<open>Orch_Serial\<close>: \<^verbatim>\<open>to_dict\<close> and \<^verbatim>\<open>from_dict\<close> with their round trip, by
  interpretations of the locale \<open>codec\<close>. \<open>Orch_Text\<close>: step instructions, feedback ranking, configuration
  scalars. \<open>Orch_Monitor\<close>: the Monitor's verdict. \<open>Orch_Steps\<close>, \<open>Orch_Validate\<close>: the step cycle with
  the gates of \<^verbatim>\<open>validate_step\<close>. \<open>Orch_Commands\<close>, \<open>Orch_Waves\<close>, \<open>Orch_Restore\<close>: the other commands.
  \<open>Orch_Topo\<close>: the sort is correct and stable, for dependencies between different subtasks. \<open>Orch_Deps\<close>: the advance is exact and acyclic plans
  never block. \<open>Orch_Inv\<close>: the invariant of the workflow, with the locale \<open>branch_operation\<close>
  interpreted on each command; the change of wave keeps it exactly when the wave it enters begins with a
  subtask of the sequence. \<open>Orch_Gates\<close>: what a positive answer guarantees. \<open>Orch_Retry\<close>: retries
  are bounded, isolated and carry the feedback. \<open>Orch_Lifecycle\<close>: set-up, modes, waves, archives
  and restored items.

  \<^bold>\<open>Step runner\<close> (\<^verbatim>\<open>map_step_runner.py\<close>). \<open>Runner_Manifest\<close>: the artifact manifest. \<open>Runner_Common\<close>: what
  the parts share. \<open>Runner_Holds\<close>, \<open>Runner_Holds_Props\<close>: approval holds, their store, reports and manifest
  stage; a typed specification that the commands refine (locale \<open>run_refinement\<close>), decisions are final,
  and the resume check agrees with the store. \<open>Runner_Converge\<close>, \<open>Runner_Converge_Props\<close>: the log of
  review passes; whatever is recorded validates, and convergence means a clean tail.
  \<open>Runner_Research\<close>, \<open>Runner_Research_Props\<close>: the contract of research artefacts and that the checks decide
  it. \<open>Runner_Scope\<close>, \<open>Runner_Scope_Props\<close>: baselines, the mutation boundary and the detectors built on the
  change set of a subtask, each exact. \<open>Runner_Flaky\<close>, \<open>Runner_Flaky_Props\<close>: triage of flaky checks; recorded
  triages validate and say what the runs show. \<open>Runner_Verdict\<close>, \<open>Runner_Verdict_Props\<close>: the review verdict
  computed from the reviewers' outputs and the operator's objections; nothing above minor leaves the
  decision table, and what is critical blocks or escalates. \<open>Runner_Ledger\<close>, \<open>Runner_Ledger_Props\<close>: the
  ledger on disk, objections and stage gates; a review gate is the computed verdict, and an objection
  lands on its finding only. \<open>Runner_Resume\<close>: whether a plan has the goal of a request. \<open>Runner_Route\<close>,
  \<open>Runner_Route_Props\<close>: which workflow a task enters, and the ledger of its phases; the route follows its
  signals, a chain starts only when no hold stands against it, and phases are bounded.
  \<open>Runner_Blueprint\<close>: the repair of a blueprint and the errors of its contract. \<open>Runner_Blueprint_Order\<close>: its
  sort is that of the orchestrator. \<open>Runner_Blueprint_Norm\<close>, \<open>Runner_Blueprint_Valid\<close>,
  \<open>Runner_Blueprint_Mech\<close>, \<open>Runner_Blueprint_Props\<close>: normal forms; normalising is idempotent, repairs what the
  validator then no longer reports, and leaves a valid blueprint alone, which the orchestrator runs in
  the order of the file. \<open>Runner_Gates\<close>: the orchestrator with these checks in the
  place of its parameters: research is grounded, a strict Monitor step stays in scope, a deferral
  rests on runs that disagree.

  \<^bold>\<open>Smaller tools.\<close> \<open>Regex_Scan\<close>: \<^verbatim>\<open>re.finditer\<close>, \<^verbatim>\<open>re.search\<close> and \<^verbatim>\<open>re.sub\<close> over a pattern given as a
  matching function; the locale \<open>matcher\<close> shows that a scan is sound, ordered and complete, and is
  interpreted on the patterns of the scripts. \<open>Branch_Name\<close> (\<^verbatim>\<open>map_utils.py\<close>): a sanitised name is a safe
  path component. \<open>Scope_Classify\<close> (\<^verbatim>\<open>classify_scope.py\<close>): the brackets are monotone. \<open>Spec_Citations\<close>
  (\<^verbatim>\<open>validate_spec_citations.py\<close>): every citation is found and the gate is exact. \<open>Scrub_Line\<close> and
  \<open>Scrub_Run\<close> (\<^verbatim>\<open>scrub_internal_ids.py\<close>): the regions of a line, token accounting and
  the line without its tokens, lines out of scope and files out of scope.

  \<^bold>\<open>Parameters.\<close> The clock, environment variables, \<^verbatim>\<open>git\<close>, the dependency-graph package (which is not
  part of the repository) and the validators that \<^verbatim>\<open>map_orchestrator.py\<close> imports lazily from
  \<^verbatim>\<open>map_step_runner.py\<close> are fields of the records \<open>wf_env\<close> and \<open>orch_env\<close>; \<open>Runner_Gates\<close> puts the models of the
  validators in. The repository a citation is checked against is the record \<open>repository\<close>, git is an
  argument of the scrub and a field of \<open>scope_env\<close>, the project tree a field of \<open>research_env\<close>. Three
  operations on floats are parameters: truncation (\<open>h_trunc\<close>), comparison with an integer (\<open>q_feq\<close>) and
  rounding to three digits (\<open>y_round3\<close>). The theorems assume of the parameters only that the clock gives a time
  that is not blank, that the branch has a name, and that rounding does not make a duration
  negative. The texts of system and JSON errors are fields of \<open>verdict_env\<close>; what
  \<^verbatim>\<open>parse_requirements_index\<close> reads with a YAML library is a field of \<open>blueprint_env\<close>. A command reads the clock once.

  \<^bold>\<open>Bounds.\<close> Recursion follows the data except in three places, which run on fuel: the JSON
  parser (twice the length of the text and one), the cycle search (the number of nodes and one,
  proved enough by \<open>visit_enough\<close>) and Kahn's loop (twice the number of subtasks, proved enough
  for distinct subtasks by \<open>kahn_ok\<close>). The loop of the blueprint sort, \<open>emit_loop\<close>, needs none: each
  round emits one of the subtasks that remain. The recursion limit of Python is not modelled: a chain
  of about a thousand blocking tickets makes \<^verbatim>\<open>_detect_cycle\<close> raise, a deeply nested text \<^verbatim>\<open>json.loads\<close>.

  \<^bold>\<open>Text.\<close> A \<open>string\<close> is the UTF-8 bytes of a Python string; white space, case and digits are those of
  ASCII. Where the code cuts a text to a length, characters are counted (\<open>take_chars\<close>, \<open>last_chars\<close>). The
  claim on citations is for ASCII texts.

  \<^bold>\<open>Files.\<close> A decision map is found by the text of its slug. The commands that create a map check the slug;
  the others turn it into a path, so that \<^verbatim>\<open>./demo\<close> and \<^verbatim>\<open>demo\<close> are one map to them and two here. A
  command that writes succeeds in writing: a report out of scope is always logged, where the script
  ignores a failure of that append.

  \<^bold>\<open>Not modelled.\<close> Argument parsing and printing; the read-only reports of the orchestrator
  (resume briefing, plan progress, token budget); the advisory file warnings of
  \<^verbatim>\<open>record_subtask_result\<close>; the warnings of \<^verbatim>\<open>validate_blueprint_contract\<close>; the wording of the reasons a
  citation fails for and of the scope warning; the other functions of \<^verbatim>\<open>map_step_runner.py\<close> (reports,
  review bundles and prompts, token accounting, worktrees); the scripts \<^verbatim>\<open>sofa_client.py\<close> and
  \<^verbatim>\<open>diagnostics.py\<close>. The Go operator under \<^verbatim>\<open>src/cmd\<close> and \<^verbatim>\<open>src/internal\<close> is a separate program.
\<close>

end
